(* ===== verification/Prelude.thy ===== *)
theory Prelude
  imports Main "HOL-Library.Word" "HOL-Library.List_Lexorder" "HOL-Library.Char_ord"
    "HOL-Library.Product_Lexorder" "HOL-Library.Multiset" "HOL-Library.Code_Target_Nat"
begin

text \<open>Shared vocabulary of the development: the named theorem collections, the result type
  with its bind (the source's \<^verbatim>\<open>?\<close> operator), two's complement wrap-around of signed machine
  integers written over \<^typ>\<open>int\<close>, and the generic list and option lemmas that the component
  theories rely on.\<close>

named_theorems codec_simps \<open>round-trip equations of the binary codecs\<close>
named_theorems map_simps \<open>lookup and update equations of the ordered maps\<close>
named_theorems step_simps \<open>unfolding equations of state transformers\<close>

section \<open>Results\<close>

text \<open>A fallible Rust function returns \<^typ>\<open>'e + 'a\<close>: \<^const>\<open>Inl\<close> is \<^verbatim>\<open>Err\<close>,
  \<^const>\<open>Inr\<close> is \<^verbatim>\<open>Ok\<close>.\<close>

type_synonym ('e, 'a) result = "'e + 'a"

definition rbind :: "('e, 'a) result \<Rightarrow> ('a \<Rightarrow> ('e, 'b) result) \<Rightarrow> ('e, 'b) result" where
  "rbind r f = (case r of Inl e \<Rightarrow> Inl e | Inr a \<Rightarrow> f a)"

definition is_ok :: "('e, 'a) result \<Rightarrow> bool" where
  "is_ok r = (case r of Inl _ \<Rightarrow> False | Inr _ \<Rightarrow> True)"

definition ok_or :: "'e \<Rightarrow> 'a option \<Rightarrow> ('e, 'a) result" where
  "ok_or e x = (case x of None \<Rightarrow> Inl e | Some a \<Rightarrow> Inr a)"

fun try_fold :: "('a \<Rightarrow> 's \<Rightarrow> ('e, 's) result) \<Rightarrow> 'a list \<Rightarrow> 's \<Rightarrow> ('e, 's) result" where
  "try_fold f [] s = Inr s"
| "try_fold f (x # xs) s = rbind (f x s) (try_fold f xs)"

lemma rbind_simps [simp]:
  "rbind (Inl e) f = Inl e"
  "rbind (Inr a) f = f a"
  by (simp_all add: rbind_def)

lemma is_ok_simps [simp]:
  "is_ok (Inl e) = False"
  "is_ok (Inr a) = True"
  by (simp_all add: is_ok_def)

lemma ok_or_simps [simp]:
  "ok_or e None = Inl e"
  "ok_or e (Some a) = Inr a"
  by (simp_all add: ok_or_def)

lemma rbind_eq_Inr_iff [simp]:
  "rbind r f = Inr b \<longleftrightarrow> (\<exists>a. r = Inr a \<and> f a = Inr b)"
  by (cases r) simp_all

lemma rbind_eq_Inl_iff:
  "rbind r f = Inl e \<longleftrightarrow> r = Inl e \<or> (\<exists>a. r = Inr a \<and> f a = Inl e)"
  by (cases r) simp_all

lemma ok_or_eq_Inr_iff [simp]: "ok_or e x = Inr a \<longleftrightarrow> x = Some a"
  by (cases x) simp_all

lemma ok_or_eq_Inl_iff [simp]: "ok_or e x = Inl d \<longleftrightarrow> x = None \<and> d = e"
  by (cases x) auto

lemma rbind_assoc: "rbind (rbind r f) g = rbind r (\<lambda>a. rbind (f a) g)"
  by (cases r) simp_all

lemma try_fold_append:
  "try_fold f (xs @ ys) s = rbind (try_fold f xs s) (try_fold f ys)"
proof (induction xs arbitrary: s)
  case (Cons x xs)
  then show ?case by (cases "f x s") simp_all
qed simp

lemma try_fold_invariant:
  assumes "try_fold f xs s = Inr t" "P s"
    and "\<And>x a b. x \<in> set xs \<Longrightarrow> P a \<Longrightarrow> f x a = Inr b \<Longrightarrow> P b"
  shows "P t"
  using assms
proof (induction xs arbitrary: s)
  case (Cons x xs)
  then obtain b where "f x s = Inr b" "try_fold f xs b = Inr t" by auto
  with Cons show ?case by (metis list.set_intros(1,2))
qed simp

section \<open>Signed machine integers\<close>

text \<open>\<^verbatim>\<open>wrap_s w\<close> is the release-mode result of a \<^verbatim>\<open>w\<close>-bit two's complement operation whose exact
  result is its argument: the release profile of the crate leaves overflow checks off.\<close>

definition wrap_s :: "nat \<Rightarrow> int \<Rightarrow> int" where
  "wrap_s w x = (x + 2 ^ (w - 1)) mod 2 ^ w - 2 ^ (w - 1)"

definition in_s :: "nat \<Rightarrow> int \<Rightarrow> bool" where
  "in_s w x \<longleftrightarrow> - (2 ^ (w - 1)) \<le> x \<and> x < 2 ^ (w - 1)"

abbreviation i64 :: "int \<Rightarrow> int" where "i64 \<equiv> wrap_s 64"

lemma in_s_64 [simp]: "in_s 64 x \<longleftrightarrow> - 9223372036854775808 \<le> x \<and> x < 9223372036854775808"
  by (simp add: in_s_def)

lemma wrap_s_id: "0 < w \<Longrightarrow> in_s w x \<Longrightarrow> wrap_s w x = x"
proof -
  assume w: "0 < w" and i: "in_s w x"
  have p: "(2::int) ^ w = 2 * 2 ^ (w - 1)" using w by (cases w) simp_all
  have "(x + 2 ^ (w - 1)) mod 2 ^ w = x + 2 ^ (w - 1)"
    using i by (intro mod_pos_pos_trivial) (auto simp: in_s_def p)
  then show ?thesis by (simp add: wrap_s_def)
qed

lemma i64_id [simp]:
  "- 9223372036854775808 \<le> x \<Longrightarrow> x < 9223372036854775808 \<Longrightarrow> i64 x = x"
  by (simp add: wrap_s_id)

lemma in_s_wrap_s: "0 < w \<Longrightarrow> in_s w (wrap_s w x)"
proof -
  assume w: "0 < w"
  have p: "(2::int) ^ w = 2 * 2 ^ (w - 1)" using w by (cases w) simp_all
  have "0 \<le> (x + 2 ^ (w - 1)) mod 2 ^ w" "(x + 2 ^ (w - 1)) mod 2 ^ w < 2 ^ w"
    by simp_all
  then show ?thesis by (simp add: in_s_def wrap_s_def p)
qed

lemma wrap_s_cong: "wrap_s w x = wrap_s w y \<longleftrightarrow> x mod 2 ^ w = y mod 2 ^ w"
proof
  assume "wrap_s w x = wrap_s w y"
  then have "(x + 2 ^ (w - 1)) mod 2 ^ w = (y + 2 ^ (w - 1)) mod 2 ^ w"
    by (simp add: wrap_s_def)
  then have "(x + 2 ^ (w - 1) - 2 ^ (w - 1)) mod 2 ^ w = (y + 2 ^ (w - 1) - 2 ^ (w - 1)) mod 2 ^ w"
    by (rule mod_diff_cong) simp
  then show "x mod 2 ^ w = y mod 2 ^ w" by simp
next
  assume "x mod 2 ^ w = y mod 2 ^ w"
  then have "(x + 2 ^ (w - 1)) mod 2 ^ w = (y + 2 ^ (w - 1)) mod 2 ^ w"
    by (rule mod_add_cong) simp
  then show "wrap_s w x = wrap_s w y" by (simp add: wrap_s_def)
qed

section \<open>Lists\<close>

lemma take_append_exact [simp]: "length xs = n \<Longrightarrow> take n (xs @ ys) = xs"
  by simp

lemma drop_append_exact [simp]: "length xs = n \<Longrightarrow> drop n (xs @ ys) = ys"
  by simp

lemma sum_list_map_update:
  fixes f :: "'a \<Rightarrow> int"
  assumes "i < length xs"
  shows "sum_list (map f (xs[i := y])) = sum_list (map f xs) - f (xs ! i) + f y"
  using assms by (induction xs arbitrary: i) (auto split: nat.splits simp: nth_Cons')

lemma distinct_map_inj_on: "distinct (map f xs) \<Longrightarrow> inj_on f (set xs)"
  by (simp add: distinct_map)

lemma filter_sorted_map: "sorted (map f xs) \<Longrightarrow> sorted (map f (filter P xs))"
  by (simp add: sorted_filter)

end
