(* ===== verification/Bytes.thy ===== *)
theory Bytes
  imports Prelude
begin

text \<open>Bytes and the primitives every binary format of the program is built from: little- and
  big-endian images of machine words, the positional access to a fixed layout, UTF-8 validity with
  the lossy decoder of the Rust standard library (\<^verbatim>\<open>String::from_utf8_lossy\<close>), strings as their
  bytes, and the interface of a self-delimiting codec as a locale. A reader of the source that
  moves a \<^verbatim>\<open>cursor\<close> over a bslice is a function from the remaining bytes to the value and the
  bytes after it.\<close>

type_synonym byte = "8 word"
type_synonym bytes = "byte list"

section \<open>Machine words in memory order\<close>

fun le_bytes :: "nat \<Rightarrow> nat \<Rightarrow> bytes" where
  "le_bytes 0 x = []"
| "le_bytes (Suc n) x = of_nat (x mod 256) # le_bytes n (x div 256)"

fun le_nat :: "bytes \<Rightarrow> nat" where
  "le_nat [] = 0"
| "le_nat (b # bs) = unat b + 256 * le_nat bs"

definition be_bytes :: "nat \<Rightarrow> nat \<Rightarrow> bytes" where
  "be_bytes n x = rev (le_bytes n x)"

definition be_nat :: "bytes \<Rightarrow> nat" where
  "be_nat bs = le_nat (rev bs)"

definition le_word :: "'a::len word \<Rightarrow> bytes" where
  "le_word w = le_bytes (LENGTH('a) div 8) (unat w)"

definition of_le :: "bytes \<Rightarrow> 'a::len word" where
  "of_le bs = of_nat (le_nat bs)"

lemma length_le_bytes [simp]: "length (le_bytes n x) = n"
  by (induction n x rule: le_bytes.induct) simp_all

lemma length_be_bytes [simp]: "length (be_bytes n x) = n"
  by (simp add: be_bytes_def)

lemma length_le_word [simp]: "length (le_word (w :: 'a::len word)) = LENGTH('a) div 8"
  by (simp add: le_word_def)

lemma unat_byte_mod [simp]: "unat (of_nat (x mod 256) :: byte) = x mod 256"
  by (simp add: unat_of_nat)

lemma le_nat_le_bytes: "le_nat (le_bytes n x) = x mod 256 ^ n"
proof (induction n x rule: le_bytes.induct)
  case (2 n x)
  have "x mod (256 * 256 ^ n) = x mod 256 + 256 * (x div 256 mod 256 ^ n)"
    by (simp add: mod_mult2_eq)
  with 2 show ?case by simp
qed simp

lemma le_nat_bound: "le_nat bs < 256 ^ length bs"
proof (induction bs)
  case (Cons b bs)
  have "unat b < 256" using unsigned_less [of b, where 'a = nat] by simp
  with Cons show ?case by simp
qed simp

lemma le_bytes_le_nat: "le_bytes (length bs) (le_nat bs) = bs"
proof (induction bs)
  case (Cons b bs)
  have "unat b < 256" using unsigned_less [of b, where 'a = nat] by simp
  with Cons show ?case by simp
qed simp

lemma le_bytes_inject:
  assumes "x < 256 ^ n" "y < 256 ^ n"
  shows "le_bytes n x = le_bytes n y \<longleftrightarrow> x = y"
  using assms by (metis le_nat_le_bytes mod_less)

lemma of_le_le_word [simp, codec_simps]:
  assumes "8 dvd LENGTH('a::len)"
  shows "of_le (le_word (w :: 'a word)) = w"
proof -
  have "(256::nat) ^ (LENGTH('a) div 8) = 2 ^ (8 * (LENGTH('a) div 8))"
    by (simp add: power_mult)
  also have "\<dots> = 2 ^ LENGTH('a)" using assms by simp
  finally have "le_nat (le_word w) = unat w"
    by (simp add: le_word_def le_nat_le_bytes)
  then show ?thesis by (simp add: of_le_def)
qed

lemma le_word_of_le:
  assumes "8 dvd LENGTH('a::len)" "length bs = LENGTH('a) div 8"
  shows "le_word (of_le bs :: 'a word) = bs"
proof -
  have "(256::nat) ^ length bs = 2 ^ (8 * (LENGTH('a) div 8))"
    by (simp add: power_mult assms(2))
  also have "\<dots> = 2 ^ LENGTH('a)" using assms(1) by simp
  finally have "le_nat bs < 2 ^ LENGTH('a)" using le_nat_bound [of bs] by simp
  then have "unat (of_le bs :: 'a word) = le_nat bs" by (simp add: of_le_def unat_of_nat)
  then show ?thesis using assms(2) le_bytes_le_nat [of bs] by (simp add: le_word_def)
qed

lemma be_nat_be_bytes: "be_nat (be_bytes n x) = x mod 256 ^ n"
  by (simp add: be_nat_def be_bytes_def le_nat_le_bytes)

definition le_i64 :: "int \<Rightarrow> bytes" where
  "le_i64 x = le_bytes 8 (nat (x mod 2 ^ 64))"

definition of_le_i64 :: "bytes \<Rightarrow> int" where
  "of_le_i64 bs = i64 (int (le_nat bs))"

lemma length_le_i64 [simp]: "length (le_i64 x) = 8"
  by (simp add: le_i64_def)

lemma of_le_le_i64 [simp, codec_simps]: "of_le_i64 (le_i64 x) = i64 x"
proof -
  have "nat (x mod 2 ^ 64) < 256 ^ 8" by (simp add: nat_less_iff)
  then have "le_nat (le_i64 x) = nat (x mod 2 ^ 64)"
    by (simp add: le_i64_def le_nat_le_bytes)
  then have "int (le_nat (le_i64 x)) = x mod 2 ^ 64" by simp
  then show ?thesis unfolding of_le_i64_def by (simp only: wrap_s_cong mod_mod_trivial)
qed

section \<open>Big-endian images keep the order\<close>

lemma lex_append_same [simp]: "((p :: 'a::order list) @ x < p @ y) = (x < y)"
  by (induction p) simp_all

lemma lex_less_append:
  fixes x y :: "'a::linorder list"
  assumes "length x = length y" "x < y"
  shows "x @ u < y @ v"
  using assms by (induction x y rule: list_induct2) auto

lemma be_bytes_Suc: "be_bytes (Suc n) x = be_bytes n (x div 256) @ [of_nat (x mod 256)]"
  by (simp add: be_bytes_def)

lemma be_bytes_mono:
  assumes "x < y" "y < 256 ^ n"
  shows "be_bytes n x < be_bytes n y"
  using assms
proof (induction n arbitrary: x y)
  case (Suc n)
  have y: "y div 256 < 256 ^ n" using Suc.prems by (simp add: less_mult_imp_div_less)
  show ?case
  proof (cases "x div 256 < y div 256")
    case True
    then show ?thesis
      using Suc.IH [OF True y] by (simp add: be_bytes_Suc lex_less_append)
  next
    case False
    with Suc.prems have d: "x div 256 = y div 256"
      by (meson div_le_mono le_antisym less_imp_le not_le)
    with Suc.prems have "x mod 256 < y mod 256"
      by (metis add_less_cancel_left div_mult_mod_eq)
    then have "(of_nat (x mod 256) :: byte) < of_nat (y mod 256)"
      by (simp add: word_less_nat_alt)
    then show ?thesis by (simp add: be_bytes_Suc d)
  qed
qed simp

lemma be_bytes_less_iff:
  assumes "x < 256 ^ n" "y < 256 ^ n"
  shows "be_bytes n x < be_bytes n y \<longleftrightarrow> x < y"
  using assms be_bytes_mono [of x y n] be_bytes_mono [of y x n]
  by (metis less_asym nat_neq_iff order_less_irrefl)

section \<open>Fixed layouts\<close>

definition bslice :: "nat \<Rightarrow> nat \<Rightarrow> bytes \<Rightarrow> bytes" where
  "bslice i n bs = take n (drop i bs)"

lemma bslice_here [simp]: "length xs = n \<Longrightarrow> bslice 0 n (xs @ ys) = xs"
  by (simp add: bslice_def)

lemma bslice_all [simp]: "length xs = n \<Longrightarrow> bslice 0 n xs = xs"
  by (simp add: bslice_def)

lemma bslice_skip [simp]: "0 < i \<Longrightarrow> length xs \<le> i \<Longrightarrow> bslice i n (xs @ ys) = bslice (i - length xs) n ys"
  by (simp add: bslice_def)

lemma bslice_take [simp]: "i + n \<le> m \<Longrightarrow> bslice i n (take m bs) = bslice i n bs"
  by (simp add: bslice_def take_drop min_def)

lemma length_bslice [simp]: "length (bslice i n bs) = min n (length bs - i)"
  by (simp add: bslice_def)

lemma bslice_join: "j = i + n \<Longrightarrow> bslice i n bs @ bslice j m bs = bslice i (n + m) bs"
  by (simp add: bslice_def take_add add.commute [of n i])

lemma bslice_join_assoc: "j = i + n \<Longrightarrow> bslice i n bs @ bslice j m bs @ r = bslice i (n + m) bs @ r"
  using bslice_join [of j i n bs m] by simp

section \<open>UTF-8\<close>

definition in_rng :: "nat \<Rightarrow> nat \<Rightarrow> byte \<Rightarrow> bool" where
  "in_rng lo hi b \<longleftrightarrow> lo \<le> unat b \<and> unat b \<le> hi"

definition utf8_second :: "byte \<Rightarrow> byte \<Rightarrow> bool" where
  "utf8_second a = (let n = unat a in
     if n = 0xE0 then in_rng 0xA0 0xBF
     else if n = 0xED then in_rng 0x80 0x9F
     else if n = 0xF0 then in_rng 0x90 0xBF
     else if n = 0xF4 then in_rng 0x80 0x8F
     else in_rng 0x80 0xBF)"

text \<open>\<^verbatim>\<open>utf8_need\<close> is the length announced by a first byte (0 when no sequence starts with it);
  \<^verbatim>\<open>utf8_step\<close> the length of the first chunk and whether it is a whole scalar value.\<close>

definition utf8_need :: "byte \<Rightarrow> nat" where
  "utf8_need a = (let n = unat a in
     if n < 0x80 then 1 else if n < 0xC2 then 0 else if n < 0xE0 then 2
     else if n < 0xF0 then 3 else if n < 0xF5 then 4 else 0)"

fun utf8_step :: "bytes \<Rightarrow> nat \<times> bool" where
  "utf8_step [] = (0, True)"
| "utf8_step (a # bs) =
    (let need = utf8_need a in
     if need = 0 then (1, False)
     else if need = 1 then (1, True)
     else (case bs of
         [] \<Rightarrow> (1, False)
       | b # cs \<Rightarrow>
          if \<not> utf8_second a b then (1, False)
          else if need = 2 then (2, True)
          else (case cs of
              [] \<Rightarrow> (2, False)
            | c # ds \<Rightarrow>
               if \<not> in_rng 0x80 0xBF c then (2, False)
               else if need = 3 then (3, True)
               else (case ds of
                   [] \<Rightarrow> (3, False)
                 | d # _ \<Rightarrow> if in_rng 0x80 0xBF d then (4, True) else (3, False)))))"

lemma utf8_step_pos: "bs \<noteq> [] \<Longrightarrow> 0 < fst (utf8_step bs)"
  by (cases bs) (auto simp: Let_def split: list.splits)

function utf8_valid :: "bytes \<Rightarrow> bool" where
  "utf8_valid bs = (if bs = [] then True
     else snd (utf8_step bs) \<and> utf8_valid (drop (fst (utf8_step bs)) bs))"
  by auto
termination
  by (relation "measure length") (auto simp: utf8_step_pos)

function utf8_lossy :: "bytes \<Rightarrow> bytes" where
  "utf8_lossy bs = (if bs = [] then []
     else (if snd (utf8_step bs) then take (fst (utf8_step bs)) bs else [0xEF, 0xBF, 0xBD])
          @ utf8_lossy (drop (fst (utf8_step bs)) bs))"
  by auto
termination
  by (relation "measure length") (auto simp: utf8_step_pos)

declare utf8_valid.simps [simp del] utf8_lossy.simps [simp del]

lemma utf8_lossy_valid: "utf8_valid bs \<Longrightarrow> utf8_lossy bs = bs"
proof (induction bs rule: utf8_lossy.induct)
  case (1 bs)
  show ?case
  proof (cases "bs = []")
    case False
    with 1 have "utf8_lossy (drop (fst (utf8_step bs)) bs) = drop (fst (utf8_step bs)) bs"
      and "snd (utf8_step bs)" by (simp_all add: utf8_valid.simps [of bs])
    then show ?thesis using False by (simp add: utf8_lossy.simps [of bs])
  qed (simp add: utf8_lossy.simps)
qed

lemma utf8_step_before_ascii:
  assumes "unat c < 128" "snd (utf8_step (a # x @ c # y))"
  shows "fst (utf8_step (a # x @ c # y)) \<le> length (a # x)"
proof -
  have no: "\<not> in_rng lo hi c" if "128 \<le> lo" for lo hi using assms(1) that by (simp add: in_rng_def)
  have second: "\<not> utf8_second b c" for b
    using assms(1) by (simp add: utf8_second_def Let_def no)
  show ?thesis
    using assms second no
    by (cases x; cases "tl x"; cases "tl (tl x)") (auto simp: Let_def split: if_splits list.splits)
qed

lemma utf8_valid_after_ascii:
  assumes "unat c < 128" "utf8_valid (x @ c # y)"
  shows "utf8_valid y"
  using assms(2)
proof (induction "length x" arbitrary: x rule: less_induct)
  case less
  show ?case
  proof (cases x)
    case Nil
    have "utf8_step (c # y) = (1, True)" using assms(1) by (simp add: utf8_need_def Let_def)
    then show ?thesis using less.prems Nil by (simp add: utf8_valid.simps [of "c # y"])
  next
    case (Cons a z)
    let ?n = "fst (utf8_step (x @ c # y))"
    from less.prems have s: "snd (utf8_step (x @ c # y))" "utf8_valid (drop ?n (x @ c # y))"
      by (simp_all add: utf8_valid.simps [of "x @ c # y"])
    have n: "?n \<le> length x" "0 < ?n"
      using utf8_step_before_ascii [OF assms(1), of a z y] s(1) utf8_step_pos [of "x @ c # y"]
      by (simp_all add: Cons)
    then have "utf8_valid (drop ?n x @ c # y)" using s(2) by simp
    moreover have "length (drop ?n x) < length x" using n Cons by simp
    ultimately show ?thesis using less.hyps by blast
  qed
qed

section \<open>Strings\<close>

definition str_bytes :: "string \<Rightarrow> bytes" where
  "str_bytes s = map (\<lambda>c. of_nat (of_char c)) s"

definition bytes_str :: "bytes \<Rightarrow> string" where
  "bytes_str bs = map (\<lambda>b. char_of (unat b)) bs"

definition str_ok :: "string \<Rightarrow> bool" where
  "str_ok s = utf8_valid (str_bytes s)"

definition lossy_str :: "bytes \<Rightarrow> string" where
  "lossy_str bs = bytes_str (utf8_lossy bs)"

lemma of_char_less_256: "(of_char c :: nat) < 256"
  by (metis mod_less_divisor of_char_mod_256 zero_less_numeral)

lemma bytes_str_str_bytes [simp]: "bytes_str (str_bytes s) = s"
proof -
  have "char_of (unat (of_nat (of_char c) :: byte)) = c" for c
    using of_char_less_256 [of c] by (simp add: unat_of_nat)
  then show ?thesis by (simp add: bytes_str_def str_bytes_def comp_def)
qed

lemma str_bytes_bytes_str [simp]: "str_bytes (bytes_str bs) = bs"
proof -
  have "of_nat (of_char (char_of (unat b))) = b" for b :: byte
    using unsigned_less [of b, where 'a = nat] by simp
  then show ?thesis by (simp add: bytes_str_def str_bytes_def comp_def)
qed

lemma length_str_bytes [simp]: "length (str_bytes s) = length s"
  by (simp add: str_bytes_def)

lemma length_bytes_str [simp]: "length (bytes_str bs) = length bs"
  by (simp add: bytes_str_def)

lemma lossy_str_bytes [simp]: "str_ok s \<Longrightarrow> lossy_str (str_bytes s) = s"
  by (simp add: lossy_str_def str_ok_def utf8_lossy_valid)

lemma str_bytes_append [simp]: "str_bytes (s @ t) = str_bytes s @ str_bytes t"
  by (simp add: str_bytes_def)

lemma str_bytes_inject [simp]: "str_bytes s = str_bytes t \<longleftrightarrow> s = t"
  by (metis bytes_str_str_bytes)

definition strip_prefix :: "string \<Rightarrow> string \<Rightarrow> string option" where
  "strip_prefix p s = (if take (length p) s = p then Some (drop (length p) s) else None)"

definition str_find :: "char \<Rightarrow> string \<Rightarrow> nat option" where
  "str_find c s = (if c \<in> set s then Some (length (takeWhile (\<lambda>d. d \<noteq> c) s)) else None)"

lemma strip_prefix_Some_iff [simp]: "strip_prefix p s = Some r \<longleftrightarrow> s = p @ r"
proof
  assume "strip_prefix p s = Some r"
  then have "take (length p) s = p" "drop (length p) s = r"
    by (auto simp: strip_prefix_def split: if_splits)
  then show "s = p @ r" by (metis append_take_drop_id)
qed (simp add: strip_prefix_def)

lemma str_ok_after_ascii:
  assumes "str_ok (x @ c # y)" "of_char c < (128 :: nat)"
  shows "str_ok y"
proof -
  have "unat (of_nat (of_char c) :: byte) < 128"
    using assms(2) by (simp add: unat_of_nat)
  then show ?thesis
    using utf8_valid_after_ascii assms(1) by (simp add: str_ok_def str_bytes_def)
qed

text \<open>\<^verbatim>\<open>str::trim\<close> strips the Unicode White_Space scalars, listed by their UTF-8 images.\<close>

definition white_space :: "nat list list" where
  "white_space = [[9], [10], [11], [12], [13], [32], [0xC2, 0x85], [0xC2, 0xA0], [0xE1, 0x9A, 0x80],
     [0xE2, 0x80, 0xA8], [0xE2, 0x80, 0xA9], [0xE2, 0x80, 0xAF], [0xE2, 0x81, 0x9F], [0xE3, 0x80, 0x80]]
     @ map (\<lambda>i. [0xE2, 0x80, 0x80 + i]) [0..<11]"

fun strip_one :: "nat list list \<Rightarrow> nat list \<Rightarrow> nat option" where
  "strip_one [] s = None"
| "strip_one (w # ws) s = (if take (length w) s = w then Some (length w) else strip_one ws s)"

fun strip_fuel :: "nat list list \<Rightarrow> nat \<Rightarrow> nat list \<Rightarrow> nat list" where
  "strip_fuel ws 0 s = s"
| "strip_fuel ws (Suc n) s = (if s = [] then [] else
     case strip_one ws s of None \<Rightarrow> s | Some k \<Rightarrow> strip_fuel ws n (drop k s))"

definition trim_start :: "string \<Rightarrow> string" where
  "trim_start s = map char_of (strip_fuel white_space (length s) (map of_char s))"

definition trim_end :: "string \<Rightarrow> string" where
  "trim_end s = map char_of (rev (strip_fuel (map rev white_space) (length s) (rev (map of_char s))))"

definition str_trim :: "string \<Rightarrow> string" where
  "str_trim s = trim_end (trim_start s)"

section \<open>Self-delimiting codecs\<close>

definition rd_fixed :: "'e \<Rightarrow> nat \<Rightarrow> bytes \<Rightarrow> ('e, bytes \<times> bytes) result" where
  "rd_fixed e n bs = (if length bs < n then Inl e else Inr (take n bs, drop n bs))"

lemma rd_fixed_append [simp, codec_simps]:
  "length b = n \<Longrightarrow> rd_fixed e n (b @ rest) = Inr (b, rest)"
  by (simp add: rd_fixed_def)

fun rd_many :: "(bytes \<Rightarrow> ('e, 'a \<times> bytes) result) \<Rightarrow> nat \<Rightarrow> bytes \<Rightarrow> ('e, 'a list \<times> bytes) result" where
  "rd_many rd 0 bs = Inr ([], bs)"
| "rd_many rd (Suc n) bs =
     rbind (rd bs) (\<lambda>(x, r). rbind (rd_many rd n r) (\<lambda>(xs, t). Inr (x # xs, t)))"

locale byte_codec =
  fixes wr :: "'a \<Rightarrow> bytes"
    and rd :: "bytes \<Rightarrow> ('e, 'a \<times> bytes) result"
    and ok :: "'a \<Rightarrow> bool"
  assumes rd_wr: "ok x \<Longrightarrow> rd (wr x @ rest) = Inr (x, rest)"
begin

lemma rd_wr_nil: "ok x \<Longrightarrow> rd (wr x) = Inr (x, [])"
  using rd_wr [of x "[]"] by simp

lemma rd_many_wr:
  assumes "list_all ok xs"
  shows "rd_many rd (length xs) (concat (map wr xs) @ rest) = Inr (xs, rest)"
  using assms
proof (induction xs)
  case (Cons x xs)
  then have "rd (wr x @ concat (map wr xs) @ rest) = Inr (x, concat (map wr xs) @ rest)"
    by (intro rd_wr) simp
  with Cons show ?case by simp
qed simp

lemma wr_inj:
  assumes "ok x" "ok y" "wr x @ u = wr y @ v"
  shows "x = y \<and> u = v"
proof -
  have "Inr (x, u) = (Inr (y, v) :: ('e, 'a \<times> bytes) result)"
    by (simp only: rd_wr [OF assms(1), symmetric] rd_wr [OF assms(2), symmetric] assms(3))
  then show ?thesis by simp
qed

lemma wr_prefix_free:
  assumes "ok x" "ok y" "wr y = wr x @ u"
  shows "x = y"
  using wr_inj [of x y u "[]"] assms by simp

end

end
