(* ===== verification/DomainErrors.thy ===== *)
theory DomainErrors
  imports Prelude
begin

text \<open>The error catalogue of \<^verbatim>\<open>src/domain/errors.rs\<close>: the enumeration of error codes, the
  exhaustive table \<^verbatim>\<open>ErrorCode::ALL\<close>, the canonical catalogue code, the pipeline stage and the
  retry classification of every code, and the structured error with its constructors. The other
  components return \<^verbatim>\<open>error_code + 'a\<close>: the stage and the retry flag of the source's error
  are functions of its code, and its message text is not modelled.\<close>

datatype (plugins only: code) error_code =
    Janus400 | Janus401 | Janus403 | Janus404 | Janus422
  | Janus500 | JanusAstCompileError | JanusFilterCompileError | JanusSchemaNotFound | JanusTenantMismatch
  | JanusVal001 | Jns001 | JnsLock001 | JnsSeed001 | JnsTx001
  | Aeg001 | Aeg002 | Aeg003 | Aeg004 | Aeg005
  | Eav001 | Eav002 | Eav003 | Eav004 | Eav005
  | EavFts001 | Cod001 | Cod002 | Cod003 | CodScope001
  | CodMat001 | Iop001 | Iop002 | Iop003 | Iop004
  | Quota001 | Infra001 | Infra002 | Infra003 | Infra004
  | InfraCatalog001 | InfraConfig001 | InfraGlue001 | InfraFirehose001 | Auth401
  | Auth403 | AuthRevoked | Aud001 | Aud002 | JnsRef002
  | JnsConflict001 | EavTx001 | EavTx004 | GrpcTenant001 | InfraCedar002
  | Mcp503 | Fml001 | Fml002 | Fml003 | Fml004
  | Fml005 | Fml006 | Fml007 | Fml008 | Fml009
  | Fml010 | Fml011 | Fml012 | Fml013 | MbfCorrupt001
  | MbfCasConflict001 | MbfLedgerUnbalanced001 | MbfFiscalClosed001 | MbfTenantSeal001

type_synonym 'a res = "(error_code, 'a) result"

definition error_codes :: "error_code list" where
  "error_codes = [
    Janus400, Janus401, Janus403, Janus404, Janus422, Janus500,
    JanusAstCompileError, JanusFilterCompileError, JanusSchemaNotFound, JanusTenantMismatch, JanusVal001, Jns001,
    JnsLock001, JnsSeed001, JnsTx001, Aeg001, Aeg002, Aeg003,
    Aeg004, Aeg005, Eav001, Eav002, Eav003, Eav004,
    Eav005, EavFts001, Cod001, Cod002, Cod003, CodScope001,
    CodMat001, Iop001, Iop002, Iop003, Iop004, Quota001,
    Infra001, Infra002, Infra003, Infra004, InfraCatalog001, InfraConfig001,
    InfraGlue001, InfraFirehose001, Auth401, Auth403, AuthRevoked, Aud001,
    Aud002, JnsRef002, JnsConflict001, EavTx001, EavTx004, GrpcTenant001,
    InfraCedar002, Mcp503, Fml001, Fml002, Fml003, Fml004,
    Fml005, Fml006, Fml007, Fml008, Fml009, Fml010,
    Fml011, Fml012, Fml013, MbfCorrupt001, MbfCasConflict001, MbfLedgerUnbalanced001,
    MbfFiscalClosed001, MbfTenantSeal001]"

primrec canonical_code :: "error_code \<Rightarrow> string" where
  "canonical_code Janus400 = ''JANUS_400''"
| "canonical_code Janus401 = ''JANUS_401''"
| "canonical_code Janus403 = ''JANUS_403''"
| "canonical_code Janus404 = ''JANUS_404''"
| "canonical_code Janus422 = ''JANUS_422''"
| "canonical_code Janus500 = ''GRPC_500''"
| "canonical_code JanusAstCompileError = ''AEG_COMPILE_001''"
| "canonical_code JanusFilterCompileError = ''AEG_COMPILE_002''"
| "canonical_code JanusSchemaNotFound = ''CDX_003''"
| "canonical_code JanusTenantMismatch = ''AEG_TENANT_MISSING''"
| "canonical_code JanusVal001 = ''JANUS_VAL_001''"
| "canonical_code Jns001 = ''JNS_001''"
| "canonical_code JnsLock001 = ''JNS_LOCK_001''"
| "canonical_code JnsSeed001 = ''JNS_SEED_001''"
| "canonical_code JnsTx001 = ''JNS_TX_001''"
| "canonical_code Aeg001 = ''AEG_COMPILE_003''"
| "canonical_code Aeg002 = ''AEG_002''"
| "canonical_code Aeg003 = ''AEG_006''"
| "canonical_code Aeg004 = ''AEG_007''"
| "canonical_code Aeg005 = ''AEG_008''"
| "canonical_code Eav001 = ''EAV_001''"
| "canonical_code Eav002 = ''EAV_005''"
| "canonical_code Eav003 = ''EAV_TX_003''"
| "canonical_code Eav004 = ''EAV_004''"
| "canonical_code Eav005 = ''EAV_KEY_001''"
| "canonical_code EavFts001 = ''EAV_FTS_001''"
| "canonical_code Cod001 = ''CDX_001''"
| "canonical_code Cod002 = ''CDX_002''"
| "canonical_code Cod003 = ''CDX_004''"
| "canonical_code CodScope001 = ''JNS_SCOPE_001''"
| "canonical_code CodMat001 = ''COD_MAT_001''"
| "canonical_code Iop001 = ''IOP_001''"
| "canonical_code Iop002 = ''IOP_002''"
| "canonical_code Iop003 = ''IOP_003''"
| "canonical_code Iop004 = ''IOP_004''"
| "canonical_code Quota001 = ''QUOTA_001''"
| "canonical_code Infra001 = ''INFRA_DDB_001''"
| "canonical_code Infra002 = ''INFRA_S3_001''"
| "canonical_code Infra003 = ''INFRA_SQS_001''"
| "canonical_code Infra004 = ''INFRA_EB_001''"
| "canonical_code InfraCatalog001 = ''INFRA_CATALOG_001''"
| "canonical_code InfraConfig001 = ''INFRA_CONFIG_001''"
| "canonical_code InfraGlue001 = ''INFRA_GLUE_001''"
| "canonical_code InfraFirehose001 = ''INFRA_FIREHOSE_001''"
| "canonical_code Auth401 = ''GRPC_AUTH_001''"
| "canonical_code Auth403 = ''GRPC_AUTH_004''"
| "canonical_code AuthRevoked = ''GRPC_AUTH_003''"
| "canonical_code Aud001 = ''AUD_001''"
| "canonical_code Aud002 = ''AUD_002''"
| "canonical_code JnsRef002 = ''JNS_REF_002''"
| "canonical_code JnsConflict001 = ''JNS_CONFLICT_001''"
| "canonical_code EavTx001 = ''EAV_TX_001''"
| "canonical_code EavTx004 = ''EAV_TX_004''"
| "canonical_code GrpcTenant001 = ''GRPC_TENANT_001''"
| "canonical_code InfraCedar002 = ''INFRA_CEDAR_002''"
| "canonical_code Mcp503 = ''MCP_503''"
| "canonical_code Fml001 = ''FML_001''"
| "canonical_code Fml002 = ''FML_002''"
| "canonical_code Fml003 = ''FML_003''"
| "canonical_code Fml004 = ''FML_004''"
| "canonical_code Fml005 = ''FML_005''"
| "canonical_code Fml006 = ''FML_006''"
| "canonical_code Fml007 = ''FML_007''"
| "canonical_code Fml008 = ''FML_008''"
| "canonical_code Fml009 = ''FML_009''"
| "canonical_code Fml010 = ''FML_010''"
| "canonical_code Fml011 = ''FML_011''"
| "canonical_code Fml012 = ''FML_012''"
| "canonical_code Fml013 = ''FML_013''"
| "canonical_code MbfCorrupt001 = ''MBF_CORRUPT_001''"
| "canonical_code MbfCasConflict001 = ''MBF_CAS_CONFLICT_001''"
| "canonical_code MbfLedgerUnbalanced001 = ''MBF_LEDGER_UNBALANCED_001''"
| "canonical_code MbfFiscalClosed001 = ''MBF_FISCAL_CLOSED_001''"
| "canonical_code MbfTenantSeal001 = ''MBF_TENANT_SEAL_001''"

definition fallback_is_retryable :: "error_code \<Rightarrow> bool" where
  "fallback_is_retryable c = (c \<in> {JnsTx001, CodScope001, Eav003, EavTx001, EavTx004, Aeg002,
     Iop003, Quota001, Infra001, Infra002, Infra003, InfraGlue001,
     InfraFirehose001, Mcp503, MbfCasConflict001})"

primrec stage :: "error_code \<Rightarrow> string" where
  "stage Janus400 = ''janus''"
| "stage Janus401 = ''janus''"
| "stage Janus403 = ''janus''"
| "stage Janus404 = ''janus''"
| "stage Janus422 = ''janus''"
| "stage Janus500 = ''janus''"
| "stage JanusAstCompileError = ''janus''"
| "stage JanusFilterCompileError = ''janus''"
| "stage JanusSchemaNotFound = ''janus''"
| "stage JanusTenantMismatch = ''janus''"
| "stage JanusVal001 = ''janus''"
| "stage Jns001 = ''janus''"
| "stage JnsLock001 = ''janus''"
| "stage JnsSeed001 = ''janus''"
| "stage JnsTx001 = ''janus''"
| "stage JnsRef002 = ''janus''"
| "stage JnsConflict001 = ''janus''"
| "stage Aeg001 = ''aegis''"
| "stage Aeg002 = ''aegis''"
| "stage Aeg003 = ''aegis''"
| "stage Aeg004 = ''aegis''"
| "stage Aeg005 = ''aegis''"
| "stage Eav001 = ''eav''"
| "stage Eav002 = ''eav''"
| "stage Eav003 = ''eav''"
| "stage Eav004 = ''eav''"
| "stage Eav005 = ''eav''"
| "stage EavFts001 = ''eav''"
| "stage EavTx001 = ''eav''"
| "stage EavTx004 = ''eav''"
| "stage Cod001 = ''codice''"
| "stage Cod002 = ''codice''"
| "stage Cod003 = ''codice''"
| "stage CodScope001 = ''codice''"
| "stage CodMat001 = ''codice''"
| "stage Iop001 = ''iop''"
| "stage Iop002 = ''iop''"
| "stage Iop003 = ''iop''"
| "stage Iop004 = ''iop''"
| "stage Quota001 = ''quota''"
| "stage Infra001 = ''infrastructure''"
| "stage Infra002 = ''infrastructure''"
| "stage Infra003 = ''infrastructure''"
| "stage Infra004 = ''infrastructure''"
| "stage InfraCatalog001 = ''infrastructure''"
| "stage InfraConfig001 = ''infrastructure''"
| "stage InfraGlue001 = ''infrastructure''"
| "stage InfraFirehose001 = ''infrastructure''"
| "stage InfraCedar002 = ''infrastructure''"
| "stage Auth401 = ''auth''"
| "stage Auth403 = ''auth''"
| "stage AuthRevoked = ''auth''"
| "stage Aud001 = ''audit-interceptor''"
| "stage Aud002 = ''audit-interceptor''"
| "stage GrpcTenant001 = ''grpc-interceptor''"
| "stage Mcp503 = ''mcp''"
| "stage Fml001 = ''aegis::formula''"
| "stage Fml002 = ''aegis::formula''"
| "stage Fml003 = ''aegis::formula''"
| "stage Fml004 = ''aegis::formula''"
| "stage Fml005 = ''aegis::formula''"
| "stage Fml006 = ''aegis::formula''"
| "stage Fml007 = ''aegis::formula''"
| "stage Fml008 = ''aegis::formula''"
| "stage Fml009 = ''aegis::formula''"
| "stage Fml010 = ''aegis::formula''"
| "stage Fml011 = ''aegis::formula''"
| "stage Fml012 = ''aegis::formula''"
| "stage Fml013 = ''aegis::formula''"
| "stage MbfCorrupt001 = ''mbf::format''"
| "stage MbfCasConflict001 = ''mbf::tx''"
| "stage MbfLedgerUnbalanced001 = ''mbf::ledger''"
| "stage MbfFiscalClosed001 = ''mbf::ledger''"
| "stage MbfTenantSeal001 = ''mbf::crypto''"
text \<open>The catalogue loaded from TOML is a parameter: \<^const>\<open>None\<close> before it is installed,
  otherwise its \<^verbatim>\<open>is_retryable\<close> function on canonical codes.\<close>

definition is_retryable :: "(string \<Rightarrow> bool) option \<Rightarrow> error_code \<Rightarrow> bool" where
  "is_retryable catalog c = (case catalog of
      Some retryable_code \<Rightarrow> retryable_code (canonical_code c)
    | None \<Rightarrow> fallback_is_retryable c)"

record domain_error =
  de_code :: error_code
  de_stage :: string
  de_detail :: string
  de_retryable :: bool
  de_context :: "string option"

definition de_new :: "(string \<Rightarrow> bool) option \<Rightarrow> error_code \<Rightarrow> string \<Rightarrow> domain_error" where
  "de_new catalog c detail =
    \<lparr>de_code = c, de_stage = stage c, de_detail = detail,
     de_retryable = is_retryable catalog c, de_context = None\<rparr>"

definition with_stage :: "domain_error \<Rightarrow> string \<Rightarrow> domain_error" where
  "with_stage e s = e\<lparr>de_stage := s\<rparr>"

definition with_context :: "domain_error \<Rightarrow> string \<Rightarrow> domain_error" where
  "with_context e c = e\<lparr>de_context := Some c\<rparr>"

section \<open>The catalogue is exhaustive and its codes are unique\<close>

lemma in_error_codes: "c \<in> set error_codes"
  by (cases c) (simp_all add: error_codes_def)

lemma distinct_canonical: "distinct (map canonical_code error_codes)"
  by code_simp

lemma canonical_code_inject [simp]: "canonical_code a = canonical_code b \<longleftrightarrow> a = b"
  using distinct_map_inj_on [OF distinct_canonical] in_error_codes by (auto dest: inj_onD)

end
