(* ===== verification/EngineConfig.thy ===== *)
theory EngineConfig
  imports Bytes DomainErrors
begin

text \<open>The start-up configuration of the engine (\<^verbatim>\<open>src/domain/config.rs\<close>): the configuration record,
  the resolution of the environment, the active seal key and the fail-closed guards on secrets.
  The environment is a function from variable names to values; the HMAC behind the derived seal
  key is a parameter.\<close>

definition DEFAULT_MAX_LIST_LIMIT :: int where "DEFAULT_MAX_LIST_LIMIT = 5000"

definition LEGACY_MBF_SEAL_KEY :: bytes where
  "LEGACY_MBF_SEAL_KEY = str_bytes ''METRI_VORTEX_MBF_SEAL_KEY_2026''"

record engine_config =
  master_tenant_id :: string
  max_list_limit :: int
  environment :: "string option"
  hmac_secret :: "string option"
  mbf_seal_key :: "string option"
  origin_verify_token :: "string option"
  sequence_registry_table :: string

definition config_default :: engine_config where
  "config_default =
    \<lparr>master_tenant_id = ''system'', max_list_limit = DEFAULT_MAX_LIST_LIMIT, environment = None,
     hmac_secret = None, mbf_seal_key = None, origin_verify_token = None,
     sequence_registry_table = ''metri-sequence-registry''\<rparr>"

definition non_empty :: "string option \<Rightarrow> string option" where
  "non_empty x = (case x of Some s \<Rightarrow> if s = [] then None else Some s | None \<Rightarrow> None)"

definition or_else :: "'a option \<Rightarrow> 'a option \<Rightarrow> 'a option" where
  "or_else x y = (case x of Some a \<Rightarrow> Some a | None \<Rightarrow> y)"

definition unwrap_or :: "'a option \<Rightarrow> 'a \<Rightarrow> 'a" where
  "unwrap_or x d = (case x of Some a \<Rightarrow> a | None \<Rightarrow> d)"

definition config_from_env :: "(string \<Rightarrow> string) \<Rightarrow> (string \<Rightarrow> string option) \<Rightarrow> engine_config" where
  "config_from_env derive_key env =
    (let secret = env ''HMAC_SECRET'' in
     \<lparr>master_tenant_id = unwrap_or (or_else (env ''MASTER_TENANT_ID'') (env ''METRI_MASTER_TENANT_ID''))
                           ''system'',
      max_list_limit = DEFAULT_MAX_LIST_LIMIT,
      environment = env ''ENVIRONMENT'',
      hmac_secret = secret,
      mbf_seal_key = or_else (non_empty (env ''MBF_SEAL_KEY''))
                       (map_option derive_key (non_empty secret)),
      origin_verify_token = non_empty (env ''ORIGIN_VERIFY_TOKEN''),
      sequence_registry_table = unwrap_or (env ''SEQUENCE_REGISTRY_TABLE'') ''metri-sequence-registry''\<rparr>)"

definition config_from_parts :: "string \<Rightarrow> int \<Rightarrow> engine_config" where
  "config_from_parts tenant limit =
    \<lparr>master_tenant_id = tenant, max_list_limit = limit, environment = None,
     hmac_secret = None, mbf_seal_key = None, origin_verify_token = None,
     sequence_registry_table = ''metri-sequence-registry''\<rparr>"

definition active_mbf_seal_key :: "engine_config \<Rightarrow> bytes" where
  "active_mbf_seal_key cfg = (case non_empty (mbf_seal_key cfg) of
      Some k \<Rightarrow> str_bytes k
    | None \<Rightarrow> (case non_empty (hmac_secret cfg) of
        Some h \<Rightarrow> str_bytes h
      | None \<Rightarrow> LEGACY_MBF_SEAL_KEY))"

definition DEV_HMAC_SECRET :: string where
  "DEV_HMAC_SECRET = ''secret-key-development-metri-256-bits!!!''"

definition known_non_prod :: "string option \<Rightarrow> bool" where
  "known_non_prod env =
     (env \<in> {Some ''development'', Some ''dev'', Some ''local'', Some ''test''})"

definition resolve_hmac_secret :: "string option \<Rightarrow> string option \<Rightarrow> string res" where
  "resolve_hmac_secret env secret =
    (if \<not> known_non_prod env then
       rbind (ok_or InfraConfig001 secret) (\<lambda>s.
         if s = DEV_HMAC_SECRET \<or> s = ''local-dev-secret-do-not-use-in-prod'' \<or> length s < 32
         then Inl InfraConfig001
         else Inr s)
     else Inr (unwrap_or secret DEV_HMAC_SECRET))"

definition resolve_origin_verify_token :: "string option \<Rightarrow> string option \<Rightarrow> string option res" where
  "resolve_origin_verify_token env token =
    (let normalized = non_empty (map_option str_trim token) in
     if \<not> known_non_prod env then
       rbind (ok_or InfraConfig001 normalized) (\<lambda>t.
         if length t < 32 then Inl InfraConfig001 else Inr (Some t))
     else Inr normalized)"

definition resolve_dev_auth_bypass :: "string option \<Rightarrow> bool \<Rightarrow> bool res" where
  "resolve_dev_auth_bypass env requested =
    (if requested \<and> \<not> known_non_prod env then Inl InfraConfig001 else Inr requested)"

section \<open>The guards fail closed\<close>

lemma resolve_hmac_secret_prod:
  assumes "\<not> known_non_prod env"
  shows "resolve_hmac_secret env secret = Inr s \<longleftrightarrow>
    secret = Some s \<and> s \<noteq> DEV_HMAC_SECRET \<and> s \<noteq> ''local-dev-secret-do-not-use-in-prod''
    \<and> 32 \<le> length s"
  using assms by (cases secret) (auto simp: resolve_hmac_secret_def)

lemma resolve_origin_verify_token_prod:
  assumes "\<not> known_non_prod env" "resolve_origin_verify_token env token = Inr r"
  shows "\<exists>t. r = Some t \<and> 32 \<le> length t"
  using assms by (force simp: resolve_origin_verify_token_def Let_def split: if_splits)

lemma active_mbf_seal_key_nonempty: "active_mbf_seal_key cfg \<noteq> []"
  by (auto simp: active_mbf_seal_key_def non_empty_def LEGACY_MBF_SEAL_KEY_def str_bytes_def
      split: option.splits if_splits)

end
