(* ===== verification/OrderedMap.thy ===== *)
theory OrderedMap
  imports Prelude
begin

text \<open>The ordered maps of the program (\<^verbatim>\<open>BTreeMap\<close>, and \<^verbatim>\<open>HashMap\<close> where only lookups or
  order-independent folds are used): a type of association lists sorted by key without
  duplicates, its operations, the interface they promise as a locale, and the lemmas a client of
  the interface may use.\<close>

typedef (overloaded) ('k::linorder, 'v) omap =
  "{xs :: ('k \<times> 'v) list. sorted_wrt (<) (map fst xs)}"
  by (rule exI [of _ "[]"]) simp

setup_lifting type_definition_omap

fun al_put :: "'k::linorder \<Rightarrow> 'v \<Rightarrow> ('k \<times> 'v) list \<Rightarrow> ('k \<times> 'v) list" where
  "al_put k v [] = [(k, v)]"
| "al_put k v ((a, b) # xs) =
    (if k < a then (k, v) # (a, b) # xs
     else if k = a then (k, v) # xs
     else (a, b) # al_put k v xs)"

fun al_del :: "'k::linorder \<Rightarrow> ('k \<times> 'v) list \<Rightarrow> ('k \<times> 'v) list" where
  "al_del k [] = []"
| "al_del k ((a, b) # xs) = (if k = a then xs else (a, b) # al_del k xs)"

lemma fst_set_al_put [simp]: "fst ` set (al_put k v xs) = insert k (fst ` set xs)"
  by (induction k v xs rule: al_put.induct) auto

lemma fst_set_al_del: "fst ` set (al_del k xs) \<subseteq> fst ` set xs"
  by (induction k xs rule: al_del.induct) auto

lemma al_put_strict:
  "sorted_wrt (<) (map fst xs) \<Longrightarrow> sorted_wrt (<) (map fst (al_put k v xs))"
proof (induction k v xs rule: al_put.induct)
  case (2 k v a b xs)
  show ?case
  proof (cases "k \<le> a")
    case True
    with 2 show ?thesis by (auto simp: le_less intro: less_trans)
  next
    case False
    then have "a < k" "k \<noteq> a" "\<not> k < a" by auto
    moreover have "sorted_wrt (<) (map fst (al_put k v xs))"
      using 2 \<open>k \<noteq> a\<close> \<open>\<not> k < a\<close> by simp
    moreover have "set (map fst (al_put k v xs)) = insert k (set (map fst xs))" by simp
    ultimately show ?thesis using 2 by (simp del: set_map)
  qed
qed simp

lemma al_del_strict:
  "sorted_wrt (<) (map fst xs) \<Longrightarrow> sorted_wrt (<) (map fst (al_del k xs))"
proof (induction k xs rule: al_del.induct)
  case (2 k a b xs)
  have "set (map fst (al_del k xs)) \<subseteq> set (map fst xs)" using fst_set_al_del by force
  with 2 show ?case by (simp del: set_map) blast
qed simp

lift_definition om_empty :: "('k::linorder, 'v) omap" is "[]" by simp

lift_definition om_get :: "('k::linorder, 'v) omap \<Rightarrow> 'k \<Rightarrow> 'v option" is map_of .

lift_definition om_put :: "'k::linorder \<Rightarrow> 'v \<Rightarrow> ('k, 'v) omap \<Rightarrow> ('k, 'v) omap" is al_put
  by (rule al_put_strict)

lift_definition om_del :: "'k::linorder \<Rightarrow> ('k, 'v) omap \<Rightarrow> ('k, 'v) omap" is al_del
  by (rule al_del_strict)

lift_definition om_entries :: "('k::linorder, 'v) omap \<Rightarrow> ('k \<times> 'v) list" is "\<lambda>xs. xs" .

lift_definition om_filter :: "('k::linorder \<Rightarrow> 'v \<Rightarrow> bool) \<Rightarrow> ('k, 'v) omap \<Rightarrow> ('k, 'v) omap"
  is "\<lambda>P xs. filter (\<lambda>(k, v). P k v) xs"
  by (simp add: sorted_wrt_map sorted_wrt_filter)

definition om_keys :: "('k::linorder, 'v) omap \<Rightarrow> 'k list" where
  "om_keys m = map fst (om_entries m)"

definition om_values :: "('k::linorder, 'v) omap \<Rightarrow> 'v list" where
  "om_values m = map snd (om_entries m)"

definition om_mem :: "'k::linorder \<Rightarrow> ('k, 'v) omap \<Rightarrow> bool" where
  "om_mem k m = (om_get m k \<noteq> None)"

definition om_size :: "('k::linorder, 'v) omap \<Rightarrow> nat" where
  "om_size m = length (om_entries m)"

definition om_of_list :: "('k::linorder \<times> 'v) list \<Rightarrow> ('k, 'v) omap" where
  "om_of_list xs = fold (\<lambda>(k, v). om_put k v) xs om_empty"

definition om_union :: "('k::linorder, 'v) omap \<Rightarrow> ('k, 'v) omap \<Rightarrow> ('k, 'v) omap" where
  "om_union a b = fold (\<lambda>(k, v). om_put k v) (om_entries b) a"

section \<open>The interface\<close>

locale ordered_map =
  fixes empty :: "'m"
    and get :: "'m \<Rightarrow> 'k::linorder \<Rightarrow> 'v option"
    and put :: "'k \<Rightarrow> 'v \<Rightarrow> 'm \<Rightarrow> 'm"
    and del :: "'k \<Rightarrow> 'm \<Rightarrow> 'm"
    and entries :: "'m \<Rightarrow> ('k \<times> 'v) list"
  assumes get_empty: "get empty k = None"
    and get_put: "get (put k v m) j = (if j = k then Some v else get m j)"
    and get_del: "get (del k m) j = (if j = k then None else get m j)"
    and entries_get: "map_of (entries m) = get m"
    and entries_sorted: "sorted_wrt (<) (map fst (entries m))"
begin

lemma entries_distinct: "distinct (map fst (entries m))"
  using entries_sorted strict_sorted_iff by blast

lemma in_entries_iff: "(k, v) \<in> set (entries m) \<longleftrightarrow> get m k = Some v"
  using entries_distinct [of m] entries_get [of m] by (metis map_of_eq_Some_iff)

lemma key_in_entries_iff: "k \<in> fst ` set (entries m) \<longleftrightarrow> get m k \<noteq> None"
  by (metis entries_get map_of_eq_None_iff)

lemma entries_determined:
  assumes "\<And>k. get m k = get n k"
  shows "entries m = entries n"
proof -
  have g: "map_of (entries m) = map_of (entries n)"
    using assms by (simp add: entries_get fun_eq_iff)
  have "set (entries m) = set (entries n)"
    using g entries_distinct [of m] entries_distinct [of n]
    by (metis map_of_inject_set)
  moreover have "sorted (map fst (entries m))" "sorted (map fst (entries n))"
    using entries_sorted strict_sorted_iff by blast+
  moreover have "distinct (map fst (entries m))" "distinct (map fst (entries n))"
    by (rule entries_distinct)+
  ultimately show ?thesis
    by (metis map_sorted_distinct_set_unique map_of_inject_set distinct_map inj_on_def sup.idem)
qed

lemma put_fold_get:
  "get (fold (\<lambda>(k, v). put k v) xs m) j =
    (case map_of (rev xs) j of None \<Rightarrow> get m j | Some v \<Rightarrow> Some v)"
proof (induction xs arbitrary: m)
  case (Cons x xs)
  obtain a b where x: "x = (a, b)" by (cases x)
  show ?case
    by (simp add: Cons.IH x get_put map_add_def split: option.split)
qed simp

end

lemma om_get_empty [simp, map_simps]: "om_get om_empty k = None"
  by transfer simp

lemma map_of_al_put: "map_of (al_put k v xs) j = (if j = k then Some v else map_of xs j)"
  by (induction k v xs rule: al_put.induct) auto

lemma map_of_al_del:
  "sorted_wrt (<) (map fst xs) \<Longrightarrow> map_of (al_del k xs) j = (if j = k then None else map_of xs j)"
proof (induction k xs rule: al_del.induct)
  case (2 k a b xs)
  have "map_of xs a = None" using 2 by (force simp: map_of_eq_None_iff)
  with 2 show ?case by auto
qed simp

lemma map_of_rev_distinct: "distinct (map fst xs) \<Longrightarrow> map_of (rev xs) = map_of xs"
  by (intro ext) (metis distinct_rev map_of_eq_Some_iff not_None_eq rev_map set_rev)

interpretation om: ordered_map om_empty om_get om_put om_del om_entries
proof
  fix k j :: "'a" and v :: "'b" and m :: "('a, 'b) omap"
  show "om_get om_empty k = None" by simp
  show "om_get (om_put k v m) j = (if j = k then Some v else om_get m j)"
    by transfer (rule map_of_al_put)
  show "om_get (om_del k m) j = (if j = k then None else om_get m j)"
    by transfer (rule map_of_al_del)
  show "map_of (om_entries m) = om_get m" by transfer simp
  show "sorted_wrt (<) (map fst (om_entries m))" by transfer simp
qed

lemmas om_laws [simp, map_simps] = om.get_put om.get_del

lemma om_eq_iff: "m = n \<longleftrightarrow> (\<forall>k. om_get m k = om_get n k)"
  by (metis om.entries_determined om_entries.rep_eq Rep_omap_inject)

lemma om_eqI: "(\<And>k. om_get m k = om_get n k) \<Longrightarrow> m = n"
  by (simp add: om_eq_iff)

lemma om_mem_put [simp]: "om_mem j (om_put k v m) \<longleftrightarrow> j = k \<or> om_mem j m"
  by (simp add: om_mem_def)

lemma om_get_filter [simp]:
  "om_get (om_filter P m) k = (case om_get m k of None \<Rightarrow> None
     | Some v \<Rightarrow> if P k v then Some v else None)"
proof -
  have e: "om_entries (om_filter P m) = filter (\<lambda>(k, v). P k v) (om_entries m)"
    by transfer simp
  have *: "om_get (om_filter P m) k = Some v \<longleftrightarrow> om_get m k = Some v \<and> P k v" for v
    unfolding om.in_entries_iff [symmetric] e by auto
  show ?thesis
  proof (cases "om_get (om_filter P m) k")
    case None
    then show ?thesis using * by (auto split: option.split)
  next
    case (Some v)
    then show ?thesis using * [of v] by simp
  qed
qed

lemma om_entries_filter: "om_entries (om_filter P m) = filter (\<lambda>(k, v). P k v) (om_entries m)"
  by transfer simp

lemma om_get_of_list: "om_get (om_of_list xs) k = map_of (rev xs) k"
  by (simp add: om_of_list_def om.put_fold_get split: option.split)

lemma om_of_list_entries [simp]: "om_of_list (om_entries m) = m"
proof (rule om_eqI)
  fix k
  have "map_of (rev (om_entries m)) = map_of (om_entries m)"
    by (rule map_of_rev_distinct [OF om.entries_distinct])
  then show "om_get (om_of_list (om_entries m)) k = om_get m k"
    by (simp add: om_get_of_list om.entries_get)
qed

lemma om_get_union:
  "om_get (om_union a b) k = (case om_get b k of None \<Rightarrow> om_get a k | Some v \<Rightarrow> Some v)"
proof -
  have "map_of (rev (om_entries b)) = om_get b"
    using map_of_rev_distinct [OF om.entries_distinct] om.entries_get by metis
  then show ?thesis by (simp add: om_union_def om.put_fold_get)
qed

lemma om_put_idem [simp]: "om_get m k = Some v \<Longrightarrow> om_put k v m = m"
  by (rule om_eqI) simp

lemma om_put_put [simp]: "om_put k v (om_put k w m) = om_put k v m"
  by (rule om_eqI) simp

lemma om_put_commute: "k \<noteq> j \<Longrightarrow> om_put k v (om_put j w m) = om_put j w (om_put k v m)"
  by (rule om_eqI) simp

lemma om_keys_iff: "k \<in> set (om_keys m) \<longleftrightarrow> om_get m k \<noteq> None"
  by (simp add: om_keys_def om.key_in_entries_iff)

lemma om_entries_empty [simp]: "om_entries om_empty = []"
  by transfer simp

instantiation omap :: (linorder, equal) equal
begin

definition equal_omap :: "('a, 'b) omap \<Rightarrow> ('a, 'b) omap \<Rightarrow> bool" where
  "equal_omap m n = (om_entries m = om_entries n)"

instance
  by standard (metis equal_omap_def om_entries.rep_eq Rep_omap_inject)

end

end
