(* ===== verification/MbfFormat.thy ===== *)
theory MbfFormat
  imports EngineConfig OrderedMap
begin

text \<open>The on-disk format of an \<^verbatim>\<open>.mbf\<close> file (\<^verbatim>\<open>src/mbf/format/mod.rs\<close>): the 64-byte header, the
  128-byte zone table, the column descriptors and the directory index, the 64-byte footer, the
  tenant seal, the binary cell values and the schema evolution directory. SHA-256 and HMAC are
  parameters of the definitions that use them. A \<^verbatim>\<open>bytemuck\<close> plain-old-data image is the
  concatenation of the little-endian images of its fields, on a little-endian target. An \<^verbatim>\<open>i64\<close>
  field is kept as its 64 bits.\<close>

unbundle bit_operations_syntax

section \<open>Constants and shared primitives\<close>

definition MBF_MAGIC :: bytes where "MBF_MAGIC = str_bytes ''METRIBIN''"
definition MBF_FOOTER_MAGIC :: bytes where "MBF_FOOTER_MAGIC = str_bytes ''MBFFOOTR''"
definition MBF_IDX_MAGIC :: bytes where "MBF_IDX_MAGIC = str_bytes ''MBFINDEX''"
definition MBF_FORMAT_VERSION :: "16 word" where "MBF_FORMAT_VERSION = 1"
definition FLAG_HOT_HEAD :: "16 word" where "FLAG_HOT_HEAD = push_bit 0 1"
definition FLAG_ENCRYPTED :: "16 word" where "FLAG_ENCRYPTED = push_bit 1 1"
definition FLAG_ZONE_ALL :: "16 word" where "FLAG_ZONE_ALL = push_bit 2 0x7F"

lemma length_magics [simp]:
  "length MBF_MAGIC = 8" "length MBF_IDX_MAGIC = 8" "length MBF_FOOTER_MAGIC = 8"
  by (simp_all add: MBF_MAGIC_def MBF_IDX_MAGIC_def MBF_FOOTER_MAGIC_def)

definition pad_to_64 :: "bytes \<Rightarrow> bytes" where
  "pad_to_64 buf = (let rem = length buf mod 64 in
     if rem \<noteq> 0 then buf @ replicate (64 - rem) 0 else buf)"

lemma pad_to_64_aligned: "length (pad_to_64 buf) mod 64 = 0"
proof (cases "length buf mod 64 = 0")
  case False
  have "length buf = 64 * (length buf div 64) + length buf mod 64" by simp
  moreover have "length buf mod 64 < 64" by simp
  ultimately have "length buf + (64 - length buf mod 64) = 64 * (length buf div 64 + 1)" by presburger
  then show ?thesis using False by (simp add: pad_to_64_def Let_def)
qed (simp add: pad_to_64_def)

lemma pad_to_64_prefix: "\<exists>z. pad_to_64 buf = buf @ z"
  by (simp add: pad_to_64_def Let_def)

definition write_len_prefixed_str :: "string \<Rightarrow> bytes" where
  "write_len_prefixed_str s = le_bytes 4 (length s) @ str_bytes s"

definition read_len_prefixed_str :: "bytes \<Rightarrow> (string \<times> bytes) res" where
  "read_len_prefixed_str bs =
    (if length bs < 4 then Inl MbfCorrupt001
     else let len = le_nat (take 4 bs); body = drop 4 bs in
       if length body < len then Inl MbfCorrupt001
       else Inr (lossy_str (take len body), drop len body))"

definition len_str_ok :: "string \<Rightarrow> bool" where
  "len_str_ok s \<longleftrightarrow> str_ok s \<and> length s < 2 ^ 32"

lemma read_write_len_prefixed_str [codec_simps]:
  "len_str_ok s \<Longrightarrow> read_len_prefixed_str (write_len_prefixed_str s @ rest) = Inr (s, rest)"
  by (simp add: read_len_prefixed_str_def write_len_prefixed_str_def len_str_ok_def
      le_nat_le_bytes Let_def)

interpretation len_str: byte_codec write_len_prefixed_str read_len_prefixed_str len_str_ok
  by unfold_locales (rule read_write_len_prefixed_str)

definition compute_tenant_hash :: "(bytes \<Rightarrow> bytes) \<Rightarrow> string \<Rightarrow> bytes" where
  "compute_tenant_hash sha tenant_id =
     take 16 (sha (str_bytes ''MBF_TENANT_ID_V1:'' @ str_bytes tenant_id))"

section \<open>Header\<close>

record mbf_header =
  magic :: bytes
  version :: "16 word"
  flags :: "16 word"
  row_count :: "32 word"
  tenant_hash :: bytes
  min_tx_id :: "64 word"
  max_tx_id :: "64 word"
  min_timestamp_ms :: "64 word"
  max_timestamp_ms :: "64 word"

definition header_shape :: "mbf_header \<Rightarrow> bool" where
  "header_shape h \<longleftrightarrow> length (magic h) = 8 \<and> length (tenant_hash h) = 16"

definition header_new ::
  "32 word \<Rightarrow> 64 word \<Rightarrow> 64 word \<Rightarrow> 64 word \<Rightarrow> 64 word \<Rightarrow> 64 word \<Rightarrow> mbf_header" where
  "header_new cell_id rows epoch_id schema_fingerprint fiscal_lock_epoch_ms created_at_ms =
    (let cell_bits = push_bit 10 (ucast (cell_id AND 0x3F) :: 16 word) in
     \<lparr>magic = MBF_MAGIC, version = MBF_FORMAT_VERSION,
      flags = FLAG_ZONE_ALL OR cell_bits,
      row_count = ucast (min rows 0xFFFFFFFF),
      tenant_hash = le_word schema_fingerprint @ le_word fiscal_lock_epoch_ms,
      min_tx_id = (if epoch_id > 0 then 1 else 0),
      max_tx_id = epoch_id,
      min_timestamp_ms = fiscal_lock_epoch_ms,
      max_timestamp_ms = created_at_ms\<rparr>)"

definition header_new_idx_mirror ::
  "32 word \<Rightarrow> 64 word \<Rightarrow> 64 word \<Rightarrow> 64 word \<Rightarrow> 64 word \<Rightarrow> 64 word \<Rightarrow> mbf_header" where
  "header_new_idx_mirror cell_id rows epoch_id fp fiscal created =
     (header_new cell_id rows epoch_id fp fiscal created)\<lparr>magic := MBF_IDX_MAGIC\<rparr>"

definition header_with_flags :: "mbf_header \<Rightarrow> 16 word \<Rightarrow> mbf_header" where
  "header_with_flags h extra =
     h\<lparr>flags := (flags h AND push_bit 10 0x3F) OR extra\<rparr>"

definition header_new_with_tenant ::
  "(bytes \<Rightarrow> bytes) \<Rightarrow> string \<Rightarrow> 8 word \<Rightarrow> bool \<Rightarrow> 8 word \<Rightarrow> 32 word \<Rightarrow> 64 word \<Rightarrow> 64 word
    \<Rightarrow> 64 word \<Rightarrow> 64 word \<Rightarrow> mbf_header" where
  "header_new_with_tenant sha tenant_id cell_id is_hot zone_mask rows min_tx max_tx min_ts max_ts =
    (let f0 = push_bit 2 (ucast (zone_mask AND 0x7F) :: 16 word);
         f1 = (if is_hot then f0 OR FLAG_HOT_HEAD else f0);
         f2 = f1 OR push_bit 10 (ucast (cell_id AND 0x3F)) in
     \<lparr>magic = MBF_MAGIC, version = MBF_FORMAT_VERSION, flags = f2, row_count = rows,
      tenant_hash = compute_tenant_hash sha tenant_id,
      min_tx_id = min_tx, max_tx_id = max_tx,
      min_timestamp_ms = min_ts, max_timestamp_ms = max_ts\<rparr>)"

definition header_cell_id :: "mbf_header \<Rightarrow> 32 word" where
  "header_cell_id h = ucast (drop_bit 10 (flags h) AND 0x3F)"

definition header_epoch_id :: "mbf_header \<Rightarrow> 64 word" where
  "header_epoch_id h = max_tx_id h"

definition header_is_hot_head :: "mbf_header \<Rightarrow> bool" where
  "header_is_hot_head h = ((flags h AND FLAG_HOT_HEAD) \<noteq> 0)"

definition header_validate :: "mbf_header \<Rightarrow> unit res" where
  "header_validate h =
    (if magic h \<noteq> MBF_MAGIC \<and> magic h \<noteq> MBF_IDX_MAGIC then Inl MbfCorrupt001
     else if version h \<noteq> MBF_FORMAT_VERSION then Inl MbfCorrupt001
     else Inr ())"

definition header_to_bytes :: "mbf_header \<Rightarrow> bytes" where
  "header_to_bytes h =
     magic h @ le_word (version h) @ le_word (flags h) @ le_word (row_count h) @ tenant_hash h
     @ le_word (min_tx_id h) @ le_word (max_tx_id h)
     @ le_word (min_timestamp_ms h) @ le_word (max_timestamp_ms h)"

definition header_read :: "bytes \<Rightarrow> mbf_header" where
  "header_read bs =
     \<lparr>magic = bslice 0 8 bs, version = of_le (bslice 8 2 bs), flags = of_le (bslice 10 2 bs),
      row_count = of_le (bslice 12 4 bs), tenant_hash = bslice 16 16 bs,
      min_tx_id = of_le (bslice 32 8 bs), max_tx_id = of_le (bslice 40 8 bs),
      min_timestamp_ms = of_le (bslice 48 8 bs), max_timestamp_ms = of_le (bslice 56 8 bs)\<rparr>"

definition header_from_bytes :: "bytes \<Rightarrow> mbf_header res" where
  "header_from_bytes bs =
    (if length bs < 64 then Inl MbfCorrupt001
     else let h = header_read (take 64 bs) in
       rbind (header_validate h) (\<lambda>_. Inr h))"

lemma length_header_to_bytes [simp]: "header_shape h \<Longrightarrow> length (header_to_bytes h) = 64"
  by (simp add: header_to_bytes_def header_shape_def)

lemma header_read_to_bytes [codec_simps]:
  "header_shape h \<Longrightarrow> header_read (header_to_bytes h @ rest) = h"
  by (simp add: header_read_def header_to_bytes_def header_shape_def)

lemma header_roundtrip:
  assumes "header_shape h" "header_validate h = Inr ()"
  shows "header_from_bytes (header_to_bytes h @ rest) = Inr h"
  using assms header_read_to_bytes [of h "[]"] by (simp add: header_from_bytes_def Let_def)

lemma header_to_bytes_read:
  assumes "64 \<le> length bs"
  shows "header_to_bytes (header_read bs) = take 64 bs"
proof -
  have "header_to_bytes (header_read bs) = bslice 0 64 bs"
    using assms
    by (simp add: header_to_bytes_def header_read_def le_word_of_le bslice_join_assoc bslice_join)
  then show ?thesis by (simp add: bslice_def)
qed

lemma header_shape_read: "64 \<le> length bs \<Longrightarrow> header_shape (header_read bs)"
  by (simp add: header_shape_def header_read_def)

section \<open>Zone table and directory index\<close>

record zone_offsets_table =
  zone1_pax_offset :: "64 word"
  zone1_pax_len :: "64 word"
  zone2_csr_offset :: "64 word"
  zone2_csr_len :: "64 word"
  zone3_iot_offset :: "64 word"
  zone3_iot_len :: "64 word"
  zone4_ledger_offset :: "64 word"
  zone4_ledger_len :: "64 word"
  zone5_synopsis_offset :: "64 word"
  zone5_synopsis_len :: "64 word"
  zone5b_search_offset :: "64 word"
  zone5b_search_len :: "64 word"
  zone6b_cov_offset :: "64 word"
  zone6b_cov_len :: "64 word"
  state_overlay_offset :: "64 word"
  state_overlay_len :: "64 word"

definition zones_to_bytes :: "zone_offsets_table \<Rightarrow> bytes" where
  "zones_to_bytes z =
     le_word (zone1_pax_offset z) @ le_word (zone1_pax_len z)
     @ le_word (zone2_csr_offset z) @ le_word (zone2_csr_len z)
     @ le_word (zone3_iot_offset z) @ le_word (zone3_iot_len z)
     @ le_word (zone4_ledger_offset z) @ le_word (zone4_ledger_len z)
     @ le_word (zone5_synopsis_offset z) @ le_word (zone5_synopsis_len z)
     @ le_word (zone5b_search_offset z) @ le_word (zone5b_search_len z)
     @ le_word (zone6b_cov_offset z) @ le_word (zone6b_cov_len z)
     @ le_word (state_overlay_offset z) @ le_word (state_overlay_len z)"

definition zones_read :: "bytes \<Rightarrow> zone_offsets_table" where
  "zones_read bs =
     \<lparr>zone1_pax_offset = of_le (bslice 0 8 bs), zone1_pax_len = of_le (bslice 8 8 bs),
      zone2_csr_offset = of_le (bslice 16 8 bs), zone2_csr_len = of_le (bslice 24 8 bs),
      zone3_iot_offset = of_le (bslice 32 8 bs), zone3_iot_len = of_le (bslice 40 8 bs),
      zone4_ledger_offset = of_le (bslice 48 8 bs), zone4_ledger_len = of_le (bslice 56 8 bs),
      zone5_synopsis_offset = of_le (bslice 64 8 bs), zone5_synopsis_len = of_le (bslice 72 8 bs),
      zone5b_search_offset = of_le (bslice 80 8 bs), zone5b_search_len = of_le (bslice 88 8 bs),
      zone6b_cov_offset = of_le (bslice 96 8 bs), zone6b_cov_len = of_le (bslice 104 8 bs),
      state_overlay_offset = of_le (bslice 112 8 bs), state_overlay_len = of_le (bslice 120 8 bs)\<rparr>"

definition zones_from_bytes :: "bytes \<Rightarrow> zone_offsets_table res" where
  "zones_from_bytes bs =
    (if length bs < 128 then Inl MbfCorrupt001 else Inr (zones_read (take 128 bs)))"

record column_chunk_descriptor =
  cc_attr_id :: "16 word"
  cc_zone_id :: "8 word"
  cc_value_tag :: "8 word"
  cc_row_count :: "32 word"
  cc_byte_offset :: "64 word"
  cc_byte_len :: "64 word"
  cc_synopsis_offset :: "64 word"

definition chunk_to_bytes :: "column_chunk_descriptor \<Rightarrow> bytes" where
  "chunk_to_bytes c =
     le_word (cc_attr_id c) @ le_word (cc_zone_id c) @ le_word (cc_value_tag c)
     @ le_word (cc_row_count c) @ le_word (cc_byte_offset c) @ le_word (cc_byte_len c)
     @ le_word (cc_synopsis_offset c)"

definition chunk_read :: "bytes \<Rightarrow> column_chunk_descriptor" where
  "chunk_read bs =
     \<lparr>cc_attr_id = of_le (bslice 0 2 bs), cc_zone_id = of_le (bslice 2 1 bs),
      cc_value_tag = of_le (bslice 3 1 bs), cc_row_count = of_le (bslice 4 4 bs),
      cc_byte_offset = of_le (bslice 8 8 bs), cc_byte_len = of_le (bslice 16 8 bs),
      cc_synopsis_offset = of_le (bslice 24 8 bs)\<rparr>"

lemma length_zones_to_bytes [simp]: "length (zones_to_bytes z) = 128"
  by (simp add: zones_to_bytes_def)

lemma length_chunk_to_bytes [simp]: "length (chunk_to_bytes c) = 32"
  by (simp add: chunk_to_bytes_def)

lemma zones_read_to_bytes [codec_simps]: "zones_read (zones_to_bytes z) = z"
  by (simp add: zones_read_def zones_to_bytes_def)

lemma zones_from_to_bytes [codec_simps]: "zones_from_bytes (zones_to_bytes z @ rest) = Inr z"
  by (simp add: zones_from_bytes_def zones_read_to_bytes)

lemma chunk_read_to_bytes [codec_simps]: "chunk_read (chunk_to_bytes c) = c"
  by (simp add: chunk_read_def chunk_to_bytes_def)

record mbf_directory_index =
  zones :: zone_offsets_table
  columns :: "column_chunk_descriptor list"

definition directory_to_bytes :: "mbf_directory_index \<Rightarrow> bytes" where
  "directory_to_bytes d = pad_to_64
     (zones_to_bytes (zones d) @ le_bytes 4 (length (columns d)) @ le_bytes 4 0
      @ concat (map chunk_to_bytes (columns d)))"

definition directory_from_bytes :: "bytes \<Rightarrow> mbf_directory_index res" where
  "directory_from_bytes bs =
    (if length bs < 136 then Inl MbfCorrupt001
     else rbind (zones_from_bytes (bslice 0 128 bs)) (\<lambda>z.
       let col_count = le_nat (bslice 128 4 bs);
           needed = 136 + col_count * 32 in
       if length bs < needed then Inl MbfCorrupt001
       else Inr \<lparr>zones = z,
         columns = map (\<lambda>i. chunk_read (bslice (136 + i * 32) 32 bs)) [0..<col_count]\<rparr>))"

lemma chunks_at:
  "map (\<lambda>i. chunk_read (bslice (i * 32) 32 (concat (map chunk_to_bytes cs) @ rest))) [0..<length cs] = cs"
proof (induction cs)
  case (Cons c cs)
  have "bslice (Suc i * 32) 32 (chunk_to_bytes c @ concat (map chunk_to_bytes cs) @ rest)
      = bslice (i * 32) 32 (concat (map chunk_to_bytes cs) @ rest)" for i
    by simp
  then show ?case
    using Cons by (simp add: upt_conv_Cons map_Suc_upt [symmetric] chunk_read_to_bytes comp_def
        del: upt_Suc bslice_skip)
qed simp

lemma directory_roundtrip:
  assumes "length (columns d) < 2 ^ 32"
  shows "directory_from_bytes (directory_to_bytes d) = Inr d"
proof -
  let ?cs = "concat (map chunk_to_bytes (columns d))"
  obtain z where z: "directory_to_bytes d =
      zones_to_bytes (zones d) @ le_bytes 4 (length (columns d)) @ le_bytes 4 0 @ ?cs @ z"
    using pad_to_64_prefix by (metis append.assoc directory_to_bytes_def)
  have len: "length ?cs = length (columns d) * 32"
    by (simp add: length_concat comp_def sum_list_triv)
  have n: "le_nat (bslice 128 4 (directory_to_bytes d)) = length (columns d)"
    using assms by (simp add: z le_nat_le_bytes)
  have zs: "zones_from_bytes (bslice 0 128 (directory_to_bytes d)) = Inr (zones d)"
    using zones_from_to_bytes [of "zones d" "[]"] by (simp add: z)
  have "bslice (136 + i * 32) 32 (directory_to_bytes d) = bslice (i * 32) 32 (?cs @ z)" for i
    by (simp add: z)
  then have cs: "map (\<lambda>i. chunk_read (bslice (136 + i * 32) 32 (directory_to_bytes d)))
      [0..<length (columns d)] = columns d"
    by (simp add: chunks_at)
  have "length (directory_to_bytes d) \<ge> 136 + length (columns d) * 32" by (simp add: z len)
  with n zs cs show ?thesis by (simp add: directory_from_bytes_def Let_def)
qed

section \<open>Footer\<close>

record mbf_footer_trailer =
  directory_offset :: "64 word"
  directory_len :: "32 word"
  header_crc32c :: "32 word"
  directory_crc32c :: "32 word"
  schema_fingerprint_hi :: "32 word"
  fiscal_lock_epoch_ms :: "64 word"
  hmac_tag_truncated :: bytes
  footer_magic :: bytes

definition footer_shape :: "mbf_footer_trailer \<Rightarrow> bool" where
  "footer_shape f \<longleftrightarrow> length (hmac_tag_truncated f) = 24 \<and> length (footer_magic f) = 8"

definition footer_new ::
  "64 word \<Rightarrow> 32 word \<Rightarrow> 32 word \<Rightarrow> 32 word \<Rightarrow> 32 word \<Rightarrow> 64 word \<Rightarrow> bytes \<Rightarrow> mbf_footer_trailer" where
  "footer_new off len hcrc dcrc fp fiscal tag =
    \<lparr>directory_offset = off, directory_len = len, header_crc32c = hcrc, directory_crc32c = dcrc,
     schema_fingerprint_hi = fp, fiscal_lock_epoch_ms = fiscal, hmac_tag_truncated = tag,
     footer_magic = MBF_FOOTER_MAGIC\<rparr>"

definition footer_to_bytes :: "mbf_footer_trailer \<Rightarrow> bytes" where
  "footer_to_bytes f =
     le_word (directory_offset f) @ le_word (directory_len f) @ le_word (header_crc32c f)
     @ le_word (directory_crc32c f) @ le_word (schema_fingerprint_hi f)
     @ le_word (fiscal_lock_epoch_ms f) @ hmac_tag_truncated f @ footer_magic f"

definition footer_read :: "bytes \<Rightarrow> mbf_footer_trailer" where
  "footer_read bs =
    \<lparr>directory_offset = of_le (bslice 0 8 bs), directory_len = of_le (bslice 8 4 bs),
     header_crc32c = of_le (bslice 12 4 bs), directory_crc32c = of_le (bslice 16 4 bs),
     schema_fingerprint_hi = of_le (bslice 20 4 bs), fiscal_lock_epoch_ms = of_le (bslice 24 8 bs),
     hmac_tag_truncated = bslice 32 24 bs, footer_magic = bslice 56 8 bs\<rparr>"

definition footer_from_bytes :: "bytes \<Rightarrow> mbf_footer_trailer res" where
  "footer_from_bytes bs =
    (if length bs < 64 then Inl MbfCorrupt001
     else let t = footer_read (take 64 bs) in
       if footer_magic t \<noteq> MBF_FOOTER_MAGIC then Inl MbfCorrupt001 else Inr t)"

lemma length_footer_to_bytes [simp]: "footer_shape f \<Longrightarrow> length (footer_to_bytes f) = 64"
  by (simp add: footer_to_bytes_def footer_shape_def)

lemma footer_read_to_bytes [codec_simps]: "footer_shape f \<Longrightarrow> footer_read (footer_to_bytes f) = f"
  by (simp add: footer_read_def footer_to_bytes_def footer_shape_def)

lemma footer_roundtrip:
  assumes "footer_shape f" "footer_magic f = MBF_FOOTER_MAGIC"
  shows "footer_from_bytes (footer_to_bytes f @ rest) = Inr f"
  using assms by (simp add: footer_from_bytes_def footer_read_to_bytes)

lemma footer_new_shape:
  "length tag = 24 \<Longrightarrow> footer_shape (footer_new off len hcrc dcrc fp fiscal tag)"
  by (simp add: footer_shape_def footer_new_def)

section \<open>Tenant seal\<close>

text \<open>\<^verbatim>\<open>hmac key msg\<close> is \<^const>\<open>None\<close> when the key is refused (\<^verbatim>\<open>InvalidLength\<close>).\<close>

record mbf_tenant_crypto_seal =
  tenant_context_hash :: bytes
  nonce :: bytes
  crypto_flags :: "32 word"
  keyed_mac :: bytes

definition derive_tenant_key :: "(bytes \<Rightarrow> bytes) \<Rightarrow> bytes \<Rightarrow> string \<Rightarrow> bytes" where
  "derive_tenant_key sha master tenant_id =
     sha (str_bytes ''METRI_MBF_V1_TENANT_KDF:'' @ master @ str_bytes '':'' @ str_bytes tenant_id)"

definition compute_context_hash :: "(bytes \<Rightarrow> bytes) \<Rightarrow> string \<Rightarrow> string \<Rightarrow> bytes" where
  "compute_context_hash sha tenant_id entity_type =
     take 16 (sha (str_bytes tenant_id @ str_bytes ''#'' @ str_bytes entity_type))"

definition seal_block ::
  "(bytes \<Rightarrow> bytes) \<Rightarrow> (bytes \<Rightarrow> bytes \<Rightarrow> bytes option) \<Rightarrow> bytes \<Rightarrow> string \<Rightarrow> string \<Rightarrow> 64 word \<Rightarrow> bytes
    \<Rightarrow> mbf_tenant_crypto_seal res" where
  "seal_block sha hmac master tenant_id entity_type epoch_id payload =
    (let tenant_key = derive_tenant_key sha master tenant_id;
         context_hash = compute_context_hash sha tenant_id entity_type;
         nonce = le_word epoch_id @ replicate 4 0 in
     rbind (ok_or MbfTenantSeal001 (hmac tenant_key (context_hash @ nonce @ payload))) (\<lambda>mac.
       Inr \<lparr>tenant_context_hash = context_hash, nonce = nonce, crypto_flags = 1, keyed_mac = mac\<rparr>))"

definition verify_block ::
  "(bytes \<Rightarrow> bytes) \<Rightarrow> (bytes \<Rightarrow> bytes \<Rightarrow> bytes option) \<Rightarrow> mbf_tenant_crypto_seal \<Rightarrow> bytes \<Rightarrow> string
    \<Rightarrow> string \<Rightarrow> bytes \<Rightarrow> unit res" where
  "verify_block sha hmac seal master tenant_id entity_type payload =
    (if tenant_context_hash seal \<noteq> compute_context_hash sha tenant_id entity_type
     then Inl MbfTenantSeal001
     else rbind (ok_or MbfTenantSeal001 (hmac (derive_tenant_key sha master tenant_id)
              (tenant_context_hash seal @ nonce seal @ payload))) (\<lambda>expected_mac.
       if keyed_mac seal \<noteq> expected_mac then Inl MbfCorrupt001 else Inr ()))"

definition seal_shape :: "mbf_tenant_crypto_seal \<Rightarrow> bool" where
  "seal_shape s \<longleftrightarrow> length (tenant_context_hash s) = 16 \<and> length (nonce s) = 12
     \<and> length (keyed_mac s) = 32"

definition seal_to_bytes :: "mbf_tenant_crypto_seal \<Rightarrow> bytes" where
  "seal_to_bytes s = tenant_context_hash s @ nonce s @ le_word (crypto_flags s) @ keyed_mac s"

definition seal_from_bytes :: "bytes \<Rightarrow> mbf_tenant_crypto_seal res" where
  "seal_from_bytes bs =
    (if length bs < 64 then Inl MbfCorrupt001
     else Inr \<lparr>tenant_context_hash = bslice 0 16 bs, nonce = bslice 16 12 bs,
       crypto_flags = of_le (bslice 28 4 bs), keyed_mac = bslice 32 32 bs\<rparr>)"

definition truncated_hmac_24 :: "mbf_tenant_crypto_seal \<Rightarrow> bytes" where
  "truncated_hmac_24 s = take 24 (keyed_mac s)"

definition seal_active ::
  "(bytes \<Rightarrow> bytes) \<Rightarrow> (bytes \<Rightarrow> bytes \<Rightarrow> bytes option) \<Rightarrow> engine_config \<Rightarrow> string \<Rightarrow> string \<Rightarrow> 64 word
    \<Rightarrow> bytes \<Rightarrow> mbf_tenant_crypto_seal res" where
  "seal_active sha hmac cfg tenant_id entity_type epoch_id payload =
    (let active_key = active_mbf_seal_key cfg in
     rbind (seal_block sha hmac active_key tenant_id entity_type epoch_id payload) (\<lambda>s.
       Inr (s\<lparr>crypto_flags := (if active_key = LEGACY_MBF_SEAL_KEY then 1 else 2)\<rparr>)))"

definition verify_with_keyring ::
  "(bytes \<Rightarrow> bytes) \<Rightarrow> (bytes \<Rightarrow> bytes \<Rightarrow> bytes option) \<Rightarrow> engine_config \<Rightarrow> mbf_tenant_crypto_seal
    \<Rightarrow> string \<Rightarrow> string \<Rightarrow> bytes \<Rightarrow> unit res" where
  "verify_with_keyring sha hmac cfg seal tenant_id entity_type payload =
    (let active_key = active_mbf_seal_key cfg;
         verify = (\<lambda>key. verify_block sha hmac seal key tenant_id entity_type payload);
         legacy = (if active_key \<noteq> LEGACY_MBF_SEAL_KEY then verify LEGACY_MBF_SEAL_KEY
                   else Inl MbfCorrupt001) in
     case verify active_key of
       Inr u \<Rightarrow> Inr u
     | Inl err \<Rightarrow>
         if err = MbfTenantSeal001 then Inl err
         else (case hmac_secret cfg of
             Some raw \<Rightarrow>
               if raw \<noteq> [] \<and> str_bytes raw \<noteq> active_key \<and> is_ok (verify (str_bytes raw))
               then Inr () else legacy
           | None \<Rightarrow> legacy))"

definition verify_footer_tag :: "mbf_tenant_crypto_seal \<Rightarrow> mbf_footer_trailer \<Rightarrow> unit res" where
  "verify_footer_tag s f =
    (if take 24 (keyed_mac s) \<noteq> hmac_tag_truncated f then Inl MbfCorrupt001 else Inr ())"

lemma seal_roundtrip: "seal_shape s \<Longrightarrow> seal_from_bytes (seal_to_bytes s @ rest) = Inr s"
  by (simp add: seal_from_bytes_def seal_to_bytes_def seal_shape_def)

lemma seal_block_verifies:
  assumes "seal_block sha hmac master t e epoch payload = Inr s"
  shows "verify_block sha hmac (s\<lparr>crypto_flags := fl\<rparr>) master t e payload = Inr ()"
  using assms by (auto simp: seal_block_def verify_block_def Let_def)

lemma verify_block_detects:
  assumes "seal_block sha hmac master t e epoch payload = Inr s"
    and "verify_block sha hmac s master t e payload' = Inr ()"
  shows "hmac (derive_tenant_key sha master t)
           (compute_context_hash sha t e @ nonce s @ payload')
       = hmac (derive_tenant_key sha master t)
           (compute_context_hash sha t e @ nonce s @ payload)"
  using assms by (auto simp: seal_block_def verify_block_def Let_def split: if_splits)

lemma verify_block_cross_tenant:
  assumes "tenant_context_hash s \<noteq> compute_context_hash sha t e"
  shows "verify_with_keyring sha hmac cfg s t e payload = Inl MbfTenantSeal001"
  using assms by (simp add: verify_with_keyring_def verify_block_def Let_def)

section \<open>Cell values and schema evolution\<close>

text \<open>\<^verbatim>\<open>i64\<close>, \<^verbatim>\<open>f64\<close> and \<^verbatim>\<open>i128\<close> cells are kept as their bits.\<close>

datatype mbf_cell_value =
    CNull
  | CBool bool
  | CInt64 "64 word"
  | CFloat64 "64 word"
  | CDecimal128 "128 word"
  | CText string
  | CBytes bytes

fun cell_write :: "mbf_cell_value \<Rightarrow> bytes" where
  "cell_write CNull = [0]"
| "cell_write (CBool b) = [1, if b then 1 else 0]"
| "cell_write (CInt64 v) = 2 # le_word v"
| "cell_write (CFloat64 v) = 3 # le_word v"
| "cell_write (CDecimal128 v) = 4 # le_word v"
| "cell_write (CText s) = 5 # le_bytes 4 (length s) @ str_bytes s"
| "cell_write (CBytes b) = 6 # le_bytes 4 (length b) @ b"

definition read_blob :: "bytes \<Rightarrow> (bytes \<times> bytes) res" where
  "read_blob bs =
    (if length bs < 4 then Inl MbfCorrupt001
     else let len = le_nat (take 4 bs); body = drop 4 bs in
       if length body < len then Inl MbfCorrupt001
       else Inr (take len body, drop len body))"

fun cell_read :: "bytes \<Rightarrow> (mbf_cell_value \<times> bytes) res" where
  "cell_read [] = Inl MbfCorrupt001"
| "cell_read (tag # r) =
    (if tag = 0 then Inr (CNull, r)
     else if tag = 1 then
       (case r of [] \<Rightarrow> Inl MbfCorrupt001 | b # r' \<Rightarrow> Inr (CBool (b \<noteq> 0), r'))
     else if tag = 2 then rbind (rd_fixed MbfCorrupt001 8 r) (\<lambda>(v, r'). Inr (CInt64 (of_le v), r'))
     else if tag = 3 then rbind (rd_fixed MbfCorrupt001 8 r) (\<lambda>(v, r'). Inr (CFloat64 (of_le v), r'))
     else if tag = 4 then rbind (rd_fixed MbfCorrupt001 16 r) (\<lambda>(v, r'). Inr (CDecimal128 (of_le v), r'))
     else if tag = 5 then rbind (read_blob r) (\<lambda>(v, r'). Inr (CText (lossy_str v), r'))
     else if tag = 6 then rbind (read_blob r) (\<lambda>(v, r'). Inr (CBytes v, r'))
     else Inl MbfCorrupt001)"

fun cell_ok :: "mbf_cell_value \<Rightarrow> bool" where
  "cell_ok (CText s) = len_str_ok s"
| "cell_ok (CBytes b) = (length b < 2 ^ 32)"
| "cell_ok _ = True"

lemma read_blob_write [codec_simps]:
  "length b < 2 ^ 32 \<Longrightarrow> read_blob (le_bytes 4 (length b) @ b @ rest) = Inr (b, rest)"
  by (simp add: read_blob_def le_nat_le_bytes Let_def)

lemma cell_read_write [codec_simps]: "cell_ok c \<Longrightarrow> cell_read (cell_write c @ rest) = Inr (c, rest)"
proof (cases c)
  case (CText s)
  moreover assume "cell_ok c"
  ultimately show ?thesis
    using read_blob_write [of "str_bytes s" rest] by (simp add: len_str_ok_def)
qed (simp_all add: read_blob_write)

interpretation cell: byte_codec cell_write cell_read cell_ok
  by unfold_locales (rule cell_read_write)

datatype evolved_column_projection =
    Physical "mbf_cell_value list"
  | VirtualConstantDefault mbf_cell_value nat

fun projection_get :: "evolved_column_projection \<Rightarrow> nat \<Rightarrow> mbf_cell_value option" where
  "projection_get (Physical values) i = (if i < length values then Some (values ! i) else None)"
| "projection_get (VirtualConstantDefault d n) i = (if i < n then Some d else None)"

fun projection_len :: "evolved_column_projection \<Rightarrow> nat" where
  "projection_len (Physical values) = length values"
| "projection_len (VirtualConstantDefault d n) = n"

definition projection_is_empty :: "evolved_column_projection \<Rightarrow> bool" where
  "projection_is_empty p = (projection_len p = 0)"

record schema_evolution_directory =
  sed_row_count :: nat
  physical_columns :: "(16 word, mbf_cell_value list) omap"

definition evolution_new :: "nat \<Rightarrow> schema_evolution_directory" where
  "evolution_new n = \<lparr>sed_row_count = n, physical_columns = om_empty\<rparr>"

definition insert_physical_column ::
  "schema_evolution_directory \<Rightarrow> 16 word \<Rightarrow> mbf_cell_value list \<Rightarrow> schema_evolution_directory" where
  "insert_physical_column d a vs = d\<lparr>physical_columns := om_put a vs (physical_columns d)\<rparr>"

definition resolve_column ::
  "schema_evolution_directory \<Rightarrow> 16 word \<Rightarrow> mbf_cell_value \<Rightarrow> evolved_column_projection" where
  "resolve_column d a codice_default = (case om_get (physical_columns d) a of
      Some col \<Rightarrow> Physical col
    | None \<Rightarrow> VirtualConstantDefault codice_default (sed_row_count d))"

lemma projection_get_none_iff: "projection_get p i = None \<longleftrightarrow> projection_len p \<le> i"
  by (cases p) auto

lemma resolve_column_insert:
  "resolve_column (insert_physical_column d a vs) b def =
    (if b = a then Physical vs else resolve_column d b def)"
  by (simp add: resolve_column_def insert_physical_column_def split: option.splits)

section \<open>Properties\<close>

lemma low_masks: "(63 :: 'a::len word) = mask 6" "(127 :: 'a::len word) = mask 7"
  by (simp_all add: mask_eq_exp_minus_1)

lemma flags_cell_bits:
  fixes c :: "32 word"
  shows "drop_bit 10 (FLAG_ZONE_ALL OR push_bit 10 (ucast (c AND 0x3F) :: 16 word)) AND 0x3F
    = ucast (c AND 0x3F)"
  unfolding low_masks FLAG_ZONE_ALL_def
  by (rule bit_word_eqI) (auto simp: bit_simps)

lemma with_flags_cell_bits:
  fixes f e :: "16 word"
  assumes "e < 1024"
  shows "drop_bit 10 ((f AND push_bit 10 0x3F) OR e) AND 0x3F = drop_bit 10 f AND 0x3F"
proof -
  have "e AND mask 10 = e"
    using assms by (intro less_mask_eq) simp
  then have e: "bit e n \<Longrightarrow> n < 10" for n by (metis bit_and_iff bit_mask_iff)
  show ?thesis
    unfolding low_masks by (rule bit_word_eqI) (auto simp: bit_simps dest: e)
qed

text \<open>The header is bijective with its 64 bytes: what an accepted image decodes to has the right
  shape and re-encodes to exactly those bytes, and every well-formed header decodes from its own
  image, whatever follows it in the file.\<close>

theorem header_bytes_bijection:
  "(header_from_bytes bs = Inr h \<longrightarrow>
      header_shape h \<and> header_validate h = Inr () \<and> header_to_bytes h = take 64 bs) \<and>
   (header_shape h \<and> header_validate h = Inr () \<longrightarrow>
      header_from_bytes (header_to_bytes h @ rest) = Inr h)"
proof (intro conjI impI)
  assume "header_from_bytes bs = Inr h"
  then have a: "64 \<le> length bs" and h: "h = header_read (take 64 bs)" "header_validate h = Inr ()"
    by (auto simp: header_from_bytes_def Let_def split: if_splits)
  then show "header_shape h" "header_validate h = Inr ()" "header_to_bytes h = take 64 bs"
    using a header_shape_read [of "take 64 bs"] header_to_bytes_read [of "take 64 bs"] by auto
qed (simp add: header_roundtrip)

theorem header_bytes_bijection_witness:
  "header_from_bytes (header_to_bytes (header_new 2 25000 42 7 100 200) @ [9])
     = Inr (header_new 2 25000 42 7 100 200)"
  using header_bytes_bijection [of "[]" "header_new 2 25000 42 7 100 200" "[9]"]
  by (simp add: header_shape_def header_new_def header_validate_def Let_def)

text \<open>The constructor of a header keeps the low six bits of the cell id in the flags, and setting
  further flags below bit 10 never disturbs it; the header is valid and carries its epoch.\<close>

theorem header_cell_id_preserved:
  assumes "extra < 1024"
  shows "header_cell_id (header_new cell rows epoch fp fiscal created) = cell AND 0x3F
    \<and> header_cell_id (header_with_flags (header_new cell rows epoch fp fiscal created) extra) = cell AND 0x3F
    \<and> header_validate (header_new cell rows epoch fp fiscal created) = Inr ()
    \<and> header_epoch_id (header_new cell rows epoch fp fiscal created) = epoch"
proof -
  have u: "ucast (ucast (cell AND 0x3F) :: 16 word) = cell AND (0x3F :: 32 word)"
    unfolding low_masks by (rule bit_word_eqI) (auto simp: bit_simps)
  show ?thesis
    by (simp only: header_cell_id_def header_new_def header_with_flags_def header_validate_def
        header_epoch_id_def Let_def mbf_header.simps flags_cell_bits with_flags_cell_bits [OF assms] u)
       simp
qed

theorem header_cell_id_preserved_witness:
  "header_cell_id (header_with_flags (header_new 7 5 1 0 0 0) FLAG_HOT_HEAD) = 7"
  using header_cell_id_preserved [of FLAG_HOT_HEAD 7 5 1 0 0 0]
  by (simp add: FLAG_HOT_HEAD_def)

text \<open>A directory index with its columns survives the trip to disk, and its image fills whole
  cache lines.\<close>

theorem directory_index_roundtrip:
  assumes "length (columns d) < 2 ^ 32"
  shows "directory_from_bytes (directory_to_bytes d) = Inr d \<and> length (directory_to_bytes d) mod 64 = 0"
  using assms directory_roundtrip pad_to_64_aligned by (simp add: directory_to_bytes_def)

theorem directory_index_roundtrip_witness:
  "directory_from_bytes (directory_to_bytes
      \<lparr>zones = zones_read (replicate 128 3), columns = [chunk_read (replicate 32 5)]\<rparr>)
    = Inr \<lparr>zones = zones_read (replicate 128 3), columns = [chunk_read (replicate 32 5)]\<rparr>"
  using directory_index_roundtrip
    [of "\<lparr>zones = zones_read (replicate 128 3), columns = [chunk_read (replicate 32 5)]\<rparr>"]
  by simp

text \<open>Key rotation is lossless for tenant seals. When HMAC accepts every key, a block sealed under
  the active key, the raw HMAC secret or the legacy key of a configuration verifies with the key
  ring of that configuration; another tenant or entity type with a different context hash is
  refused with the tenant error.\<close>

theorem seal_keyring_rotation:
  assumes hmac_total: "\<And>k m. hmac k m \<noteq> None"
    and sealed: "seal_block sha hmac key t e epoch payload = Inr s"
    and key: "key = active_mbf_seal_key cfg \<or> key = LEGACY_MBF_SEAL_KEY
      \<or> (\<exists>raw. hmac_secret cfg = Some raw \<and> raw \<noteq> [] \<and> key = str_bytes raw)"
  shows "verify_with_keyring sha hmac cfg s t e payload = Inr ()
    \<and> (compute_context_hash sha t2 e2 \<noteq> compute_context_hash sha t e \<longrightarrow>
        verify_with_keyring sha hmac cfg s t2 e2 payload = Inl MbfTenantSeal001)"
proof -
  have ok: "verify_block sha hmac s key t e payload = Inr ()"
    using seal_block_verifies [OF sealed, of "crypto_flags s"] by simp
  have ctx: "tenant_context_hash s = compute_context_hash sha t e"
    using sealed by (auto simp: seal_block_def Let_def)
  have err: "verify_block sha hmac s k t e payload = Inl x \<Longrightarrow> x = MbfCorrupt001" for k x
    using hmac_total by (auto simp: verify_block_def ctx rbind_eq_Inl_iff split: if_splits)
  have "verify_with_keyring sha hmac cfg s t e payload = Inr ()"
  proof (cases "verify_block sha hmac s (active_mbf_seal_key cfg) t e payload")
    case (Inl x)
    then show ?thesis
      using err [OF Inl] ok key
      by (auto simp: verify_with_keyring_def Let_def split: option.split)
  qed (simp add: verify_with_keyring_def)
  moreover have "compute_context_hash sha t2 e2 \<noteq> compute_context_hash sha t e \<longrightarrow>
      verify_with_keyring sha hmac cfg s t2 e2 payload = Inl MbfTenantSeal001"
    using verify_block_cross_tenant [of s sha t2 e2] ctx by auto
  ultimately show ?thesis by blast
qed

definition toy_hmac :: "bytes \<Rightarrow> bytes \<Rightarrow> bytes option" where
  "toy_hmac k m = Some (k @ m)"

theorem seal_keyring_rotation_witness:
  "verify_with_keyring rev toy_hmac (config_default\<lparr>mbf_seal_key := Some ''k2''\<rparr>)
     \<lparr>tenant_context_hash = compute_context_hash rev ''t'' ''e'',
      nonce = le_word (4 :: 64 word) @ replicate 4 0, crypto_flags = 1,
      keyed_mac = derive_tenant_key rev LEGACY_MBF_SEAL_KEY ''t''
        @ compute_context_hash rev ''t'' ''e'' @ (le_word (4 :: 64 word) @ replicate 4 0) @ [1, 2]\<rparr>
     ''t'' ''e'' [1, 2] = Inr ()"
  using seal_keyring_rotation [where hmac = toy_hmac and sha = rev and key = LEGACY_MBF_SEAL_KEY
      and t = "''t''" and e = "''e''" and epoch = 4 and payload = "[1, 2]"
      and cfg = "config_default\<lparr>mbf_seal_key := Some ''k2''\<rparr>"]
  by (simp add: toy_hmac_def seal_block_def Let_def)

end
