(* ===== verification/MbfValue.thy ===== *)
theory MbfValue
  imports MbfFormat
begin

text \<open>Attribute values, items and their binary encodings (\<^verbatim>\<open>src/mbf/storage.rs\<close>): the typed values,
  the write operations built from them, the plain encoding of a value and of an item, and the
  compact encoding that elides the key columns, abbreviates the standard column names and strips
  the tenant prefix of index strings. An item (\<^verbatim>\<open>HashMap<String, AttributeValue>\<close>) is an ordered
  map: the encoders sort the entries, the other uses only look keys up.\<close>

datatype attribute_value =
    AvS string
  | AvN string
  | AvB bytes
  | AvBool bool
  | AvNull bool

type_synonym item = "(string, attribute_value) omap"

fun as_s :: "attribute_value \<Rightarrow> string option" where
  "as_s (AvS s) = Some s"
| "as_s _ = None"

fun as_n :: "attribute_value \<Rightarrow> string option" where
  "as_n (AvN n) = Some n"
| "as_n _ = None"

fun as_b :: "attribute_value \<Rightarrow> bytes option" where
  "as_b (AvB b) = Some b"
| "as_b _ = None"

fun as_bool :: "attribute_value \<Rightarrow> bool option" where
  "as_bool (AvBool b) = Some b"
| "as_bool _ = None"

record put =
  put_table_name :: string
  put_item :: item
  put_condition_expression :: "string option"
  put_expression_values :: item

record put_builder =
  pb_table_name :: "string option"
  pb_item :: "item option"
  pb_condition_expression :: "string option"
  pb_expression_values :: item

definition put_build :: "put_builder \<Rightarrow> put res" where
  "put_build b = rbind (ok_or Eav001 (pb_item b)) (\<lambda>it.
     Inr \<lparr>put_table_name = unwrap_or (pb_table_name b) [], put_item = it,
          put_condition_expression = pb_condition_expression b,
          put_expression_values = pb_expression_values b\<rparr>)"

definition put_request_build :: "item option \<Rightarrow> item res" where
  "put_request_build it = ok_or Eav001 it"

section \<open>Plain encoding\<close>

definition write_bytes_slice :: "bytes \<Rightarrow> bytes" where
  "write_bytes_slice b = le_bytes 4 (length b) @ b"

definition read_bytes_slice :: "bytes \<Rightarrow> (bytes \<times> bytes) res" where
  "read_bytes_slice bs =
    (if length bs < 4 then Inl MbfCorrupt001
     else let len = le_nat (take 4 bs); r = drop 4 bs in
       if length r < len then Inl MbfCorrupt001 else Inr (take len r, drop len r))"

definition write_str_binary :: "string \<Rightarrow> bytes" where
  "write_str_binary s = write_bytes_slice (str_bytes s)"

definition read_str_binary :: "bytes \<Rightarrow> (string \<times> bytes) res" where
  "read_str_binary bs = rbind (read_bytes_slice bs) (\<lambda>(raw, r).
     if utf8_valid raw then Inr (bytes_str raw, r) else Inl MbfCorrupt001)"

definition blob_ok :: "bytes \<Rightarrow> bool" where "blob_ok b \<longleftrightarrow> length b < 2 ^ 32"

lemma read_write_bytes_slice [codec_simps]:
  "blob_ok b \<Longrightarrow> read_bytes_slice (write_bytes_slice b @ rest) = Inr (b, rest)"
  by (simp add: read_bytes_slice_def write_bytes_slice_def blob_ok_def le_nat_le_bytes Let_def)

lemma read_write_str [codec_simps]:
  "len_str_ok s \<Longrightarrow> read_str_binary (write_str_binary s @ rest) = Inr (s, rest)"
  using read_write_bytes_slice [of "str_bytes s" rest]
  by (simp add: read_str_binary_def write_str_binary_def len_str_ok_def str_ok_def blob_ok_def)

interpretation blob: byte_codec write_bytes_slice read_bytes_slice blob_ok
  by unfold_locales (rule read_write_bytes_slice)

interpretation bstr: byte_codec write_str_binary read_str_binary len_str_ok
  by unfold_locales (rule read_write_str)

definition extract_tenant_prefix :: "string \<Rightarrow> string option" where
  "extract_tenant_prefix pk = (case strip_prefix ''T#'' pk of
      None \<Rightarrow> None
    | Some rest \<Rightarrow> (case str_find (CHR ''#'') rest of
        None \<Rightarrow> None
      | Some hash_pos \<Rightarrow> Some (take (2 + hash_pos + 1) pk)))"

fun write_value_binary :: "attribute_value \<Rightarrow> bytes" where
  "write_value_binary (AvS s) = 0x01 # write_str_binary s"
| "write_value_binary (AvN n) = 0x02 # write_str_binary n"
| "write_value_binary (AvB b) = 0x03 # write_bytes_slice b"
| "write_value_binary (AvBool b) = [0x04, if b then 1 else 0]"
| "write_value_binary (AvNull n) = [0x05, if n then 1 else 0]"

definition write_value_compact :: "attribute_value \<Rightarrow> string option \<Rightarrow> bytes" where
  "write_value_compact val tenant_prefix = (case (val, tenant_prefix) of
      (AvS s, Some tp) \<Rightarrow> (case strip_prefix tp s of
          None \<Rightarrow> write_value_binary val
        | Some after_tp \<Rightarrow> (case strip_prefix ''A#'' after_tp of
            Some suffix \<Rightarrow> 0x11 # write_str_binary suffix
          | None \<Rightarrow> (case strip_prefix ''V#'' after_tp of
              Some suffix \<Rightarrow> 0x12 # write_str_binary suffix
            | None \<Rightarrow> (case strip_prefix ''R#'' after_tp of
                Some suffix \<Rightarrow> 0x13 # write_str_binary suffix
              | None \<Rightarrow> write_value_binary val))))
    | _ \<Rightarrow> write_value_binary val)"

definition read_flag :: "bytes \<Rightarrow> (bool \<times> bytes) res" where
  "read_flag bs = (case bs of [] \<Rightarrow> Inl MbfCorrupt001 | b # r \<Rightarrow> Inr (b \<noteq> 0, r))"

fun read_value_compact :: "string option \<Rightarrow> bytes \<Rightarrow> (attribute_value \<times> bytes) res" where
  "read_value_compact tenant_prefix [] = Inl MbfCorrupt001"
| "read_value_compact tenant_prefix (tag # r) =
    (let tp = unwrap_or tenant_prefix ''T#system#'' in
     if tag = 0x01 then rbind (read_str_binary r) (\<lambda>(s, r'). Inr (AvS s, r'))
     else if tag = 0x02 then rbind (read_str_binary r) (\<lambda>(s, r'). Inr (AvN s, r'))
     else if tag = 0x03 then rbind (read_bytes_slice r) (\<lambda>(b, r'). Inr (AvB b, r'))
     else if tag = 0x04 then rbind (read_flag r) (\<lambda>(b, r'). Inr (AvBool b, r'))
     else if tag = 0x05 then rbind (read_flag r) (\<lambda>(b, r'). Inr (AvNull b, r'))
     else if tag = 0x11 then rbind (read_str_binary r) (\<lambda>(s, r'). Inr (AvS (tp @ ''A#'' @ s), r'))
     else if tag = 0x12 then rbind (read_str_binary r) (\<lambda>(s, r'). Inr (AvS (tp @ ''V#'' @ s), r'))
     else if tag = 0x13 then rbind (read_str_binary r) (\<lambda>(s, r'). Inr (AvS (tp @ ''R#'' @ s), r'))
     else Inl MbfCorrupt001)"

definition read_value_binary :: "bytes \<Rightarrow> (attribute_value \<times> bytes) res" where
  "read_value_binary bs = read_value_compact None bs"

fun value_ok :: "attribute_value \<Rightarrow> bool" where
  "value_ok (AvS s) = len_str_ok s"
| "value_ok (AvN n) = len_str_ok n"
| "value_ok (AvB b) = blob_ok b"
| "value_ok _ = True"

lemma read_write_value_binary:
  "value_ok v \<Longrightarrow> read_value_compact tp (write_value_binary v @ rest) = Inr (v, rest)"
  by (cases v) (simp_all add: read_write_str read_write_bytes_slice read_flag_def Let_def)

lemma read_write_value_compact [codec_simps]:
  assumes "value_ok v"
  shows "read_value_compact tp (write_value_compact v tp @ rest) = Inr (v, rest)"
proof (cases v)
  case (AvS s)
  have suffix: "len_str_ok u" if "s = p @ [a, CHR ''#''] @ u" for p a u
  proof -
    have "s = (p @ [a]) @ CHR ''#'' # u" using that by simp
    then show ?thesis using assms AvS str_ok_after_ascii [of "p @ [a]" "CHR ''#''" u]
      by (simp add: len_str_ok_def)
  qed
  show ?thesis
  proof (cases tp)
    case None
    then show ?thesis using assms by (simp add: write_value_compact_def AvS read_write_value_binary
          del: write_value_binary.simps value_ok.simps)
  next
    case (Some p)
    show ?thesis
      using assms suffix [of p]
      by (auto simp: write_value_compact_def AvS Some read_write_str unwrap_or_def Let_def
          split: option.split)
  qed
qed (use assms in \<open>simp_all add: write_value_compact_def read_write_value_binary
      del: write_value_binary.simps value_ok.simps\<close>)

interpretation avalue: byte_codec "\<lambda>v. write_value_compact v tp" "read_value_compact tp" value_ok
  for tp
  by unfold_locales (rule read_write_value_compact)

section \<open>Plain items\<close>

definition write_entry_binary :: "string \<times> attribute_value \<Rightarrow> bytes" where
  "write_entry_binary e = write_str_binary (fst e) @ write_value_binary (snd e)"

definition read_entry_binary :: "bytes \<Rightarrow> ((string \<times> attribute_value) \<times> bytes) res" where
  "read_entry_binary bs = rbind (read_str_binary bs) (\<lambda>(k, r).
     rbind (read_value_binary r) (\<lambda>(v, r'). Inr ((k, v), r')))"

definition write_item_map_binary :: "item \<Rightarrow> bytes" where
  "write_item_map_binary it =
     le_bytes 4 (length (om_entries it)) @ concat (map write_entry_binary (om_entries it))"

definition read_item_map_binary :: "bytes \<Rightarrow> (item \<times> bytes) res" where
  "read_item_map_binary bs = rbind (rd_fixed MbfCorrupt001 4 bs) (\<lambda>(n, r).
     rbind (rd_many read_entry_binary (le_nat n) r) (\<lambda>(es, r'). Inr (om_of_list es, r')))"

definition entry_ok :: "string \<times> attribute_value \<Rightarrow> bool" where
  "entry_ok e \<longleftrightarrow> len_str_ok (fst e) \<and> value_ok (snd e)"

definition item_ok :: "item \<Rightarrow> bool" where
  "item_ok it \<longleftrightarrow> list_all entry_ok (om_entries it)"

interpretation entry: byte_codec write_entry_binary read_entry_binary entry_ok
  by unfold_locales
     (auto simp: write_entry_binary_def read_entry_binary_def entry_ok_def read_write_str
        read_value_binary_def read_write_value_binary)

lemma read_write_item_map_binary [codec_simps]:
  assumes "item_ok it" "length (om_entries it) < 2 ^ 32"
  shows "read_item_map_binary (write_item_map_binary it @ rest) = Inr (it, rest)"
  using assms entry.rd_many_wr [of "om_entries it" rest]
  by (simp add: read_item_map_binary_def write_item_map_binary_def item_ok_def le_nat_le_bytes)

section \<open>Compact items\<close>

definition key_code :: "string \<Rightarrow> byte" where
  "key_code k =
    (if k = ''ap'' then 0x01 else if k = ''as'' then 0x02 else if k = ''v'' then 0x03
     else if k = ''vp'' then 0x04 else if k = ''vs'' then 0x05 else if k = ''rp'' then 0x06
     else if k = ''rs'' then 0x07 else if k = ''current_value'' then 0x08
     else if k = ''updated_at'' then 0x09 else 0xFF)"

definition write_key_compact :: "string \<Rightarrow> bytes" where
  "write_key_compact k =
     key_code k # (if key_code k = 0xFF then write_str_binary k else [])"

definition read_key_compact :: "bytes \<Rightarrow> (string \<times> bytes) res" where
  "read_key_compact bs = (case bs of [] \<Rightarrow> Inl MbfCorrupt001 | c # r \<Rightarrow>
     if c = 0x01 then Inr (''ap'', r) else if c = 0x02 then Inr (''as'', r)
     else if c = 0x03 then Inr (''v'', r) else if c = 0x04 then Inr (''vp'', r)
     else if c = 0x05 then Inr (''vs'', r) else if c = 0x06 then Inr (''rp'', r)
     else if c = 0x07 then Inr (''rs'', r) else if c = 0x08 then Inr (''current_value'', r)
     else if c = 0x09 then Inr (''updated_at'', r)
     else if c = 0xFF then read_str_binary r
     else Inl MbfCorrupt001)"

definition write_entry_compact :: "string option \<Rightarrow> string \<times> attribute_value \<Rightarrow> bytes" where
  "write_entry_compact tp e = write_key_compact (fst e) @ write_value_compact (snd e) tp"

definition read_entry_compact ::
  "string option \<Rightarrow> bytes \<Rightarrow> ((string \<times> attribute_value) \<times> bytes) res" where
  "read_entry_compact tp bs = rbind (read_key_compact bs) (\<lambda>(k, r).
     rbind (read_value_compact tp r) (\<lambda>(v, r'). Inr ((k, v), r')))"

definition elides_pk :: "string \<Rightarrow> item \<Rightarrow> bool" where
  "elides_pk pk it = (om_get it ''PK'' = Some (AvS pk))"

definition elides_sk_blob :: "bytes \<Rightarrow> item \<Rightarrow> bool" where
  "elides_sk_blob sk it = (om_get it ''SK'' = Some (AvB sk))"

definition elides_sk_str :: "bytes \<Rightarrow> item \<Rightarrow> bool" where
  "elides_sk_str sk it = (\<not> elides_sk_blob sk it \<and>
     (case om_get it ''SK'' of Some (AvS s) \<Rightarrow> str_bytes s = sk | _ \<Rightarrow> False))"

definition kept_entries :: "string \<Rightarrow> bytes \<Rightarrow> item \<Rightarrow> (string \<times> attribute_value) list" where
  "kept_entries pk sk it = filter (\<lambda>(k, _).
     \<not> (k = ''PK'' \<and> elides_pk pk it)
     \<and> \<not> (k = ''SK'' \<and> (elides_sk_blob sk it \<or> elides_sk_str sk it))) (om_entries it)"

definition write_item_map_compact :: "string \<Rightarrow> bytes \<Rightarrow> item \<Rightarrow> bytes" where
  "write_item_map_compact pk sk it =
    (let fl = (if elides_pk pk it then 0x01 else 0) OR
                 (if elides_sk_blob sk it then 0x02 else if elides_sk_str sk it then 0x04 else 0);
         entries = kept_entries pk sk it in
     fl # le_bytes 2 (length entries)
       @ concat (map (write_entry_compact (extract_tenant_prefix pk)) entries))"

definition compact_base :: "byte \<Rightarrow> string \<Rightarrow> bytes \<Rightarrow> item" where
  "compact_base fl pk sk =
    (let i0 = (if fl AND 0x01 \<noteq> 0 then om_put ''PK'' (AvS pk) om_empty else om_empty) in
     if fl AND 0x02 \<noteq> 0 then om_put ''SK'' (AvB sk) i0
     else if fl AND 0x04 \<noteq> 0 then om_put ''SK'' (AvS (lossy_str sk)) i0
     else i0)"

definition read_item_map_compact :: "string \<Rightarrow> bytes \<Rightarrow> bytes \<Rightarrow> (item \<times> bytes) res" where
  "read_item_map_compact pk sk bs = rbind (rd_fixed MbfCorrupt001 3 bs) (\<lambda>(hd3, r).
     rbind (rd_many (read_entry_compact (extract_tenant_prefix pk)) (le_nat (drop 1 hd3)) r)
       (\<lambda>(es, r'). Inr (fold (\<lambda>(k, v). om_put k v) es (compact_base (hd hd3) pk sk), r')))"

interpretation key: byte_codec write_key_compact read_key_compact len_str_ok
  by unfold_locales
     (auto simp: write_key_compact_def read_key_compact_def key_code_def read_write_str)

interpretation centry: byte_codec "write_entry_compact tp" "read_entry_compact tp" entry_ok for tp
  by unfold_locales
     (auto simp: write_entry_compact_def read_entry_compact_def entry_ok_def key.rd_wr avalue.rd_wr)

lemma compact_flag_bits:
  "((if a then 0x01 else 0) OR (if b then 0x02 else if c then 0x04 else 0) :: byte) AND 0x01 \<noteq> 0 \<longleftrightarrow> a"
  "((if a then 0x01 else 0) OR (if b then 0x02 else if c then 0x04 else 0) :: byte) AND 0x02 \<noteq> 0 \<longleftrightarrow> b"
  "((if a then 0x01 else 0) OR (if b then 0x02 else if c then 0x04 else 0) :: byte) AND 0x04 \<noteq> 0 \<longleftrightarrow> \<not> b \<and> c"
  by (cases a; cases b; cases c; simp)+

lemma map_of_kept:
  "map_of (rev (kept_entries pk sk it)) k =
    (if k = ''PK'' \<and> elides_pk pk it \<or> k = ''SK'' \<and> (elides_sk_blob sk it \<or> elides_sk_str sk it)
     then None else om_get it k)"
proof -
  let ?P = "\<lambda>k. \<not> (k = ''PK'' \<and> elides_pk pk it)
     \<and> \<not> (k = ''SK'' \<and> (elides_sk_blob sk it \<or> elides_sk_str sk it))"
  have e: "kept_entries pk sk it = om_entries (om_filter (\<lambda>k _. ?P k) it)"
    by (simp add: kept_entries_def om_entries_filter)
  have "map_of (rev (kept_entries pk sk it)) = map_of (om_entries (om_filter (\<lambda>k _. ?P k) it))"
    unfolding e by (rule map_of_rev_distinct [OF om.entries_distinct])
  then show ?thesis by (auto simp: om.entries_get split: option.split)
qed

lemma read_write_item_map_compact [codec_simps]:
  assumes "item_ok it" "length (kept_entries pk sk it) < 2 ^ 16"
  shows "read_item_map_compact pk sk (write_item_map_compact pk sk it @ rest) = Inr (it, rest)"
proof -
  let ?es = "kept_entries pk sk it"
  let ?fl = "((if elides_pk pk it then 0x01 else 0) OR
     (if elides_sk_blob sk it then 0x02 else if elides_sk_str sk it then 0x04 else 0)) :: byte"
  have ok: "list_all entry_ok ?es"
    using assms(1) by (auto simp: item_ok_def kept_entries_def list_all_iff)
  have strs: "lossy_str sk = s" if "om_get it ''SK'' = Some (AvS s)" "str_bytes s = sk" for s
  proof -
    have "(''SK'', AvS s) \<in> set (om_entries it)" using that by (simp add: om.in_entries_iff)
    then have "str_ok s" using assms(1) by (auto simp: item_ok_def list_all_iff entry_ok_def len_str_ok_def)
    then show ?thesis using that by (metis lossy_str_bytes)
  qed
  have "fold (\<lambda>(k, v). om_put k v) ?es (compact_base ?fl pk sk) = it"
  proof (rule om_eqI)
    fix k
    show "om_get (fold (\<lambda>(k, v). om_put k v) ?es (compact_base ?fl pk sk)) k = om_get it k"
      unfolding om.put_fold_get map_of_kept
      by (auto simp: compact_base_def Let_def compact_flag_bits elides_pk_def elides_sk_blob_def
          elides_sk_str_def strs split: option.splits attribute_value.splits)
  qed
  then show ?thesis
    using assms(2) centry.rd_many_wr [OF ok, of "extract_tenant_prefix pk" rest]
    by (simp add: read_item_map_compact_def write_item_map_compact_def Let_def rd_fixed_def
        le_nat_le_bytes)
qed

end
