(* ===== verification/MbfSnapshot.thy ===== *)
theory MbfSnapshot
  imports MbfValue
begin

text \<open>The binary snapshots of a partition and of one entity (\<^verbatim>\<open>src/mbf/storage.rs\<close>). The LZ4 codec is
  a pair of parameters, \<^verbatim>\<open>compress\<close> and \<^verbatim>\<open>decompress\<close> (\<^const>\<open>None\<close> when it reports an error);
  the round trips assume that decompression inverts compression. A decoder returns \<^const>\<open>None\<close>
  where the code panics: the length test \<^verbatim>\<open>16 + comp_len > bytes.len()\<close> adds a 64-bit length from
  the input, and a sum past the 64-bit range ends in a slice out of bounds.\<close>

type_synonym primary_key = "string \<times> bytes"

definition SNAP_MAGIC_V1 :: bytes where "SNAP_MAGIC_V1 = str_bytes ''MBFPART1''"
definition SNAP_MAGIC :: bytes where "SNAP_MAGIC = str_bytes ''MBFPART2''"
definition ENTITY_MAGIC_V1 :: bytes where "ENTITY_MAGIC_V1 = str_bytes ''MBFENTZ1''"
definition ENTITY_MAGIC :: bytes where "ENTITY_MAGIC = str_bytes ''MBFENTZ2''"

lemma snap_magics [simp]:
  "length SNAP_MAGIC = 8" "length ENTITY_MAGIC = 8"
  "SNAP_MAGIC_V1 \<noteq> SNAP_MAGIC" "ENTITY_MAGIC_V1 \<noteq> ENTITY_MAGIC"
  by (simp_all add: SNAP_MAGIC_def ENTITY_MAGIC_def SNAP_MAGIC_V1_def ENTITY_MAGIC_V1_def)

record partition_snapshot =
  ps_epoch_id :: "64 word"
  ps_items :: "(primary_key \<times> item) list"
  ps_quota_counters :: "((string \<times> string) \<times> int) list"
  ps_quota_idem :: "((string \<times> string) \<times> (string \<times> int)) list"

section \<open>The framed stream\<close>

definition frame_write :: "(bytes \<Rightarrow> bytes) \<Rightarrow> bytes \<Rightarrow> bytes \<Rightarrow> bytes" where
  "frame_write compress mgc raw =
    (let compressed = compress raw in
     pad_to_64 (mgc @ le_bytes 8 (length compressed) @ compressed))"

text \<open>The result holds whether the frame is of the current version and the raw stream.\<close>

definition frame_read ::
  "(bytes \<Rightarrow> bytes option) \<Rightarrow> bytes \<Rightarrow> bytes \<Rightarrow> bytes \<Rightarrow> (bool \<times> bytes) res option" where
  "frame_read decompress mgc mgc1 bs =
    (if length bs < 16 then Some (Inl MbfCorrupt001)
     else if take 8 bs \<noteq> mgc \<and> take 8 bs \<noteq> mgc1 then Some (Inl MbfCorrupt001)
     else let comp_len = le_nat (bslice 8 8 bs) in
       if 2 ^ 64 \<le> 16 + comp_len then None
       else if length bs < 16 + comp_len then Some (Inl MbfCorrupt001)
       else Some (rbind (ok_or MbfCorrupt001 (decompress (bslice 16 comp_len bs))) (\<lambda>raw.
         Inr (take 8 bs = mgc, raw))))"

lemma frame_roundtrip:
  assumes "length mgc = 8" "decompress (compress raw) = Some raw"
    and "16 + length (compress raw) < 2 ^ 64"
  shows "frame_read decompress mgc mgc1 (frame_write compress mgc raw) = Some (Inr (True, raw))"
proof -
  obtain z where z: "frame_write compress mgc raw =
      mgc @ le_bytes 8 (length (compress raw)) @ compress raw @ z"
    using pad_to_64_prefix by (metis append.assoc frame_write_def)
  have "le_nat (le_bytes 8 (length (compress raw))) = length (compress raw)"
    using assms(3) by (simp add: le_nat_le_bytes)
  then show ?thesis using assms by (simp add: frame_read_def z Let_def)
qed

section \<open>Partition snapshot\<close>

fun write_items :: "string \<Rightarrow> (primary_key \<times> item) list \<Rightarrow> bytes" where
  "write_items prev_pk [] = []"
| "write_items prev_pk (((pk, sk), it) # rest) =
    (let same = (prev_pk \<noteq> [] \<and> pk = prev_pk) in
     (if same then [0x01] else 0x00 # write_str_binary pk)
     @ write_bytes_slice sk @ write_item_map_compact pk sk it
     @ write_items (if same then prev_pk else pk) rest)"

fun read_items_v2 :: "string \<Rightarrow> nat \<Rightarrow> bytes \<Rightarrow> ((primary_key \<times> item) list \<times> bytes) res" where
  "read_items_v2 prev_pk 0 bs = Inr ([], bs)"
| "read_items_v2 prev_pk (Suc n) bs =
    rbind (rd_fixed MbfCorrupt001 1 bs) (\<lambda>(fl, r0).
    rbind (if hd fl \<noteq> 0 then Inr (prev_pk, r0) else read_str_binary r0) (\<lambda>(pk, r1).
    rbind (read_bytes_slice r1) (\<lambda>(sk, r2).
    rbind (read_item_map_compact pk sk r2) (\<lambda>(it, r3).
    rbind (read_items_v2 pk n r3) (\<lambda>(its, r4). Inr (((pk, sk), it) # its, r4))))))"

definition read_item_v1 :: "bytes \<Rightarrow> ((primary_key \<times> item) \<times> bytes) res" where
  "read_item_v1 bs =
    rbind (read_str_binary bs) (\<lambda>(pk, r1).
    rbind (read_bytes_slice r1) (\<lambda>(sk, r2).
    rbind (read_item_map_binary r2) (\<lambda>(it, r3). Inr (((pk, sk), it), r3))))"

definition write_counter :: "(string \<times> string) \<times> int \<Rightarrow> bytes" where
  "write_counter c = write_str_binary (fst (fst c)) @ write_str_binary (snd (fst c)) @ le_i64 (snd c)"

definition read_counter :: "bytes \<Rightarrow> (((string \<times> string) \<times> int) \<times> bytes) res" where
  "read_counter bs =
    rbind (read_str_binary bs) (\<lambda>(t, r1).
    rbind (read_str_binary r1) (\<lambda>(q, r2).
    rbind (rd_fixed MbfCorrupt001 8 r2) (\<lambda>(v, r3). Inr (((t, q), of_le_i64 v), r3))))"

definition write_idem :: "(string \<times> string) \<times> (string \<times> int) \<Rightarrow> bytes" where
  "write_idem c = write_str_binary (fst (fst c)) @ write_str_binary (snd (fst c))
     @ write_str_binary (fst (snd c)) @ le_i64 (snd (snd c))"

definition read_idem :: "bytes \<Rightarrow> (((string \<times> string) \<times> (string \<times> int)) \<times> bytes) res" where
  "read_idem bs =
    rbind (read_str_binary bs) (\<lambda>(t, r1).
    rbind (read_str_binary r1) (\<lambda>(ik, r2).
    rbind (read_str_binary r2) (\<lambda>(qid, r3).
    rbind (rd_fixed MbfCorrupt001 8 r3) (\<lambda>(v, r4). Inr (((t, ik), (qid, of_le_i64 v)), r4)))))"

definition snapshot_raw :: "partition_snapshot \<Rightarrow> bytes" where
  "snapshot_raw s =
     le_word (ps_epoch_id s) @ le_bytes 4 (length (ps_items s)) @ write_items [] (ps_items s)
     @ le_bytes 4 (length (ps_quota_counters s)) @ concat (map write_counter (ps_quota_counters s))
     @ le_bytes 4 (length (ps_quota_idem s)) @ concat (map write_idem (ps_quota_idem s))"

definition snapshot_of_raw :: "bool \<Rightarrow> bytes \<Rightarrow> partition_snapshot res" where
  "snapshot_of_raw is_v2 raw =
    rbind (rd_fixed MbfCorrupt001 12 raw) (\<lambda>(head, r0).
    let n = le_nat (drop 8 head) in
    rbind (if is_v2 then read_items_v2 [] n r0 else rd_many read_item_v1 n r0) (\<lambda>(its, r1).
    rbind (rd_fixed MbfCorrupt001 4 r1) (\<lambda>(qn, r2).
    rbind (rd_many read_counter (le_nat qn) r2) (\<lambda>(qc, r3).
    rbind (rd_fixed MbfCorrupt001 4 r3) (\<lambda>(idn, r4).
    rbind (rd_many read_idem (le_nat idn) r4) (\<lambda>(qi, r5).
    Inr \<lparr>ps_epoch_id = of_le (take 8 head), ps_items = its, ps_quota_counters = qc,
         ps_quota_idem = qi\<rparr>))))))"

definition snapshot_encode :: "(bytes \<Rightarrow> bytes) \<Rightarrow> partition_snapshot \<Rightarrow> bytes" where
  "snapshot_encode compress s = frame_write compress SNAP_MAGIC (snapshot_raw s)"

definition snapshot_decode :: "(bytes \<Rightarrow> bytes option) \<Rightarrow> bytes \<Rightarrow> partition_snapshot res option" where
  "snapshot_decode decompress bs =
     map_option (\<lambda>f. rbind f (\<lambda>(is_v2, raw). snapshot_of_raw is_v2 raw))
       (frame_read decompress SNAP_MAGIC SNAP_MAGIC_V1 bs)"

definition row_ok :: "primary_key \<times> item \<Rightarrow> bool" where
  "row_ok r = (case r of ((pk, sk), it) \<Rightarrow> len_str_ok pk \<and> blob_ok sk \<and> item_ok it
     \<and> length (kept_entries pk sk it) < 2 ^ 16)"

definition counter_ok :: "(string \<times> string) \<times> int \<Rightarrow> bool" where
  "counter_ok c \<longleftrightarrow> len_str_ok (fst (fst c)) \<and> len_str_ok (snd (fst c)) \<and> in_s 64 (snd c)"

definition idem_ok :: "(string \<times> string) \<times> (string \<times> int) \<Rightarrow> bool" where
  "idem_ok c \<longleftrightarrow> len_str_ok (fst (fst c)) \<and> len_str_ok (snd (fst c)) \<and> len_str_ok (fst (snd c))
     \<and> in_s 64 (snd (snd c))"

definition snapshot_ok :: "partition_snapshot \<Rightarrow> bool" where
  "snapshot_ok s \<longleftrightarrow> list_all row_ok (ps_items s) \<and> length (ps_items s) < 2 ^ 32
     \<and> list_all counter_ok (ps_quota_counters s) \<and> length (ps_quota_counters s) < 2 ^ 32
     \<and> list_all idem_ok (ps_quota_idem s) \<and> length (ps_quota_idem s) < 2 ^ 32"

interpretation counter: byte_codec write_counter read_counter counter_ok
  by unfold_locales (simp add: write_counter_def read_counter_def counter_ok_def bstr.rd_wr)

interpretation idem: byte_codec write_idem read_idem idem_ok
  by unfold_locales (simp add: write_idem_def read_idem_def idem_ok_def bstr.rd_wr)

lemma read_write_items:
  "list_all row_ok its \<Longrightarrow>
    read_items_v2 prev (length its) (write_items prev its @ rest) = Inr (its, rest)"
proof (induction prev its rule: write_items.induct)
  case (2 prev pk sk it its)
  have row: "len_str_ok pk" "blob_ok sk" "item_ok it" "length (kept_entries pk sk it) < 2 ^ 16"
    using 2(2) by (auto simp: row_ok_def)
  have "list_all row_ok its" using 2(2) by simp
  with 2(1) have IH: "read_items_v2 pk (length its) (write_items pk its @ rest) = Inr (its, rest)"
    by (auto split: if_splits)
  show ?case
  proof (cases "prev \<noteq> [] \<and> pk = prev")
    case True
    then have p: "prev = pk" "pk \<noteq> []" by auto
    show ?thesis using IH
      by (simp add: p Let_def rd_fixed_def blob.rd_wr [OF row(2)]
          read_write_item_map_compact [OF row(3,4)])
  next
    case False
    then have p: "(prev \<noteq> [] \<and> pk = prev) = False" by simp
    show ?thesis using IH
      by (simp only: write_items.simps p Let_def if_False) (simp add: rd_fixed_def bstr.rd_wr [OF row(1)] blob.rd_wr [OF row(2)]
          read_write_item_map_compact [OF row(3,4)])
  qed
qed simp

lemma snapshot_of_raw_raw:
  assumes "snapshot_ok s"
  shows "snapshot_of_raw True (snapshot_raw s) = Inr s"
  using assms read_write_items [of "ps_items s" "[]"]
    counter.rd_many_wr [of "ps_quota_counters s"] idem.rd_many_wr [of "ps_quota_idem s" "[]"]
  by (simp add: snapshot_of_raw_def snapshot_raw_def snapshot_ok_def rd_fixed_def le_nat_le_bytes
      Let_def del: read_items_v2.simps)

section \<open>Entity snapshot\<close>

record entity_snapshot =
  es_tenant_id :: string
  es_entity_type :: string
  es_entity_id :: string
  es_epoch_id :: "64 word"
  es_datoms :: "(bytes \<times> item) list"

definition entity_pk_of :: "string \<Rightarrow> string \<Rightarrow> string" where
  "entity_pk_of tenant eid = ''T#'' @ tenant @ ''#E#'' @ eid"

definition write_datom :: "string \<Rightarrow> bytes \<times> item \<Rightarrow> bytes" where
  "write_datom pk d = write_bytes_slice (fst d) @ write_item_map_compact pk (fst d) (snd d)"

definition read_datom :: "bool \<Rightarrow> string \<Rightarrow> bytes \<Rightarrow> ((bytes \<times> item) \<times> bytes) res" where
  "read_datom is_v2 pk bs =
    rbind (read_bytes_slice bs) (\<lambda>(sk, r1).
    rbind (if is_v2 then read_item_map_compact pk sk r1 else read_item_map_binary r1) (\<lambda>(it, r2).
    Inr ((sk, it), r2)))"

definition entity_raw :: "entity_snapshot \<Rightarrow> bytes" where
  "entity_raw s =
     write_str_binary (es_tenant_id s) @ write_str_binary (es_entity_type s)
     @ write_str_binary (es_entity_id s) @ le_word (es_epoch_id s)
     @ le_bytes 4 (length (es_datoms s))
     @ concat (map (write_datom (entity_pk_of (es_tenant_id s) (es_entity_id s))) (es_datoms s))"

definition entity_of_raw :: "bool \<Rightarrow> bytes \<Rightarrow> entity_snapshot res" where
  "entity_of_raw is_v2 raw =
    rbind (read_str_binary raw) (\<lambda>(tenant, r1).
    rbind (read_str_binary r1) (\<lambda>(etype, r2).
    rbind (read_str_binary r2) (\<lambda>(eid, r3).
    rbind (rd_fixed MbfCorrupt001 12 r3) (\<lambda>(head, r4).
    rbind (rd_many (read_datom is_v2 (entity_pk_of tenant eid)) (le_nat (drop 8 head)) r4) (\<lambda>(ds, r5).
    Inr \<lparr>es_tenant_id = tenant, es_entity_type = etype, es_entity_id = eid,
         es_epoch_id = of_le (take 8 head), es_datoms = ds\<rparr>)))))"

definition entity_encode :: "(bytes \<Rightarrow> bytes) \<Rightarrow> entity_snapshot \<Rightarrow> bytes" where
  "entity_encode compress s = frame_write compress ENTITY_MAGIC (entity_raw s)"

definition entity_decode :: "(bytes \<Rightarrow> bytes option) \<Rightarrow> bytes \<Rightarrow> entity_snapshot res option" where
  "entity_decode decompress bs =
     map_option (\<lambda>f. rbind f (\<lambda>(is_v2, raw). entity_of_raw is_v2 raw))
       (frame_read decompress ENTITY_MAGIC ENTITY_MAGIC_V1 bs)"

definition datom_ok :: "string \<Rightarrow> bytes \<times> item \<Rightarrow> bool" where
  "datom_ok pk d \<longleftrightarrow> blob_ok (fst d) \<and> item_ok (snd d)
     \<and> length (kept_entries pk (fst d) (snd d)) < 2 ^ 16"

definition entity_ok :: "entity_snapshot \<Rightarrow> bool" where
  "entity_ok s \<longleftrightarrow> len_str_ok (es_tenant_id s) \<and> len_str_ok (es_entity_type s)
     \<and> len_str_ok (es_entity_id s) \<and> length (es_datoms s) < 2 ^ 32
     \<and> list_all (datom_ok (entity_pk_of (es_tenant_id s) (es_entity_id s))) (es_datoms s)"

interpretation datom: byte_codec "write_datom pk" "read_datom True pk" "datom_ok pk" for pk
  by unfold_locales
     (auto simp: write_datom_def read_datom_def datom_ok_def blob.rd_wr read_write_item_map_compact)

lemma entity_of_raw_raw:
  assumes "entity_ok s"
  shows "entity_of_raw True (entity_raw s) = Inr s"
  using assms datom.rd_many_wr [of "entity_pk_of (es_tenant_id s) (es_entity_id s)" "es_datoms s" "[]"]
  by (simp add: entity_of_raw_def entity_raw_def entity_ok_def rd_fixed_def le_nat_le_bytes
      bstr.rd_wr)

lemma snapshot_decode_encode:
  assumes "\<And>raw. decompress (compress raw) = Some raw"
    and "length (compress (snapshot_raw s)) < 2 ^ 63" "snapshot_ok s"
  shows "snapshot_decode decompress (snapshot_encode compress s) = Some (Inr s)"
proof -
  have "frame_read decompress SNAP_MAGIC SNAP_MAGIC_V1 (snapshot_encode compress s)
      = Some (Inr (True, snapshot_raw s))"
    unfolding snapshot_encode_def by (rule frame_roundtrip) (use assms in simp_all)
  then show ?thesis by (simp add: snapshot_decode_def snapshot_of_raw_raw assms)
qed

lemma entity_decode_encode:
  assumes "\<And>raw. decompress (compress raw) = Some raw"
    and "length (compress (entity_raw e)) < 2 ^ 63" "entity_ok e"
  shows "entity_decode decompress (entity_encode compress e) = Some (Inr e)"
proof -
  have "frame_read decompress ENTITY_MAGIC ENTITY_MAGIC_V1 (entity_encode compress e)
      = Some (Inr (True, entity_raw e))"
    unfolding entity_encode_def by (rule frame_roundtrip) (use assms in simp_all)
  then show ?thesis by (simp add: entity_decode_def entity_of_raw_raw assms)
qed

section \<open>Properties\<close>

text \<open>C9: a partition snapshot and an entity snapshot survive the trip through their binary frames:
  whenever LZ4 decompression inverts compression and the streams fit a 64-bit length, decoding
  the encoding returns exactly the snapshot, the delta-encoded keys, the elided key columns, the
  abbreviated column names and the stripped tenant prefixes included.\<close>

theorem snapshot_roundtrip:
  assumes "\<And>raw. decompress (compress raw) = Some raw"
    and "\<And>raw. length raw < 2 ^ 62 \<Longrightarrow> length (compress raw) < 2 ^ 63"
    and "snapshot_ok s" "length (snapshot_raw s) < 2 ^ 62"
    and "entity_ok e" "length (entity_raw e) < 2 ^ 62"
  shows "snapshot_decode decompress (snapshot_encode compress s) = Some (Inr s)
    \<and> entity_decode decompress (entity_encode compress e) = Some (Inr e)"
  using snapshot_decode_encode [where compress = compress and decompress = decompress and s = s]
    entity_decode_encode [where compress = compress and decompress = decompress and e = e] assms
  by simp

definition sample_snapshot :: partition_snapshot where
  "sample_snapshot = \<lparr>ps_epoch_id = 9,
     ps_items = [((''T#t#E#1'', [1]), om_of_list [(''PK'', AvS ''T#t#E#1''), (''SK'', AvB [1]),
                    (''ap'', AvS ''T#t#A#age''), (''v'', AvN ''30'')]),
                 ((''T#t#E#1'', [2]), om_of_list [(''SK'', AvS [CHR 0x02]), (''x'', AvBool True)])],
     ps_quota_counters = [((''t'', ''q''), - 5)], ps_quota_idem = [((''t'', ''k''), (''q'', 3))]\<rparr>"

definition sample_entity :: entity_snapshot where
  "sample_entity = \<lparr>es_tenant_id = ''t'', es_entity_type = ''asset'', es_entity_id = ''1'',
     es_epoch_id = 4, es_datoms = [([1], om_of_list [(''v'', AvN ''30'')])]\<rparr>"

lemma sample_ok: "snapshot_ok sample_snapshot" "entity_ok sample_entity"
  "length (snapshot_raw sample_snapshot) < 2 ^ 62" "length (entity_raw sample_entity) < 2 ^ 62"
  by code_simp+

theorem snapshot_roundtrip_witness:
  "snapshot_decode Some (snapshot_encode id sample_snapshot) = Some (Inr sample_snapshot)"
  using snapshot_roundtrip [of Some id sample_snapshot sample_entity] sample_ok by simp

text \<open>The only way a snapshot decoder can fail to return is the length field. On an input whose
  announced LZ4 length, plus the sixteen bytes of the frame, exceeds the 64-bit range the code
  does not return an error but panics; on every other input it returns a value or an error.\<close>

theorem snapshot_decode_panics_iff:
  "snapshot_decode decompress bs = None \<longleftrightarrow>
     16 \<le> length bs \<and> take 8 bs \<in> {SNAP_MAGIC, SNAP_MAGIC_V1}
     \<and> 2 ^ 64 - 16 \<le> le_nat (bslice 8 8 bs)"
  by (auto simp: snapshot_decode_def frame_read_def Let_def)

end
