(* ===== verification/StrUtil.thy ===== *)
theory StrUtil
  imports Bytes
begin

text \<open>The operations of Rust's \<^verbatim>\<open>str\<close> and integer formatting the components use: containment,
  prefixes and suffixes, \<^verbatim>\<open>split_once\<close>, decimal printing and \<^verbatim>\<open>parse::<i64>\<close>, with the round trip
  of the two.\<close>

section \<open>Substrings\<close>

fun split_once :: "string \<Rightarrow> string \<Rightarrow> (string \<times> string) option" where
  "split_once p [] = (if p = [] then Some ([], []) else None)"
| "split_once p (c # cs) =
    (case strip_prefix p (c # cs) of
       Some r \<Rightarrow> Some ([], r)
     | None \<Rightarrow> map_option (\<lambda>(a, b). (c # a, b)) (split_once p cs))"

definition str_contains :: "string \<Rightarrow> string \<Rightarrow> bool" where
  "str_contains p s = (split_once p s \<noteq> None)"

definition starts_with :: "'a list \<Rightarrow> 'a list \<Rightarrow> bool" where
  "starts_with p s = (take (length p) s = p)"

definition ends_with :: "'a list \<Rightarrow> 'a list \<Rightarrow> bool" where
  "ends_with p s = (length p \<le> length s \<and> drop (length s - length p) s = p)"

lemma split_once_Some: "split_once p s = Some (a, b) \<Longrightarrow> s = a @ p @ b"
  by (induction p s arbitrary: a rule: split_once.induct) (auto split: option.splits if_splits)

lemma split_once_append: "\<exists>a b. split_once p (x @ p @ y) = Some (a, b)"
proof (induction x)
  case Nil
  have "strip_prefix p (p @ y) = Some y" by simp
  then show ?case by (cases "p @ y") (simp_all del: strip_prefix_Some_iff)
next
  case (Cons c x)
  then show ?case by (auto split: option.splits)
qed

lemma str_contains_iff: "str_contains p s \<longleftrightarrow> (\<exists>x y. s = x @ p @ y)"
proof
  assume "str_contains p s"
  then show "\<exists>x y. s = x @ p @ y" using split_once_Some by (fastforce simp: str_contains_def)
next
  assume "\<exists>x y. s = x @ p @ y"
  then show "str_contains p s" using split_once_append by (fastforce simp: str_contains_def)
qed

lemma starts_with_iff: "starts_with p s \<longleftrightarrow> (\<exists>r. s = p @ r)"
  unfolding starts_with_def by (metis append_eq_conv_conj append_take_drop_id)

lemma ends_with_iff: "ends_with p s \<longleftrightarrow> (\<exists>r. s = r @ p)"
  unfolding ends_with_def by (metis append_take_drop_id diff_le_self append_eq_conv_conj
      length_append add_diff_cancel_right' le_add2)

lemma starts_with_Nil [simp]: "starts_with [] s"
  by (simp add: starts_with_def)

lemma starts_with_between:
  fixes p x y :: "'a::linorder list"
  assumes "p \<le> x" "x \<le> y" "starts_with p y"
  shows "starts_with p x"
  using assms
proof (induction p arbitrary: x y)
  case (Cons a p)
  obtain b z where y: "y = b # z" and b: "b = a" "starts_with p z"
    using Cons.prems(3) by (cases y) (auto simp: starts_with_def)
  obtain c w where x: "x = c # w" using Cons.prems(1) by (cases x) auto
  have "c = a" using Cons.prems(1,2) x y b by auto
  then show ?case using Cons.IH [of w z] Cons.prems(1,2) x y b by (auto simp: starts_with_def)
qed simp

section \<open>Decimal numbers\<close>

definition digit_char :: "nat \<Rightarrow> char" where
  "digit_char d = char_of (48 + d)"

definition digit_val :: "char \<Rightarrow> nat option" where
  "digit_val c = (let n = of_char c in if 48 \<le> n \<and> n \<le> 57 then Some (n - 48) else None)"

fun nat_str :: "nat \<Rightarrow> string" where
  "nat_str n = (if n < 10 then [digit_char n] else nat_str (n div 10) @ [digit_char (n mod 10)])"

declare nat_str.simps [simp del]

definition int_str :: "int \<Rightarrow> string" where
  "int_str x = (if x < 0 then CHR ''-'' # nat_str (nat (- x)) else nat_str (nat x))"

fun parse_digits :: "nat \<Rightarrow> string \<Rightarrow> nat option" where
  "parse_digits acc [] = Some acc"
| "parse_digits acc (c # cs) = (case digit_val c of
      None \<Rightarrow> None | Some d \<Rightarrow> parse_digits (10 * acc + d) cs)"

definition parse_nat :: "string \<Rightarrow> nat option" where
  "parse_nat s = (if s = [] then None else parse_digits 0 s)"

definition parse_i64 :: "string \<Rightarrow> int option" where
  "parse_i64 s = (let r = (case s of
        [] \<Rightarrow> None
      | c # cs \<Rightarrow> if c = CHR ''-'' then map_option (\<lambda>n. - int n) (parse_nat cs)
                 else if c = CHR ''+'' then map_option int (parse_nat cs)
                 else map_option int (parse_nat s)) in
     case r of None \<Rightarrow> None | Some x \<Rightarrow> if in_s 64 x then Some x else None)"

lemma digit_val_char [simp]: "d < 10 \<Longrightarrow> digit_val (digit_char d) = Some d"
  by (simp add: digit_val_def digit_char_def)

lemma parse_digits_append:
  "parse_digits acc (s @ t) = (case parse_digits acc s of None \<Rightarrow> None | Some a \<Rightarrow> parse_digits a t)"
  by (induction acc s rule: parse_digits.induct) (auto split: option.split)

lemma parse_digits_nat_str: "parse_digits 0 (nat_str n) = Some n"
proof (induction n rule: nat_str.induct)
  case (1 n)
  show ?case
  proof (cases "n < 10")
    case True
    then show ?thesis by (simp add: nat_str.simps)
  next
    case False
    then show ?thesis
      using 1 by (simp add: nat_str.simps [of n] parse_digits_append)
  qed
qed

lemma nat_str_nonempty [simp]: "nat_str n \<noteq> []"
  by (simp add: nat_str.simps [of n])

lemma parse_nat_nat_str [simp]: "parse_nat (nat_str n) = Some n"
  by (simp add: parse_nat_def parse_digits_nat_str)

lemma hd_nat_str: "\<exists>d r. nat_str n = digit_char d # r \<and> d < 10"
proof (induction n rule: nat_str.induct)
  case (1 n)
  then show ?case by (cases "n < 10") (force simp: nat_str.simps [of n])+
qed

lemma digit_char_sign [simp]:
  "d < 10 \<Longrightarrow> digit_char d \<noteq> CHR ''-''" "d < 10 \<Longrightarrow> digit_char d \<noteq> CHR ''+''"
  using digit_val_char [of d] by (auto simp: digit_val_def)

lemma parse_i64_int_str [simp]: "in_s 64 x \<Longrightarrow> parse_i64 (int_str x) = Some x"
proof -
  assume x: "in_s 64 x"
  obtain d r where d: "nat_str (nat x) = digit_char d # r" "d < 10" using hd_nat_str by blast
  have "parse_nat (digit_char d # r) = Some (nat x)" using d(1) parse_nat_nat_str by metis
  with x d show ?thesis by (auto simp: parse_i64_def int_str_def Let_def)
qed

lemma parse_i64_range: "parse_i64 s = Some x \<Longrightarrow> in_s 64 x"
  by (auto simp: parse_i64_def Let_def split: option.splits if_splits)

end
