(* ===== verification/MbfPartition.thy ===== *)
theory MbfPartition
  imports MbfSnapshot StrUtil
begin

text \<open>The in-memory partition store of \<^verbatim>\<open>src/mbf/storage.rs\<close>: the record with its primary tree, its
  three secondary trees and its quota ledger, every operation that changes or reads it, and the
  merge of a remote snapshot. The client is modelled in its in-memory mode (no S3 store), where
  \<^verbatim>\<open>sync_from_s3\<close> does nothing and \<^verbatim>\<open>flush_to_s3\<close> only records the touched entities; the merge of a
  remote snapshot is the operation \<^verbatim>\<open>apply_wire_snapshot\<close>. The full-text searcher that indexing also
  notifies is another component and not part of the state. Timestamps are arguments.\<close>

section \<open>State\<close>

type_synonym index_key = "string \<times> bytes \<times> primary_key"

record partition_store =
  epoch_id :: "64 word"
  last_s3_etag :: "string option"
  last_sync_ms :: int
  bulk_depth :: nat
  dirty_entities :: "(string \<times> string \<times> string) set"
  transient_entities :: "string set"
  outbox_entities :: "string set"
  items :: "(primary_key, item) omap"
  aevt_index :: "(index_key, unit) omap"
  avet_index :: "(index_key, unit) omap"
  vaet_index :: "(index_key, unit) omap"
  quota_counters :: "(string \<times> string, int) omap"
  quota_idem :: "(string \<times> string, string \<times> int) omap"

definition store_default :: partition_store where
  "store_default = \<lparr>epoch_id = 0, last_s3_etag = None, last_sync_ms = 0, bulk_depth = 0,
     dirty_entities = {}, transient_entities = {}, outbox_entities = {}, items = om_empty,
     aevt_index = om_empty, avet_index = om_empty, vaet_index = om_empty,
     quota_counters = om_empty, quota_idem = om_empty\<rparr>"

datatype secondary_index = PrimaryEavt | Aevt | Avet | Vaet

definition from_index_name :: "string option \<Rightarrow> secondary_index" where
  "from_index_name name =
    (if name = Some ''GSI-AEVT'' \<or> name = Some ''AEVT'' then Aevt
     else if name = Some ''GSI-AVET'' \<or> name = Some ''AVET'' then Avet
     else if name = Some ''GSI-VAET'' \<or> name = Some ''VAET'' then Vaet
     else PrimaryEavt)"

datatype write_condition =
    Unconditional
  | AppendOnlyLogUnique
  | UniqueClaimKey
  | UniqueEntitySelfOrUnclaimed

definition condition_parse :: "string option \<Rightarrow> write_condition" where
  "condition_parse expr = (let e = map_option str_trim expr in
     if e = Some ''attribute_not_exists(PK) AND attribute_not_exists(SK)'' then AppendOnlyLogUnique
     else if e = Some ''attribute_not_exists(PK)'' then UniqueClaimKey
     else if e = Some ''attribute_not_exists(PK) OR eid = :self'' then UniqueEntitySelfOrUnclaimed
     else Unconditional)"

definition get_string :: "item \<Rightarrow> string \<Rightarrow> string option" where
  "get_string it k = Option.bind (om_get it k) as_s"

definition get_number :: "item \<Rightarrow> string \<Rightarrow> string option" where
  "get_number it k = Option.bind (om_get it k) as_n"

definition get_bytes :: "item \<Rightarrow> string \<Rightarrow> bytes option" where
  "get_bytes it k = Option.bind (om_get it k) as_b"

definition sort_bytes :: "attribute_value option \<Rightarrow> bytes" where
  "sort_bytes v = (case v of
      Some (AvB b) \<Rightarrow> b | Some (AvS s) \<Rightarrow> str_bytes s | _ \<Rightarrow> [])"

definition extract_index_key :: "item \<Rightarrow> string \<Rightarrow> string \<Rightarrow> (string \<times> bytes) option" where
  "extract_index_key it pk_attr sk_attr =
     map_option (\<lambda>pk. (pk, sort_bytes (om_get it sk_attr))) (get_string it pk_attr)"

definition extract_pk_sk :: "item \<Rightarrow> primary_key option" where
  "extract_pk_sk it =
     map_option (\<lambda>pk. (pk, sort_bytes (om_get it ''SK''))) (get_string it ''PK'')"

section \<open>Indexing\<close>

definition add_key :: "item \<Rightarrow> string \<Rightarrow> string \<Rightarrow> primary_key \<Rightarrow> (index_key, unit) omap
    \<Rightarrow> (index_key, unit) omap" where
  "add_key it p s key idx = (case extract_index_key it p s of
      Some (ip, isk) \<Rightarrow> om_put (ip, isk, key) () idx | None \<Rightarrow> idx)"

definition del_key :: "item \<Rightarrow> string \<Rightarrow> string \<Rightarrow> primary_key \<Rightarrow> (index_key, unit) omap
    \<Rightarrow> (index_key, unit) omap" where
  "del_key it p s key idx = (case extract_index_key it p s of
      Some (ip, isk) \<Rightarrow> om_del (ip, isk, key) idx | None \<Rightarrow> idx)"

definition TYPE_NAME :: string where "TYPE_NAME = ''entity/type''"

definition attr_name_of :: "item \<Rightarrow> string option" where
  "attr_name_of it = map_option (\<lambda>(_, a). takeWhile (\<lambda>c. c \<noteq> CHR ''#'') a)
     (Option.bind (get_string it ''ap'') (split_once ''#A#''))"

text \<open>The second component is what the full-text indexer is told: tenant, entity, attribute.\<close>

definition index_secondary_only ::
  "primary_key \<Rightarrow> item \<Rightarrow> partition_store
    \<Rightarrow> partition_store \<times> (string \<times> string \<times> string option) option" where
  "index_secondary_only key it s =
    (let s1 = s\<lparr>aevt_index := add_key it ''ap'' ''as'' key (aevt_index s),
                avet_index := add_key it ''vp'' ''vs'' key (avet_index s),
                vaet_index := add_key it ''rp'' ''rs'' key (vaet_index s)\<rparr> in
     if length (snd key) \<noteq> 11 then (s1, None)
     else if fst key \<in> transient_entities s1 then (s1, None)
     else case Option.bind (strip_prefix ''T#'' (fst key)) (split_once ''#E#'') of
       None \<Rightarrow> (s1, None)
     | Some (tenant, eid) \<Rightarrow>
        (let attr = attr_name_of it in
         if snd key ! 10 = 0 then (s1, None)
         else if attr = Some TYPE_NAME \<and> om_get it ''v'' = Some (AvS ''outbox_event'') then
           (s1\<lparr>transient_entities := insert (fst key) (transient_entities s1),
               outbox_entities := insert (fst key) (outbox_entities s1)\<rparr>, None)
         else if attr = Some TYPE_NAME \<and>
             om_get it ''v'' \<in> {Some (AvS ''audit_log''), Some (AvS ''domain_fault'')} then
           (s1\<lparr>transient_entities := insert (fst key) (transient_entities s1)\<rparr>, None)
         else (s1, Some (tenant, eid, attr))))"

definition index_item :: "primary_key \<Rightarrow> item \<Rightarrow> partition_store \<Rightarrow> partition_store" where
  "index_item key it s = fst (index_secondary_only key it s)"

definition unindex_item :: "primary_key \<Rightarrow> item \<Rightarrow> partition_store \<Rightarrow> partition_store" where
  "unindex_item key it s =
     s\<lparr>aevt_index := del_key it ''ap'' ''as'' key (aevt_index s),
       avet_index := del_key it ''vp'' ''vs'' key (avet_index s),
       vaet_index := del_key it ''rp'' ''rs'' key (vaet_index s)\<rparr>"

definition remove_indexed :: "primary_key \<Rightarrow> partition_store \<Rightarrow> partition_store" where
  "remove_indexed key s = (case om_get (items s) key of
      None \<Rightarrow> s
    | Some old \<Rightarrow> unindex_item key old (s\<lparr>items := om_del key (items s)\<rparr>))"

definition insert_indexed :: "primary_key \<Rightarrow> item \<Rightarrow> partition_store \<Rightarrow> partition_store" where
  "insert_indexed key it s =
    (let s1 = (case om_get (items s) key of
           None \<Rightarrow> s
         | Some old \<Rightarrow> unindex_item key old (s\<lparr>items := om_del key (items s)\<rparr>));
         s2 = index_item key it s1 in
     s2\<lparr>items := om_put key it (items s2)\<rparr>)"

definition rebuild_secondary_indexes :: "partition_store \<Rightarrow> partition_store" where
  "rebuild_secondary_indexes s =
     fold (\<lambda>(k, it). index_item k it) (om_entries (items s))
       (s\<lparr>aevt_index := om_empty, avet_index := om_empty, vaet_index := om_empty\<rparr>)"

section \<open>Snapshots\<close>

definition to_wire_snapshot :: "partition_store \<Rightarrow> partition_snapshot" where
  "to_wire_snapshot s =
     \<lparr>ps_epoch_id = epoch_id s,
      ps_items = filter (\<lambda>((pk, _), _). \<not> str_contains ''#FTS#'' pk \<and> pk \<notin> outbox_entities s)
                   (om_entries (items s)),
      ps_quota_counters = om_entries (quota_counters s),
      ps_quota_idem = om_entries (quota_idem s)\<rparr>"

definition current_value :: "item \<Rightarrow> int option" where
  "current_value it = Option.bind (get_number it ''current_value'') parse_i64"

definition remote_wins :: "bool \<Rightarrow> item option \<Rightarrow> item \<Rightarrow> bool" where
  "remote_wins remote_is_newer local remote = (case local of
      None \<Rightarrow> True
    | Some l \<Rightarrow> (case (current_value l, current_value remote) of
         (Some a, Some b) \<Rightarrow> b > a \<or> (b = a \<and> remote_is_newer)
       | _ \<Rightarrow> remote_is_newer))"

definition merge_item :: "bool \<Rightarrow> bool \<Rightarrow> primary_key \<times> item \<Rightarrow> partition_store \<Rightarrow> partition_store" where
  "merge_item was_empty remote_is_newer r s = (case r of (key, remote) \<Rightarrow>
     if str_contains ''#FTS#'' (fst key) then s
     else if was_empty then
       (let s1 = index_item key remote s in s1\<lparr>items := om_put key remote (items s1)\<rparr>)
     else if remote_wins remote_is_newer (om_get (items s) key) remote
     then insert_indexed key remote s
     else s)"

definition merge_counter :: "bool \<Rightarrow> (string \<times> string) \<times> int \<Rightarrow> partition_store \<Rightarrow> partition_store" where
  "merge_counter remote_is_newer c s = (case c of (k, v) \<Rightarrow>
     let cur = (case om_get (quota_counters s) k of Some x \<Rightarrow> x | None \<Rightarrow> 0) in
     s\<lparr>quota_counters := om_put k (if remote_is_newer then v else if v > cur then v else cur)
         (quota_counters s)\<rparr>)"

definition merge_idem ::
  "(string \<times> string) \<times> (string \<times> int) \<Rightarrow> partition_store \<Rightarrow> partition_store" where
  "merge_idem c s = (case c of (k, v) \<Rightarrow>
     if om_get (quota_idem s) k = None then s\<lparr>quota_idem := om_put k v (quota_idem s)\<rparr> else s)"

definition apply_wire_snapshot ::
  "partition_snapshot \<Rightarrow> string \<Rightarrow> int \<Rightarrow> partition_store \<Rightarrow> partition_store" where
  "apply_wire_snapshot snap etag now s =
    (let newer = (ps_epoch_id snap \<ge> epoch_id s);
         was_empty = (om_entries (items s) = []);
         s1 = s\<lparr>epoch_id := max (epoch_id s) (ps_epoch_id snap)\<rparr>;
         s2 = fold (merge_item was_empty newer) (ps_items snap) s1;
         s3 = fold (merge_counter newer) (ps_quota_counters snap) s2;
         s4 = fold merge_idem (ps_quota_idem snap) s3 in
     s4\<lparr>last_s3_etag := Some etag, last_sync_ms := now\<rparr>)"

end
