(* ===== verification/MbfOps.thy ===== *)
theory MbfOps
  imports MbfPartition
begin

text \<open>The operations of \<^verbatim>\<open>MbfStorageClient\<close> on a partition (\<^verbatim>\<open>src/mbf/storage.rs\<close>): single writes,
  the conditional transaction, batch writes, range queries over the primary and the secondary
  trees, scans, the business sequences and the quota ledger. An operation that changes the store
  returns the new one; an error leaves the store as it was.\<close>

section \<open>Single items\<close>

definition put_item_op :: "item \<Rightarrow> partition_store \<Rightarrow> partition_store res" where
  "put_item_op it s = (case extract_pk_sk it of
      None \<Rightarrow> Inl Eav001 | Some key \<Rightarrow> Inr (insert_indexed key it s))"

definition get_item :: "string \<Rightarrow> bytes option \<Rightarrow> partition_store \<Rightarrow> item option" where
  "get_item pk sk s = om_get (items s) (pk, unwrap_or sk [])"

definition get_tx_actor :: "string \<Rightarrow> 64 word \<Rightarrow> partition_store \<Rightarrow> string option" where
  "get_tx_actor tenant_id tx_id s =
     Option.bind (get_item (''T#'' @ tenant_id @ ''#TX'') (Some (be_bytes 8 (unat tx_id))) s)
       (\<lambda>it. get_string it ''actor'')"

definition delete_item :: "string \<Rightarrow> bytes option \<Rightarrow> partition_store \<Rightarrow> partition_store" where
  "delete_item pk sk s = remove_indexed (pk, unwrap_or sk []) s"

definition batch_write_item :: "item option list \<Rightarrow> partition_store \<Rightarrow> partition_store" where
  "batch_write_item reqs s = fold (\<lambda>r s. case r of
      None \<Rightarrow> s
    | Some it \<Rightarrow> (case extract_pk_sk it of None \<Rightarrow> s | Some key \<Rightarrow> insert_indexed key it s)) reqs s"

section \<open>Transactions\<close>

definition check_condition :: "partition_store \<Rightarrow> put \<Rightarrow> primary_key \<Rightarrow> unit res" where
  "check_condition s p key = (case condition_parse (put_condition_expression p) of
      Unconditional \<Rightarrow> Inr ()
    | AppendOnlyLogUnique \<Rightarrow> if om_mem key (items s) then Inl EavTx004 else Inr ()
    | UniqueClaimKey \<Rightarrow> if om_mem key (items s) then Inl Cod001 else Inr ()
    | UniqueEntitySelfOrUnclaimed \<Rightarrow> (case om_get (items s) key of
        None \<Rightarrow> Inr ()
      | Some ex \<Rightarrow>
          if get_string ex ''eid'' \<noteq> get_string (put_expression_values p) '':self''
          then Inl Cod001 else Inr ()))"

definition touched_by :: "primary_key \<Rightarrow> item \<Rightarrow> (string \<times> string \<times> string) list" where
  "touched_by key it = (let pk = fst key in
     if starts_with ''T#'' pk \<and> ends_with ''#TX'' pk \<and> length pk > 5 then
       (case (get_string it ''entity_type'', get_string it ''entity_id'') of
          (Some et, Some eid) \<Rightarrow> [(drop 2 (take (length pk - 3) pk), et, eid)]
        | _ \<Rightarrow> [])
     else (case get_string it ''ap'' of
         None \<Rightarrow> []
       | Some ap \<Rightarrow>
          if str_contains ''#A#entity/type#'' ap \<or> ends_with ''#A#entity/type'' ap then
            (case get_string it ''v'' of
               None \<Rightarrow> []
             | Some et \<Rightarrow> (case Option.bind (strip_prefix ''T#'' pk) (split_once ''#E#'') of
                 None \<Rightarrow> [] | Some (tid, eid) \<Rightarrow> [(tid, et, eid)]))
          else []))"

record tx_stage =
  st_seen :: "primary_key set"
  st_staged :: "(primary_key \<times> item) list"
  st_touched :: "(string \<times> string \<times> string) list"

definition stage_put :: "partition_store \<Rightarrow> put option \<Rightarrow> tx_stage \<Rightarrow> tx_stage res" where
  "stage_put s tx st = (case tx of
      None \<Rightarrow> Inr st
    | Some p \<Rightarrow> rbind (ok_or Eav001 (extract_pk_sk (put_item p))) (\<lambda>key.
        if key \<in> st_seen st then Inl Eav001
        else rbind (check_condition s p key) (\<lambda>_.
          Inr \<lparr>st_seen = insert key (st_seen st),
               st_staged = st_staged st @ [(key, put_item p)],
               st_touched = st_touched st @ touched_by key (put_item p)\<rparr>)))"

definition mark_transient :: "string \<times> string \<times> string \<Rightarrow> partition_store \<Rightarrow> partition_store" where
  "mark_transient t s = (case t of (tid, et, eid) \<Rightarrow>
     let pk = ''T#'' @ tid @ ''#E#'' @ eid in
     if et = ''outbox_event'' then
       s\<lparr>transient_entities := insert pk (transient_entities s),
         outbox_entities := insert pk (outbox_entities s)\<rparr>
     else if et = ''audit_log'' \<or> et = ''domain_fault'' then
       s\<lparr>transient_entities := insert pk (transient_entities s)\<rparr>
     else s)"

definition flush_local :: "(string \<times> string \<times> string) list \<Rightarrow> partition_store \<Rightarrow> partition_store" where
  "flush_local touched s = s\<lparr>dirty_entities := dirty_entities s \<union> set touched\<rparr>"

definition transact_store :: "put option list \<Rightarrow> partition_store \<Rightarrow> partition_store res" where
  "transact_store txs s =
    rbind (try_fold (stage_put s) txs \<lparr>st_seen = {}, st_staged = [], st_touched = []\<rparr>) (\<lambda>st.
      let s1 = fold mark_transient (st_touched st) s;
          s2 = fold (\<lambda>(key, it). insert_indexed key it) (st_staged st) s1 in
      Inr (flush_local (st_touched st) s2))"

type_synonym partitions = "(string, partition_store) omap"

definition partition_for :: "partitions \<Rightarrow> string \<Rightarrow> partition_store" where
  "partition_for ps table = unwrap_or (om_get ps table) store_default"

definition transact_write :: "string \<Rightarrow> put option list \<Rightarrow> partitions \<Rightarrow> partitions res" where
  "transact_write default_table txs ps =
    (case txs of
       [] \<Rightarrow> Inr ps
     | tx # _ \<Rightarrow>
        (let table = (case tx of
               None \<Rightarrow> default_table
             | Some p \<Rightarrow> if put_table_name p = [] then default_table else put_table_name p) in
         rbind (transact_store txs (partition_for ps table)) (\<lambda>s. Inr (om_put table s ps))))"

section \<open>Queries\<close>

definition om_range :: "'k::linorder \<Rightarrow> ('k, 'v) omap \<Rightarrow> ('k \<times> 'v) list" where
  "om_range start m = dropWhile (\<lambda>(k, _). k < start) (om_entries m)"

record key_range =
  kr_lte :: bool
  kr_prefix :: bool
  kr_min :: "bytes option"
  kr_max :: "bytes option"
  kr_pfx :: "bytes option"

definition key_range_of :: "string \<Rightarrow> item \<Rightarrow> key_range" where
  "key_range_of cond vals = (let has_between = str_contains ''BETWEEN'' cond in
     \<lparr>kr_lte = str_contains ''<='' cond \<or> has_between,
      kr_prefix = str_contains ''begins_with'' cond,
      kr_min = get_bytes vals '':sk_min'', kr_max = get_bytes vals '':sk_max'',
      kr_pfx = get_bytes vals '':sk_prefix''\<rparr>)"

definition target_pk :: "item \<Rightarrow> string" where
  "target_pk vals = unwrap_or
     (Option.bind (or_else (om_get vals '':pk'') (om_get vals '':ap'')) as_s) []"

definition initial_sk :: "key_range \<Rightarrow> bytes" where
  "initial_sk r = (case kr_min r of
      Some b \<Rightarrow> b
    | None \<Rightarrow> if kr_prefix r then unwrap_or (kr_pfx r) [] else [])"

text \<open>The loop over a range goes on as long as this holds of the entry's sort key.\<close>

definition sk_continues :: "key_range \<Rightarrow> bytes \<Rightarrow> bool" where
  "sk_continues r sk =
    (\<not> (kr_lte r \<and> (case kr_max r of Some m \<Rightarrow> sk > m | None \<Rightarrow> False))
     \<and> \<not> (kr_prefix r \<and> (case kr_pfx r of Some p \<Rightarrow> \<not> starts_with p sk | None \<Rightarrow> False)))"

definition index_tree :: "secondary_index \<Rightarrow> partition_store \<Rightarrow> (index_key, unit) omap" where
  "index_tree i s = (case i of
      Aevt \<Rightarrow> aevt_index s | Avet \<Rightarrow> avet_index s | Vaet \<Rightarrow> vaet_index s
    | PrimaryEavt \<Rightarrow> aevt_index s)"

definition query_primary :: "string \<Rightarrow> key_range \<Rightarrow> partition_store \<Rightarrow> item list" where
  "query_primary pk r s =
     map snd (takeWhile (\<lambda>((p, sk), _). p = pk \<and> sk_continues r sk)
       (om_range (pk, initial_sk r) (items s)))"

definition query_secondary ::
  "secondary_index \<Rightarrow> string \<Rightarrow> key_range \<Rightarrow> partition_store \<Rightarrow> item list" where
  "query_secondary i pk r s =
     List.map_filter (\<lambda>((_, _, key), _). om_get (items s) key)
       (takeWhile (\<lambda>((p, sk, _), _). p = pk \<and> sk_continues r sk)
         (om_range (pk, initial_sk r, ([], [])) (index_tree i s)))"

definition page :: "bool \<Rightarrow> int option \<Rightarrow> 'a list \<Rightarrow> 'a list" where
  "page scan_forward limit xs =
    (let ys = (if scan_forward then xs else rev xs) in
     case limit of Some n \<Rightarrow> if n > 0 then take (nat n) ys else ys | None \<Rightarrow> ys)"

definition query ::
  "string option \<Rightarrow> string \<Rightarrow> item \<Rightarrow> bool \<Rightarrow> int option \<Rightarrow> partition_store \<Rightarrow> item list" where
  "query index_name cond vals scan_forward limit s =
    (let pk = target_pk vals; r = key_range_of cond vals in
     page scan_forward limit (case from_index_name index_name of
         PrimaryEavt \<Rightarrow> query_primary pk r s
       | i \<Rightarrow> query_secondary i pk r s))"

definition tenant_matches :: "string option \<Rightarrow> item \<Rightarrow> bool" where
  "tenant_matches t it = (case t of None \<Rightarrow> True | Some x \<Rightarrow> get_string it ''tenant_id'' = Some x)"

definition scan_with_filter :: "item \<Rightarrow> partition_store \<Rightarrow> item list" where
  "scan_with_filter vals s =
    (let tenant = get_string vals '':t'' in
     case get_string vals '':pfx'' of
       Some pfx \<Rightarrow> filter (tenant_matches tenant) (map snd
           (takeWhile (\<lambda>((pk, _), _). starts_with pfx pk) (om_range (pfx, []) (items s))))
     | None \<Rightarrow> filter (tenant_matches tenant) (om_values (items s)))"

section \<open>Business sequences\<close>

definition put_default :: "string \<Rightarrow> attribute_value \<Rightarrow> item \<Rightarrow> item" where
  "put_default k v it = (if om_mem k it then it else om_put k v it)"

definition sequence_increment ::
  "int \<Rightarrow> string \<Rightarrow> string \<Rightarrow> partition_store \<Rightarrow> partition_store \<times> int" where
  "sequence_increment now code tenant s =
    (let key = (code, []);
         entry = unwrap_or (om_get (items s) key)
           (om_put ''tenant_id'' (AvS tenant) (om_put ''PK'' (AvS code) om_empty));
         current = unwrap_or (current_value entry) 0;
         next_val = i64 (current + 1);
         e1 = om_put ''current_value'' (AvN (int_str next_val)) entry;
         e2 = put_default ''tenant_id'' (AvS tenant) e1;
         e3 = om_put ''updated_at'' (AvN (int_str now)) e2 in
     (s\<lparr>items := om_put key e3 (items s)\<rparr>, next_val))"

definition stored_value :: "partition_store \<Rightarrow> string \<Rightarrow> int option" where
  "stored_value s code = Option.bind (om_get (items s) (code, [])) current_value"

text \<open>A forced value is refused when the stored one has reached it.\<close>

definition set_refused :: "int option \<Rightarrow> int option \<Rightarrow> bool" where
  "set_refused target stored = (case (target, stored) of
      (Some t, Some c) \<Rightarrow> c \<ge> t | _ \<Rightarrow> False)"

definition sequence_config_upsert ::
  "int \<Rightarrow> string \<Rightarrow> string \<Rightarrow> string \<Rightarrow> nat \<Rightarrow> string \<Rightarrow> int option \<Rightarrow> partition_store
    \<Rightarrow> partition_store \<times> bool" where
  "sequence_config_upsert now code tenant prefix padding scope set_current s =
    (let key = (code, []) in
     if set_refused set_current (stored_value s code) then (s, False)
     else
       (let e0 = unwrap_or (om_get (items s) key) (om_put ''PK'' (AvS code) om_empty);
            e1 = om_put ''prefix'' (AvS prefix) e0;
            e2 = om_put ''padding'' (AvN (nat_str padding)) e1;
            e3 = om_put ''scope_resolution'' (AvS scope) e2;
            e4 = om_put ''tenant_id'' (AvS tenant) e3;
            e5 = om_put ''updated_at'' (AvN (int_str now)) e4;
            e6 = (case set_current of
                Some target \<Rightarrow> om_put ''current_value'' (AvN (int_str target)) e5
              | None \<Rightarrow> put_default ''current_value'' (AvN ''0'') e5) in
        (s\<lparr>items := om_put key e6 (items s)\<rparr>, True)))"

definition sequence_scoped_set ::
  "int \<Rightarrow> string \<Rightarrow> string \<Rightarrow> int \<Rightarrow> partition_store \<Rightarrow> partition_store \<times> bool" where
  "sequence_scoped_set now code tenant target s =
    (let key = (code, []) in
     if set_refused (Some target) (stored_value s code) then (s, False)
     else
       (let e0 = unwrap_or (om_get (items s) key) (om_put ''PK'' (AvS code) om_empty);
            e1 = om_put ''current_value'' (AvN (int_str target)) e0;
            e2 = om_put ''tenant_id'' (AvS tenant) e1;
            e3 = om_put ''updated_at'' (AvN (int_str now)) e2 in
        (s\<lparr>items := om_put key e3 (items s)\<rparr>, True)))"

section \<open>Quota ledger\<close>

definition counter_of :: "partition_store \<Rightarrow> string \<Rightarrow> string \<Rightarrow> int \<Rightarrow> int" where
  "counter_of s tenant quota dflt = unwrap_or (om_get (quota_counters s) (tenant, quota)) dflt"

definition quota_read_many :: "string \<Rightarrow> string list \<Rightarrow> partition_store \<Rightarrow> (string, int) omap" where
  "quota_read_many tenant ids s = fold (\<lambda>qid m. case om_get (quota_counters s) (tenant, qid) of
      Some v \<Rightarrow> om_put qid v m | None \<Rightarrow> m) ids om_empty"

definition quota_try_debit ::
  "string \<Rightarrow> string \<Rightarrow> int \<Rightarrow> int \<Rightarrow> int \<Rightarrow> partition_store \<Rightarrow> partition_store \<times> (bool \<times> int)" where
  "quota_try_debit tenant quota amount max_limit seed s =
    (let current = counter_of s tenant quota seed in
     if current \<ge> max_limit then (s, (False, current))
     else let nxt = i64 (current + amount) in
       (s\<lparr>quota_counters := om_put (tenant, quota) nxt (quota_counters s)\<rparr>, (True, nxt)))"

definition quota_settle ::
  "string \<Rightarrow> string \<Rightarrow> int \<Rightarrow> partition_store \<Rightarrow> partition_store \<times> int" where
  "quota_settle tenant quota delta s =
    (let nxt = max (i64 (counter_of s tenant quota 0 + delta)) 0 in
     (s\<lparr>quota_counters := om_put (tenant, quota) nxt (quota_counters s)\<rparr>, nxt))"

definition quota_settle_once ::
  "string \<Rightarrow> string \<Rightarrow> int \<Rightarrow> string \<Rightarrow> partition_store \<Rightarrow> partition_store \<times> bool" where
  "quota_settle_once tenant quota delta idem s =
    (if om_mem (tenant, idem) (quota_idem s) then (s, False)
     else let nxt = max (i64 (counter_of s tenant quota 0 + delta)) 0 in
       (s\<lparr>quota_counters := om_put (tenant, quota) nxt (quota_counters s),
          quota_idem := om_put (tenant, idem) (quota, delta) (quota_idem s)\<rparr>, True))"

end
