(* ===== verification/MbfIndexes.thy ===== *)
theory MbfIndexes
  imports MbfOps
begin

text \<open>The secondary trees are exactly the images of the primary tree: the invariant, its preservation
  by every operation of the store as an invariant of a step relation, and the refinement of the
  range queries by a scan of the primary tree.\<close>

section \<open>The index invariant\<close>

definition idx_exact ::
  "string \<Rightarrow> string \<Rightarrow> (primary_key, item) omap \<Rightarrow> (index_key, unit) omap \<Rightarrow> bool" where
  "idx_exact p a its idx \<longleftrightarrow> (\<forall>ip isk key. om_mem (ip, isk, key) idx \<longleftrightarrow>
     (\<exists>it. om_get its key = Some it \<and> extract_index_key it p a = Some (ip, isk)))"

definition store_wf :: "partition_store \<Rightarrow> bool" where
  "store_wf s \<longleftrightarrow> idx_exact ''ap'' ''as'' (items s) (aevt_index s)
     \<and> idx_exact ''vp'' ''vs'' (items s) (avet_index s)
     \<and> idx_exact ''rp'' ''rs'' (items s) (vaet_index s)"

lemma om_mem_del [simp]: "om_mem j (om_del k m) \<longleftrightarrow> j \<noteq> k \<and> om_mem j m"
  by (simp add: om_mem_def)

lemma om_mem_empty [simp]: "\<not> om_mem k om_empty"
  by (simp add: om_mem_def)

lemma mem_add_key: "om_mem (ip, isk, k) (add_key it p a key idx) \<longleftrightarrow>
    om_mem (ip, isk, k) idx \<or> k = key \<and> extract_index_key it p a = Some (ip, isk)"
  by (auto simp: add_key_def split: option.split)

lemma mem_del_key: "om_mem (ip, isk, k) (del_key it p a key idx) \<longleftrightarrow>
    om_mem (ip, isk, k) idx \<and> \<not> (k = key \<and> extract_index_key it p a = Some (ip, isk))"
  by (auto simp: del_key_def split: option.split)

lemma idx_exact_empty: "idx_exact p a om_empty om_empty"
  by (simp add: idx_exact_def)

lemma idx_exact_add:
  assumes "idx_exact p a its idx" "om_get its key = None"
  shows "idx_exact p a (om_put key it its) (add_key it p a key idx)"
  using assms by (auto simp: idx_exact_def mem_add_key)

lemma idx_exact_del:
  assumes "idx_exact p a its idx" "om_get its key = Some old"
  shows "idx_exact p a (om_del key its) (del_key old p a key idx)"
  using assms by (auto simp: idx_exact_def mem_del_key)

lemma idx_exact_same:
  assumes "idx_exact p a its idx"
    and "extract_index_key it p a =
      (case om_get its key of None \<Rightarrow> None | Some old \<Rightarrow> extract_index_key old p a)"
  shows "idx_exact p a (om_put key it its) idx"
  using assms by (auto simp: idx_exact_def split: option.splits)

lemma index_item_fields [simp]:
  "items (index_item k it s) = items s"
  "aevt_index (index_item k it s) = add_key it ''ap'' ''as'' k (aevt_index s)"
  "avet_index (index_item k it s) = add_key it ''vp'' ''vs'' k (avet_index s)"
  "vaet_index (index_item k it s) = add_key it ''rp'' ''rs'' k (vaet_index s)"
  "quota_counters (index_item k it s) = quota_counters s"
  "quota_idem (index_item k it s) = quota_idem s"
  "epoch_id (index_item k it s) = epoch_id s"
  "dirty_entities (index_item k it s) = dirty_entities s"
  by (auto simp: index_item_def index_secondary_only_def Let_def split: option.split)

lemma unindex_item_fields [simp]:
  "items (unindex_item k it s) = items s"
  "aevt_index (unindex_item k it s) = del_key it ''ap'' ''as'' k (aevt_index s)"
  "avet_index (unindex_item k it s) = del_key it ''vp'' ''vs'' k (avet_index s)"
  "vaet_index (unindex_item k it s) = del_key it ''rp'' ''rs'' k (vaet_index s)"
  "quota_counters (unindex_item k it s) = quota_counters s"
  "quota_idem (unindex_item k it s) = quota_idem s"
  "epoch_id (unindex_item k it s) = epoch_id s"
  "dirty_entities (unindex_item k it s) = dirty_entities s"
  by (auto simp: unindex_item_def)

lemma store_wf_default: "store_wf store_default"
  by (simp add: store_wf_def store_default_def idx_exact_empty)

lemma store_wf_cong:
  assumes "store_wf s" "items t = items s" "aevt_index t = aevt_index s"
    "avet_index t = avet_index s" "vaet_index t = vaet_index s"
  shows "store_wf t"
  using assms by (simp add: store_wf_def)

lemma remove_indexed_wf: "store_wf s \<Longrightarrow> store_wf (remove_indexed k s)"
  by (auto simp: remove_indexed_def store_wf_def idx_exact_del split: option.split)

lemma items_remove_indexed [simp]: "items (remove_indexed k s) = om_del k (items s)"
  by (auto simp: remove_indexed_def intro: om_eqI split: option.split)

lemma fresh_index_wf:
  assumes "store_wf s" "om_get (items s) k = None"
  shows "store_wf ((index_item k it s)\<lparr>items := om_put k it (items s)\<rparr>)"
  using assms by (simp add: store_wf_def idx_exact_add)

lemma insert_indexed_alt:
  "insert_indexed k it s =
    (index_item k it (remove_indexed k s))\<lparr>items := om_put k it (items (remove_indexed k s))\<rparr>"
  by (simp add: insert_indexed_def remove_indexed_def Let_def split: option.split)

lemma insert_indexed_wf: "store_wf s \<Longrightarrow> store_wf (insert_indexed k it s)"
  unfolding insert_indexed_alt by (intro fresh_index_wf remove_indexed_wf) simp_all

lemma items_insert_indexed [simp]: "items (insert_indexed k it s) = om_put k it (items s)"
  by (auto simp: insert_indexed_alt intro: om_eqI)

lemma remove_indexed_fields [simp]:
  "quota_counters (remove_indexed k s) = quota_counters s"
  "quota_idem (remove_indexed k s) = quota_idem s"
  "epoch_id (remove_indexed k s) = epoch_id s"
  "dirty_entities (remove_indexed k s) = dirty_entities s"
  by (auto simp: remove_indexed_def split: option.split)

lemma insert_indexed_fields [simp]:
  "quota_counters (insert_indexed k it s) = quota_counters s"
  "quota_idem (insert_indexed k it s) = quota_idem s"
  "epoch_id (insert_indexed k it s) = epoch_id s"
  "dirty_entities (insert_indexed k it s) = dirty_entities s"
  by (simp_all add: insert_indexed_alt)

text \<open>Changing attributes that no index reads leaves the indexes exact.\<close>

definition index_attrs :: "string list" where
  "index_attrs = [''ap'', ''as'', ''vp'', ''vs'', ''rp'', ''rs'']"

lemma store_wf_update:
  assumes "store_wf s"
    and "\<And>x. x \<in> set index_attrs \<Longrightarrow> om_get it x =
      (case om_get (items s) key of None \<Rightarrow> None | Some old \<Rightarrow> om_get old x)"
  shows "store_wf (s\<lparr>items := om_put key it (items s)\<rparr>)"
proof -
  have "extract_index_key it p a =
      (case om_get (items s) key of None \<Rightarrow> None | Some old \<Rightarrow> extract_index_key old p a)"
    if "p \<in> set index_attrs" "a \<in> set index_attrs" for p a
    using assms(2) [OF that(1)] assms(2) [OF that(2)]
    by (auto simp: extract_index_key_def get_string_def split: option.split)
  with assms(1) show ?thesis
    by (simp add: store_wf_def idx_exact_same index_attrs_def)
qed

lemma fold_wf:
  assumes "\<And>x s. store_wf s \<Longrightarrow> store_wf (f x s)" "store_wf s"
  shows "store_wf (fold f xs s)"
  using assms by (induction xs arbitrary: s) auto

lemma mark_transient_fields [simp]:
  "items (mark_transient t s) = items s" "aevt_index (mark_transient t s) = aevt_index s"
  "avet_index (mark_transient t s) = avet_index s" "vaet_index (mark_transient t s) = vaet_index s"
  "quota_counters (mark_transient t s) = quota_counters s"
  "quota_idem (mark_transient t s) = quota_idem s"
  by (auto simp: mark_transient_def Let_def split: prod.split)

lemma mark_transient_wf: "store_wf s \<Longrightarrow> store_wf (mark_transient t s)"
  by (erule store_wf_cong) simp_all

lemma transact_store_wf:
  assumes "transact_store txs s = Inr t" "store_wf s"
  shows "store_wf t"
proof -
  obtain st where "try_fold (stage_put s) txs \<lparr>st_seen = {}, st_staged = [], st_touched = []\<rparr> = Inr st"
    using assms(1) by (auto simp: transact_store_def)
  then have t: "t = flush_local (st_touched st)
      (fold (\<lambda>(key, it). insert_indexed key it) (st_staged st) (fold mark_transient (st_touched st) s))"
    using assms(1) by (simp add: transact_store_def Let_def)
  have "store_wf (fold (\<lambda>(key, it). insert_indexed key it) (st_staged st)
      (fold mark_transient (st_touched st) s))"
    using assms(2) by (intro fold_wf) (auto intro: insert_indexed_wf mark_transient_wf)
  then show ?thesis unfolding t by (rule store_wf_cong) (simp_all add: flush_local_def)
qed

lemma sequence_increment_wf:
  assumes "store_wf s"
  shows "store_wf (fst (sequence_increment now code tenant s))"
  unfolding sequence_increment_def Let_def fst_conv
  by (rule store_wf_update [OF assms])
     (auto simp: index_attrs_def put_default_def unwrap_or_def split: option.split)

lemma sequence_config_wf:
  assumes "store_wf s"
  shows "store_wf (fst (sequence_config_upsert now code tenant prefix pad scope sv s))"
proof (cases "set_refused sv (stored_value s code)")
  case True
  then show ?thesis using assms by (simp add: sequence_config_upsert_def Let_def)
next
  case False
  then show ?thesis
    unfolding sequence_config_upsert_def Let_def if_not_P [OF False] fst_conv
    by (intro store_wf_update [OF assms])
       (auto simp: index_attrs_def put_default_def unwrap_or_def split: option.split)
qed

lemma sequence_scoped_wf:
  assumes "store_wf s"
  shows "store_wf (fst (sequence_scoped_set now code tenant target s))"
proof (cases "set_refused (Some target) (stored_value s code)")
  case True
  then show ?thesis using assms by (simp add: sequence_scoped_set_def Let_def)
next
  case False
  then show ?thesis
    unfolding sequence_scoped_set_def Let_def if_not_P [OF False] fst_conv
    by (intro store_wf_update [OF assms])
       (auto simp: index_attrs_def unwrap_or_def split: option.split)
qed

lemmas sequence_ops_wf = sequence_increment_wf sequence_config_wf sequence_scoped_wf

section \<open>Merging a snapshot\<close>

lemma merge_fold_empty_wf:
  assumes "store_wf s" "distinct (map fst its)" "\<And>k. k \<in> fst ` set its \<Longrightarrow> om_get (items s) k = None"
  shows "store_wf (fold (merge_item True nw) its s)"
  using assms
proof (induction its arbitrary: s)
  case (Cons r its)
  obtain k it where r: "r = (k, it)" by (cases r)
  let ?t = "merge_item True nw r s"
  have "store_wf ?t" using Cons.prems(1,3) r by (auto simp: merge_item_def Let_def fresh_index_wf)
  moreover have "om_get (items ?t) j = None" if "j \<in> fst ` set its" for j
    using that Cons.prems(2,3) r by (auto simp: merge_item_def Let_def image_iff)
  ultimately show ?case using Cons.IH [of ?t] Cons.prems(2) by simp
qed simp

lemma merge_counter_fields [simp]:
  "items (merge_counter nw c s) = items s" "aevt_index (merge_counter nw c s) = aevt_index s"
  "avet_index (merge_counter nw c s) = avet_index s" "vaet_index (merge_counter nw c s) = vaet_index s"
  "quota_idem (merge_counter nw c s) = quota_idem s"
  by (auto simp: merge_counter_def Let_def split: prod.split)

lemma merge_idem_fields [simp]:
  "items (merge_idem c s) = items s" "aevt_index (merge_idem c s) = aevt_index s"
  "avet_index (merge_idem c s) = avet_index s" "vaet_index (merge_idem c s) = vaet_index s"
  "quota_counters (merge_idem c s) = quota_counters s"
  by (auto simp: merge_idem_def split: prod.split)

lemma merge_counter_wf: "store_wf s \<Longrightarrow> store_wf (merge_counter nw c s)"
  by (erule store_wf_cong) simp_all

lemma merge_idem_wf: "store_wf s \<Longrightarrow> store_wf (merge_idem c s)"
  by (erule store_wf_cong) simp_all

lemma apply_wire_snapshot_wf:
  assumes "store_wf s" "distinct (map fst (ps_items snap))"
  shows "store_wf (apply_wire_snapshot snap etag now s)"
proof -
  let ?nw = "ps_epoch_id snap \<ge> epoch_id s" and ?emp = "om_entries (items s) = []"
  let ?s1 = "s\<lparr>epoch_id := max (epoch_id s) (ps_epoch_id snap)\<rparr>"
  have w1: "store_wf ?s1" using assms(1) by (rule store_wf_cong) simp_all
  have "store_wf (fold (merge_item ?emp ?nw) (ps_items snap) ?s1)"
  proof (cases ?emp)
    case True
    then have "om_get (items ?s1) k = None" for k
      using om.key_in_entries_iff [of k "items s"] by simp
    then show ?thesis using merge_fold_empty_wf [OF w1 assms(2)] True by simp
  next
    case False
    have eqFalse: "(om_entries (items s) = []) = False" using False by simp
    have "store_wf t \<Longrightarrow> store_wf (merge_item False ?nw x t)" for x t
      by (auto simp: merge_item_def insert_indexed_wf split: prod.split)
    then show ?thesis unfolding eqFalse by (rule fold_wf [where f = "merge_item False ?nw", OF _ w1])
  qed
  then have "store_wf (fold merge_idem (ps_quota_idem snap) (fold (merge_counter ?nw)
      (ps_quota_counters snap) (fold (merge_item ?emp ?nw) (ps_items snap) ?s1)))"
    by (intro fold_wf [OF merge_idem_wf] fold_wf [OF merge_counter_wf])
  then show ?thesis
    unfolding apply_wire_snapshot_def Let_def by (rule store_wf_cong) simp_all
qed

lemma mem_rebuild:
  "om_mem (ip, isk, key) (aevt_index (fold (\<lambda>(k, it). index_item k it) es s)) \<longleftrightarrow>
     om_mem (ip, isk, key) (aevt_index s)
     \<or> (\<exists>it. (key, it) \<in> set es \<and> extract_index_key it ''ap'' ''as'' = Some (ip, isk))"
  "om_mem (ip, isk, key) (avet_index (fold (\<lambda>(k, it). index_item k it) es s)) \<longleftrightarrow>
     om_mem (ip, isk, key) (avet_index s)
     \<or> (\<exists>it. (key, it) \<in> set es \<and> extract_index_key it ''vp'' ''vs'' = Some (ip, isk))"
  "om_mem (ip, isk, key) (vaet_index (fold (\<lambda>(k, it). index_item k it) es s)) \<longleftrightarrow>
     om_mem (ip, isk, key) (vaet_index s)
     \<or> (\<exists>it. (key, it) \<in> set es \<and> extract_index_key it ''rp'' ''rs'' = Some (ip, isk))"
  "items (fold (\<lambda>(k, it). index_item k it) es s) = items s"
  by (induction es arbitrary: s) (auto simp: mem_add_key)

lemma rebuild_wf: "store_wf (rebuild_secondary_indexes s)"
  by (auto simp: rebuild_secondary_indexes_def store_wf_def idx_exact_def mem_rebuild
      om.in_entries_iff)

section \<open>Steps of the store\<close>

inductive store_step :: "partition_store \<Rightarrow> partition_store \<Rightarrow> bool" where
  step_put: "put_item_op it s = Inr t \<Longrightarrow> store_step s t"
| step_delete: "store_step s (delete_item pk sk s)"
| step_batch: "store_step s (batch_write_item reqs s)"
| step_transact: "transact_store txs s = Inr t \<Longrightarrow> store_step s t"
| step_increment: "store_step s (fst (sequence_increment now code tenant s))"
| step_config: "store_step s (fst (sequence_config_upsert now code tenant prefix pad scope sv s))"
| step_scoped: "store_step s (fst (sequence_scoped_set now code tenant target s))"
| step_debit: "store_step s (fst (quota_try_debit tenant quota amount limit seed s))"
| step_settle: "store_step s (fst (quota_settle tenant quota delta s))"
| step_settle_once: "store_step s (fst (quota_settle_once tenant quota delta idem s))"
| step_remote: "distinct (map fst (ps_items snap)) \<Longrightarrow> store_step s (apply_wire_snapshot snap etag now s)"
| step_rebuild: "store_step s (rebuild_secondary_indexes s)"

inductive store_reachable :: "partition_store \<Rightarrow> bool" where
  reach_init: "store_reachable store_default"
| reach_step: "store_reachable s \<Longrightarrow> store_step s t \<Longrightarrow> store_reachable t"

lemma batch_write_wf: "store_wf s \<Longrightarrow> store_wf (batch_write_item reqs s)"
  unfolding batch_write_item_def
  by (intro fold_wf) (auto simp: insert_indexed_wf split: option.split)

lemma store_step_wf: "store_step s t \<Longrightarrow> store_wf s \<Longrightarrow> store_wf t"
proof (induction rule: store_step.induct)
  case (step_debit s tenant quota amount limit seed)
  then show ?case by (rule store_wf_cong) (simp_all add: quota_try_debit_def Let_def)
next
  case (step_settle s tenant quota delta)
  then show ?case by (rule store_wf_cong) (simp_all add: quota_settle_def Let_def)
next
  case (step_settle_once s tenant quota delta idem)
  then show ?case by (rule store_wf_cong) (simp_all add: quota_settle_once_def Let_def)
qed (auto simp: put_item_op_def delete_item_def insert_indexed_wf remove_indexed_wf batch_write_wf
    transact_store_wf sequence_ops_wf apply_wire_snapshot_wf rebuild_wf split: option.splits)

lemma reachable_wf: "store_reachable s \<Longrightarrow> store_wf s"
  by (induction rule: store_reachable.induct) (auto simp: store_wf_default store_step_wf)

section \<open>Range scans\<close>

lemma takeWhile_filter_sorted:
  fixes start :: "'k::linorder"
  assumes "sorted_wrt (<) (map fst xs)"
    and "\<And>j k. start \<le> j \<Longrightarrow> j \<le> k \<Longrightarrow> P k \<Longrightarrow> P j"
  shows "takeWhile (\<lambda>x. P (fst x)) (dropWhile (\<lambda>x. fst x < start) xs)
    = filter (\<lambda>x. start \<le> fst x \<and> P (fst x)) xs"
  using assms(1)
proof (induction xs)
  case (Cons x xs)
  show ?case
  proof (cases "fst x < start")
    case True
    then have "\<not> start \<le> fst x" by simp
    with True Cons show ?thesis by simp
  next
    case False
    then have s: "start \<le> fst x" by simp
    have after: "\<forall>y\<in>set xs. fst x < fst y" using Cons.prems by simp
    then have "\<forall>y\<in>set xs. start \<le> fst y" using s by auto
    then have d: "dropWhile (\<lambda>x. fst x < start) xs = xs"
      by (cases xs) (auto simp: not_less)
    show ?thesis
    proof (cases "P (fst x)")
      case True
      with False s d Cons show ?thesis by simp
    next
      case nP: False
      have "\<not> P (fst y)" if "y \<in> set xs" for y
        using assms(2) [OF s, of "fst y"] after that nP by (meson less_imp_le)
      then have "filter (\<lambda>x. start \<le> fst x \<and> P (fst x)) xs = []" by (simp add: filter_empty_conv)
      with nP False show ?thesis by simp
    qed
  qed
qed simp

lemma om_range_takeWhile:
  assumes "\<And>j k. start \<le> j \<Longrightarrow> j \<le> k \<Longrightarrow> P k \<Longrightarrow> P j"
  shows "takeWhile (\<lambda>(k, _). P k) (om_range start m)
    = filter (\<lambda>(k, _). start \<le> k \<and> P k) (om_entries m)"
proof -
  have "takeWhile (\<lambda>x. P (fst x)) (dropWhile (\<lambda>x. fst x < start) (om_entries m))
      = filter (\<lambda>x. start \<le> fst x \<and> P (fst x)) (om_entries m)"
    by (rule takeWhile_filter_sorted [OF om.entries_sorted]) (rule assms)
  then show ?thesis by (simp add: om_range_def case_prod_unfold)
qed

text \<open>A range that is restricted by a prefix starts at that prefix.\<close>

definition range_wf :: "key_range \<Rightarrow> bool" where
  "range_wf r \<longleftrightarrow> (kr_prefix r \<and> kr_pfx r \<noteq> None \<longrightarrow> kr_min r = None)"

lemma sk_continues_closed:
  assumes "range_wf r" "initial_sk r \<le> x" "x \<le> y" "sk_continues r y"
  shows "sk_continues r x"
proof -
  have pfx: "starts_with p x" if "kr_prefix r" "kr_pfx r = Some p" for p
  proof -
    have "p \<le> x" using assms(1,2) that by (simp add: range_wf_def initial_sk_def unwrap_or_def)
    moreover have "starts_with p y" using assms(4) that by (simp add: sk_continues_def)
    ultimately show ?thesis using assms(3) starts_with_between by blast
  qed
  have mx: "x \<le> m" if "kr_lte r" "kr_max r = Some m" for m
    using assms(3,4) that by (auto simp: sk_continues_def not_less)
  show ?thesis using pfx mx by (auto simp: sk_continues_def not_less split: option.split)
qed

lemma query_primary_scan:
  assumes "range_wf r"
  shows "query_primary pk r s = map snd (filter
    (\<lambda>((p, sk), _). p = pk \<and> initial_sk r \<le> sk \<and> sk_continues r sk) (om_entries (items s)))"
proof -
  let ?P = "\<lambda>(p, sk). p = pk \<and> sk_continues r sk"
  have c: "?P j" if "(pk, initial_sk r) \<le> j" "j \<le> k" "?P k" for j k
    using that sk_continues_closed [OF assms] by (auto simp: less_eq_prod_def)
  have "query_primary pk r s = map snd (filter
      (\<lambda>(k, _). (pk, initial_sk r) \<le> k \<and> ?P k) (om_entries (items s)))"
    using om_range_takeWhile [where P = ?P and start = "(pk, initial_sk r)" and m = "items s"] c
    by (simp add: query_primary_def case_prod_unfold)
  also have "\<dots> = map snd (filter
      (\<lambda>((p, sk), _). p = pk \<and> initial_sk r \<le> sk \<and> sk_continues r sk) (om_entries (items s)))"
    by (intro arg_cong [where f = "map snd"] filter_cong) (auto simp: less_eq_prod_def)
  finally show ?thesis .
qed

section \<open>Indexed queries refine a scan\<close>

definition index_attr_names :: "secondary_index \<Rightarrow> string \<times> string" where
  "index_attr_names i = (case i of
      Avet \<Rightarrow> (''vp'', ''vs'') | Vaet \<Rightarrow> (''rp'', ''rs'') | _ \<Rightarrow> (''ap'', ''as''))"

text \<open>The rows a scan of the primary tree selects, keyed by the order the index promises.\<close>

definition scan_rows ::
  "secondary_index \<Rightarrow> string \<Rightarrow> key_range \<Rightarrow> partition_store \<Rightarrow> ((bytes \<times> primary_key) \<times> item) list" where
  "scan_rows i pk r s = List.map_filter (\<lambda>(key, it).
     case extract_index_key it (fst (index_attr_names i)) (snd (index_attr_names i)) of
       None \<Rightarrow> None
     | Some (ip, isk) \<Rightarrow>
         if ip = pk \<and> initial_sk r \<le> isk \<and> sk_continues r isk then Some ((isk, key), it) else None)
     (om_entries (items s))"

definition scan_query :: "secondary_index \<Rightarrow> string \<Rightarrow> key_range \<Rightarrow> partition_store \<Rightarrow> item list" where
  "scan_query i pk r s = map snd (sort_key fst (scan_rows i pk r s))"

lemma store_wf_tree:
  assumes "store_wf s"
  shows "idx_exact (fst (index_attr_names i)) (snd (index_attr_names i)) (items s) (index_tree i s)"
  using assms by (cases i) (simp_all add: store_wf_def index_attr_names_def index_tree_def)

lemma set_scan_rows:
  "((isk, key), it) \<in> set (scan_rows i pk r s) \<longleftrightarrow>
     om_get (items s) key = Some it
     \<and> extract_index_key it (fst (index_attr_names i)) (snd (index_attr_names i)) = Some (pk, isk)
     \<and> initial_sk r \<le> isk \<and> sk_continues r isk"
proof -
  have *: "((isk, key), it) \<in> set (List.map_filter f xs) \<longleftrightarrow> (\<exists>x\<in>set xs. f x = Some ((isk, key), it))"
    for f :: "primary_key \<times> item \<Rightarrow> ((bytes \<times> primary_key) \<times> item) option" and xs
    by (force simp: List.map_filter_def)
  show ?thesis
    unfolding scan_rows_def * om.in_entries_iff [symmetric]
    by (auto split: option.splits if_splits intro!: bexI [of _ "(key, it)"])
qed

lemma map_filter_total:
  "(\<And>x. x \<in> set xs \<Longrightarrow> f x = Some (g x)) \<Longrightarrow> List.map_filter f xs = map g xs"
  by (induction xs) (simp_all add: List.map_filter_simps)

lemma distinct_map_filter:
  assumes "distinct (map fst xs)" "\<And>x y. f x = Some y \<Longrightarrow> snd (fst y) = fst x"
  shows "distinct (map (\<lambda>y. snd (fst y)) (List.map_filter f xs))"
proof -
  have sub: "(\<lambda>y. snd (fst y)) ` set (List.map_filter f ys) \<subseteq> fst ` set ys" for ys
    using assms(2) by (force simp: List.map_filter_def)
  show ?thesis using assms(1)
  proof (induction xs)
    case (Cons x xs)
    show ?case
    proof (cases "f x")
      case None
      then show ?thesis using Cons by (simp add: List.map_filter_simps)
    next
      case (Some y)
      have "fst x \<notin> fst ` set xs" using Cons.prems by simp
      then show ?thesis
        using Cons assms(2) [OF Some] sub [of xs] Some by (auto simp: List.map_filter_simps)
    qed
  qed (simp add: List.map_filter_simps)
qed

lemma distinct_scan_rows: "distinct (map fst (scan_rows i pk r s))"
proof -
  have "distinct (map (\<lambda>y. snd (fst y)) (scan_rows i pk r s))"
    unfolding scan_rows_def by (rule distinct_map_filter [OF om.entries_distinct])
      (auto split: option.splits if_splits)
  then have "distinct (map snd (map fst (scan_rows i pk r s)))" by (simp add: comp_def)
  then show ?thesis by (simp only: distinct_map)
qed

lemma query_secondary_scan:
  assumes "store_wf s" "range_wf r"
  shows "query_secondary i pk r s = scan_query i pk r s"
proof -
  let ?tree = "index_tree i s"
  let ?P = "\<lambda>(p, sk, key :: primary_key). p = pk \<and> sk_continues r sk"
  let ?start = "(pk, initial_sk r, ([], []) :: primary_key)"
  define es where "es = filter (\<lambda>(k, _). ?start \<le> k \<and> ?P k) (om_entries ?tree)"
  let ?row = "\<lambda>((p, sk, key), _ :: unit). ((sk, key), the (om_get (items s) key))"
  have least: "([], []) \<le> (key :: primary_key)" for key by (cases key) (simp add: less_eq_prod_def)
  have c: "?P j" if "?start \<le> j" "j \<le> k" "?P k" for j k
    using that sk_continues_closed [OF assms(2)] by (auto simp: less_eq_prod_def less_le)
  have tw: "takeWhile (\<lambda>(k, _). ?P k) (om_range ?start ?tree) = es"
    unfolding es_def using om_range_takeWhile [where P = ?P and start = ?start and m = ?tree] c by blast
  have mem: "((p, sk, key), u) \<in> set es \<longleftrightarrow> p = pk \<and> initial_sk r \<le> sk \<and> sk_continues r sk \<and>
      (\<exists>it. om_get (items s) key = Some it \<and> extract_index_key it (fst (index_attr_names i))
         (snd (index_attr_names i)) = Some (pk, sk))" for p sk key u
  proof -
    have "om_get ?tree (p, sk, key) = Some u \<longleftrightarrow>
      (\<exists>it. om_get (items s) key = Some it \<and> extract_index_key it (fst (index_attr_names i))
         (snd (index_attr_names i)) = Some (p, sk))"
      using store_wf_tree [OF assms(1), of i] by (cases key) (auto simp: idx_exact_def om_mem_def)
    then show ?thesis using least [of key]
      by (cases key) (auto simp: es_def om.in_entries_iff less_eq_prod_def)
  qed
  have "query_secondary i pk r s = List.map_filter (\<lambda>((_, _, key), _). om_get (items s) key) es"
    unfolding query_secondary_def tw [symmetric] by (simp add: case_prod_unfold)
  also have "\<dots> = map (\<lambda>x. snd (?row x)) es"
  proof (rule map_filter_total)
    fix x assume x: "x \<in> set es"
    obtain p sk key u where e: "x = ((p, sk, key), u)" by (cases x) auto
    show "(\<lambda>((_, _, key), _). om_get (items s) key) x = Some (snd (?row x))"
      using mem [of p sk key u] x unfolding e by auto
  qed
  also have "\<dots> = map snd (map ?row es)" by simp
  also have "map ?row es = sort_key fst (scan_rows i pk r s)"
  proof (rule map_sorted_distinct_set_unique [where f = fst])
    have str: "sorted_wrt (<) (map fst es)"
      using om.entries_sorted [of ?tree] by (simp add: es_def sorted_wrt_map sorted_wrt_filter)
    have row: "fst (?row x) < fst (?row y)"
      if xy: "x \<in> set es" "y \<in> set es" and less: "fst x < fst y" for x y
    proof -
      have "\<exists>k u. x = ((pk, k), u)" if "x \<in> set es" for x
      proof -
        obtain p sk key u where "x = ((p, sk, key), u)" by (metis prod.exhaust)
        then show ?thesis using that mem [of p sk key u] by simp
      qed
      then obtain k u l v where e: "x = ((pk, k), u)" "y = ((pk, l), v)" using xy by blast
      then have "k < l" using less by (simp add: less_prod_def)
      then show ?thesis unfolding e by (cases k; cases l) simp
    qed
    have "sorted_wrt (\<lambda>x y. fst (?row x) < fst (?row y)) es"
      by (rule sorted_wrt_mono_rel [OF row]) (use str in \<open>simp_all only: sorted_wrt_map\<close>)
    then have "sorted_wrt (<) (map fst (map ?row es))" by (simp only: sorted_wrt_map)
    then show "sorted (map fst (map ?row es))" "distinct (map fst (map ?row es))"
      using strict_sorted_iff by blast+
    show "set (map ?row es) = set (sort_key fst (scan_rows i pk r s))"
    proof (rule set_eqI)
      fix z :: "(bytes \<times> primary_key) \<times> item"
      obtain isk key it where z: "z = ((isk, key), it)" by (cases z) auto
      have "z \<in> set (map ?row es) \<longleftrightarrow>
          (\<exists>p u. ((p, isk, key), u) \<in> set es \<and> it = the (om_get (items s) key))"
        unfolding z by force
      also have "\<dots> \<longleftrightarrow> z \<in> set (scan_rows i pk r s)"
        unfolding z set_scan_rows mem by auto
      finally show "z \<in> set (map ?row es) \<longleftrightarrow> z \<in> set (sort_key fst (scan_rows i pk r s))" by simp
    qed
    then show "inj_on fst (set (map ?row es) \<union> set (sort_key fst (scan_rows i pk r s)))"
      by (auto simp: inj_on_def set_scan_rows)
    show "distinct (map fst (sort_key fst (scan_rows i pk r s)))"
      using distinct_scan_rows [of i pk r s] by (simp add: distinct_map)
  qed simp
  finally show ?thesis by (simp add: scan_query_def)
qed

end
