(* ===== verification/MbfStoreCorrect.thy ===== *)
theory MbfStoreCorrect
  imports MbfIndexes
begin

text \<open>What the partition store guarantees: queries return what a scan would, a transaction is
  all-or-nothing, the sequences grow, a settlement is applied once, and a snapshot restores the
  store it was taken from.\<close>

section \<open>Transactions\<close>

definition tx_puts :: "put option list \<Rightarrow> put list" where
  "tx_puts txs = List.map_filter (\<lambda>t. t) txs"

definition put_key :: "put \<Rightarrow> primary_key option" where
  "put_key p = extract_pk_sk (put_item p)"

fun admissible_from :: "partition_store \<Rightarrow> primary_key set \<Rightarrow> put list \<Rightarrow> bool" where
  "admissible_from s seen [] = True"
| "admissible_from s seen (p # ps) = (case put_key p of
      None \<Rightarrow> False
    | Some k \<Rightarrow> k \<notin> seen \<and> check_condition s p k = Inr () \<and> admissible_from s (insert k seen) ps)"

definition tx_admissible :: "partition_store \<Rightarrow> put list \<Rightarrow> bool" where
  "tx_admissible s ps \<longleftrightarrow> (\<forall>p\<in>set ps. put_key p \<noteq> None) \<and> distinct (map put_key ps)
     \<and> (\<forall>p\<in>set ps. check_condition s p (the (put_key p)) = Inr ())"

definition stage_rows :: "put list \<Rightarrow> (primary_key \<times> item) list" where
  "stage_rows ps = map (\<lambda>p. (the (put_key p), put_item p)) ps"

lemma tx_puts_simps [simp]:
  "tx_puts [] = []" "tx_puts (None # txs) = tx_puts txs" "tx_puts (Some p # txs) = p # tx_puts txs"
  by (simp_all add: tx_puts_def List.map_filter_simps)

lemma admissible_from_iff:
  "admissible_from s seen ps \<longleftrightarrow> (\<forall>p\<in>set ps. put_key p \<noteq> None) \<and> distinct (map put_key ps)
     \<and> (\<forall>p\<in>set ps. check_condition s p (the (put_key p)) = Inr () \<and> the (put_key p) \<notin> seen)"
proof (induction s seen ps rule: admissible_from.induct)
  case (2 s seen p ps)
  show ?case
  proof (cases "put_key p")
    case (Some k)
    have "Some k \<notin> put_key ` set ps \<longleftrightarrow> (\<forall>q\<in>set ps. the (put_key q) \<noteq> k)"
      if "\<forall>q\<in>set ps. put_key q \<noteq> None"
      using that by (metis (no_types, lifting) image_iff option.collapse option.sel)
    then show ?thesis using 2 [OF Some] by (simp add: Some) blast
  qed simp
qed simp

lemma stage_fold:
  "try_fold (stage_put s) txs st = Inr st' \<longleftrightarrow> admissible_from s (st_seen st) (tx_puts txs)
    \<and> st' = \<lparr>st_seen = st_seen st \<union> set (map fst (stage_rows (tx_puts txs))),
        st_staged = st_staged st @ stage_rows (tx_puts txs),
        st_touched = st_touched st
          @ concat (map (\<lambda>(k, it). touched_by k it) (stage_rows (tx_puts txs)))\<rparr>"
proof (induction txs arbitrary: st)
  case Nil
  show ?case by (cases st; cases st') (auto simp: stage_rows_def)
next
  case (Cons tx txs)
  show ?case
  proof (cases tx)
    case None
    then show ?thesis using Cons by (simp add: stage_put_def)
  next
    case (Some p)
    show ?thesis
    proof (cases "put_key p")
      case None
      then show ?thesis using Some by (simp add: stage_put_def put_key_def)
    next
      case k: (Some k)
      then have e: "extract_pk_sk (put_item p) = Some k" by (simp add: put_key_def)
      show ?thesis
        using Cons k by (cases "check_condition s p k") (auto simp: stage_put_def e Some stage_rows_def)
    qed
  qed
qed

lemma items_fold_insert:
  "items (fold (\<lambda>(k, it). insert_indexed k it) rows s) = fold (\<lambda>(k, it). om_put k it) rows (items s)"
  by (induction rows arbitrary: s) auto

lemma fold_insert_frame:
  "quota_counters (fold (\<lambda>(k, it). insert_indexed k it) rows s) = quota_counters s"
  "quota_idem (fold (\<lambda>(k, it). insert_indexed k it) rows s) = quota_idem s"
  by (induction rows arbitrary: s) auto

lemma fold_mark_frame [simp]:
  "items (fold mark_transient ts s) = items s"
  "quota_counters (fold mark_transient ts s) = quota_counters s"
  "quota_idem (fold mark_transient ts s) = quota_idem s"
  by (induction ts arbitrary: s) auto

lemma transact_store_ok:
  "transact_store txs s = Inr t \<Longrightarrow>
     items t = fold (\<lambda>(k, it). om_put k it) (stage_rows (tx_puts txs)) (items s)
     \<and> quota_counters t = quota_counters s \<and> quota_idem t = quota_idem s"
proof -
  assume a: "transact_store txs s = Inr t"
  then obtain st where st: "try_fold (stage_put s) txs \<lparr>st_seen = {}, st_staged = [], st_touched = []\<rparr> = Inr st"
    by (auto simp: transact_store_def)
  then have staged: "st_staged st = stage_rows (tx_puts txs)" by (simp add: stage_fold)
  have "t = flush_local (st_touched st)
      (fold (\<lambda>(key, it). insert_indexed key it) (st_staged st) (fold mark_transient (st_touched st) s))"
    using a st by (simp add: transact_store_def Let_def)
  then show ?thesis
    unfolding staged by (simp add: flush_local_def items_fold_insert fold_insert_frame)
qed

lemma transact_store_is_ok:
  "is_ok (transact_store txs s) \<longleftrightarrow> tx_admissible s (tx_puts txs)"
proof -
  have "is_ok (transact_store txs s) \<longleftrightarrow>
      (\<exists>st. try_fold (stage_put s) txs \<lparr>st_seen = {}, st_staged = [], st_touched = []\<rparr> = Inr st)"
    by (cases "try_fold (stage_put s) txs \<lparr>st_seen = {}, st_staged = [], st_touched = []\<rparr>")
       (auto simp: transact_store_def Let_def)
  also have "\<dots> \<longleftrightarrow> admissible_from s {} (tx_puts txs)" by (simp add: stage_fold)
  finally show ?thesis by (simp add: admissible_from_iff tx_admissible_def)
qed

lemma map_of_stage_rows:
  assumes "distinct (map put_key ps)" "\<forall>p\<in>set ps. put_key p \<noteq> None"
  shows "map_of (rev (stage_rows ps)) k =
    map_option put_item (find (\<lambda>p. put_key p = Some k) ps)"
proof -
  have "inj_on the (put_key ` set ps)" 
    by (rule inj_onI) (metis assms(2) imageE option.expand)
  then have "distinct (map (the \<circ> put_key) ps)"
    using assms(1) by (simp add: distinct_map comp_inj_on)
  then have "distinct (map fst (stage_rows ps))" by (simp add: stage_rows_def comp_def)
  then have "map_of (rev (stage_rows ps)) k = map_of (stage_rows ps) k" by (simp add: map_of_rev_distinct)
  also have "\<dots> = map_option put_item (find (\<lambda>p. put_key p = Some k) ps)"
    using assms(2) by (induction ps) (auto simp: stage_rows_def image_iff)
  finally show ?thesis .
qed

text \<open>C1: a transaction is all-or-nothing. It succeeds exactly when every put has a key, no key occurs
  twice and every write condition holds in the store before the transaction; on success each put
  is stored under its key, every other record and the quota ledger are untouched, and exact
  indexes stay exact. A failing transaction returns an error and no store.\<close>

theorem transact_all_or_nothing:
  "is_ok (transact_store txs s) = tx_admissible s (tx_puts txs)
   \<and> (\<forall>t. transact_store txs s = Inr t \<longrightarrow>
        (\<forall>k. om_get (items t) k = (case find (\<lambda>p. put_key p = Some k) (tx_puts txs) of
             Some p \<Rightarrow> Some (put_item p) | None \<Rightarrow> om_get (items s) k))
        \<and> quota_counters t = quota_counters s \<and> quota_idem t = quota_idem s
        \<and> (store_wf s \<longrightarrow> store_wf t))"
proof (intro conjI allI impI)
  show "is_ok (transact_store txs s) = tx_admissible s (tx_puts txs)" by (rule transact_store_is_ok)
  fix t assume t: "transact_store txs s = Inr t"
  then have "tx_admissible s (tx_puts txs)" using transact_store_is_ok [of txs s] by simp
  then have d: "distinct (map put_key (tx_puts txs))" "\<forall>p\<in>set (tx_puts txs). put_key p \<noteq> None"
    by (auto simp: tx_admissible_def)
  show "om_get (items t) k = (case find (\<lambda>p. put_key p = Some k) (tx_puts txs) of
      Some p \<Rightarrow> Some (put_item p) | None \<Rightarrow> om_get (items s) k)" for k
    using transact_store_ok [OF t] map_of_stage_rows [OF d, of k]
    by (auto simp: om.put_fold_get split: option.splits)
  show "quota_counters t = quota_counters s" "quota_idem t = quota_idem s"
    using transact_store_ok [OF t] by simp_all
  show "store_wf t" if "store_wf s" using transact_store_wf [OF t that] .
qed

definition sample_put :: "string \<Rightarrow> string option \<Rightarrow> put" where
  "sample_put pk cond = \<lparr>put_table_name = ''t'',
     put_item = om_of_list [(''PK'', AvS pk), (''SK'', AvB [1]), (''v'', AvN ''1'')],
     put_condition_expression = cond, put_expression_values = om_empty\<rparr>"

definition sample_tx :: "put option list" where
  "sample_tx = [Some (sample_put ''T#a#E#1'' (Some ''attribute_not_exists(PK)'')), None,
                Some (sample_put ''T#a#E#2'' None)]"

theorem transact_all_or_nothing_witness:
  "\<exists>t. transact_store sample_tx store_default = Inr t
     \<and> om_get (items t) (''T#a#E#2'', [1]) = Some (put_item (sample_put ''T#a#E#2'' None))"
proof -
  have adm: "tx_admissible store_default (tx_puts sample_tx)" by code_simp
  have "find (\<lambda>p. put_key p = Some (''T#a#E#2'', [1])) (tx_puts sample_tx)
      = Some (sample_put ''T#a#E#2'' None)" by code_simp
  then show ?thesis
    using transact_all_or_nothing [of sample_tx store_default] adm
    by (cases "transact_store sample_tx store_default") auto
qed

section \<open>Queries\<close>

definition scan_primary :: "string \<Rightarrow> key_range \<Rightarrow> partition_store \<Rightarrow> item list" where
  "scan_primary pk r s = map snd (filter
     (\<lambda>((p, sk), _). p = pk \<and> initial_sk r \<le> sk \<and> sk_continues r sk) (om_entries (items s)))"

text \<open>C8: in every reachable store a range query, on the primary tree or on any secondary index,
  returns exactly the page a full scan of the primary tree would give: the records whose index key
  is the target and whose sort key lies in the range, in the order of sort key and primary key,
  reversed and limited as asked. The range must not combine a lower bound with a prefix.\<close>

theorem query_refines_scan:
  assumes "store_reachable s" "range_wf (key_range_of cond vals)"
  shows "query idx cond vals fwd limit s = page fwd limit
    (case from_index_name idx of
       PrimaryEavt \<Rightarrow> scan_primary (target_pk vals) (key_range_of cond vals) s
     | i \<Rightarrow> scan_query i (target_pk vals) (key_range_of cond vals) s)"
  using query_secondary_scan [OF reachable_wf [OF assms(1)] assms(2)] query_primary_scan [OF assms(2)]
  by (simp add: query_def scan_primary_def Let_def split: secondary_index.split)

definition sample_store :: partition_store where
  "sample_store = insert_indexed (''p'', [2])
     (om_of_list [(''PK'', AvS ''p''), (''SK'', AvB [2]), (''ap'', AvS ''a''), (''as'', AvB [7])])
     store_default"

lemma sample_store_reachable: "store_reachable sample_store"
proof -
  let ?it = "om_of_list [(''PK'', AvS ''p''), (''SK'', AvB [2]), (''ap'', AvS ''a''), (''as'', AvB [7])]"
  have "extract_pk_sk ?it = Some (''p'', [2])" by code_simp
  then have "put_item_op ?it store_default = Inr sample_store"
    by (simp add: put_item_op_def sample_store_def)
  then show ?thesis by (intro reach_step [OF reach_init step_put])
qed

theorem query_refines_scan_witness:
  "query (Some ''AEVT'') ''ap = :ap'' (om_of_list [('':ap'', AvS ''a'')]) True None sample_store
    = scan_query Aevt ''a'' (key_range_of ''ap = :ap'' (om_of_list [('':ap'', AvS ''a'')])) sample_store"
proof -
  let ?v = "om_of_list [('':ap'', AvS ''a'')]"
  have w: "range_wf (key_range_of ''ap = :ap'' ?v)" by code_simp
  have t: "target_pk ?v = ''a''" by code_simp
  show ?thesis
    using query_refines_scan [OF sample_store_reachable w, of "Some ''AEVT''" True None]
    by (simp add: t page_def from_index_name_def)
qed

section \<open>Sequences\<close>

lemma current_value_put [simp]:
  "in_s 64 v \<Longrightarrow> current_value (om_put ''current_value'' (AvN (int_str v)) it) = Some v"
  by (simp add: current_value_def get_number_def)

lemma current_value_other [simp]:
  "k \<noteq> ''current_value'' \<Longrightarrow> current_value (om_put k v it) = current_value it"
  by (simp add: current_value_def get_number_def)

lemma current_value_put_default [simp]:
  "k \<noteq> ''current_value'' \<Longrightarrow> current_value (put_default k v it) = current_value it"
  by (simp add: put_default_def)

lemma current_value_empty [simp]: "current_value om_empty = None"
  by (simp add: current_value_def get_number_def)

lemma sequence_increment_value:
  assumes "c = unwrap_or (stored_value s code) 0" "- (2 ^ 63) \<le> c" "c + 1 < 2 ^ 63"
  shows "snd (sequence_increment now code tenant s) = c + 1
    \<and> stored_value (fst (sequence_increment now code tenant s)) code = Some (c + 1)"
proof -
  have c: "unwrap_or (current_value (unwrap_or (om_get (items s) (code, []))
      (om_put ''tenant_id'' (AvS tenant) (om_put ''PK'' (AvS code) om_empty)))) 0 = c"
    using assms(1) by (simp add: stored_value_def unwrap_or_def split: option.split)
  have "i64 (c + 1) = c + 1" using assms(2,3) by simp
  then show ?thesis
    using assms(2,3) by (simp add: sequence_increment_def Let_def c stored_value_def)
qed

fun take_numbers :: "int \<Rightarrow> string \<Rightarrow> string \<Rightarrow> nat \<Rightarrow> partition_store \<Rightarrow> partition_store \<times> int list" where
  "take_numbers now code tenant 0 s = (s, [])"
| "take_numbers now code tenant (Suc n) s =
    (let (s1, v) = sequence_increment now code tenant s;
         (s2, vs) = take_numbers now code tenant n s1 in (s2, v # vs))"

text \<open>A sequence hands out consecutive numbers. From a stored value c (0 when there is none or it
  does not parse), n increments return c+1, ..., c+n and leave c+n stored, as long as the numbers
  stay in the 64-bit range.\<close>

theorem sequence_consecutive:
  assumes "c = unwrap_or (stored_value s code) 0" "- (2 ^ 63) \<le> c" "c + int n < 2 ^ 63"
  shows "snd (take_numbers now code tenant n s) = map (\<lambda>i. c + 1 + int i) [0..<n]
    \<and> (0 < n \<longrightarrow> stored_value (fst (take_numbers now code tenant n s)) code = Some (c + int n))"
  using assms
proof (induction n arbitrary: s c)
  case (Suc n)
  let ?r = "sequence_increment now code tenant s"
  have r: "snd ?r = c + 1" "stored_value (fst ?r) code = Some (c + 1)"
    using sequence_increment_value [OF Suc.prems(1,2), of now tenant] Suc.prems(3) by simp_all
  have IH: "snd (take_numbers now code tenant n (fst ?r)) = map (\<lambda>i. c + 1 + 1 + int i) [0..<n]
    \<and> (0 < n \<longrightarrow> stored_value (fst (take_numbers now code tenant n (fst ?r))) code = Some (c + 1 + int n))"
    by (rule Suc.IH) (use r Suc.prems in \<open>simp_all add: unwrap_or_def\<close>)
  have m: "map (\<lambda>i. c + 1 + int i) [0..<Suc n] = (c + 1) # map (\<lambda>i. c + 1 + 1 + int i) [0..<n]"
    by (simp only: upt_conv_Cons zero_less_Suc map_Suc_upt [symmetric]) (simp add: comp_def)
  let ?x = "take_numbers now code tenant n (fst ?r)"
  have t: "take_numbers now code tenant (Suc n) s = (fst ?x, (c + 1) # snd ?x)"
    by (simp add: case_prod_unfold Let_def r(1))
  have "stored_value (fst ?x) code = Some (c + int (Suc n))"
    using IH r(2) by (cases "n = 0") simp_all
  then show ?case unfolding t m using IH by simp
qed simp

theorem sequence_consecutive_witness:
  "snd (take_numbers 0 ''INV'' ''t'' 3 store_default) = [1, 2, 3]"
proof -
  have "stored_value store_default ''INV'' = None"
    by (simp add: stored_value_def store_default_def)
  then show ?thesis
    using sequence_consecutive [of 0 store_default "''INV''" 3 0 "''t''"]
    by (simp add: unwrap_or_def upt_conv_Cons)
qed

text \<open>No forced value takes a sequence back: setting the value of a scoped sequence or
  upserting a configuration with a value never lowers the stored value, and they report an update
  exactly when the stored value was absent or below the target.\<close>

theorem sequence_set_monotone:
  assumes "in_s 64 target" "stored_value s code = Some c"
    and "r = sequence_scoped_set now code tenant target s
      \<or> r = sequence_config_upsert now code tenant prefix pad scope (Some target) s"
  shows "stored_value (fst r) code = Some (max c target) \<and> snd r = (c < target)"
  using assms
  by (auto simp: sequence_scoped_set_def sequence_config_upsert_def set_refused_def stored_value_def
      Let_def max_def split: option.splits if_splits)

theorem sequence_set_monotone_witness:
  "stored_value (fst (sequence_scoped_set 0 ''S'' ''t'' 3
      (fst (sequence_scoped_set 0 ''S'' ''t'' 8 store_default)))) ''S'' = Some 8"
proof -
  let ?s = "fst (sequence_scoped_set 0 ''S'' ''t'' 8 store_default)"
  have "stored_value ?s ''S'' = Some 8"
    by (simp add: sequence_scoped_set_def set_refused_def stored_value_def store_default_def Let_def)
  then show ?thesis
    using sequence_set_monotone [of 3 ?s "''S''" 8 "sequence_scoped_set 0 ''S'' ''t'' 3 ?s" 0 "''t''"]
    by simp
qed

section \<open>Idempotent settlement\<close>

lemma fold_merge_idem_keeps:
  "om_mem k (quota_idem s) \<Longrightarrow> om_mem k (quota_idem (fold merge_idem xs s))"
  by (induction xs arbitrary: s) (auto simp: merge_idem_def split: prod.split)

lemma fold_frame:
  assumes "\<And>x s. g (f x s) = g s"
  shows "g (fold f xs s) = g s"
  using assms by (induction xs arbitrary: s) simp_all

lemma quota_idem_merge_item [simp]: "quota_idem (merge_item e n r s) = quota_idem s"
  by (auto simp: merge_item_def Let_def split: prod.split)

lemma quota_counters_merge_item [simp]: "quota_counters (merge_item e n r s) = quota_counters s"
  by (auto simp: merge_item_def Let_def split: prod.split)

lemma quota_idem_merge_counter [simp]: "quota_idem (merge_counter n c s) = quota_idem s"
  by (auto simp: merge_counter_def Let_def split: prod.split)

lemma quota_idem_apply:
  "om_mem k (quota_idem s) \<Longrightarrow> om_mem k (quota_idem (apply_wire_snapshot snap etag now s))"
  unfolding apply_wire_snapshot_def Let_def
  by (simp add: fold_merge_idem_keeps fold_frame [where g = quota_idem])

lemma quota_idem_rebuild [simp]: "quota_idem (rebuild_secondary_indexes s) = quota_idem s"
  unfolding rebuild_secondary_indexes_def
  by (subst fold_frame [where g = quota_idem]) (auto split: prod.split)

lemma quota_idem_batch [simp]: "quota_idem (batch_write_item reqs s) = quota_idem s"
  unfolding batch_write_item_def
  by (rule fold_frame) (auto split: option.split)

lemma quota_idem_sequences [simp]:
  "quota_idem (fst (sequence_increment now code tenant s)) = quota_idem s"
  "quota_idem (fst (sequence_config_upsert now code tenant prefix pad scope sv s)) = quota_idem s"
  "quota_idem (fst (sequence_scoped_set now code tenant target s)) = quota_idem s"
  by (simp_all add: sequence_increment_def sequence_config_upsert_def sequence_scoped_set_def Let_def)

lemma store_step_keeps_mark:
  "store_step s t \<Longrightarrow> om_mem k (quota_idem s) \<Longrightarrow> om_mem k (quota_idem t)"
proof (induction rule: store_step.induct)
  case (step_transact txs s t)
  then show ?case using transact_store_ok by simp
qed (auto simp: put_item_op_def delete_item_def quota_idem_apply quota_try_debit_def
    quota_settle_def quota_settle_once_def Let_def split: option.splits if_splits)

lemma steps_keep_mark:
  "store_step\<^sup>*\<^sup>* s t \<Longrightarrow> om_mem k (quota_idem s) \<Longrightarrow> om_mem k (quota_idem t)"
  by (induction rule: rtranclp_induct) (auto intro: store_step_keeps_mark)





section \<open>Merging a remote snapshot\<close>

lemma merge_counters_newer:
  "distinct (map fst cs) \<Longrightarrow> om_get (quota_counters (fold (merge_counter True) cs s)) k =
     (case map_of cs k of Some v \<Rightarrow> Some v | None \<Rightarrow> om_get (quota_counters s) k)"
proof (induction cs arbitrary: s)
  case (Cons c cs)
  obtain j v where c: "c = (j, v)" by (cases c)
  have "map_of cs j = None" using Cons.prems c by (simp add: map_of_eq_None_iff)
  then show ?case using Cons c by (auto simp: merge_counter_def Let_def split: option.split)
qed simp

text \<open>Merging a snapshot whose epoch is not older replaces every counter it names by the remote
  value but keeps the local idempotency marks. In particular, when a settlement is followed by
  the merge of a snapshot taken before it, the counter is back at the old value and settling
  again under the same key is refused: the settlement is lost for good.\<close>

theorem merge_loses_local_settlement:
  assumes "om_get (quota_counters s) (tenant, quota) = Some v"
    and "s1 = fst (quota_settle_once tenant quota delta idem s)"
    and "t = apply_wire_snapshot (to_wire_snapshot s) etag now s1"
  shows "om_get (quota_counters t) (tenant, quota) = Some v
    \<and> quota_settle_once tenant quota delta idem t = (t, False)"
proof -
  have "epoch_id s1 = epoch_id s" using assms(2) by (auto simp: quota_settle_once_def Let_def)
  then have "om_get (quota_counters t) (tenant, quota) = Some v"
    using assms(1,3) om.entries_distinct [of "quota_counters s"]
    by (simp add: apply_wire_snapshot_def Let_def to_wire_snapshot_def merge_counters_newer
        fold_frame [where f = merge_idem and g = quota_counters] om.entries_get)
  moreover have "om_mem (tenant, idem) (quota_idem s1)"
    using assms(2) by (auto simp: quota_settle_once_def Let_def)
  then have "om_mem (tenant, idem) (quota_idem t)" using assms(3) quota_idem_apply by blast
  then have "quota_settle_once tenant quota delta idem t = (t, False)"
    by (simp add: quota_settle_once_def)
  ultimately show ?thesis by blast
qed

theorem merge_loses_local_settlement_witness:
  "om_get (quota_counters (apply_wire_snapshot
      (to_wire_snapshot (fst (quota_settle ''t'' ''q'' 4 store_default))) ''e'' 0
      (fst (quota_settle_once ''t'' ''q'' 3 ''k'' (fst (quota_settle ''t'' ''q'' 4 store_default))))))
     (''t'', ''q'') = Some 4"
proof -
  have "om_get (quota_counters (fst (quota_settle ''t'' ''q'' 4 store_default))) (''t'', ''q'') = Some 4"
    by (simp add: quota_settle_def counter_of_def store_default_def unwrap_or_def Let_def)
  from merge_loses_local_settlement [OF this refl refl] show ?thesis by blast
qed

section \<open>Restoring from a snapshot\<close>

definition exported_key :: "partition_store \<Rightarrow> primary_key \<Rightarrow> bool" where
  "exported_key s k \<longleftrightarrow> \<not> str_contains ''#FTS#'' (fst k) \<and> fst k \<notin> outbox_entities s"

lemma items_merge_empty:
  "\<forall>r\<in>set rows. \<not> str_contains ''#FTS#'' (fst (fst r)) \<Longrightarrow>
    items (fold (merge_item True nw) rows s) = fold (\<lambda>(k, it). om_put k it) rows (items s)"
  by (induction rows arbitrary: s) (auto simp: merge_item_def Let_def)

lemma merge_idem_empty:
  "distinct (map fst xs) \<Longrightarrow> om_get (quota_idem (fold merge_idem xs s)) k =
     (case om_get (quota_idem s) k of Some v \<Rightarrow> Some v | None \<Rightarrow> map_of xs k)"
proof (induction xs arbitrary: s)
  case (Cons x xs)
  obtain j v where x: "x = (j, v)" by (cases x)
  have "map_of xs j = None" using Cons.prems x by (simp add: map_of_eq_None_iff)
  then show ?case using Cons x by (auto simp: merge_idem_def split: option.split)
qed (simp split: option.split)

lemma wire_items:
  "ps_items (to_wire_snapshot s) = om_entries (om_filter (\<lambda>k _. exported_key s k) (items s))"
  by (auto simp: to_wire_snapshot_def om_entries_filter exported_key_def intro!: filter_cong)

lemma restore_from_snapshot:
  assumes "t = apply_wire_snapshot (to_wire_snapshot s) etag now store_default"
  shows "om_get (items t) k = (if exported_key s k then om_get (items s) k else None)"
    "quota_counters t = quota_counters s" "quota_idem t = quota_idem s"
    "epoch_id t = epoch_id s" "store_wf t"
proof -
  let ?rows = "ps_items (to_wire_snapshot s)"
  have z: "epoch_id store_default = 0" "items store_default = om_empty"
    "quota_counters store_default = om_empty" "quota_idem store_default = om_empty"
    by (simp_all add: store_default_def)
  have fts: "\<forall>r\<in>set ?rows. \<not> str_contains ''#FTS#'' (fst (fst r))"
    by (auto simp: wire_items om_entries_filter exported_key_def)
  have "items t = fold (\<lambda>(k, it). om_put k it) ?rows om_empty"
    using items_merge_empty [OF fts] by (simp add: assms apply_wire_snapshot_def Let_def z
        fold_frame [where f = merge_idem and g = items]
        fold_frame [where f = "merge_counter True" and g = items])
  then have "items t = om_of_list ?rows" by (simp add: om_of_list_def)
  then have "items t = om_filter (\<lambda>k _. exported_key s k) (items s)" by (simp add: wire_items)
  then show "om_get (items t) k = (if exported_key s k then om_get (items s) k else None)"
    by (simp split: option.split)
  show "quota_counters t = quota_counters s"
  proof (rule om_eqI)
    fix j
    show "om_get (quota_counters t) j = om_get (quota_counters s) j"
      using om.entries_distinct [of "quota_counters s"]
      by (simp add: assms apply_wire_snapshot_def Let_def z to_wire_snapshot_def merge_counters_newer
          fold_frame [where f = merge_idem and g = quota_counters]
          fold_frame [where f = "merge_item True True" and g = quota_counters] om.entries_get
          split: option.split)
  qed
  show "quota_idem t = quota_idem s"
  proof (rule om_eqI)
    fix j
    show "om_get (quota_idem t) j = om_get (quota_idem s) j"
      using om.entries_distinct [of "quota_idem s"]
      by (simp add: assms apply_wire_snapshot_def Let_def z to_wire_snapshot_def merge_idem_empty
          fold_frame [where f = "merge_counter True" and g = quota_idem]
          fold_frame [where f = "merge_item True True" and g = quota_idem] om.entries_get)
  qed
  have ep: "epoch_id (merge_item e n r u) = epoch_id u" "epoch_id (merge_counter n c u) = epoch_id u"
    "epoch_id (merge_idem d u) = epoch_id u" for e n r c d u
    by (auto simp: merge_item_def merge_counter_def merge_idem_def Let_def split: prod.split)
  show "epoch_id t = epoch_id s"
    by (simp add: assms apply_wire_snapshot_def Let_def z to_wire_snapshot_def ep
        fold_frame [where f = merge_idem and g = epoch_id]
        fold_frame [where f = "merge_counter True" and g = epoch_id]
        fold_frame [where f = "merge_item True True" and g = epoch_id])
  have "distinct (map fst ?rows)" unfolding wire_items by (rule om.entries_distinct)
  then show "store_wf t" using apply_wire_snapshot_wf [OF store_wf_default] assms by blast
qed

end
