(* ===== verification/QuotaLedger.thy ===== *)
theory QuotaLedger
  imports MbfIndexes
begin

text \<open>The atomic quota counter (\<^verbatim>\<open>src/quota/ledger.rs\<close>): its outcomes, the contract \<^verbatim>\<open>QuotaCounter\<close> as a
  locale with the lemmas its clients use, and the implementation \<^verbatim>\<open>QuotaLedger\<close> over a partition
  store, which interprets the locale.\<close>

datatype debit_outcome = Debited int | Exhausted int int

datatype settle_outcome = Applied | AlreadyApplied

text \<open>A fallible operation on a state: the new state and the result.\<close>

type_synonym ('s, 'a) call = "'s \<Rightarrow> 's \<times> 'a res"

definition ledger_try_debit ::
  "string \<Rightarrow> string \<Rightarrow> int \<Rightarrow> int \<Rightarrow> int \<Rightarrow> (partition_store, debit_outcome) call" where
  "ledger_try_debit tenant quota amount limit seed s =
    (case quota_try_debit tenant quota amount limit seed s of
       (s', debited, usage) \<Rightarrow>
         (s', Inr (if debited then Debited usage else Exhausted usage limit)))"

definition ledger_settle :: "string \<Rightarrow> string \<Rightarrow> int \<Rightarrow> (partition_store, int) call" where
  "ledger_settle tenant quota delta s =
    (case quota_settle tenant quota delta s of (s', usage) \<Rightarrow> (s', Inr usage))"

definition ledger_settle_once ::
  "string \<Rightarrow> string \<Rightarrow> int \<Rightarrow> string \<Rightarrow> (partition_store, settle_outcome) call" where
  "ledger_settle_once tenant quota delta idem s =
    (case quota_settle_once tenant quota delta idem s of
       (s', applied) \<Rightarrow> (s', Inr (if applied then Applied else AlreadyApplied)))"

definition ledger_read_many ::
  "string \<Rightarrow> string list \<Rightarrow> (partition_store, (string, int) omap) call" where
  "ledger_read_many tenant ids s = (s, Inr (quota_read_many tenant ids s))"

definition ledger_release :: "string \<Rightarrow> string \<Rightarrow> int \<Rightarrow> (partition_store, unit) call" where
  "ledger_release tenant quota amount s =
    (case ledger_settle tenant quota (i64 (- amount)) s of
       (s', r) \<Rightarrow> (s', rbind r (\<lambda>_. Inr ())))"

definition usage :: "partition_store \<Rightarrow> string \<Rightarrow> string \<Rightarrow> int" where
  "usage s tenant quota = counter_of s tenant quota 0"

definition settled :: "partition_store \<Rightarrow> string \<Rightarrow> string \<Rightarrow> bool" where
  "settled s tenant idem = om_mem (tenant, idem) (quota_idem s)"

section \<open>The contract\<close>

locale quota_counter =
  fixes debit :: "string \<Rightarrow> string \<Rightarrow> int \<Rightarrow> int \<Rightarrow> int \<Rightarrow> ('s, debit_outcome) call"
    and settle_once :: "string \<Rightarrow> string \<Rightarrow> int \<Rightarrow> string \<Rightarrow> ('s, settle_outcome) call"
    and value_of :: "'s \<Rightarrow> string \<Rightarrow> string \<Rightarrow> int"
    and mark :: "'s \<Rightarrow> string \<Rightarrow> string \<Rightarrow> bool"
  assumes settle_once_result:
      "snd (settle_once t q d k s) = Inr (if mark s t k then AlreadyApplied else Applied)"
    and settle_once_mark: "mark (fst (settle_once t q d k s)) u j \<longleftrightarrow> mark s u j \<or> u = t \<and> j = k"
    and settle_once_noop: "mark s t k \<Longrightarrow> fst (settle_once t q d k s) = s"
    and settle_once_value: "\<not> mark s t k \<Longrightarrow> value_of (fst (settle_once t q d k s)) u p =
        (if u = t \<and> p = q then max (i64 (value_of s t q + d)) 0 else value_of s u p)"
    and debit_mark: "mark (fst (debit t q a l z s)) u j = mark s u j"
    and debit_refused: "snd (debit t q a l z s) = Inr (Exhausted c m) \<Longrightarrow> fst (debit t q a l z s) = s"
    and debit_other: "(u, p) \<noteq> (t, q) \<Longrightarrow> value_of (fst (debit t q a l z s)) u p = value_of s u p"
begin

lemma settle_twice:
  "settle_once t q' d' k (fst (settle_once t q d k s))
    = (fst (settle_once t q d k s), Inr AlreadyApplied)"
proof -
  let ?s = "fst (settle_once t q d k s)"
  have m: "mark ?s t k" by (simp add: settle_once_mark)
  show ?thesis
    using settle_once_noop [OF m, of q' d'] settle_once_result [of t q' d' k ?s] m
    by (metis prod.collapse)
qed

text \<open>Only the first settlement of a key counts, whoever settles and with whatever amount.\<close>

lemma settle_many:
  assumes "mark s t k"
  shows "fold (\<lambda>(q, d) s. fst (settle_once t q d k s)) xs s = s"
  using assms by (induction xs) (auto simp: settle_once_noop)

lemma settle_first_wins:
  "fold (\<lambda>(q, d) s. fst (settle_once t q d k s)) ((q, d) # xs) s = fst (settle_once t q d k s)"
  by (simp add: settle_many settle_once_mark)

end

lemma usage_settle_once:
  "usage (fst (quota_settle_once t q d k s)) u p =
    (if \<not> settled s t k \<and> u = t \<and> p = q then max (i64 (usage s t q + d)) 0 else usage s u p)"
  by (auto simp: usage_def settled_def quota_settle_once_def counter_of_def unwrap_or_def Let_def)

interpretation ledger: quota_counter ledger_try_debit ledger_settle_once usage settled
proof
  fix t q k u j p :: string and d a l z c m :: int and s :: partition_store
  show "snd (ledger_settle_once t q d k s) = Inr (if settled s t k then AlreadyApplied else Applied)"
    by (simp add: ledger_settle_once_def settled_def quota_settle_once_def Let_def)
  show "settled (fst (ledger_settle_once t q d k s)) u j \<longleftrightarrow> settled s u j \<or> u = t \<and> j = k"
    by (auto simp: ledger_settle_once_def settled_def quota_settle_once_def Let_def)
  show "settled s t k \<Longrightarrow> fst (ledger_settle_once t q d k s) = s"
    by (simp add: ledger_settle_once_def settled_def quota_settle_once_def)
  show "\<not> settled s t k \<Longrightarrow> usage (fst (ledger_settle_once t q d k s)) u p =
        (if u = t \<and> p = q then max (i64 (usage s t q + d)) 0 else usage s u p)"
    by (simp add: ledger_settle_once_def usage_settle_once case_prod_unfold)
  show "settled (fst (ledger_try_debit t q a l z s)) u j = settled s u j"
    by (simp add: ledger_try_debit_def settled_def quota_try_debit_def Let_def)
  show "snd (ledger_try_debit t q a l z s) = Inr (Exhausted c m) \<Longrightarrow>
      fst (ledger_try_debit t q a l z s) = s"
    by (auto simp: ledger_try_debit_def quota_try_debit_def Let_def split: if_splits)
  show "(u, p) \<noteq> (t, q) \<Longrightarrow> usage (fst (ledger_try_debit t q a l z s)) u p = usage s u p"
    by (auto simp: ledger_try_debit_def quota_try_debit_def usage_def counter_of_def unwrap_or_def
        Let_def)
qed

end
