(* ===== verification/QuotaReservations.thy ===== *)
theory QuotaReservations
  imports QuotaLedger
begin

text \<open>Reservation tickets and their store (\<^verbatim>\<open>src/quota/reservations.rs\<close>): the ticket, its states, the
  contract \<^verbatim>\<open>ReservationStore\<close> as a locale, the in-memory store that interprets it, the wire form of
  a ticket, the idempotency keys and the sweep shard of an id. The clock is an argument.\<close>

definition SWEEP_SHARDS :: nat where "SWEEP_SHARDS = 16"

datatype reservation_status = ROpen | RClosed

datatype close_reason = Settled | Expired | Abandoned | Rejected

primrec close_reason_str :: "close_reason \<Rightarrow> string" where
  "close_reason_str Settled = ''SETTLED''"
| "close_reason_str Expired = ''EXPIRED''"
| "close_reason_str Abandoned = ''ABANDONED''"
| "close_reason_str Rejected = ''REJECTED''"

definition close_reason_parse :: "string \<Rightarrow> close_reason" where
  "close_reason_parse raw =
    (if raw = ''EXPIRED'' then Expired else if raw = ''ABANDONED'' then Abandoned
     else if raw = ''REJECTED'' then Rejected else Settled)"

lemma close_reason_roundtrip [simp]: "close_reason_parse (close_reason_str r) = r"
  by (cases r) (simp_all add: close_reason_parse_def)

record reservation =
  rv_id :: string
  rv_tenant :: string
  rv_quota :: string
  rv_estimated :: int
  rv_debited :: bool
  rv_expires_at :: int

datatype claim_result =
    Claimed reservation
  | Leased reservation
  | ClaimClosed reservation close_reason
  | ClaimNotFound

section \<open>Identifiers\<close>

definition wire_id :: "string \<Rightarrow> string \<Rightarrow> string" where
  "wire_id tenant rid = tenant @ '':'' @ rid"

definition split_wire_id :: "string \<Rightarrow> (string \<times> string) option" where
  "split_wire_id wire = Option.bind (split_once '':'' wire) (\<lambda>(tenant, rid).
     if tenant = [] \<or> rid = [] \<or> CHR '':'' \<in> set rid then None else Some (tenant, rid))"

definition settlement_key :: "string \<Rightarrow> string" where
  "settlement_key rid = rid @ ''#final''"

definition late_charge_key :: "string \<Rightarrow> string" where
  "late_charge_key rid = rid @ ''#late''"

definition shard_of :: "string \<Rightarrow> nat" where
  "shard_of rid =
     unat (fold (\<lambda>b h. (xor h (ucast b)) * 0x00000100000001b3) (str_bytes rid)
       (0xcbf29ce484222325 :: 64 word)) mod SWEEP_SHARDS"

lemma shard_of_less: "shard_of rid < SWEEP_SHARDS"
  by (simp add: shard_of_def SWEEP_SHARDS_def)

lemma keys_distinct [simp]: "settlement_key a \<noteq> late_charge_key b"
proof
  assume "settlement_key a = late_charge_key b"
  then have "last (settlement_key a) = last (late_charge_key b)" by simp
  then show False by (simp add: settlement_key_def late_charge_key_def)
qed

lemma settlement_key_inject [simp]: "settlement_key a = settlement_key b \<longleftrightarrow> a = b"
  by (simp add: settlement_key_def)

lemma split_once_first:
  "c \<notin> set x \<Longrightarrow> split_once [c] (x @ c # y) = Some (x, y)"
  by (induction x) (auto simp: strip_prefix_def)

section \<open>The store\<close>

record stored =
  so_reservation :: reservation
  so_status :: reservation_status
  so_lease_until :: int
  so_close_reason :: close_reason

type_synonym reservations = "(string, stored) omap"

definition store_key :: "string \<Rightarrow> string \<Rightarrow> string" where
  "store_key tenant rid = tenant @ ''#'' @ rid"

definition mem_open :: "reservation \<Rightarrow> (reservations, unit) call" where
  "mem_open r m = (om_put (store_key (rv_tenant r) (rv_id r))
     \<lparr>so_reservation = r, so_status = ROpen, so_lease_until = 0, so_close_reason = Settled\<rparr> m, Inr ())"

definition mem_mark_debited :: "string \<Rightarrow> string \<Rightarrow> (reservations, unit) call" where
  "mem_mark_debited tenant rid m = (case om_get m (store_key tenant rid) of
      None \<Rightarrow> (m, Inr ())
    | Some st \<Rightarrow> (om_put (store_key tenant rid)
        (st\<lparr>so_reservation := (so_reservation st)\<lparr>rv_debited := True\<rparr>\<rparr>) m, Inr ()))"

definition mem_claim :: "int \<Rightarrow> string \<Rightarrow> string \<Rightarrow> int \<Rightarrow> (reservations, claim_result) call" where
  "mem_claim now tenant rid lease m = (case om_get m (store_key tenant rid) of
      None \<Rightarrow> (m, Inr ClaimNotFound)
    | Some st \<Rightarrow>
        if so_status st = RClosed then (m, Inr (ClaimClosed (so_reservation st) (so_close_reason st)))
        else if so_lease_until st > now then (m, Inr (Leased (so_reservation st)))
        else (om_put (store_key tenant rid) (st\<lparr>so_lease_until := i64 (now + lease)\<rparr>) m,
              Inr (Claimed (so_reservation st))))"

definition mem_close :: "string \<Rightarrow> string \<Rightarrow> close_reason \<Rightarrow> (reservations, unit) call" where
  "mem_close tenant rid reason m = (case om_get m (store_key tenant rid) of
      None \<Rightarrow> (m, Inr ())
    | Some st \<Rightarrow> (om_put (store_key tenant rid)
        (st\<lparr>so_status := RClosed, so_close_reason := reason, so_lease_until := 0\<rparr>) m, Inr ()))"

definition mem_sweep :: "nat \<Rightarrow> int \<Rightarrow> int \<Rightarrow> (reservations, reservation list) call" where
  "mem_sweep shard now limit m = (m, Inr (map so_reservation (take (nat (max limit 0))
     (filter (\<lambda>st. shard_of (rv_id (so_reservation st)) = shard)
       (filter (\<lambda>st. rv_expires_at (so_reservation st) < now)
         (filter (\<lambda>st. so_status st = ROpen) (om_values m)))))))"

definition open_count :: "reservations \<Rightarrow> nat" where
  "open_count m = length (filter (\<lambda>st. so_status st = ROpen) (om_values m))"

section \<open>The contract\<close>

text \<open>\<^verbatim>\<open>ticket s t i\<close> is the ticket \<^verbatim>\<open>i\<close> of tenant \<^verbatim>\<open>t\<close> with its status, lease end and close reason.\<close>

locale reservation_store =
  fixes op_open :: "reservation \<Rightarrow> ('s, unit) call"
    and op_mark :: "string \<Rightarrow> string \<Rightarrow> ('s, unit) call"
    and op_claim :: "int \<Rightarrow> string \<Rightarrow> string \<Rightarrow> int \<Rightarrow> ('s, claim_result) call"
    and op_close :: "string \<Rightarrow> string \<Rightarrow> close_reason \<Rightarrow> ('s, unit) call"
    and ticket :: "'s \<Rightarrow> string \<Rightarrow> string \<Rightarrow> stored option"
  assumes open_ticket: "ticket (fst (op_open r s)) (rv_tenant r) (rv_id r) =
      Some \<lparr>so_reservation = r, so_status = ROpen, so_lease_until = 0, so_close_reason = Settled\<rparr>"
    and mark_ticket: "ticket (fst (op_mark t i s)) t i = map_option
      (\<lambda>st. st\<lparr>so_reservation := (so_reservation st)\<lparr>rv_debited := True\<rparr>\<rparr>) (ticket s t i)"
    and close_ticket: "ticket (fst (op_close t i why s)) t i = map_option
      (\<lambda>st. st\<lparr>so_status := RClosed, so_close_reason := why, so_lease_until := 0\<rparr>) (ticket s t i)"
    and claim_won: "ticket s t i = Some st \<Longrightarrow> so_status st = ROpen \<Longrightarrow> so_lease_until st \<le> now \<Longrightarrow>
      snd (op_claim now t i lease s) = Inr (Claimed (so_reservation st))
      \<and> ticket (fst (op_claim now t i lease s)) t i = Some (st\<lparr>so_lease_until := i64 (now + lease)\<rparr>)"
    and claim_busy: "ticket s t i = Some st \<Longrightarrow> so_status st = ROpen \<Longrightarrow> now < so_lease_until st \<Longrightarrow>
      op_claim now t i lease s = (s, Inr (Leased (so_reservation st)))"
    and claim_done: "ticket s t i = Some st \<Longrightarrow> so_status st = RClosed \<Longrightarrow>
      op_claim now t i lease s = (s, Inr (ClaimClosed (so_reservation st) (so_close_reason st)))"
    and claim_none: "ticket s t i = None \<Longrightarrow> op_claim now t i lease s = (s, Inr ClaimNotFound)"
begin

text \<open>While a lease is alive nobody else gets the ticket; after a close nobody ever does.\<close>

lemma claim_excludes:
  assumes "snd (op_claim now t i lease s) = Inr (Claimed r)" "later < i64 (now + lease)"
  shows "\<exists>r'. snd (op_claim later t i lease' (fst (op_claim now t i lease s))) = Inr (Leased r')"
proof (cases "ticket s t i")
  case None
  then show ?thesis using assms(1) claim_none [of s t i now lease] by simp
next
  case (Some st)
  show ?thesis
  proof (cases "so_status st")
    case RClosed
    then show ?thesis using assms(1) claim_done [OF Some, of now lease] by simp
  next
    case ROpen
    show ?thesis
    proof (cases "so_lease_until st \<le> now")
      case True
      let ?s = "fst (op_claim now t i lease s)"
      have "ticket ?s t i = Some (st\<lparr>so_lease_until := i64 (now + lease)\<rparr>)"
        using claim_won [OF Some ROpen True] by blast
      then show ?thesis
        using claim_busy [of ?s t i "st\<lparr>so_lease_until := i64 (now + lease)\<rparr>" later lease']
          ROpen assms(2) by simp
    next
      case False
      then show ?thesis using assms(1) claim_busy [OF Some ROpen, of now lease] by simp
    qed
  qed
qed

lemma claim_after_close:
  assumes "ticket s t i = Some st"
  shows "op_claim now t i lease (fst (op_close t i reason s))
    = (fst (op_close t i reason s), Inr (ClaimClosed (so_reservation st) reason))"
  using claim_done [of "fst (op_close t i reason s)" t i
      "st\<lparr>so_status := RClosed, so_close_reason := reason, so_lease_until := 0\<rparr>" now lease]
    close_ticket [of t i reason s] assms by simp

end

definition mem_ticket :: "reservations \<Rightarrow> string \<Rightarrow> string \<Rightarrow> stored option" where
  "mem_ticket m tenant rid = om_get m (store_key tenant rid)"

interpretation memstore: reservation_store mem_open mem_mark_debited mem_claim mem_close mem_ticket
  by unfold_locales
     (auto simp: mem_open_def mem_mark_debited_def mem_claim_def mem_close_def mem_ticket_def
        split: option.splits)

text \<open>A wire ticket decodes to the tenant and the id it was made of, for tenants and ids without a
  colon, and no other string decodes to them; the tickets of the previous four-part format are
  refused.\<close>

theorem wire_id_roundtrip:
  assumes "tenant \<noteq> []" "rid \<noteq> []" "CHR '':'' \<notin> set tenant" "CHR '':'' \<notin> set rid"
  shows "split_wire_id (wire_id tenant rid) = Some (tenant, rid)
    \<and> (split_wire_id w = Some (tenant, rid) \<longrightarrow> w = wire_id tenant rid)
    \<and> split_wire_id (wire_id tenant (rid @ '':'' @ x)) = None"
proof -
  have "split_once '':'' (wire_id tenant y) = Some (tenant, y)" for y
    using split_once_first [OF assms(3), of y] by (simp add: wire_id_def)
  then show ?thesis
    using assms by (auto simp: split_wire_id_def wire_id_def split: bind_splits if_splits
        dest!: split_once_Some)
qed

theorem wire_id_roundtrip_witness:
  "split_wire_id (wire_id ''t1'' ''01ARZ'') = Some (''t1'', ''01ARZ'')
    \<and> split_wire_id (wire_id ''t1'' (''q'' @ '':'' @ ''7'')) = None"
  using wire_id_roundtrip [of "''t1''" "''01ARZ''" "''x''" "''''"]
    wire_id_roundtrip [of "''t1''" "''q''" "''x''" "''7''"] by simp

end
