(* ===== verification/EavKeys.thy ===== *)
theory EavKeys
  imports StrUtil EngineConfig
begin

text \<open>Datoms and their index keys (\<^verbatim>\<open>src/eav/types/value_type.rs\<close>, \<^verbatim>\<open>datom.rs\<close>,
  \<^verbatim>\<open>encoding.rs\<close> and \<^verbatim>\<open>src/eav/writer/system_attrs.rs\<close>): the twelve value types, the sort keys of the
  four indexes, the bounds of a range over values, the partition keys, and the order the keys keep.
  A double is its bit pattern.\<close>

unbundle bit_operations_syntax

section \<open>Values\<close>

datatype value_type =
  TyNull | TyBoolean | TyLong | TyDouble | TyString | TyUuid | TyReference | TyArray | TyBytes
  | TyBigInt | TyInstant | TyGeo

type_synonym f64 = "64 word"

datatype datom_value =
    DvNull
  | DvBool bool
  | DvLong int
  | DvDouble f64
  | DvStr string
  | DvUuid string
  | DvRef "64 word"
  | DvArray "string list"
  | DvBytes bytes
  | DvBigInt int
  | DvInstant int
  | DvGeo f64 f64

definition tag :: "value_type \<Rightarrow> byte" where
  "tag t = (case t of TyNull \<Rightarrow> 0 | TyBoolean \<Rightarrow> 1 | TyLong \<Rightarrow> 2 | TyDouble \<Rightarrow> 3 | TyString \<Rightarrow> 4 | TyUuid \<Rightarrow> 5
     | TyReference \<Rightarrow> 6 | TyArray \<Rightarrow> 7 | TyBytes \<Rightarrow> 8 | TyBigInt \<Rightarrow> 9 | TyInstant \<Rightarrow> 10 | TyGeo \<Rightarrow> 11)"

definition is_avet_indexable :: "value_type \<Rightarrow> bool" where
  "is_avet_indexable t \<longleftrightarrow> t \<noteq> TyBytes \<and> t \<noteq> TyArray \<and> t \<noteq> TyNull"

definition type_of_value :: "datom_value \<Rightarrow> value_type" where
  "type_of_value v = (case v of DvNull \<Rightarrow> TyNull | DvBool _ \<Rightarrow> TyBoolean | DvLong _ \<Rightarrow> TyLong | DvDouble _ \<Rightarrow> TyDouble
     | DvStr _ \<Rightarrow> TyString | DvUuid _ \<Rightarrow> TyUuid | DvRef _ \<Rightarrow> TyReference | DvArray _ \<Rightarrow> TyArray
     | DvBytes _ \<Rightarrow> TyBytes | DvBigInt _ \<Rightarrow> TyBigInt | DvInstant _ \<Rightarrow> TyInstant | DvGeo _ _ \<Rightarrow> TyGeo)"

text \<open>IEEE 754: the magnitude, the exponent all ones with a fraction, and \<^verbatim>\<open>d < 0.0\<close>.\<close>

definition f64_mag :: "f64 \<Rightarrow> nat" where
  "f64_mag w = unat (w AND 0x7FFFFFFFFFFFFFFF)"

definition f64_nan :: "f64 \<Rightarrow> bool" where
  "f64_nan w \<longleftrightarrow> 0x7FF0000000000000 < f64_mag w"

definition f64_lt_zero :: "f64 \<Rightarrow> bool" where
  "f64_lt_zero w \<longleftrightarrow> bit w 63 \<and> \<not> f64_nan w \<and> f64_mag w \<noteq> 0"

section \<open>Sort keys\<close>

definition be_word :: "'a::len word \<Rightarrow> bytes" where
  "be_word w = be_bytes (LENGTH('a) div 8) (unat w)"

definition of_be :: "bytes \<Rightarrow> 'a::len word" where
  "of_be bs = of_nat (be_nat bs)"

definition build_eavt_sk :: "16 word \<Rightarrow> 64 word \<Rightarrow> bool \<Rightarrow> bytes" where
  "build_eavt_sk attr_id tx_id op = be_word attr_id @ be_word tx_id @ [if op then 1 else 0]"

definition decode_eavt_sk :: "bytes \<Rightarrow> (16 word \<times> 64 word \<times> bool) option" where
  "decode_eavt_sk sk =
    (if length sk \<noteq> 11 then None
     else Some (of_be (bslice 0 2 sk), of_be (bslice 2 8 sk), sk ! 10 \<noteq> 0))"

definition eavt_sk_attr_prefix :: "16 word \<Rightarrow> bytes" where
  "eavt_sk_attr_prefix attr_id = be_word attr_id"

definition eavt_sk_as_of :: "16 word \<Rightarrow> 64 word \<Rightarrow> bytes" where
  "eavt_sk_as_of attr_id as_of_tx = build_eavt_sk attr_id as_of_tx True"

definition build_aevt_sk :: "string \<Rightarrow> 64 word \<Rightarrow> bytes" where
  "build_aevt_sk entity_id tx_id = of_nat (length entity_id) # str_bytes entity_id @ be_word tx_id"

definition f64_flip :: "f64 \<Rightarrow> 64 word" where
  "f64_flip d = (if f64_lt_zero d then d XOR 0xFFFFFFFFFFFFFFFF else d XOR 0x8000000000000000)"

definition avet_value_bytes :: "datom_value \<Rightarrow> bytes" where
  "avet_value_bytes v = (case v of
      DvNull \<Rightarrow> []
    | DvBool b \<Rightarrow> [if b then 1 else 0]
    | DvLong n \<Rightarrow> be_word ((of_int n :: 64 word) XOR 0x8000000000000000)
    | DvInstant n \<Rightarrow> be_word ((of_int n :: 64 word) XOR 0x8000000000000000)
    | DvDouble d \<Rightarrow> be_word (f64_flip d)
    | DvStr s \<Rightarrow> take 31 (str_bytes s)
    | DvUuid s \<Rightarrow> take 31 (str_bytes s)
    | DvRef e \<Rightarrow> be_word e
    | DvBigInt n \<Rightarrow> be_word ((of_int n :: 128 word) XOR 0x80000000000000000000000000000000)
    | DvGeo lat lon \<Rightarrow> be_word (f64_flip lat) @ be_word (f64_flip lon)
    | DvArray _ \<Rightarrow> []
    | DvBytes _ \<Rightarrow> [])"

definition build_avet_sk :: "datom_value \<Rightarrow> string \<Rightarrow> bytes" where
  "build_avet_sk v entity_id =
    (if type_of_value v = TyArray \<or> type_of_value v = TyBytes then 0xFF else tag (type_of_value v))
      # avet_value_bytes v @ take 26 (str_bytes entity_id)"

definition avet_sk_prefix :: "datom_value \<Rightarrow> bytes" where
  "avet_sk_prefix v = build_avet_sk v []"

datatype avet_bound = Unbounded | Inclusive datom_value | Exclusive datom_value

definition bound_value :: "avet_bound \<Rightarrow> datom_value option" where
  "bound_value b = (case b of Unbounded \<Rightarrow> None | Inclusive v \<Rightarrow> Some v | Exclusive v \<Rightarrow> Some v)"

definition with_swapped_int_tag :: "avet_bound \<Rightarrow> avet_bound option" where
  "with_swapped_int_tag b = (case b of
      Unbounded \<Rightarrow> Some Unbounded
    | Inclusive v \<Rightarrow> (case v of DvLong n \<Rightarrow> Some (Inclusive (DvInstant n)) | DvInstant n \<Rightarrow> Some (Inclusive (DvLong n))
        | _ \<Rightarrow> None)
    | Exclusive v \<Rightarrow> (case v of DvLong n \<Rightarrow> Some (Exclusive (DvInstant n)) | DvInstant n \<Rightarrow> Some (Exclusive (DvLong n))
        | _ \<Rightarrow> None))"

definition avet_sk_range_bounds :: "avet_bound \<Rightarrow> avet_bound \<Rightarrow> (bytes \<times> bytes) option" where
  "avet_sk_range_bounds lower upper =
    (case or_else (bound_value lower) (bound_value upper) of
       None \<Rightarrow> None
     | Some sample \<Rightarrow>
       if \<not> is_avet_indexable (type_of_value sample) then None
       else let t = tag (type_of_value sample);
                sk_min = (case lower of
                    Unbounded \<Rightarrow> t # replicate 8 0
                  | Inclusive v \<Rightarrow> avet_sk_prefix v
                  | Exclusive v \<Rightarrow> avet_sk_prefix v @ replicate 32 0xFF);
                sk_max = (case upper of
                    Unbounded \<Rightarrow> t # replicate 40 0xFF
                  | Inclusive v \<Rightarrow> avet_sk_prefix v @ replicate 32 0xFF
                  | Exclusive v \<Rightarrow> avet_sk_prefix v)
            in Some (sk_min, sk_max))"

definition build_vaet_sk :: "16 word \<Rightarrow> string \<Rightarrow> bytes" where
  "build_vaet_sk attr_id source_entity_id = be_word attr_id @ str_bytes source_entity_id"

section \<open>Datoms\<close>

record datom =
  tenant_id :: string
  entity_id :: string
  attr_name :: string
  attr_id :: "16 word"
  dvalue :: datom_value
  tx_id :: "64 word"
  dop :: bool

definition hash_attr_name :: "string \<Rightarrow> 16 word" where
  "hash_attr_name name =
    (let h = fold (\<lambda>b h. h * 33 + ucast b) (str_bytes name) (5381 :: 32 word)
     in ucast (h XOR drop_bit 16 h))"

definition datom_assert :: "string \<Rightarrow> string \<Rightarrow> string \<Rightarrow> 16 word \<Rightarrow> datom_value \<Rightarrow> 64 word \<Rightarrow> datom" where
  "datom_assert tenant eid name aid v tx =
    \<lparr>tenant_id = tenant, entity_id = eid, attr_name = name, attr_id = aid, dvalue = v, tx_id = tx, dop = True\<rparr>"

definition datom_retract :: "string \<Rightarrow> string \<Rightarrow> string \<Rightarrow> 16 word \<Rightarrow> datom_value \<Rightarrow> 64 word \<Rightarrow> datom" where
  "datom_retract tenant eid name aid v tx =
    \<lparr>tenant_id = tenant, entity_id = eid, attr_name = name, attr_id = aid, dvalue = v, tx_id = tx, dop = False\<rparr>"

definition entity_pk :: "string \<Rightarrow> string \<Rightarrow> string" where
  "entity_pk tenant eid = ''T#'' @ tenant @ ''#E#'' @ eid"

definition eavt_pk :: "datom \<Rightarrow> string" where
  "eavt_pk d = entity_pk (tenant_id d) (entity_id d)"

definition sys_ulid :: "16 word \<times> string" where "sys_ulid = (0, ''entity/ulid'')"
definition sys_type :: "16 word \<times> string" where "sys_type = (1, ''entity/type'')"
definition sys_tenant :: "16 word \<times> string" where "sys_tenant = (2, ''tenant/id'')"
definition sys_created_at :: "16 word \<times> string" where "sys_created_at = (3, ''meta/created_at'')"
definition sys_updated_at :: "16 word \<times> string" where "sys_updated_at = (4, ''meta/updated_at'')"
definition sys_created_by :: "16 word \<times> string" where "sys_created_by = (5, ''meta/created_by'')"
definition sys_updated_by :: "16 word \<times> string" where "sys_updated_by = (6, ''meta/updated_by'')"

definition name_of :: "16 word \<Rightarrow> string option" where
  "name_of aid = map_of [sys_ulid, sys_type, sys_tenant, sys_created_at, sys_updated_at, sys_created_by, sys_updated_by] aid"

definition aevt_pk :: "datom \<Rightarrow> string" where
  "aevt_pk d = (case dvalue d of
      DvStr v \<Rightarrow> if attr_name d = snd sys_type then ''T#'' @ tenant_id d @ ''#A#'' @ attr_name d @ ''#'' @ v
                 else ''T#'' @ tenant_id d @ ''#A#'' @ attr_name d
    | _ \<Rightarrow> ''T#'' @ tenant_id d @ ''#A#'' @ attr_name d)"

definition avet_pk_of :: "string \<Rightarrow> string \<Rightarrow> string" where
  "avet_pk_of tenant name = ''T#'' @ tenant @ ''#AV#'' @ name"

definition avet_pk :: "datom \<Rightarrow> string" where
  "avet_pk d = avet_pk_of (tenant_id d) (attr_name d)"

definition vaet_pk :: "datom \<Rightarrow> string option" where
  "vaet_pk d = (case dvalue d of
      DvRef e \<Rightarrow> Some (''T#'' @ tenant_id d @ ''#V#'' @ nat_str (unat e)) | _ \<Rightarrow> None)"

section \<open>Words as bytes\<close>

lemma length_be_word [simp]: "length (be_word (w :: 'a::len word)) = LENGTH('a) div 8"
  by (simp add: be_word_def)

lemma pow_256: "8 dvd n \<Longrightarrow> (256 :: nat) ^ (n div 8) = 2 ^ n"
proof -
  assume "8 dvd n"
  then obtain k where "n = 8 * k" by blast
  then show ?thesis by (simp add: power_mult)
qed

lemma be_word_less_iff:
  fixes u v :: "'a::len word"
  assumes "8 dvd LENGTH('a)"
  shows "be_word u < be_word v \<longleftrightarrow> u < v"
  using be_bytes_less_iff [of "unat u" "LENGTH('a) div 8" "unat v"] assms
  by (simp add: be_word_def pow_256 word_less_nat_alt unsigned_less)

lemma of_be_be_word [simp]:
  fixes w :: "'a::len word"
  assumes "8 dvd LENGTH('a)"
  shows "of_be (be_word w) = w"
  using assms by (simp add: of_be_def be_word_def be_nat_be_bytes pow_256 unsigned_less)

lemma be_word_inject:
  fixes u v :: "'a::len word"
  assumes "8 dvd LENGTH('a)"
  shows "be_word u = be_word v \<longleftrightarrow> u = v"
  using of_be_be_word [OF assms] by metis

lemma xor_top_bit:
  fixes w :: "'a::len word"
  shows "w XOR 2 ^ (LENGTH('a) - 1) = w + 2 ^ (LENGTH('a) - 1)"
proof (cases "bit w (LENGTH('a) - 1)")
  case False
  have "w AND 2 ^ (LENGTH('a) - 1) = 0" using False by (intro bit_eqI) (auto simp: bit_and_iff bit_exp_iff)
  then have "w + 2 ^ (LENGTH('a) - 1) = w OR 2 ^ (LENGTH('a) - 1)" by (rule disjunctive_add_eq_or)
  also have "\<dots> = w XOR 2 ^ (LENGTH('a) - 1)"
    using False by (intro bit_eqI) (auto simp: bit_or_iff bit_xor_iff bit_exp_iff)
  finally show ?thesis by simp
next
  case True
  let ?m = "2 ^ (LENGTH('a) - 1) :: 'a word"
  have x: "w XOR ?m = w AND NOT ?m"
    using True by (intro bit_eqI) (auto simp: bit_and_iff bit_xor_iff bit_exp_iff bit_not_iff)
  have "(w AND NOT ?m) AND ?m = 0" by (intro bit_eqI) (auto simp: bit_and_iff bit_not_iff)
  then have "(w AND NOT ?m) + ?m = (w AND NOT ?m) OR ?m" by (rule disjunctive_add_eq_or)
  also have "\<dots> = w" using True by (intro bit_eqI) (auto simp: bit_and_iff bit_or_iff bit_exp_iff bit_not_iff)
  finally have undo: "(w AND NOT ?m) + ?m = w" .
  have two: "?m + ?m = 0"
  proof -
    have "?m + ?m = 2 * 2 ^ (LENGTH('a) - 1)" by simp
    also have "\<dots> = 2 ^ Suc (LENGTH('a) - 1)" by (rule power_Suc [symmetric])
    also have "\<dots> = 0" by simp
    finally show ?thesis .
  qed
  have "w + ?m = ((w AND NOT ?m) + ?m) + ?m" by (simp only: undo)
  also have "\<dots> = w AND NOT ?m" unfolding add.assoc two by simp
  finally show ?thesis using x by (simp only:)
qed

text \<open>A signed integer keeps its order when its top bit is flipped.\<close>

lemma flip_signed:
  assumes "in_s (LENGTH('a)) n"
  shows "unat ((of_int n :: 'a::len word) XOR 2 ^ (LENGTH('a) - 1)) = nat (n + 2 ^ (LENGTH('a) - 1))"
proof -
  let ?L = "LENGTH('a)"
  have p: "(2 :: int) ^ ?L = 2 * 2 ^ (?L - 1)" by (cases ?L) simp_all
  have "uint ((of_int n :: 'a word) + 2 ^ (?L - 1)) = (n + 2 ^ (?L - 1)) mod 2 ^ ?L"
  proof -
    have "(of_int n :: 'a word) + 2 ^ (?L - 1) = of_int (n + 2 ^ (?L - 1))" by simp
    then show ?thesis by (simp only: unsigned_of_int take_bit_eq_mod) simp
  qed
  also have "\<dots> = n + 2 ^ (?L - 1)" using assms p by (intro mod_pos_pos_trivial) (auto simp: in_s_def)
  finally show ?thesis unfolding xor_top_bit by (metis nat_uint_eq)
qed

lemma flip_signed_less:
  assumes "in_s (LENGTH('a)) m" "in_s (LENGTH('a)) n"
  shows "(of_int m :: 'a::len word) XOR 2 ^ (LENGTH('a) - 1) < of_int n XOR 2 ^ (LENGTH('a) - 1) \<longleftrightarrow> m < n"
  unfolding word_less_nat_alt flip_signed [OF assms(1)] flip_signed [OF assms(2)]
  using assms by (auto simp: in_s_def)

lemma flip_64: "(w :: 64 word) XOR 0x8000000000000000 = w XOR 2 ^ (LENGTH(64) - 1)"
  by simp

lemma flip_128: "(w :: 128 word) XOR 0x80000000000000000000000000000000 = w XOR 2 ^ (LENGTH(128) - 1)"
  by simp

section \<open>Doubles\<close>

definition f64_rank :: "f64 \<Rightarrow> int" where
  "f64_rank w = (if bit w 63 then - int (f64_mag w) else int (f64_mag w))"

definition f64_less :: "f64 \<Rightarrow> f64 \<Rightarrow> bool" where
  "f64_less a b \<longleftrightarrow> \<not> f64_nan a \<and> \<not> f64_nan b \<and> f64_rank a < f64_rank b"

definition f64_neg_zero :: f64 where "f64_neg_zero = 0x8000000000000000"

lemma f64_split: "unat w = f64_mag w + (if bit w 63 then 2 ^ 63 else 0)" "f64_mag w < 2 ^ 63"
proof -
  have m: "(0x7FFFFFFFFFFFFFFF :: 64 word) = mask 63" by (simp add: mask_eq_exp_minus_1)
  have t: "f64_mag w = unat (take_bit 63 w)" unfolding f64_mag_def m by (simp add: take_bit_eq_mask)
  also have "\<dots> = take_bit 63 (unat w)" by (simp add: unsigned_take_bit_eq)
  finally have mag: "f64_mag w = unat w mod 2 ^ 63" by (simp add: take_bit_eq_mod)
  then show "f64_mag w < 2 ^ 63" by simp
  have "bit w 63 \<longleftrightarrow> odd (unat w div 2 ^ 63)"
    using bit_iff_odd [of "unat w" 63] by (simp add: bit_unsigned_iff)
  moreover have "unat w div 2 ^ 63 < 2" using unsigned_less [of w, where 'a = nat] by (simp add: less_mult_imp_div_less)
  ultimately have "unat w div 2 ^ 63 = (if bit w 63 then 1 else 0)" by (auto simp: less_2_cases_iff)
  then show "unat w = f64_mag w + (if bit w 63 then 2 ^ 63 else 0)"
    using div_mult_mod_eq [of "unat w" "2 ^ 63"] by (auto simp: mag)
qed

lemma f64_flip_eq:
  assumes "\<not> f64_nan w" "w \<noteq> f64_neg_zero"
  shows "int (unat (f64_flip w)) = f64_rank w + 2 ^ 63 - (if bit w 63 then 1 else 0)" "bit w 63 \<Longrightarrow> f64_rank w < 0"
proof -
  have nz: "f64_mag w \<noteq> 0" if "bit w 63"
  proof
    assume "f64_mag w = 0"
    then have "unat w = unat f64_neg_zero" using f64_split(1) [of w] that by (simp add: f64_neg_zero_def)
    then show False using assms(2) by (simp add: word_unat_eq_iff)
  qed
  then show "bit w 63 \<Longrightarrow> f64_rank w < 0" by (simp add: f64_rank_def)
  show "int (unat (f64_flip w)) = f64_rank w + 2 ^ 63 - (if bit w 63 then 1 else 0)"
  proof (cases "bit w 63")
    case True
    then have flip: "f64_flip w = NOT w"
    proof -
      have "(0xFFFFFFFFFFFFFFFF :: 64 word) = - 1" by simp
      then have "w XOR 0xFFFFFFFFFFFFFFFF = NOT w" by (intro bit_eqI) (simp only: bit_xor_iff bit_not_iff bit_minus_1_iff, auto)
      then show ?thesis using True assms(1) nz by (simp add: f64_flip_def f64_lt_zero_def)
    qed
    have "uint (NOT w) = (- uint w - 1) mod 2 ^ 64"
      by (simp add: unsigned_not_eq take_bit_eq_mod not_int_def)
    also have "\<dots> = 2 ^ 64 - 1 - uint w"
    proof -
      have "(- x - 1) mod 2 ^ 64 = 2 ^ 64 - 1 - x" if "0 \<le> x" "x < 2 ^ 64" for x :: int
      proof -
        have "(- x - 1 + 2 ^ 64) mod 2 ^ 64 = - x - 1 + 2 ^ 64" using that by (intro mod_pos_pos_trivial) simp_all
        then show ?thesis unfolding mod_add_self2 by simp
      qed
      from this [of "uint w"] show ?thesis using uint_lt2p [of w] by simp
    qed
    finally have "int (unat (NOT w)) = 2 ^ 64 - 1 - int (unat w)" by simp
    then show ?thesis using True flip f64_split [of w] by (simp add: f64_rank_def)
  next
    case False
    then have flip: "f64_flip w = w + 2 ^ (LENGTH(64) - 1)"
      unfolding f64_flip_def flip_64 xor_top_bit by (simp add: f64_lt_zero_def)
    have "unat w < 2 ^ 63" using False f64_split [of w] by simp
    then have "unat (f64_flip w) = unat w + 2 ^ 63" unfolding flip by (simp add: unat_word_ariths)
    then show ?thesis using False f64_split [of w] by (simp add: f64_rank_def)
  qed
qed

lemma f64_flip_less:
  assumes "\<not> f64_nan a" "a \<noteq> f64_neg_zero" "\<not> f64_nan b" "b \<noteq> f64_neg_zero"
  shows "f64_flip a < f64_flip b \<longleftrightarrow> f64_less a b"
proof -
  have nonneg: "\<not> bit w 63 \<Longrightarrow> 0 \<le> f64_rank w" for w by (simp add: f64_rank_def)
  have "f64_flip a < f64_flip b \<longleftrightarrow> int (unat (f64_flip a)) < int (unat (f64_flip b))"
    by (simp only: word_less_nat_alt of_nat_less_iff)
  also have "\<dots> \<longleftrightarrow> f64_rank a < f64_rank b"
    unfolding f64_flip_eq(1) [OF assms(1,2)] f64_flip_eq(1) [OF assms(3,4)]
    using f64_flip_eq(2) [OF assms(1,2)] f64_flip_eq(2) [OF assms(3,4)] nonneg [of a] nonneg [of b] by auto
  finally show ?thesis using assms by (simp add: f64_less_def)
qed

lemma f64_flip_inject:
  assumes "\<not> f64_nan a" "a \<noteq> f64_neg_zero" "\<not> f64_nan b" "b \<noteq> f64_neg_zero"
  shows "f64_flip a = f64_flip b \<longleftrightarrow> a = b"
proof
  assume eq: "f64_flip a = f64_flip b"
  have nonneg: "\<not> bit w 63 \<Longrightarrow> 0 \<le> f64_rank w" for w by (simp add: f64_rank_def)
  have "f64_rank a - (if bit a 63 then 1 else 0) = f64_rank b - (if bit b 63 then 1 else 0)"
    using f64_flip_eq(1) [OF assms(1,2)] f64_flip_eq(1) [OF assms(3,4)] eq by simp
  then have "(bit a 63 \<longleftrightarrow> bit b 63) \<and> f64_rank a = f64_rank b"
    using f64_flip_eq(2) [OF assms(1,2)] f64_flip_eq(2) [OF assms(3,4)] nonneg [of a] nonneg [of b] by (auto split: if_splits)
  then have "unat a = unat b" using f64_split(1) [of a] f64_split(1) [of b] by (auto simp: f64_rank_def split: if_splits)
  then show "a = b" by (simp only: word_unat_eq_iff)
qed simp

section \<open>The order of the values and of their keys\<close>

definition value_less :: "datom_value \<Rightarrow> datom_value \<Rightarrow> bool" where
  "value_less u v = (case u of
      DvBool a \<Rightarrow> (case v of DvBool b \<Rightarrow> \<not> a \<and> b | _ \<Rightarrow> False)
    | DvLong m \<Rightarrow> (case v of DvLong n \<Rightarrow> m < n | _ \<Rightarrow> False)
    | DvInstant m \<Rightarrow> (case v of DvInstant n \<Rightarrow> m < n | _ \<Rightarrow> False)
    | DvBigInt m \<Rightarrow> (case v of DvBigInt n \<Rightarrow> m < n | _ \<Rightarrow> False)
    | DvRef a \<Rightarrow> (case v of DvRef b \<Rightarrow> a < b | _ \<Rightarrow> False)
    | DvDouble a \<Rightarrow> (case v of DvDouble b \<Rightarrow> f64_less a b | _ \<Rightarrow> False)
    | _ \<Rightarrow> False)"

text \<open>The values whose keys have a fixed width: numbers in their ranges, no NaN and no negative zero.\<close>

fun fixed_value :: "datom_value \<Rightarrow> bool" where
  "fixed_value (DvBool _) = True"
| "fixed_value (DvLong n) = in_s 64 n"
| "fixed_value (DvInstant n) = in_s 64 n"
| "fixed_value (DvBigInt n) = in_s 128 n"
| "fixed_value (DvRef _) = True"
| "fixed_value (DvDouble d) = (\<not> f64_nan d \<and> d \<noteq> f64_neg_zero)"
| "fixed_value _ = False"

lemma flip_64_less: "in_s 64 m \<Longrightarrow> in_s 64 n \<Longrightarrow>
    (of_int m :: 64 word) XOR 0x8000000000000000 < of_int n XOR 0x8000000000000000 \<longleftrightarrow> m < n"
  unfolding flip_64 by (rule flip_signed_less) simp_all

lemma flip_128_less: "in_s 128 m \<Longrightarrow> in_s 128 n \<Longrightarrow>
    (of_int m :: 128 word) XOR 0x80000000000000000000000000000000 < of_int n XOR 0x80000000000000000000000000000000
      \<longleftrightarrow> m < n"
  unfolding flip_128 by (rule flip_signed_less) simp_all

lemma flip_64_eq: "in_s 64 m \<Longrightarrow> in_s 64 n \<Longrightarrow>
    (of_int m :: 64 word) XOR 0x8000000000000000 = of_int n XOR 0x8000000000000000 \<longleftrightarrow> m = n"
  using flip_64_less [of m n] flip_64_less [of n m] by (metis linorder_neqE less_irrefl)

lemma flip_128_eq: "in_s 128 m \<Longrightarrow> in_s 128 n \<Longrightarrow>
    (of_int m :: 128 word) XOR 0x80000000000000000000000000000000 = of_int n XOR 0x80000000000000000000000000000000
      \<longleftrightarrow> m = n"
  using flip_128_less [of m n] flip_128_less [of n m] by (metis linorder_neqE less_irrefl)

lemma fixed_pair:
  assumes "fixed_value u" "fixed_value v" "type_of_value u = type_of_value v"
  obtains (bool) a b where "u = DvBool a" "v = DvBool b"
    | (long) m n where "u = DvLong m" "v = DvLong n" "in_s 64 m" "in_s 64 n"
    | (instant) m n where "u = DvInstant m" "v = DvInstant n" "in_s 64 m" "in_s 64 n"
    | (bigint) m n where "u = DvBigInt m" "v = DvBigInt n" "in_s 128 m" "in_s 128 n"
    | (ref) a b where "u = DvRef a" "v = DvRef b"
    | (double) a b where "u = DvDouble a" "v = DvDouble b" "\<not> f64_nan a" "a \<noteq> f64_neg_zero" "\<not> f64_nan b" "b \<noteq> f64_neg_zero"
  using assms by (cases u) (cases v; simp add: type_of_value_def)+

lemma fixed_value_bytes:
  assumes "fixed_value u" "fixed_value v" "type_of_value u = type_of_value v"
  shows "length (avet_value_bytes u) = length (avet_value_bytes v)"
    "0 < length (avet_value_bytes u)" "length (avet_value_bytes u) \<le> 16"
    "avet_value_bytes u < avet_value_bytes v \<longleftrightarrow> value_less u v"
    "avet_value_bytes u = avet_value_bytes v \<longleftrightarrow> u = v"
proof -
  note simps = value_less_def avet_value_bytes_def be_word_less_iff be_word_inject flip_64_less flip_64_eq flip_128_less flip_128_eq
    f64_flip_less f64_flip_inject
  have "length (avet_value_bytes u) = length (avet_value_bytes v) \<and> 0 < length (avet_value_bytes u)
    \<and> length (avet_value_bytes u) \<le> 16 \<and> (avet_value_bytes u < avet_value_bytes v \<longleftrightarrow> value_less u v)
    \<and> (avet_value_bytes u = avet_value_bytes v \<longleftrightarrow> u = v)"
    using assms by (cases rule: fixed_pair) (simp_all add: simps del: in_s_64)
  then show "length (avet_value_bytes u) = length (avet_value_bytes v)"
    "0 < length (avet_value_bytes u)" "length (avet_value_bytes u) \<le> 16"
    "avet_value_bytes u < avet_value_bytes v \<longleftrightarrow> value_less u v"
    "avet_value_bytes u = avet_value_bytes v \<longleftrightarrow> u = v" by blast+
qed

lemma value_less_total:
  assumes "fixed_value u" "fixed_value v" "type_of_value u = type_of_value v"
  shows "\<not> value_less v u \<longleftrightarrow> value_less u v \<or> u = v"
  using fixed_value_bytes [OF assms] fixed_value_bytes [OF assms(2,1) assms(3) [symmetric]] by (metis less_linear order_less_imp_not_less)

definition above :: "avet_bound \<Rightarrow> datom_value \<Rightarrow> bool" where
  "above b v = (case b of Unbounded \<Rightarrow> True | Inclusive u \<Rightarrow> \<not> value_less v u | Exclusive u \<Rightarrow> value_less u v)"

definition below :: "avet_bound \<Rightarrow> datom_value \<Rightarrow> bool" where
  "below b v = (case b of Unbounded \<Rightarrow> True | Inclusive u \<Rightarrow> \<not> value_less u v | Exclusive u \<Rightarrow> value_less v u)"

definition bound_ok :: "value_type \<Rightarrow> avet_bound \<Rightarrow> bool" where
  "bound_ok t b = (case bound_value b of None \<Rightarrow> True | Some u \<Rightarrow> fixed_value u \<and> type_of_value u = t)"

text \<open>Identifiers whose bytes are neither zero nor 255, as those of UTF-8 text without NUL.\<close>

definition id_ok :: "string \<Rightarrow> bool" where
  "id_ok e \<longleftrightarrow> e \<noteq> [] \<and> (\<forall>b \<in> set (str_bytes e). 0 < b \<and> b < 0xFF)"

section \<open>Lexicographic order\<close>

lemma str_bytes_Nil [simp]: "str_bytes [] = []"
  by (simp add: str_bytes_def)

lemma append_le_iff:
  fixes x y a b :: "'a::linorder list"
  assumes "length x = length y"
  shows "x @ a \<le> y @ b \<longleftrightarrow> x < y \<or> x = y \<and> a \<le> b"
  using assms by (induction x y rule: list_induct2) auto

lemma zeros_le: "0 < c \<Longrightarrow> b @ c # r \<ge> replicate n (0 :: byte)"
proof (induction b arbitrary: n)
  case Nil
  then show ?case by (cases n) auto
next
  case (Cons x b)
  then show ?case by (cases n) (auto simp: less_le word_le_nat_alt)
qed

lemma le_full: "c < 0xFF \<Longrightarrow> length b < n \<Longrightarrow> b @ c # r \<le> replicate n (0xFF :: byte)"
proof (induction b arbitrary: n)
  case Nil
  then show ?case by (cases n) auto
next
  case (Cons x b)
  have "x \<le> 0xFF" using unsigned_less [of x, where 'a = nat] by (simp add: word_le_nat_alt)
  then show ?case using Cons by (cases n) auto
qed

lemma avet_key:
  assumes "fixed_value v"
  shows "build_avet_sk v e = tag (type_of_value v) # avet_value_bytes v @ take 26 (str_bytes e)"
  using assms by (cases v) (simp_all add: build_avet_sk_def type_of_value_def)

lemma id_bytes:
  assumes "id_ok e"
  obtains c r where "take 26 (str_bytes e) = c # r" "0 < c" "c < 0xFF" "length r < 26"
proof -
  obtain c r where c: "str_bytes e = c # r" using assms by (cases e) (auto simp: id_ok_def str_bytes_def)
  then have "take 26 (str_bytes e) = c # take 25 r" by simp
  then show thesis using that assms c by (simp add: id_ok_def)
qed

lemma range_lower:
  assumes "fixed_value v" "id_ok e" "bound_ok (type_of_value v) lo"
    and "sk_min = (case lo of Unbounded \<Rightarrow> tag (type_of_value v) # replicate 8 0
        | Inclusive u \<Rightarrow> avet_sk_prefix u | Exclusive u \<Rightarrow> avet_sk_prefix u @ replicate 32 0xFF)"
  shows "sk_min \<le> build_avet_sk v e \<longleftrightarrow> above lo v"
proof (cases lo)
  case Unbounded
  obtain c r where "take 26 (str_bytes e) = c # r" "0 < c" by (rule id_bytes [OF assms(2)])
  then show ?thesis using zeros_le [where c = c and b = "avet_value_bytes v" and r = r and n = 8] assms(1,4) Unbounded by (simp add: avet_key above_def)
next
  case (Inclusive u)
  then have u: "fixed_value u" "type_of_value u = type_of_value v" using assms(3) by (simp_all add: bound_ok_def bound_value_def)
  have "avet_value_bytes u @ [] \<le> avet_value_bytes v @ take 26 (str_bytes e) \<longleftrightarrow> value_less u v \<or> u = v"
    using fixed_value_bytes [OF u(1) assms(1) u(2)] by (subst append_le_iff) auto
  then show ?thesis
    using assms(1,4) Inclusive u value_less_total [OF u(1) assms(1) u(2)] by (simp add: avet_sk_prefix_def avet_key above_def)
next
  case (Exclusive u)
  then have u: "fixed_value u" "type_of_value u = type_of_value v" using assms(3) by (simp_all add: bound_ok_def bound_value_def)
  obtain c r where c: "take 26 (str_bytes e) = c # r" "c < 0xFF" by (rule id_bytes [OF assms(2)])
  have "\<not> replicate 32 0xFF \<le> c # r" using c(2) by (auto simp: numeral_eq_Suc)
  then have "avet_value_bytes u @ replicate 32 0xFF \<le> avet_value_bytes v @ take 26 (str_bytes e) \<longleftrightarrow> value_less u v"
    using fixed_value_bytes [OF u(1) assms(1) u(2)] c(1) by (subst append_le_iff) auto
  then show ?thesis using assms(1,4) Exclusive u by (simp add: avet_sk_prefix_def avet_key above_def)
qed

lemma range_upper:
  assumes "fixed_value v" "id_ok e" "bound_ok (type_of_value v) hi"
    and "sk_max = (case hi of Unbounded \<Rightarrow> tag (type_of_value v) # replicate 40 0xFF
        | Inclusive u \<Rightarrow> avet_sk_prefix u @ replicate 32 0xFF | Exclusive u \<Rightarrow> avet_sk_prefix u)"
  shows "build_avet_sk v e \<le> sk_max \<longleftrightarrow> below hi v"
proof (cases hi)
  case Unbounded
  obtain c r where c: "take 26 (str_bytes e) = c # r" "c < 0xFF" by (rule id_bytes [OF assms(2)])
  have "length (avet_value_bytes v) < 40" using fixed_value_bytes(3) [OF assms(1) assms(1)] by simp
  from le_full [OF c(2) this, of r] show ?thesis using assms(1,4) Unbounded c(1) by (simp add: avet_key below_def)
next
  case (Inclusive u)
  then have u: "fixed_value u" "type_of_value u = type_of_value v" using assms(3) by (simp_all add: bound_ok_def bound_value_def)
  obtain c r where c: "take 26 (str_bytes e) = c # r" "c < 0xFF" by (rule id_bytes [OF assms(2)])
  have "c # r \<le> replicate 32 0xFF" using le_full [of c "[]" 32 r] c(2) by simp
  then have "avet_value_bytes v @ take 26 (str_bytes e) \<le> avet_value_bytes u @ replicate 32 0xFF \<longleftrightarrow> value_less v u \<or> v = u"
    using fixed_value_bytes [OF assms(1) u(1) u(2) [symmetric]] c(1) by (subst append_le_iff) auto
  then show ?thesis
    using assms(1,4) Inclusive u value_less_total [OF assms(1) u(1) u(2) [symmetric]]
    by (simp add: avet_sk_prefix_def avet_key below_def)
next
  case (Exclusive u)
  then have u: "fixed_value u" "type_of_value u = type_of_value v" using assms(3) by (simp_all add: bound_ok_def bound_value_def)
  obtain c r where c: "take 26 (str_bytes e) = c # r" by (rule id_bytes [OF assms(2)])
  have "avet_value_bytes v @ take 26 (str_bytes e) \<le> avet_value_bytes u @ [] \<longleftrightarrow> value_less v u"
    using fixed_value_bytes [OF assms(1) u(1) u(2) [symmetric]] c by (subst append_le_iff) auto
  then show ?thesis using assms(1,4) Exclusive u by (simp add: avet_sk_prefix_def avet_key below_def)
qed

section \<open>Keys of the primary index\<close>

lemma be_word_append_less:
  fixes u v :: "'a::len word"
  assumes "8 dvd LENGTH('a)"
  shows "be_word u @ x < be_word v @ y \<longleftrightarrow> u < v \<or> u = v \<and> x < y"
proof -
  have "p @ x < q @ y \<longleftrightarrow> p < q \<or> p = q \<and> x < y" if "length p = length q" for p q :: bytes
    using that by (induction p q rule: list_induct2) auto
  from this [of "be_word u" "be_word v"] show ?thesis using assms by (simp add: be_word_less_iff be_word_inject)
qed

lemma decode_build_eavt_sk [simp, codec_simps]: "decode_eavt_sk (build_eavt_sk a t b) = Some (a, t, b)"
  by (simp add: decode_eavt_sk_def build_eavt_sk_def nth_append)

lemma length_build_eavt_sk [simp]: "length (build_eavt_sk a t b) = 11"
  by (simp add: build_eavt_sk_def)

lemma build_eavt_sk_less:
  "build_eavt_sk a t b < build_eavt_sk a' t' b' \<longleftrightarrow> a < a' \<or> a = a' \<and> (t < t' \<or> t = t' \<and> \<not> b \<and> b')"
  by (auto simp: build_eavt_sk_def be_word_append_less)

lemma build_eavt_sk_inject [simp]: "build_eavt_sk a t b = build_eavt_sk a' t' b' \<longleftrightarrow> a = a' \<and> t = t' \<and> b = b'"
proof
  assume "build_eavt_sk a t b = build_eavt_sk a' t' b'"
  then have "decode_eavt_sk (build_eavt_sk a t b) = decode_eavt_sk (build_eavt_sk a' t' b')" by (rule arg_cong)
  then show "a = a' \<and> t = t' \<and> b = b'" unfolding decode_build_eavt_sk by simp
qed simp

section \<open>Properties\<close>

text \<open>C28: the bounds of a range query select exactly the values of the range. For values of a fixed width
  (booleans, integers, instants, references, 128-bit integers, and doubles that are neither NaN nor
  negative zero), the key of an entity lies between the bounds if and only if its value satisfies
  both ends, inclusive, exclusive or open; and the prefix of a value selects exactly that value.\<close>

theorem avet_range_exact:
  assumes "fixed_value v" "id_ok e" "bound_ok (type_of_value v) lo" "bound_ok (type_of_value v) hi"
    and "avet_sk_range_bounds lo hi = Some (sk_min, sk_max)"
    and "fixed_value u" "type_of_value u = type_of_value v"
  shows "(sk_min \<le> build_avet_sk v e \<and> build_avet_sk v e \<le> sk_max \<longleftrightarrow> above lo v \<and> below hi v)
    \<and> (starts_with (avet_sk_prefix u) (build_avet_sk v e) \<longleftrightarrow> u = v)"
proof -
  obtain sample where sample: "or_else (bound_value lo) (bound_value hi) = Some sample"
    using assms(5) by (auto simp: avet_sk_range_bounds_def split: option.splits)
  then have "type_of_value sample = type_of_value v"
    using assms(3,4) by (auto simp: bound_ok_def or_else_def split: option.splits)
  then have "sk_min = (case lo of Unbounded \<Rightarrow> tag (type_of_value v) # replicate 8 0
        | Inclusive u \<Rightarrow> avet_sk_prefix u | Exclusive u \<Rightarrow> avet_sk_prefix u @ replicate 32 0xFF)"
    "sk_max = (case hi of Unbounded \<Rightarrow> tag (type_of_value v) # replicate 40 0xFF
        | Inclusive u \<Rightarrow> avet_sk_prefix u @ replicate 32 0xFF | Exclusive u \<Rightarrow> avet_sk_prefix u)"
    using assms(5) sample by (simp_all add: avet_sk_range_bounds_def Let_def split: if_splits)
  then have "sk_min \<le> build_avet_sk v e \<and> build_avet_sk v e \<le> sk_max \<longleftrightarrow> above lo v \<and> below hi v"
    using range_lower [OF assms(1,2,3)] range_upper [OF assms(1,2,4)] by simp
  moreover have "starts_with (avet_sk_prefix u) (build_avet_sk v e) \<longleftrightarrow> u = v"
    using fixed_value_bytes [OF assms(1,6) assms(7) [symmetric]] assms(1,6,7)
    by (auto simp: starts_with_def avet_sk_prefix_def avet_key)
  ultimately show ?thesis by blast
qed

theorem avet_range_exact_witness:
  "\<exists>mn mx. avet_sk_range_bounds (Exclusive (DvLong (-5))) (Inclusive (DvLong 1000)) = Some (mn, mx)
    \<and> mn \<le> build_avet_sk (DvLong 7) ''E'' \<and> build_avet_sk (DvLong 7) ''E'' \<le> mx
    \<and> \<not> starts_with (avet_sk_prefix (DvLong 8)) (build_avet_sk (DvLong 7) ''E'')"
proof -
  obtain mn mx where b: "avet_sk_range_bounds (Exclusive (DvLong (-5))) (Inclusive (DvLong 1000)) = Some (mn, mx)"
    by (simp add: avet_sk_range_bounds_def or_else_def bound_value_def is_avet_indexable_def type_of_value_def Let_def)
  have ok: "id_ok ''E''" by code_simp
  show ?thesis
    using avet_range_exact [OF _ ok _ _ b, of "DvLong 7" "DvLong 8"] b
    by (simp add: bound_ok_def bound_value_def type_of_value_def above_def below_def value_less_def)
qed

text \<open>Strings have no such guarantee. A string that extends another one is above it and at most 31 bytes
  long in the key, yet the range above the shorter one leaves it out, the range up to the shorter
  one includes it, and a search by prefix for the shorter one finds it.\<close>

theorem avet_string_range_wrong:
  assumes "w \<noteq> []" "length s + length w \<le> 31" "\<forall>b \<in> set (str_bytes w). b < 0xFF"
    and "avet_sk_range_bounds (Exclusive (DvStr s)) Unbounded = Some (gt_min, gt_max)"
    and "avet_sk_range_bounds Unbounded (Inclusive (DvStr s)) = Some (le_min, le_max)"
  shows "s < s @ w \<and> build_avet_sk (DvStr (s @ w)) e < gt_min
    \<and> build_avet_sk (DvStr (s @ w)) e \<le> le_max
    \<and> starts_with (avet_sk_prefix (DvStr s)) (build_avet_sk (DvStr (s @ w)) e)"
proof -
  obtain c r where w: "str_bytes w = c # r" using assms(1) by (cases w) (auto simp: str_bytes_def)
  then have c: "c < 0xFF" using assms(3) by simp
  have len: "length (str_bytes s) + length (str_bytes w) \<le> 31" using assms(2) by simp
  let ?key = "4 # str_bytes s @ c # r @ take 26 (str_bytes e)"
  have key: "build_avet_sk (DvStr (s @ w)) e = ?key"
    using len w by (simp add: build_avet_sk_def type_of_value_def avet_value_bytes_def tag_def)
  have pre: "avet_sk_prefix (DvStr s) = 4 # str_bytes s"
    using len by (simp add: avet_sk_prefix_def build_avet_sk_def type_of_value_def avet_value_bytes_def tag_def)
  have b: "gt_min = 4 # str_bytes s @ replicate 32 0xFF" "le_max = 4 # str_bytes s @ replicate 32 0xFF"
    using assms(4,5) by (simp_all add: avet_sk_range_bounds_def or_else_def bound_value_def is_avet_indexable_def
        type_of_value_def pre)
  have less: "c # r @ take 26 (str_bytes e) < replicate 32 0xFF" using c by (auto simp: numeral_eq_Suc)
  have "s < s @ w"
  proof (induction s)
    case Nil
    show ?case using assms(1) by (cases w) simp_all
  qed simp
  then show ?thesis unfolding key pre b starts_with_def using less by (simp add: less_imp_le)
qed

theorem avet_string_range_wrong_witness:
  "\<exists>mn mx. avet_sk_range_bounds (Exclusive (DvStr ''a'')) Unbounded = Some (mn, mx)
    \<and> build_avet_sk (DvStr ''ab'') ''E'' < mn"
proof -
  obtain a b where gt: "avet_sk_range_bounds (Exclusive (DvStr ''a'')) Unbounded = Some (a, b)"
    by (simp add: avet_sk_range_bounds_def or_else_def bound_value_def is_avet_indexable_def type_of_value_def Let_def)
  obtain c d where le: "avet_sk_range_bounds Unbounded (Inclusive (DvStr ''a'')) = Some (c, d)"
    by (simp add: avet_sk_range_bounds_def or_else_def bound_value_def is_avet_indexable_def type_of_value_def Let_def)
  have "\<forall>x \<in> set (str_bytes ''b''). x < 0xFF" by code_simp
  then show ?thesis using avet_string_range_wrong [OF _ _ _ gt le, of "''b''" "''E''"] gt by auto
qed

text \<open>Negative zero is stored below every number: its key precedes the keys of all doubles that are not
  NaN, the negative infinity included, so that no range with a lower end finds it.\<close>

theorem avet_negative_zero_first:
  assumes "\<not> f64_nan d" "d \<noteq> f64_neg_zero"
  shows "build_avet_sk (DvDouble f64_neg_zero) e < build_avet_sk (DvDouble d) e'
    \<and> \<not> f64_less f64_neg_zero 0 \<and> \<not> f64_less 0 f64_neg_zero"
proof -
  have z: "f64_flip f64_neg_zero = 0" by code_simp
  have "(0 :: int) < int (unat (f64_flip d))"
    using f64_flip_eq [OF assms] f64_split(2) [of d] assms(1) by (auto simp: f64_rank_def f64_nan_def)
  then have "f64_flip f64_neg_zero < f64_flip d" unfolding z word_less_nat_alt by (simp only: of_nat_0_less_iff unat_0)
  then have "be_word (f64_flip f64_neg_zero) @ x < be_word (f64_flip d) @ y" for x y by (simp add: be_word_append_less)
  moreover have "\<not> f64_less f64_neg_zero 0" "\<not> f64_less 0 f64_neg_zero" by code_simp+
  ultimately show ?thesis by (simp add: build_avet_sk_def type_of_value_def avet_value_bytes_def)
qed

theorem avet_negative_zero_first_witness:
  "build_avet_sk (DvDouble f64_neg_zero) ''E'' < build_avet_sk (DvDouble 0xFFF0000000000000) ''F''"
proof -
  have "\<not> f64_nan 0xFFF0000000000000" "0xFFF0000000000000 \<noteq> f64_neg_zero" by code_simp+
  then show ?thesis using avet_negative_zero_first by blast
qed

text \<open>The keys of the primary index order the datoms of an entity by attribute, then by transaction, and
  within a transaction retractions before assertions; they determine the three and are decoded to
  them.\<close>

theorem eavt_key_order:
  "decode_eavt_sk (build_eavt_sk a t b) = Some (a, t, b)
    \<and> (build_eavt_sk a t b < build_eavt_sk a' t' b'
        \<longleftrightarrow> a < a' \<or> a = a' \<and> (t < t' \<or> t = t' \<and> \<not> b \<and> b'))"
  by (simp add: build_eavt_sk_less)

end
