(* ===== verification/Float64.thy ===== *)
theory Float64
  imports EavKeys
begin

text \<open>The casts of Rust between \<^verbatim>\<open>f64\<close> and the integers, over the bit patterns of IEEE 754: an integer is
  rounded to the nearest double (\<^verbatim>\<open>n as f64\<close>, ties to even), a double is truncated and saturated
  (\<^verbatim>\<open>d as i64\<close>, NaN to zero) or rounded to single precision (\<^verbatim>\<open>d as f32\<close>). Integers of at most 53
  bits survive the round trip and keep their order.\<close>

unbundle bit_operations_syntax

fun nat_log2 :: "nat \<Rightarrow> nat" where
  "nat_log2 n = (if n < 2 then 0 else Suc (nat_log2 (n div 2)))"

declare nat_log2.simps [simp del]

text \<open>\<^verbatim>\<open>m / 2^k\<close> to the nearest integer, ties to even.\<close>

definition round_shift :: "nat \<Rightarrow> nat \<Rightarrow> nat" where
  "round_shift m k = (let q = m div 2 ^ k; r = m mod 2 ^ k in
     if 2 * r > 2 ^ k \<or> 2 * r = 2 ^ k \<and> odd q then Suc q else q)"

text \<open>The magnitude bits of \<^verbatim>\<open>m * 2^e\<close> in the format with \<^verbatim>\<open>p\<close> bits of precision and \<^verbatim>\<open>w\<close> exponent bits.\<close>

definition float_bits :: "nat \<Rightarrow> nat \<Rightarrow> nat \<Rightarrow> int \<Rightarrow> nat" where
  "float_bits p w m e =
    (if m = 0 then 0
     else let lowest = 3 - 2 ^ (w - 1) - int p;
              q = max (e + int (nat_log2 m) - int (p - 1)) lowest;
              r = (if q \<le> e then m * 2 ^ nat (e - q) else round_shift m (nat (q - e)))
          in min (r + nat (q - lowest) * 2 ^ (p - 1)) ((2 ^ w - 1) * 2 ^ (p - 1)))"

definition f64_of_int :: "int \<Rightarrow> f64" where
  "f64_of_int n = of_nat (float_bits 53 11 (nat \<bar>n\<bar>) 0 + (if n < 0 then 2 ^ 63 else 0))"

text \<open>Significand and exponent of a double.\<close>

definition f64_parts :: "f64 \<Rightarrow> nat \<times> int" where
  "f64_parts d = (let ex = f64_mag d div 2 ^ 52; fr = f64_mag d mod 2 ^ 52 in
     if ex = 0 then (fr, - 1074) else (fr + 2 ^ 52, int ex - 1075))"

definition f64_trunc :: "f64 \<Rightarrow> int" where
  "f64_trunc d = (case f64_parts d of (m, e) \<Rightarrow>
     let t = (if 0 \<le> e then m * 2 ^ nat e else m div 2 ^ nat (- e))
     in if bit d 63 then - int t else int t)"

definition f64_to_i64 :: "f64 \<Rightarrow> int" where
  "f64_to_i64 d = (if f64_nan d then 0 else max (- (2 ^ 63)) (min (2 ^ 63 - 1) (f64_trunc d)))"

definition f64_integral :: "f64 \<Rightarrow> bool" where
  "f64_integral d = (case f64_parts d of (m, e) \<Rightarrow>
     f64_mag d < 0x7FF0000000000000 \<and> (0 \<le> e \<or> m mod 2 ^ nat (- e) = 0))"

definition f64_to_f32 :: "f64 \<Rightarrow> 32 word" where
  "f64_to_f32 d = (case f64_parts d of (m, e) \<Rightarrow>
     of_nat ((if f64_nan d then 0x7FC00000 else float_bits 24 8 m e) + (if bit d 63 then 2 ^ 31 else 0)))"

section \<open>Integers of 53 bits\<close>

lemma nat_log2_bounds: "0 < n \<Longrightarrow> 2 ^ nat_log2 n \<le> n \<and> n < 2 ^ Suc (nat_log2 n)"
proof (induction n rule: nat_log2.induct)
  case (1 n)
  show ?case
  proof (cases "n < 2")
    case True
    then show ?thesis using 1 by (simp add: nat_log2.simps [of n])
  next
    case False
    then have "2 ^ nat_log2 (n div 2) \<le> n div 2" "n div 2 < 2 * 2 ^ nat_log2 (n div 2)" using 1 by simp_all
    moreover have "n = 2 * (n div 2) + n mod 2" "n mod 2 < 2" by simp_all
    ultimately have "2 * 2 ^ nat_log2 (n div 2) \<le> n" "n < 4 * 2 ^ nat_log2 (n div 2)" by linarith+
    then show ?thesis using False by (simp add: nat_log2.simps [of n])
  qed
qed

lemma nat_log2_le: "0 < n \<Longrightarrow> n < 2 ^ Suc k \<Longrightarrow> nat_log2 n \<le> k"
proof -
  assume "0 < n" "n < 2 ^ Suc k"
  then have "(2 :: nat) ^ nat_log2 n < 2 ^ Suc k" using nat_log2_bounds [of n] by linarith
  then have "nat_log2 n < Suc k" by (rule power_less_imp_less_exp [rotated]) simp
  then show ?thesis by simp
qed

lemma two_neq_zero: "(2 :: nat) \<noteq> 0"
  by simp

lemma f64_mag_unat:
  assumes "unat w = b + (if s then 2 ^ 63 else 0)" "b < 2 ^ 63"
  shows "f64_mag w = b" "bit w 63 = s"
  using f64_split [of w] assms by (cases "bit w 63"; cases s; simp)+

lemma f64_mag_of_nat:
  assumes "b < 2 ^ 63"
  shows "f64_mag (of_nat (b + (if s then 2 ^ 63 else 0))) = b" "bit (of_nat (b + (if s then 2 ^ 63 else 0)) :: f64) 63 = s"
proof -
  let ?n = "b + (if s then 2 ^ 63 else 0)"
  have "?n < 2 ^ LENGTH(64)" using assms by simp
  then have "unat (of_nat ?n :: f64) = ?n" unfolding unat_of_nat by (rule mod_less)
  then show "f64_mag (of_nat ?n) = b" "bit (of_nat ?n :: f64) 63 = s" using f64_mag_unat assms by blast+
qed

text \<open>The significand of a small integer and the bits that hold it.\<close>

lemma float_bits_small:
  assumes "0 < m" "m < 2 ^ 53"
  shows "float_bits 53 11 m 0 = m * 2 ^ (52 - nat_log2 m) + (nat_log2 m + 1022) * 2 ^ 52"
    "2 ^ 52 \<le> m * 2 ^ (52 - nat_log2 m)" "m * 2 ^ (52 - nat_log2 m) < 2 ^ 53"
proof -
  let ?l = "nat_log2 m" and ?r = "m * 2 ^ (52 - nat_log2 m)"
  have l: "?l \<le> 52" using nat_log2_le [of m 52] assms by simp
  have b: "2 ^ ?l \<le> m" "m < 2 ^ Suc ?l" using nat_log2_bounds assms(1) by blast+
  have p: "(2 :: nat) ^ ?l * 2 ^ (52 - ?l) = 2 ^ 52" using l by (simp flip: power_add)
  show lo: "2 ^ 52 \<le> ?r" using mult_right_mono [OF b(1), of "2 ^ (52 - ?l)"] unfolding p by simp
  have "m * 2 ^ (52 - ?l) < 2 ^ Suc ?l * 2 ^ (52 - ?l)" using b(2) by (rule mult_strict_right_mono) simp
  also have "\<dots> = 2 ^ 53" using p by simp
  finally show hi: "?r < 2 ^ 53" .
  have "nat (0 - (int ?l - 52)) = 52 - ?l" using l by simp
  moreover have "nat (int ?l - 52 - (- 1074)) = ?l + 1022" by simp
  moreover have "?r + (?l + 1022) * 2 ^ 52 \<le> 2047 * 2 ^ 52"
  proof -
    have "(?l + 1022) * 2 ^ 52 \<le> 1074 * 2 ^ 52" using l by simp
    then show ?thesis using hi by simp
  qed
  ultimately show "float_bits 53 11 m 0 = ?r + (?l + 1022) * 2 ^ 52"
    using assms(1) l by (simp add: float_bits_def Let_def max_def)
qed

lemma f64_of_int_trunc:
  assumes "\<bar>n\<bar> < 2 ^ 53"
  shows "f64_trunc (f64_of_int n) = n" "\<not> f64_nan (f64_of_int n)"
    "f64_rank (f64_of_int n) = sgn n * int (float_bits 53 11 (nat \<bar>n\<bar>) 0)"
proof -
  let ?m = "nat \<bar>n\<bar>"
  let ?b = "float_bits 53 11 ?m 0" and ?r = "?m * 2 ^ (52 - nat_log2 ?m)"
  have m: "?m < 2 ^ 53" using assms by simp
  have b: "?b < 1076 * 2 ^ 52"
  proof (cases "?m = 0")
    case False
    then have "?b = ?r + (nat_log2 ?m + 1022) * 2 ^ 52" "?r < 2 ^ 53" using float_bits_small [of ?m] m by simp_all
    moreover have "nat_log2 ?m \<le> 52" using nat_log2_le [of ?m 52] False m by simp
    then have "(nat_log2 ?m + 1022) * 2 ^ 52 \<le> 1074 * 2 ^ 52" by simp
    ultimately show ?thesis by simp
  qed (simp add: float_bits_def)
  have f: "f64_mag (f64_of_int n) = ?b" "bit (f64_of_int n) 63 \<longleftrightarrow> n < 0"
    using f64_mag_of_nat [of ?b "n < 0"] b by (simp_all add: f64_of_int_def)
  show "\<not> f64_nan (f64_of_int n)" using b by (simp add: f64_nan_def f)
  show "f64_rank (f64_of_int n) = sgn n * int ?b"
    unfolding f64_rank_def f using float_bits_def [of 53 11 0 0] by (cases "n = 0") (simp_all add: sgn_if)
  show "f64_trunc (f64_of_int n) = n"
  proof (cases "n = 0")
    case True
    then show ?thesis using f by (simp add: f64_trunc_def f64_parts_def float_bits_def)
  next
    case False
    then have pos: "0 < ?m" by simp
    let ?l = "nat_log2 ?m"
    have l: "?l \<le> 52" using nat_log2_le [of ?m 52] pos m by simp
    have fb: "?b = (?r - 2 ^ 52) + (?l + 1023) * 2 ^ 52" "?r - 2 ^ 52 < 2 ^ 52"
      using float_bits_small [OF pos m] by (simp_all add: less_diff_conv2)
    have d: "?b div 2 ^ 52 = ?l + 1023" "?b mod 2 ^ 52 = ?r - 2 ^ 52"
      unfolding fb(1) div_mult_self1 [OF power_not_zero [OF two_neq_zero]] mod_mult_self1 using fb(2) by (simp_all only: div_less mod_less add_0_right)
    have parts: "f64_parts (f64_of_int n) = (?r, int ?l - 52)"
    proof -
      have "?r - 2 ^ 52 + 2 ^ 52 = ?r" using float_bits_small(2) [OF pos m] by (rule le_add_diff_inverse2)
      moreover have "?l + 1023 \<noteq> 0" "int (?l + 1023) - 1075 = int ?l - 52" by simp_all
      ultimately show ?thesis unfolding f64_parts_def f(1) Let_def d by (simp only: if_False)
    qed
    have "nat (- (int ?l - 52)) = 52 - ?l" using l by simp
    then have "?r div 2 ^ nat (- (int ?l - 52)) = ?m" by (metis div_mult_self_is_m zero_less_numeral zero_less_power)
    moreover have "?r * 2 ^ nat (int ?l - 52) = ?m" if "0 \<le> int ?l - 52"
    proof -
      have "52 - ?l = 0" "nat (int ?l - 52) = 0" using that l by simp_all
      then show ?thesis by (simp only: power_0 mult_1_right)
    qed
    ultimately have t: "(if 0 \<le> int ?l - 52 then ?r * 2 ^ nat (int ?l - 52) else ?r div 2 ^ nat (- (int ?l - 52))) = ?m"
      by presburger
    have "f64_trunc (f64_of_int n) = (if n < 0 then - int ?m else int ?m)"
      unfolding f64_trunc_def parts prod.case Let_def f(2) t by (rule refl)
    then show ?thesis by simp
  qed
qed

text \<open>Integers of 53 bits are doubles: the casts there and back are the identity.\<close>

lemma f64_int_exact: "\<bar>n\<bar> < 2 ^ 53 \<Longrightarrow> f64_to_i64 (f64_of_int n) = n"
  using f64_of_int_trunc by (simp add: f64_to_i64_def)

lemma float_bits_mono:
  assumes "m < n" "n < 2 ^ 53"
  shows "float_bits 53 11 m 0 < float_bits 53 11 n 0"
proof (cases "m = 0")
  case True
  then show ?thesis using float_bits_small(1) [of n] assms by (simp add: float_bits_def [of 53 11 0])
next
  case False
  let ?lm = "nat_log2 m" and ?ln = "nat_log2 n"
  have b: "2 ^ ?lm \<le> m" "n < 2 ^ Suc ?ln" using nat_log2_bounds [of m] nat_log2_bounds [of n] False assms by simp_all
  then have "(2 :: nat) ^ ?lm < 2 ^ Suc ?ln" using assms(1) by linarith
  then have "?lm < Suc ?ln" by (rule power_less_imp_less_exp [rotated]) simp
  then have le: "?lm \<le> ?ln" by simp
  note fm = float_bits_small [of m] and fn = float_bits_small [of n]
  show ?thesis
  proof (cases "?lm = ?ln")
    case True
    then have "m * 2 ^ (52 - ?lm) < n * 2 ^ (52 - ?ln)" using assms(1) by simp
    then show ?thesis using fm(1) fn(1) False assms True by simp
  next
    case neq: False
    then have "(?lm + 1023) * 2 ^ 52 \<le> (?ln + 1022) * (2 ^ 52 :: nat)" using le by (intro mult_right_mono) simp_all
    then show ?thesis using fm fn False assms by simp
  qed
qed

lemma f64_of_int_less:
  assumes "\<bar>m\<bar> < 2 ^ 53" "\<bar>n\<bar> < 2 ^ 53"
  shows "f64_less (f64_of_int m) (f64_of_int n) \<longleftrightarrow> m < n"
proof -
  let ?b = "\<lambda>n. int (float_bits 53 11 (nat \<bar>n\<bar>) 0)"
  have mono: "?b x < ?b y" if "\<bar>x\<bar> < \<bar>y\<bar>" "\<bar>y\<bar> < 2 ^ 53" for x y
    using float_bits_mono [of "nat \<bar>x\<bar>" "nat \<bar>y\<bar>"] that by simp
  have pos: "0 < ?b x" if "x \<noteq> 0" "\<bar>x\<bar> < 2 ^ 53" for x
    using float_bits_mono [of 0 "nat \<bar>x\<bar>"] that by (simp add: nat_less_iff)
  have "sgn m * ?b m < sgn n * ?b n \<longleftrightarrow> m < n"
  proof -
    consider "m = n" | "\<bar>m\<bar> = \<bar>n\<bar>" "m \<noteq> n" | "\<bar>m\<bar> < \<bar>n\<bar>" | "\<bar>n\<bar> < \<bar>m\<bar>" by linarith
    then show ?thesis
    proof cases
      case 2
      then have "n = - m" "m \<noteq> 0" by auto
      then show ?thesis using pos [of m] assms by (auto simp: sgn_if)
    next
      case 3
      then show ?thesis using mono [OF 3 assms(2)] pos [of m] pos [of n] assms by (auto simp: sgn_if)
    next
      case 4
      then show ?thesis using mono [OF 4 assms(1)] pos [of m] pos [of n] assms by (auto simp: sgn_if)
    qed simp
  qed
  then show ?thesis using f64_of_int_trunc(2,3) assms by (simp add: f64_less_def)
qed

end
