(* ===== verification/Json.thy ===== *)
theory Json
  imports Float64 StrUtil
begin

text \<open>JSON values as \<^verbatim>\<open>serde_json::Value\<close> holds them, with its accessors: an integer of 64 bits is kept
  exact, every other number is a double, and an object is the list of its entries in the order of
  the keys. A missing field reads as \<^verbatim>\<open>null\<close> (the index operator) or as absent (\<^verbatim>\<open>get\<close>).\<close>

datatype json =
    JNull
  | JBool bool
  | JInt int
  | JFloat f64
  | JStr string
  | JArr "json list"
  | JObj "(string \<times> json) list"

definition as_str :: "json \<Rightarrow> string option" where
  "as_str j = (case j of JStr s \<Rightarrow> Some s | _ \<Rightarrow> None)"

definition json_bool :: "json \<Rightarrow> bool option" where
  "json_bool j = (case j of JBool b \<Rightarrow> Some b | _ \<Rightarrow> None)"

definition as_array :: "json \<Rightarrow> json list option" where
  "as_array j = (case j of JArr a \<Rightarrow> Some a | _ \<Rightarrow> None)"

definition as_object :: "json \<Rightarrow> (string \<times> json) list option" where
  "as_object j = (case j of JObj kvs \<Rightarrow> Some kvs | _ \<Rightarrow> None)"

definition as_i64 :: "json \<Rightarrow> int option" where
  "as_i64 j = (case j of JInt n \<Rightarrow> if in_s 64 n then Some n else None | _ \<Rightarrow> None)"

definition as_u64 :: "json \<Rightarrow> nat option" where
  "as_u64 j = (case j of JInt n \<Rightarrow> if 0 \<le> n then Some (nat n) else None | _ \<Rightarrow> None)"

definition as_f64 :: "json \<Rightarrow> f64 option" where
  "as_f64 j = (case j of JInt n \<Rightarrow> Some (f64_of_int n) | JFloat d \<Rightarrow> Some d | _ \<Rightarrow> None)"

definition json_get :: "json \<Rightarrow> string \<Rightarrow> json option" where
  "json_get j k = (case j of JObj kvs \<Rightarrow> map_of kvs k | _ \<Rightarrow> None)"

definition json_at :: "json \<Rightarrow> string \<Rightarrow> json" where
  "json_at j k = unwrap_or (json_get j k) JNull"

text \<open>The strings among the elements of an array field; an absent field counts as empty.\<close>

definition string_list :: "json \<Rightarrow> string list" where
  "string_list j = List.map_filter as_str (unwrap_or (as_array j) [])"

text \<open>\<^verbatim>\<open>Number::from_f64\<close> refuses NaN and the infinities.\<close>

definition number_from_f64 :: "f64 \<Rightarrow> json option" where
  "number_from_f64 d = (if f64_mag d < 0x7FF0000000000000 then Some (JFloat d) else None)"

section \<open>Names with separators\<close>

definition last_part :: "char \<Rightarrow> string \<Rightarrow> string" where
  "last_part c s = rev (takeWhile (\<lambda>x. x \<noteq> c) (rev s))"

fun split_char :: "char \<Rightarrow> string \<Rightarrow> string list" where
  "split_char c [] = [[]]"
| "split_char c (x # xs) =
    (if x = c then [] # split_char c xs
     else case split_char c xs of [] \<Rightarrow> [[x]] | h # t \<Rightarrow> (x # h) # t)"

fun join_with :: "string \<Rightarrow> string list \<Rightarrow> string" where
  "join_with sep [] = []"
| "join_with sep [x] = x"
| "join_with sep (x # xs) = x @ sep @ join_with sep xs"

lemma last_part_plain [simp]: "c \<notin> set s \<Longrightarrow> last_part c s = s"
proof -
  assume "c \<notin> set s"
  then have all: "takeWhile (\<lambda>x. x \<noteq> c) (rev s) = rev s" by (auto simp: takeWhile_eq_all_conv)
  show ?thesis unfolding last_part_def all by simp
qed

end
