(* ===== verification/FormulaLexer.thy ===== *)
theory FormulaLexer
  imports StrUtil DomainErrors
begin

text \<open>The formula language of Aegis: tokens and operators (\<^verbatim>\<open>src/aegis/formula/token.rs\<close>), the error
  catalogue (\<^verbatim>\<open>errors.rs\<close>) and the lexer (\<^verbatim>\<open>lexer.rs\<close>). A string is its UTF-8 bytes, so positions are
  byte offsets as in the code. The numbers are of a type parameter; reading a literal is an
  argument.\<close>

section \<open>Tokens\<close>

datatype operator = OpAdd | OpSub | OpMul | OpDiv | OpMod | OpPower | OpNeg

primrec precedence :: "operator \<Rightarrow> nat" where
  "precedence OpAdd = 1"
| "precedence OpSub = 1"
| "precedence OpMul = 2"
| "precedence OpDiv = 2"
| "precedence OpMod = 2"
| "precedence OpPower = 3"
| "precedence OpNeg = 4"

definition is_left_associative :: "operator \<Rightarrow> bool" where
  "is_left_associative op \<longleftrightarrow> op \<notin> {OpNeg, OpPower}"

datatype 'f token =
    Literal 'f
  | Variable string
  | Operator operator
  | Function string nat
  | ParenOpen
  | ParenClose
  | Comma

section \<open>Errors\<close>

datatype formula_error =
    UnexpectedToken nat string
  | UnbalancedParentheses nat
  | UnknownFunction string
  | ArityMismatch string nat nat
  | SqlInjectionDetected string
  | EmptyFormula
  | DivisionByZero
  | MathDomainError string string
  | UnresolvedVariable string
  | FormulaTooLong nat nat
  | NestingTooDeep nat nat
  | TooManyTokens nat nat
  | FunctionNestingTooDeep nat nat

primrec formula_code :: "formula_error \<Rightarrow> error_code" where
  "formula_code (UnexpectedToken p s) = Fml001"
| "formula_code (UnbalancedParentheses p) = Fml002"
| "formula_code (UnknownFunction n) = Fml003"
| "formula_code (ArityMismatch f e g) = Fml004"
| "formula_code DivisionByZero = Fml005"
| "formula_code (MathDomainError f d) = Fml006"
| "formula_code (SqlInjectionDetected s) = Fml007"
| "formula_code (FormulaTooLong l m) = Fml008"
| "formula_code (NestingTooDeep d m) = Fml009"
| "formula_code (TooManyTokens c m) = Fml010"
| "formula_code (FunctionNestingTooDeep d m) = Fml011"
| "formula_code (UnresolvedVariable n) = Fml012"
| "formula_code EmptyFormula = Fml013"

primrec formula_detail :: "formula_error \<Rightarrow> string" where
  "formula_detail (UnexpectedToken p s) =
     ''Unexpected token '' @ CHR 0x27 # s @ CHR 0x27 # '' at position '' @ nat_str p"
| "formula_detail (UnbalancedParentheses p) = ''Unbalanced parentheses at position '' @ nat_str p"
| "formula_detail (UnknownFunction n) = ''Unknown function: '' @ n"
| "formula_detail (ArityMismatch f e g) =
     f @ ''() expects '' @ nat_str e @ '' args, got '' @ nat_str g"
| "formula_detail DivisionByZero = ''Division by zero''"
| "formula_detail (MathDomainError f d) = ''Math domain error in '' @ f @ ''(): '' @ d"
| "formula_detail (SqlInjectionDetected s) = ''SQL injection detected: '' @ CHR 0x27 # s @ [CHR 0x27]"
| "formula_detail (FormulaTooLong l m) = ''Formula length '' @ nat_str l @ '' exceeds max '' @ nat_str m"
| "formula_detail (NestingTooDeep d m) = ''Nesting depth '' @ nat_str d @ '' exceeds max '' @ nat_str m"
| "formula_detail (TooManyTokens c m) = ''Token count '' @ nat_str c @ '' exceeds max '' @ nat_str m"
| "formula_detail (FunctionNestingTooDeep d m) =
     ''Function nesting depth '' @ nat_str d @ '' exceeds max '' @ nat_str m"
| "formula_detail (UnresolvedVariable n) = ''Unresolved variable: '' @ n"
| "formula_detail EmptyFormula = ''Empty formula''"

section \<open>Characters\<close>

definition between :: "char \<Rightarrow> char \<Rightarrow> char \<Rightarrow> bool" where
  [simp]: "between lo hi c \<longleftrightarrow> lo \<le> c \<and> c \<le> hi"

definition is_digit :: "char \<Rightarrow> bool" where
  "is_digit = between (CHR ''0'') (CHR ''9'')"

definition is_alpha :: "char \<Rightarrow> bool" where
  "is_alpha c \<longleftrightarrow> between (CHR ''A'') (CHR ''Z'') c \<or> between (CHR ''a'') (CHR ''z'') c"

definition is_alnum :: "char \<Rightarrow> bool" where
  "is_alnum c \<longleftrightarrow> is_alpha c \<or> is_digit c"

definition upper_char :: "char \<Rightarrow> char" where
  "upper_char c = (if between (CHR ''a'') (CHR ''z'') c then char_of (of_char c - (32 :: nat)) else c)"

text \<open>\<^verbatim>\<open>to_uppercase\<close> on ASCII strings, which all names of functions are.\<close>

definition to_uppercase :: "string \<Rightarrow> string" where
  "to_uppercase s = map upper_char s"

text \<open>The first scalar of a valid UTF-8 string.\<close>

definition first_scalar :: "string \<Rightarrow> string" where
  "first_scalar s = (let b = of_char (hd s) :: nat in
     take (if b < 0x80 then 1 else if b < 0xE0 then 2 else if b < 0xF0 then 3 else 4) s)"

section \<open>Lexer\<close>

fun scan_number :: "bool \<Rightarrow> string \<Rightarrow> string \<times> string" where
  "scan_number has_dot [] = ([], [])"
| "scan_number has_dot (c # cs) =
     (if is_digit c then (case scan_number has_dot cs of (n, r) \<Rightarrow> (c # n, r))
      else if c = CHR ''.'' \<and> \<not> has_dot then (case scan_number True cs of (n, r) \<Rightarrow> (c # n, r))
      else ([], c # cs))"

fun scan_identifier :: "string \<Rightarrow> string \<times> string" where
  "scan_identifier [] = ([], [])"
| "scan_identifier (c # cs) =
     (if is_alnum c \<or> c = CHR ''_'' \<or> c = CHR ''-''
        \<or> c = CHR ''/'' \<and> (case cs of [] \<Rightarrow> False | x # _ \<Rightarrow> is_alpha x \<or> x = CHR ''_'')
      then (case scan_identifier cs of (i, r) \<Rightarrow> (c # i, r))
      else ([], c # cs))"

definition expects_operand :: "'f token list \<Rightarrow> bool" where
  "expects_operand toks \<longleftrightarrow> toks = [] \<or>
     (case last toks of Operator _ \<Rightarrow> True | ParenOpen \<Rightarrow> True | Comma \<Rightarrow> True | _ \<Rightarrow> False)"

definition symbol_token :: "'f token list \<Rightarrow> char \<Rightarrow> 'f token option" where
  "symbol_token toks c =
    (if c = CHR ''+'' then Some (Operator OpAdd)
     else if c = CHR ''-'' then Some (Operator (if expects_operand toks then OpNeg else OpSub))
     else if c = CHR ''*'' then Some (Operator OpMul)
     else if c = CHR ''/'' then Some (Operator OpDiv)
     else if c = CHR ''%'' then Some (Operator OpMod)
     else if c = CHR ''^'' then Some (Operator OpPower)
     else if c = CHR ''('' then Some ParenOpen
     else if c = CHR '')'' then Some ParenClose
     else if c = CHR '','' then Some Comma
     else None)"

text \<open>One turn of the loop on a non-empty input at position \<^verbatim>\<open>pos\<close>.\<close>

definition lex_step ::
  "(string \<Rightarrow> 'f option) \<Rightarrow> nat \<Rightarrow> 'f token list \<Rightarrow> string \<Rightarrow> (formula_error, 'f token list \<times> string) result" where
  "lex_step parse_num pos toks cs = (let c = hd cs in
    if c \<in> {CHR '' '', CHR 0x09, CHR 0x0A, CHR 0x0D} then Inr (toks, tl cs)
    else case symbol_token toks c of
      Some t \<Rightarrow> Inr (toks @ [t], tl cs)
    | None \<Rightarrow>
        if is_digit c \<or> c = CHR ''.'' then
          (case scan_number False cs of (n, r) \<Rightarrow>
             rbind (ok_or (UnexpectedToken pos n) (parse_num n)) (\<lambda>v. Inr (toks @ [Literal v], r)))
        else if is_alpha c \<or> c = CHR ''_'' then
          (case scan_identifier cs of (i, r) \<Rightarrow>
             (let r' = trim_start r in
              Inr (toks @ [if r' \<noteq> [] \<and> hd r' = CHR ''('' then Function (to_uppercase i) 0
                           else Variable i], r')))
        else Inl (UnexpectedToken pos (first_scalar cs)))"

lemma scan_number_length: "length (snd (scan_number d cs)) \<le> length cs"
  by (induction d cs rule: scan_number.induct) (auto split: prod.splits)

lemma scan_identifier_length: "length (snd (scan_identifier cs)) \<le> length cs"
  by (induction cs rule: scan_identifier.induct) (auto split: prod.splits)

lemma strip_fuel_length: "length (strip_fuel ws n s) \<le> length s"
proof (induction n arbitrary: s)
  case (Suc n)
  show ?case using Suc [of "drop k s" for k]
    by (auto split: option.split) (meson diff_le_self le_trans)
qed simp

lemma trim_start_length: "length (trim_start s) \<le> length s"
  using strip_fuel_length [of white_space "length s" "map of_char s"] by (simp add: trim_start_def)

lemma lex_step_shorter:
  assumes "lex_step parse_num pos toks cs = Inr (toks', r)" "cs \<noteq> []"
  shows "length r < length cs"
proof -
  obtain c cs' where cs: "cs = c # cs'" using assms(2) by (cases cs) auto
  have n: "is_digit c \<or> c = CHR ''.'' \<Longrightarrow> length (snd (scan_number False cs)) < length cs"
    using scan_number_length [of _ cs'] by (auto simp: cs split: prod.split) (metis le_imp_less_Suc snd_conv)+
  have i: "is_alpha c \<or> c = CHR ''_'' \<Longrightarrow> length (trim_start (snd (scan_identifier cs))) < length cs"
    using scan_identifier_length [of cs'] trim_start_length [of "snd (scan_identifier cs')"]
    by (auto simp: cs is_alnum_def split: prod.split)
  show ?thesis
    using assms n i by (auto simp: lex_step_def cs Let_def split: if_splits option.splits prod.splits)
qed

lemma rbind_cong [fundef_cong]:
  "x = y \<Longrightarrow> (\<And>a. y = Inr a \<Longrightarrow> f a = g a) \<Longrightarrow> rbind x f = rbind y g"
  by (cases y) simp_all

function lex_loop ::
  "(string \<Rightarrow> 'f option) \<Rightarrow> nat \<Rightarrow> 'f token list \<Rightarrow> string \<Rightarrow> (formula_error, 'f token list) result" where
  "lex_loop parse_num len toks cs =
    (if cs = [] then Inr toks
     else if length toks \<ge> 512 then Inl (TooManyTokens (length toks + 1) 512)
     else rbind (lex_step parse_num (len - length cs) toks cs)
       (\<lambda>tr. lex_loop parse_num len (fst tr) (snd tr)))"
  by pat_completeness auto
termination
  by (relation "measure (\<lambda>(_, _, _, cs). length cs)") (auto dest: lex_step_shorter)

declare lex_loop.simps [simp del]

definition tokenize :: "(string \<Rightarrow> 'f option) \<Rightarrow> string \<Rightarrow> (formula_error, 'f token list) result" where
  "tokenize parse_num formula =
    (if str_trim formula = [] then Inl EmptyFormula
     else if length formula > 4096 then Inl (FormulaTooLong (length formula) 4096)
     else lex_loop parse_num (length formula) [] formula)"

end
