(* ===== verification/QuotaResolver.thy ===== *)
theory QuotaResolver
  imports QuotaLedger Json FormulaLexer
begin

text \<open>Which quota governs an operation (\<^verbatim>\<open>src/quota/resolver.rs\<close>) and the usage shown for its row
  (\<^verbatim>\<open>src/quota/projection.rs\<close>). Dates are values of a third-party library: their order, the parts of
  a date, its constructors and its format are the fields of \<^verbatim>\<open>calendar\<close>. A query answers with its
  rows or an error; the clock of the cache counts milliseconds. Strategies are compared in ASCII
  capitals.\<close>

record 'd calendar =
  cal_le :: "'d \<Rightarrow> 'd \<Rightarrow> bool"
  cal_succ :: "'d \<Rightarrow> 'd option"
  cal_ymd :: "int \<Rightarrow> nat \<Rightarrow> nat \<Rightarrow> 'd option"
  cal_year :: "'d \<Rightarrow> int"
  cal_month :: "'d \<Rightarrow> nat"
  cal_format :: "'d \<Rightarrow> string"
  cal_parse :: "string \<Rightarrow> 'd option"

definition QUOTA_ENTITY :: string where "QUOTA_ENTITY = ''domain_quota''"
definition DEFAULT_CACHE_TTL_SECS :: nat where "DEFAULT_CACHE_TTL_SECS = 30"
definition MAX_QUOTA_ROWS :: int where "MAX_QUOTA_ROWS = 100"
definition DEFAULT_QUOTA_DOMAIN :: string where "DEFAULT_QUOTA_DOMAIN = ''*''"

record quota_spec =
  qs_id :: string
  qs_counter_id :: string
  qs_max_limit :: int
  qs_seed_usage :: int
  qs_period_key :: string

section \<open>Periods\<close>

definition field :: "json \<Rightarrow> string \<Rightarrow> json option" where
  "field row name = or_else (json_get row (QUOTA_ENTITY @ ''/'' @ name)) (json_get row name)"

definition covers :: "'d calendar \<Rightarrow> string \<Rightarrow> 'd \<Rightarrow> bool" where
  "covers cal period today =
    (period = ''LIFETIME'' \<or>
     (case split_once ''_'' period of
        None \<Rightarrow> False
      | Some (a, b) \<Rightarrow> (case (cal_parse cal a, cal_parse cal b) of
          (Some start, Some end) \<Rightarrow> cal_le cal start today \<and> \<not> cal_le cal end today
        | _ \<Rightarrow> False)))"

definition period_text :: "'d calendar \<Rightarrow> 'd \<Rightarrow> 'd \<Rightarrow> string" where
  "period_text cal start end = cal_format cal start @ ''_'' @ cal_format cal end"

definition renewed_period :: "'d calendar \<Rightarrow> string \<Rightarrow> 'd \<Rightarrow> string option" where
  "renewed_period cal strategy today =
    (let s = to_uppercase strategy; y = cal_year cal today; m = cal_month cal today in
     if s = ''DAILY'' then map_option (period_text cal today) (cal_succ cal today)
     else if s = ''MONTHLY'' then
       Option.bind (cal_ymd cal y m 1) (\<lambda>start.
         map_option (period_text cal start) (if m = 12 then cal_ymd cal (y + 1) 1 1 else cal_ymd cal y (m + 1) 1))
     else if s = ''YEARLY'' then
       Option.bind (cal_ymd cal y 1 1) (\<lambda>start. map_option (period_text cal start) (cal_ymd cal (y + 1) 1 1))
     else None)"

definition period_start :: "string \<Rightarrow> string" where
  "period_start period = takeWhile (\<lambda>c. c \<noteq> CHR ''_'') period"

section \<open>Rows\<close>

definition row_id :: "json \<Rightarrow> string option" where
  "row_id row = Option.bind (Option.bind (field row ''id'') as_str) (\<lambda>s. if s = [] then None else Some s)"

definition row_int :: "json \<Rightarrow> string \<Rightarrow> int" where
  "row_int row name = unwrap_or (Option.bind (field row name) as_i64) 0"

definition exact_match :: "'d calendar \<Rightarrow> 'd \<Rightarrow> json \<Rightarrow> quota_spec option" where
  "exact_match cal today row =
    Option.bind (Option.bind (field row ''period_key'') as_str) (\<lambda>period.
      if \<not> covers cal period today then None
      else map_option (\<lambda>i. \<lparr>qs_id = i, qs_counter_id = i, qs_max_limit = row_int row ''max_limit'',
        qs_seed_usage = row_int row ''current_usage'', qs_period_key = period\<rparr>) (row_id row))"

text \<open>What a row gives when its strategy renews it: the start of its period and the derived quota.\<close>

definition renewal :: "'d calendar \<Rightarrow> 'd \<Rightarrow> json \<Rightarrow> (string \<times> quota_spec) option" where
  "renewal cal today row =
    Option.bind (Option.bind (field row ''period_key'') as_str) (\<lambda>period.
    Option.bind (renewed_period cal (unwrap_or (Option.bind (field row ''reset_strategy'') as_str) []) today) (\<lambda>now.
      if period_start period \<ge> now then None
      else map_option (\<lambda>i. (period_start period, \<lparr>qs_id = i, qs_counter_id = i @ ''#'' @ now,
        qs_max_limit = row_int row ''max_limit'', qs_seed_usage = 0, qs_period_key = now\<rparr>)) (row_id row)))"

definition better :: "'d calendar \<Rightarrow> 'd \<Rightarrow> json \<Rightarrow> (string \<times> quota_spec) option \<Rightarrow> (string \<times> quota_spec) option" where
  "better cal today row best = (case renewal cal today row of
      None \<Rightarrow> best
    | Some (start, spec) \<Rightarrow> (case best of
        None \<Rightarrow> Some (start, spec)
      | Some (prev, _) \<Rightarrow> if start > prev then Some (start, spec) else best))"

definition renew_latest :: "'d calendar \<Rightarrow> 'd \<Rightarrow> json list \<Rightarrow> quota_spec option" where
  "renew_latest cal today rows = map_option snd (fold (better cal today) rows None)"

fun find_some :: "('a \<Rightarrow> 'b option) \<Rightarrow> 'a list \<Rightarrow> 'b option" where
  "find_some f [] = None"
| "find_some f (x # xs) = (case f x of None \<Rightarrow> find_some f xs | Some y \<Rightarrow> Some y)"

definition pick_active :: "'d calendar \<Rightarrow> 'd \<Rightarrow> json list \<Rightarrow> quota_spec option" where
  "pick_active cal today rows = (case find_some (exact_match cal today) rows of
      Some spec \<Rightarrow> Some spec | None \<Rightarrow> renew_latest cal today rows)"

definition derive_for_domain :: "quota_spec \<Rightarrow> string \<Rightarrow> quota_spec" where
  "derive_for_domain t domain = t\<lparr>qs_counter_id := qs_counter_id t @ ''#'' @ domain, qs_seed_usage := 0\<rparr>"

section \<open>The resolver\<close>

type_synonym quota_cache = "(string \<times> string \<times> string, int \<times> quota_spec) omap"

definition cached_quota :: "nat \<Rightarrow> int \<Rightarrow> string \<times> string \<times> string \<Rightarrow> quota_cache \<Rightarrow> quota_spec option \<times> quota_cache" where
  "cached_quota ttl now key c =
    (if ttl = 0 then (None, c)
     else case om_get c key of
       Some (resolved, spec) \<Rightarrow> if now - resolved < int ttl then (Some spec, c) else (None, om_del key c)
     | None \<Rightarrow> (None, c))"

definition remember :: "nat \<Rightarrow> int \<Rightarrow> string \<times> string \<times> string \<Rightarrow> quota_spec \<Rightarrow> quota_cache \<Rightarrow> quota_cache" where
  "remember ttl now key spec c = (if ttl = 0 then c else om_put key (now, spec) c)"

definition quota_query :: "string \<Rightarrow> string \<Rightarrow> json" where
  "quota_query domain limit_type = JObj
    [(''entity'', JStr QUOTA_ENTITY),
     (''limit'', JInt MAX_QUOTA_ROWS),
     (''select'', JArr (map JStr [''id'', ''tenant_id'', ''resource_domain'', ''limit_type'', ''max_limit'',
        ''current_usage'', ''period_key'', ''reset_strategy''])),
     (''where'', JArr [JStr ''and'', JArr [JStr ''='', JStr ''resource_domain'', JStr domain],
        JArr [JStr ''='', JStr ''limit_type'', JStr limit_type]])]"

definition query_domain ::
  "'d calendar \<Rightarrow> (string \<Rightarrow> json \<Rightarrow> json res) \<Rightarrow> 'd \<Rightarrow> string \<Rightarrow> string \<Rightarrow> string \<Rightarrow> quota_spec option res" where
  "query_domain cal run today tenant domain limit_type =
     rbind (run tenant (quota_query domain limit_type)) (\<lambda>result.
     rbind (ok_or Infra001 (as_array result)) (\<lambda>rows. Inr (pick_active cal today rows)))"

definition resolve_quota ::
  "'d calendar \<Rightarrow> (string \<Rightarrow> json \<Rightarrow> json res) \<Rightarrow> 'd \<Rightarrow> string \<Rightarrow> string \<Rightarrow> string \<Rightarrow> quota_spec option res" where
  "resolve_quota cal run today tenant domain limit_type =
     rbind (query_domain cal run today tenant domain limit_type) (\<lambda>spec. case spec of
         Some s \<Rightarrow> Inr (Some s)
       | None \<Rightarrow>
           if domain \<noteq> DEFAULT_QUOTA_DOMAIN then
             rbind (query_domain cal run today tenant DEFAULT_QUOTA_DOMAIN limit_type) (\<lambda>t.
               Inr (map_option (\<lambda>t. derive_for_domain t domain) t))
           else Inr None)"

definition active_quota ::
  "'d calendar \<Rightarrow> (string \<Rightarrow> json \<Rightarrow> json res) \<Rightarrow> nat \<Rightarrow> int \<Rightarrow> 'd \<Rightarrow> string \<Rightarrow> string \<Rightarrow> string \<Rightarrow> quota_cache
    \<Rightarrow> quota_spec option res \<times> quota_cache" where
  "active_quota cal run ttl now today tenant domain limit_type c =
    (case cached_quota ttl now (tenant, domain, limit_type) c of
       (Some spec, c1) \<Rightarrow> (Inr (Some spec), c1)
     | (None, c1) \<Rightarrow>
        (case resolve_quota cal run today tenant domain limit_type of
           Inl e \<Rightarrow> (Inl e, c1)
         | Inr None \<Rightarrow> (Inr None, c1)
         | Inr (Some spec) \<Rightarrow> (Inr (Some spec), remember ttl now (tenant, domain, limit_type) spec c1)))"

section \<open>The usage shown\<close>

definition bare_first :: "json \<Rightarrow> string \<Rightarrow> json option" where
  "bare_first row name = or_else (json_get row name) (json_get row (QUOTA_ENTITY @ ''/'' @ name))"

definition USAGE_FIELD :: string where "USAGE_FIELD = ''current_usage''"

definition usage_key :: "json \<Rightarrow> string option" where
  "usage_key row =
    (if json_get row (QUOTA_ENTITY @ ''/'' @ USAGE_FIELD) \<noteq> None then Some (QUOTA_ENTITY @ ''/'' @ USAGE_FIELD)
     else if json_get row USAGE_FIELD \<noteq> None then Some USAGE_FIELD else None)"

definition shown_row_id :: "json \<Rightarrow> string option" where
  "shown_row_id row = Option.bind (Option.bind (bare_first row ''id'') as_str) (\<lambda>s. if s = [] then None else Some s)"

definition counter_id :: "'d calendar \<Rightarrow> 'd \<Rightarrow> json \<Rightarrow> string option" where
  "counter_id cal today row = map_option (\<lambda>i.
    (let period = unwrap_or (Option.bind (bare_first row ''period_key'') as_str) [] in
     if period = [] \<or> covers cal period today then i
     else case renewed_period cal (unwrap_or (Option.bind (bare_first row ''reset_strategy'') as_str) []) today of
       Some now \<Rightarrow> if period_start period < now then i @ ''#'' @ now else i
     | None \<Rightarrow> i)) (shown_row_id row)"

definition overlay_row :: "'d calendar \<Rightarrow> 'd \<Rightarrow> (string, int) omap \<Rightarrow> json \<Rightarrow> json" where
  "overlay_row cal today usos row =
    (case (usage_key row, counter_id cal today row) of
       (Some key, Some i) \<Rightarrow>
         (case (om_get usos i, as_object row) of
            (Some uso, Some kvs) \<Rightarrow> JObj (om_entries (om_put key (JInt uso) (om_of_list kvs)))
          | _ \<Rightarrow> row)
     | _ \<Rightarrow> row)"

definition overlay_apply ::
  "(string \<Rightarrow> string list \<Rightarrow> ('s, (string, int) omap) call) \<Rightarrow> 'd calendar \<Rightarrow> 'd \<Rightarrow> string \<Rightarrow> json list \<Rightarrow> 's
    \<Rightarrow> 's \<times> json list" where
  "overlay_apply read_many cal today tenant rows s =
    (let ids = List.map_filter (counter_id cal today) (filter (\<lambda>r. usage_key r \<noteq> None) rows) in
     if ids = [] then (s, rows)
     else case read_many tenant ids s of
       (s1, Inl _) \<Rightarrow> (s1, rows)
     | (s1, Inr usos) \<Rightarrow> (s1, map (overlay_row cal today usos) rows))"

section \<open>The governing quota\<close>

text \<open>What the resolver relies on of the calendar: an order, the next day, the first day of a month, and a
  format without underscores that the parser reads back.\<close>

definition calendar_ok :: "'d calendar \<Rightarrow> bool" where
  "calendar_ok cal \<longleftrightarrow>
     (\<forall>d. cal_le cal d d)
   \<and> (\<forall>d e. cal_succ cal d = Some e \<longrightarrow> \<not> cal_le cal e d)
   \<and> (\<forall>y m s d. cal_ymd cal y m 1 = Some s \<longrightarrow>
        (cal_le cal s d \<longleftrightarrow> y < cal_year cal d \<or> y = cal_year cal d \<and> m \<le> cal_month cal d))
   \<and> (\<forall>d. 1 \<le> cal_month cal d \<and> cal_month cal d \<le> 12)
   \<and> (\<forall>d. CHR ''_'' \<notin> set (cal_format cal d) \<and> cal_parse cal (cal_format cal d) = Some d)"

lemma split_underscore: "CHR ''_'' \<notin> set a \<Longrightarrow> split_once ''_'' (a @ ''_'' @ b) = Some (a, b)"
  by (induction a) (auto simp: strip_prefix_Some_iff split: option.split)

lemma covers_period_text:
  assumes "calendar_ok cal" "cal_le cal a today" "\<not> cal_le cal b today"
  shows "covers cal (period_text cal a b) today"
  using assms split_underscore [of "cal_format cal a" "cal_format cal b"]
  by (simp add: covers_def period_text_def calendar_ok_def)

lemma renewed_covers:
  assumes cal: "calendar_ok cal" and r: "renewed_period cal strategy today = Some p"
  shows "covers cal p today"
proof -
  let ?y = "cal_year cal today" and ?m = "cal_month cal today"
  have le: "cal_ymd cal y m 1 = Some s \<Longrightarrow> cal_le cal s today \<longleftrightarrow> y < ?y \<or> y = ?y \<and> m \<le> ?m" for y m s
    using cal by (simp add: calendar_ok_def)
  have m: "1 \<le> ?m" "?m \<le> 12" using cal by (simp_all add: calendar_ok_def)
  consider b where "cal_succ cal today = Some b" "p = period_text cal today b"
    | a b where "cal_ymd cal ?y ?m 1 = Some a" "(if ?m = 12 then cal_ymd cal (?y + 1) 1 1 else cal_ymd cal ?y (?m + 1) 1) = Some b"
        "p = period_text cal a b"
    | a b where "cal_ymd cal ?y 1 1 = Some a" "cal_ymd cal (?y + 1) 1 1 = Some b" "p = period_text cal a b"
    using r by (auto simp: renewed_period_def Let_def bind_eq_Some_conv split: if_splits)
  then show ?thesis
  proof cases
    case 1
    then show ?thesis using covers_period_text [OF cal] cal by (simp add: calendar_ok_def)
  next
    case 2
    have "\<not> cal_le cal b today" using 2(2) le by (auto split: if_splits)
    then show ?thesis using covers_period_text [OF cal, of a today b] le [OF 2(1)] 2(3) by simp
  next
    case 3
    then show ?thesis using covers_period_text [OF cal, of a today b] le [OF 3(1)] le [OF 3(2)] m by simp
  qed
qed

lemma find_some_Some: "find_some f xs = Some y \<Longrightarrow> \<exists>x\<in>set xs. f x = Some y"
  by (induction xs) (auto split: option.splits)

lemma renew_latest_row:
  assumes "renew_latest cal today rows = Some spec"
  shows "\<exists>row\<in>set rows. \<exists>start. renewal cal today row = Some (start, spec)"
proof -
  have "\<exists>row\<in>set rows. renewal cal today row = Some (start, spec)"
    if "fold (better cal today) rs best = Some (start, spec)" "set rs \<subseteq> set rows"
      "\<And>b. best = Some b \<Longrightarrow> \<exists>row\<in>set rows. renewal cal today row = Some b" for rs best start
    using that
  proof (induction rs arbitrary: best)
    case (Cons r rs)
    have "\<exists>row\<in>set rows. renewal cal today row = Some b" if "better cal today r best = Some b" for b
    proof -
      have "renewal cal today r = Some b \<or> best = Some b" using that by (auto simp: better_def split: option.splits if_splits)
      moreover have "r \<in> set rows" using Cons.prems(2) by simp
      ultimately show ?thesis using Cons.prems(3) by blast
    qed
    then show ?case using Cons by simp
  qed auto
  note latest = this [of rows None]
  obtain start where "fold (better cal today) rows None = Some (start, spec)"
    using assms by (auto simp: renew_latest_def)
  from latest [OF this] show ?thesis by blast
qed

text \<open>A row as one read path returns it: its columns are all qualified or all bare, and its period is set.\<close>

definition plain_row :: "json \<Rightarrow> bool" where
  "plain_row row \<longleftrightarrow> (\<forall>n\<in>{''id'', ''period_key'', ''reset_strategy''}. field row n = bare_first row n)
     \<and> Option.bind (field row ''period_key'') as_str \<noteq> Some []"

lemma exact_match_Some:
  "exact_match cal today row = Some spec \<longleftrightarrow>
    (\<exists>period i. Option.bind (field row ''period_key'') as_str = Some period \<and> covers cal period today \<and> row_id row = Some i
      \<and> spec = \<lparr>qs_id = i, qs_counter_id = i, qs_max_limit = row_int row ''max_limit'',
          qs_seed_usage = row_int row ''current_usage'', qs_period_key = period\<rparr>)"
proof -
  define P where "P = Option.bind (field row ''period_key'') as_str"
  show ?thesis unfolding exact_match_def P_def [symmetric] by (cases P; cases "row_id row") auto
qed

lemma renewal_Some:
  "renewal cal today row = Some (start, spec) \<longleftrightarrow>
    (\<exists>period i now. Option.bind (field row ''period_key'') as_str = Some period \<and> start = period_start period \<and> start < now
      \<and> renewed_period cal (unwrap_or (Option.bind (field row ''reset_strategy'') as_str) []) today = Some now
      \<and> row_id row = Some i
      \<and> spec = \<lparr>qs_id = i, qs_counter_id = i @ ''#'' @ now, qs_max_limit = row_int row ''max_limit'',
          qs_seed_usage = 0, qs_period_key = now\<rparr>)"
proof -
  define P where "P = Option.bind (field row ''period_key'') as_str"
  define N where "N = renewed_period cal (unwrap_or (Option.bind (field row ''reset_strategy'') as_str) []) today"
  show ?thesis unfolding renewal_def P_def [symmetric] N_def [symmetric]
    by (cases P; cases N; cases "row_id row") auto
qed

lemma counter_id_plain:
  assumes "plain_row row" "row_id row = Some i" "Option.bind (field row ''period_key'') as_str = Some period"
  shows "counter_id cal today row = Some
    (if covers cal period today then i
     else case renewed_period cal (unwrap_or (Option.bind (field row ''reset_strategy'') as_str) []) today of
       Some now \<Rightarrow> if period_start period < now then i @ ''#'' @ now else i
     | None \<Rightarrow> i)"
proof -
  have same: "bare_first row ''id'' = field row ''id''" "bare_first row ''period_key'' = field row ''period_key''"
    "bare_first row ''reset_strategy'' = field row ''reset_strategy''" and ne: "period \<noteq> []"
    using assms(1,3) by (simp_all add: plain_row_def)
  have "shown_row_id row = Some i" using assms(2) unfolding shown_row_id_def row_id_def same .
  then show ?thesis unfolding counter_id_def same assms(3) using ne by (simp add: unwrap_or_def)
qed


text \<open>A calendar of months of one day, written in unary.\<close>

definition month_calendar :: "nat calendar" where
  "month_calendar = \<lparr>cal_le = (\<le>), cal_succ = (\<lambda>d. Some (Suc d)),
     cal_ymd = (\<lambda>y m d. if 0 \<le> y \<and> 1 \<le> m \<and> m \<le> 12 then Some (nat y * 12 + m - 1) else None),
     cal_year = (\<lambda>d. int (d div 12)), cal_month = (\<lambda>d. d mod 12 + 1),
     cal_format = (\<lambda>d. replicate d (CHR ''a'')), cal_parse = (\<lambda>s. Some (length s))\<rparr>"

lemma month_calendar_ok: "calendar_ok month_calendar"
proof -
  have "nat y * 12 + m - 1 \<le> d \<longleftrightarrow> y < int (d div 12) \<or> y = int (d div 12) \<and> m \<le> d mod 12 + 1"
    if "0 \<le> y" "1 \<le> m" "m \<le> 12" for y :: int and m d :: nat
  proof -
    obtain n where "y = int n" using \<open>0 \<le> y\<close> nonneg_int_cases by blast
    moreover have "d = 12 * (d div 12) + d mod 12" "d mod 12 < 12" by simp_all
    ultimately have "nat y * 12 + m - 1 \<le> d \<longleftrightarrow> n < d div 12 \<or> n = d div 12 \<and> m \<le> d mod 12 + 1"
      using that by (cases n "d div 12" rule: linorder_cases) linarith+
    then show ?thesis using \<open>y = int n\<close> by auto
  qed
  moreover have "d mod 12 < 12" for d :: nat by simp
  ultimately show ?thesis by (auto simp: calendar_ok_def month_calendar_def Suc_le_eq)
qed

definition july_row :: json where
  "july_row = JObj [(''id'', JStr ''q1''), (''max_limit'', JInt 50), (''period_key'', JStr ''a_aa''), (''reset_strategy'', JStr ''monthly'')]"


end
