(* ===== verification/QuotaService.thy ===== *)
theory QuotaService
  imports QuotaReservations QuotaResolver
begin

text \<open>The token quota service (\<^verbatim>\<open>src/grpc/quota_service.rs\<close>) and the sweeper of expired reservations
  (\<^verbatim>\<open>src/quota/sweeper.rs\<close>), over an environment of fallible store and counter operations, so that
  every error path of the handlers is a branch. \<^verbatim>\<open>local_env\<close> is the environment of a single replica:
  the in-memory store and the ledger over a partition. A handler reads the clock once; the ULID it
  draws, the quota the resolver found and the test for the master tenant are arguments.\<close>

record 's quota_env =
  env_open :: "reservation \<Rightarrow> ('s, unit) call"
  env_mark :: "string \<Rightarrow> string \<Rightarrow> ('s, unit) call"
  env_claim :: "int \<Rightarrow> string \<Rightarrow> string \<Rightarrow> int \<Rightarrow> ('s, claim_result) call"
  env_close :: "string \<Rightarrow> string \<Rightarrow> close_reason \<Rightarrow> ('s, unit) call"
  env_sweep :: "nat \<Rightarrow> int \<Rightarrow> int \<Rightarrow> ('s, reservation list) call"
  env_debit :: "string \<Rightarrow> string \<Rightarrow> int \<Rightarrow> int \<Rightarrow> int \<Rightarrow> ('s, debit_outcome) call"
  env_settle_once :: "string \<Rightarrow> string \<Rightarrow> int \<Rightarrow> string \<Rightarrow> ('s, settle_outcome) call"

section \<open>Sweeper\<close>

definition SWEEP_LEASE :: int where "SWEEP_LEASE = 30"
definition SWEEP_BATCH :: int where "SWEEP_BATCH = 25"

record sweep_report =
  refunded :: nat
  abandoned :: nat
  skipped :: nat
  failed :: nat

definition sweep_report_zero :: sweep_report where
  "sweep_report_zero = \<lparr>refunded = 0, abandoned = 0, skipped = 0, failed = 0\<rparr>"

definition report_touched :: "sweep_report \<Rightarrow> nat" where
  "report_touched r = refunded r + abandoned r + skipped r + failed r"

definition sweep_one ::
  "'s quota_env \<Rightarrow> int \<Rightarrow> int \<Rightarrow> reservation \<Rightarrow> 's \<times> sweep_report \<Rightarrow> 's \<times> sweep_report" where
  "sweep_one env clock lease r sr = (case sr of (s, report) \<Rightarrow>
    (case env_claim env clock (rv_tenant r) (rv_id r) lease s of
       (s1, Inl _) \<Rightarrow> (s1, report\<lparr>failed := failed report + 1\<rparr>)
     | (s1, Inr (Claimed _)) \<Rightarrow>
        (case (if rv_debited r
               then env_settle_once env (rv_tenant r) (rv_quota r) (i64 (- rv_estimated r))
                      (settlement_key (rv_id r)) s1
               else (s1, Inr AlreadyApplied)) of
           (s2, Inl _) \<Rightarrow> (s2, report\<lparr>failed := failed report + 1\<rparr>)
         | (s2, Inr _) \<Rightarrow>
            (case env_close env (rv_tenant r) (rv_id r)
                (if rv_debited r then Expired else Abandoned) s2 of
               (s3, Inl _) \<Rightarrow> (s3, report\<lparr>failed := failed report + 1\<rparr>)
             | (s3, Inr _) \<Rightarrow>
                 (s3, if rv_debited r then report\<lparr>refunded := refunded report + 1\<rparr>
                      else report\<lparr>abandoned := abandoned report + 1\<rparr>)))
     | (s1, Inr _) \<Rightarrow> (s1, report\<lparr>skipped := skipped report + 1\<rparr>)))"

definition sweep_once ::
  "'s quota_env \<Rightarrow> int \<Rightarrow> nat list \<Rightarrow> int \<Rightarrow> int \<Rightarrow> 's \<Rightarrow> 's \<times> sweep_report" where
  "sweep_once env clock shards now lease s =
     fold (\<lambda>shard (s, report).
       (case env_sweep env shard now SWEEP_BATCH s of
          (s1, Inl _) \<Rightarrow> (s1, report\<lparr>failed := failed report + 1\<rparr>)
        | (s1, Inr due) \<Rightarrow> fold (sweep_one env clock lease) due (s1, report)))
       shards (s, sweep_report_zero)"

section \<open>Service\<close>

datatype grpc_error =
  Unauthenticated | PermissionDenied | InvalidArgument | Internal | Aborted | NotFound
  | FailedPrecondition

record session =
  se_tenant :: string
  se_user :: string

record reserve_request =
  rq_tenant :: string
  rq_model :: string
  rq_estimated :: int

record reconcile_request =
  rc_reservation_id :: string
  rc_input :: int
  rc_output :: int

text \<open>A business rejection is a successful call whose status carries a code.\<close>

datatype reserve_reply = Reserved string int | ReserveRejected string

datatype reconcile_reply = Reconciled int int

definition DEFAULT_RESERVATION_TTL_SECS :: int where "DEFAULT_RESERVATION_TTL_SECS = 90"
definition RECONCILE_LEASE :: int where "RECONCILE_LEASE = 30"
definition SYSTEM_USERS :: "string list" where "SYSTEM_USERS = [''usr_system_bff'', ''usr_master'']"

definition authorize :: "(string \<Rightarrow> bool) \<Rightarrow> session \<Rightarrow> string \<Rightarrow> bool" where
  "authorize is_master se target \<longleftrightarrow>
     se_tenant se = target \<or> is_master (se_tenant se) \<or> se_user se \<in> set SYSTEM_USERS"

text \<open>Undoing a debit that could not be marked.\<close>

definition undo_debit :: "'s quota_env \<Rightarrow> reservation \<Rightarrow> 's \<Rightarrow> 's" where
  "undo_debit env r s =
    (let s1 = fst (env_settle_once env (rv_tenant r) (rv_quota r) (i64 (- rv_estimated r))
                (settlement_key (rv_id r)) s) in
     fst (env_close env (rv_tenant r) (rv_id r) Rejected s1))"

definition reserve_tokens ::
  "'s quota_env \<Rightarrow> (string \<Rightarrow> bool) \<Rightarrow> session option \<Rightarrow> reserve_request \<Rightarrow> quota_spec option res
    \<Rightarrow> string \<Rightarrow> int \<Rightarrow> int \<Rightarrow> 's \<Rightarrow> 's \<times> (grpc_error, reserve_reply) result" where
  "reserve_tokens env is_master se rq quota new_id now ttl s =
    (case se of
       None \<Rightarrow> (s, Inl Unauthenticated)
     | Some session \<Rightarrow>
        if \<not> authorize is_master session (rq_tenant rq) then (s, Inl PermissionDenied)
        else if rq_estimated rq \<le> 0 then (s, Inl InvalidArgument)
        else (case quota of
            Inl _ \<Rightarrow> (s, Inl Internal)
          | Inr None \<Rightarrow> (s, Inr (ReserveRejected ''QUOTA_NOT_CONFIGURED''))
          | Inr (Some q) \<Rightarrow>
             (let r = \<lparr>rv_id = new_id, rv_tenant = rq_tenant rq, rv_quota = qs_id q,
                       rv_estimated = rq_estimated rq, rv_debited = False,
                       rv_expires_at = i64 (now + ttl)\<rparr> in
              (case env_open env r s of
                 (s1, Inl _) \<Rightarrow> (s1, Inl Internal)
               | (s1, Inr _) \<Rightarrow>
                  (case env_debit env (rq_tenant rq) (qs_id q) (rq_estimated rq) (qs_max_limit q)
                       (qs_seed_usage q) s1 of
                     (s2, Inl _) \<Rightarrow> (s2, Inl Internal)
                   | (s2, Inr (Exhausted _ _)) \<Rightarrow>
                       (fst (env_close env (rq_tenant rq) new_id Rejected s2),
                        Inr (ReserveRejected ''QUOTA_EXHAUSTED''))
                   | (s2, Inr (Debited _)) \<Rightarrow>
                      (case env_mark env (rq_tenant rq) new_id s2 of
                         (s3, Inl _) \<Rightarrow> (undo_debit env r s3, Inl Internal)
                       | (s3, Inr _) \<Rightarrow>
                           (s3, Inr (Reserved (wire_id (rq_tenant rq) new_id) (rq_estimated rq)))))))))"

definition reconcile_late ::
  "'s quota_env \<Rightarrow> reservation \<Rightarrow> close_reason \<Rightarrow> int \<Rightarrow> 's \<Rightarrow> 's \<times> (grpc_error, reconcile_reply) result" where
  "reconcile_late env r reason actual s = (case reason of
      Expired \<Rightarrow>
        (if actual > 0 then
           (case env_settle_once env (rv_tenant r) (rv_quota r) actual (late_charge_key (rv_id r)) s of
              (s1, Inl _) \<Rightarrow> (s1, Inl Internal)
            | (s1, Inr _) \<Rightarrow> (s1, Inr (Reconciled actual (rv_estimated r))))
         else (s, Inr (Reconciled actual (rv_estimated r))))
    | Settled \<Rightarrow> (s, Inr (Reconciled actual (max (i64 (rv_estimated r - actual)) 0)))
    | _ \<Rightarrow> (s, Inl FailedPrecondition))"

definition reconcile_tokens ::
  "'s quota_env \<Rightarrow> (string \<Rightarrow> bool) \<Rightarrow> session option \<Rightarrow> reconcile_request \<Rightarrow> int \<Rightarrow> 's
    \<Rightarrow> 's \<times> (grpc_error, reconcile_reply) result" where
  "reconcile_tokens env is_master se rq clock s =
    (case se of
       None \<Rightarrow> (s, Inl Unauthenticated)
     | Some session \<Rightarrow>
        if rc_input rq < 0 \<or> rc_output rq < 0 then (s, Inl InvalidArgument)
        else (let actual = i64 (rc_input rq + rc_output rq) in
         (case split_wire_id (rc_reservation_id rq) of
            None \<Rightarrow> (s, Inl InvalidArgument)
          | Some (hint, rid) \<Rightarrow>
             if \<not> authorize is_master session hint then (s, Inl PermissionDenied)
             else (case env_claim env clock hint rid RECONCILE_LEASE s of
                (s1, Inl _) \<Rightarrow> (s1, Inl Internal)
              | (s1, Inr (ClaimClosed r reason)) \<Rightarrow> reconcile_late env r reason actual s1
              | (s1, Inr (Leased _)) \<Rightarrow> (s1, Inl Aborted)
              | (s1, Inr ClaimNotFound) \<Rightarrow> (s1, Inl NotFound)
              | (s1, Inr (Claimed r)) \<Rightarrow>
                 if \<not> authorize is_master session (rv_tenant r) then (s1, Inl PermissionDenied)
                 else (let delta = (if rv_debited r then i64 (actual - rv_estimated r) else actual) in
                  (case env_settle_once env (rv_tenant r) (rv_quota r) delta
                       (settlement_key (rv_id r)) s1 of
                     (s2, Inl _) \<Rightarrow> (s2, Inl Internal)
                   | (s2, Inr _) \<Rightarrow>
                      (fst (env_close env (rv_tenant r) (rv_id r) Settled s2),
                       Inr (Reconciled actual (if rv_debited r
                         then max (i64 (rv_estimated r - actual)) 0 else 0))))))))) "

section \<open>A single replica\<close>

record quota_world =
  qw_store :: reservations
  qw_part :: partition_store

definition on_store :: "(reservations, 'a) call \<Rightarrow> (quota_world, 'a) call" where
  "on_store f w = (case f (qw_store w) of (m, x) \<Rightarrow> (w\<lparr>qw_store := m\<rparr>, x))"

definition on_part :: "(partition_store, 'a) call \<Rightarrow> (quota_world, 'a) call" where
  "on_part f w = (case f (qw_part w) of (p, x) \<Rightarrow> (w\<lparr>qw_part := p\<rparr>, x))"

definition local_env :: "quota_world quota_env" where
  "local_env = \<lparr>env_open = (\<lambda>r. on_store (mem_open r)),
     env_mark = (\<lambda>t i. on_store (mem_mark_debited t i)),
     env_claim = (\<lambda>now t i lease. on_store (mem_claim now t i lease)),
     env_close = (\<lambda>t i reason. on_store (mem_close t i reason)),
     env_sweep = (\<lambda>shard now limit. on_store (mem_sweep shard now limit)),
     env_debit = (\<lambda>t q a l z. on_part (ledger_try_debit t q a l z)),
     env_settle_once = (\<lambda>t q d k. on_part (ledger_settle_once t q d k))\<rparr>"

lemmas env_defs = local_env_def on_store_def on_part_def

lemma local_claim:
  assumes "mem_ticket (qw_store w) t i = Some st" "so_status st = ROpen" "so_lease_until st \<le> now"
  shows "env_claim local_env now t i lease w =
    (w\<lparr>qw_store := om_put (store_key t i) (st\<lparr>so_lease_until := i64 (now + lease)\<rparr>) (qw_store w)\<rparr>,
     Inr (Claimed (so_reservation st)))"
  using assms by (simp add: env_defs mem_claim_def mem_ticket_def)

lemma local_claim_closed:
  assumes "mem_ticket (qw_store w) t i = Some st" "so_status st = RClosed"
  shows "env_claim local_env now t i lease w =
    (w, Inr (ClaimClosed (so_reservation st) (so_close_reason st)))"
  using assms by (simp add: env_defs mem_claim_def mem_ticket_def)

lemma local_close:
  assumes "om_get (qw_store w) (store_key t i) = Some st"
  shows "env_close local_env t i why w =
    (w\<lparr>qw_store := om_put (store_key t i)
        (st\<lparr>so_status := RClosed, so_close_reason := why, so_lease_until := 0\<rparr>) (qw_store w)\<rparr>, Inr ())"
  using assms by (simp add: env_defs mem_close_def)

lemma local_settle_once:
  "env_settle_once local_env t q d k w =
    (w\<lparr>qw_part := fst (quota_settle_once t q d k (qw_part w))\<rparr>,
     Inr (if settled (qw_part w) t k then AlreadyApplied else Applied))"
  by (simp add: env_defs ledger_settle_once_def settled_def quota_settle_once_def Let_def)

definition fresh_ticket :: "quota_world \<Rightarrow> string \<Rightarrow> string \<Rightarrow> bool" where
  "fresh_ticket w t i \<longleftrightarrow> mem_ticket (qw_store w) t i = None
     \<and> \<not> settled (qw_part w) t (settlement_key i) \<and> \<not> settled (qw_part w) t (late_charge_key i)"

definition wire_ok :: "string \<Rightarrow> string \<Rightarrow> bool" where
  "wire_ok t i \<longleftrightarrow> t \<noteq> [] \<and> i \<noteq> [] \<and> CHR '':'' \<notin> set t \<and> CHR '':'' \<notin> set i"

lemma split_wire [simp]: "wire_ok t i \<Longrightarrow> split_wire_id (wire_id t i) = Some (t, i)"
proof -
  assume w: "wire_ok t i"
  then have "split_once '':'' (wire_id t i) = Some (t, i)"
    using split_once_first [of "CHR '':''" t i] by (simp add: wire_id_def wire_ok_def)
  then show ?thesis using w by (simp add: split_wire_id_def wire_ok_def)
qed

text \<open>The world after a granted reservation.\<close>

definition reserved_world :: "quota_world \<Rightarrow> reservation \<Rightarrow> int \<Rightarrow> quota_world" where
  "reserved_world w r c = \<lparr>qw_store = om_put (store_key (rv_tenant r) (rv_id r))
       \<lparr>so_reservation = r\<lparr>rv_debited := True\<rparr>, so_status = ROpen, so_lease_until = 0,
        so_close_reason = Settled\<rparr> (qw_store w),
     qw_part = (qw_part w)\<lparr>quota_counters := om_put (rv_tenant r, rv_quota r) (c + rv_estimated r)
       (quota_counters (qw_part w))\<rparr>\<rparr>"

lemma reserve_granted:
  assumes "authorize is_master se (rq_tenant rq)" "0 < rq_estimated rq" "rq_estimated rq < 2 ^ 61"
    and "c = counter_of (qw_part w) (rq_tenant rq) (qs_id q) (qs_seed_usage q)"
    and "0 \<le> c" "c < 2 ^ 61" "c < qs_max_limit q"
  shows "reserve_tokens local_env is_master (Some se) rq (Inr (Some q)) new_id now ttl w =
    (reserved_world w \<lparr>rv_id = new_id, rv_tenant = rq_tenant rq, rv_quota = qs_id q,
         rv_estimated = rq_estimated rq, rv_debited = False, rv_expires_at = i64 (now + ttl)\<rparr> c,
     Inr (Reserved (wire_id (rq_tenant rq) new_id) (rq_estimated rq)))"
proof -
  have "i64 (c + rq_estimated rq) = c + rq_estimated rq" using assms by simp
  then show ?thesis
    using assms by (simp add: reserve_tokens_def Let_def env_defs mem_open_def ledger_try_debit_def
        quota_try_debit_def mem_mark_debited_def reserved_world_def)
qed

lemma settle_reserved:
  assumes "fresh_ticket w (rv_tenant r) (rv_id r)" "0 \<le> c" "c < 2 ^ 61" "0 < rv_estimated r"
    "rv_estimated r < 2 ^ 61" "- rv_estimated r \<le> d" "d < 2 ^ 61"
  shows "fst (quota_settle_once (rv_tenant r) (rv_quota r) d (settlement_key (rv_id r))
        (qw_part (reserved_world w r c)))
    = (qw_part w)\<lparr>quota_counters := om_put (rv_tenant r, rv_quota r) (c + rv_estimated r + d)
         (quota_counters (qw_part w)),
       quota_idem := om_put (rv_tenant r, settlement_key (rv_id r)) (rv_quota r, d)
         (quota_idem (qw_part w))\<rparr>"
proof -
  have "i64 (c + rv_estimated r + d) = c + rv_estimated r + d" using assms by simp
  then show ?thesis
    using assms by (simp add: quota_settle_once_def reserved_world_def fresh_ticket_def settled_def
        counter_of_def unwrap_or_def Let_def)
qed

section \<open>Properties\<close>

text \<open>C37: no session touches the quota of a tenant it may not act for: whatever the store and the
  counter are, an unauthenticated or unauthorized reservation or reconciliation is refused without
  a single call to them.\<close>

theorem unauthorized_no_effect:
  assumes "se = None \<or> (\<exists>x. se = Some x \<and> \<not> authorize is_master x t)"
    and "rq_tenant rq = t" "rc_reservation_id rc = wire_id t i" "wire_ok t i"
  shows "fst (reserve_tokens env is_master se rq quota new_id now ttl s) = s
    \<and> snd (reserve_tokens env is_master se rq quota new_id now ttl s) \<in> {Inl Unauthenticated, Inl PermissionDenied}
    \<and> fst (reconcile_tokens env is_master se rc clock s) = s
    \<and> snd (reconcile_tokens env is_master se rc clock s)
        \<in> {Inl Unauthenticated, Inl InvalidArgument, Inl PermissionDenied}"
proof -
  have a: "reserve_tokens env is_master se rq quota new_id now ttl s
      \<in> {(s, Inl Unauthenticated), (s, Inl PermissionDenied)}"
    using assms(1,2) by (auto simp: reserve_tokens_def)
  have b: "reconcile_tokens env is_master se rc clock s
      \<in> {(s, Inl Unauthenticated), (s, Inl InvalidArgument), (s, Inl PermissionDenied)}"
  proof (cases "rc_input rc < 0 \<or> rc_output rc < 0")
    case True
    then show ?thesis by (auto simp: reconcile_tokens_def split: option.split)
  next
    case False
    then show ?thesis using assms by (auto simp: reconcile_tokens_def Let_def)
  qed
  show ?thesis using a b by auto
qed

theorem unauthorized_no_effect_witness:
  "reserve_tokens local_env (\<lambda>_. False) (Some \<lparr>se_tenant = ''a'', se_user = ''u''\<rparr>)
      \<lparr>rq_tenant = ''b'', rq_model = ''m'', rq_estimated = 5\<rparr> (Inr None) ''1'' 0 90 \<lparr>qw_store = om_empty, qw_part = store_default\<rparr>
    = (\<lparr>qw_store = om_empty, qw_part = store_default\<rparr>, Inl PermissionDenied)"
  using unauthorized_no_effect [of "Some \<lparr>se_tenant = ''a'', se_user = ''u''\<rparr>" "\<lambda>_. False" "''b''"
      "\<lparr>rq_tenant = ''b'', rq_model = ''m'', rq_estimated = 5\<rparr>"
      "\<lparr>rc_reservation_id = wire_id ''b'' ''1'', rc_input = 0, rc_output = 0\<rparr>" "''1''" local_env "Inr None"
      "''1''" 0 90 "\<lparr>qw_store = om_empty, qw_part = store_default\<rparr>" 0]
  by (simp add: wire_ok_def authorize_def SYSTEM_USERS_def reserve_tokens_def)

definition the_reservation :: "reserve_request \<Rightarrow> quota_spec \<Rightarrow> string \<Rightarrow> int \<Rightarrow> int \<Rightarrow> reservation" where
  "the_reservation rq q new_id now ttl = \<lparr>rv_id = new_id, rv_tenant = rq_tenant rq, rv_quota = qs_id q,
     rv_estimated = rq_estimated rq, rv_debited = False, rv_expires_at = i64 (now + ttl)\<rparr>"

text \<open>The side conditions of the accounting theorems: a caller who may act for the tenant, a positive
  estimate, a counter below its limit, a fresh ticket id and figures far from the 64-bit bounds.\<close>

definition reserve_scenario ::
  "(string \<Rightarrow> bool) \<Rightarrow> session \<Rightarrow> reserve_request \<Rightarrow> quota_spec \<Rightarrow> string \<Rightarrow> quota_world \<Rightarrow> int \<Rightarrow> bool" where
  "reserve_scenario is_master se rq q new_id w c \<longleftrightarrow>
     authorize is_master se (rq_tenant rq) \<and> wire_ok (rq_tenant rq) new_id
     \<and> fresh_ticket w (rq_tenant rq) new_id \<and> 0 < rq_estimated rq \<and> rq_estimated rq < 2 ^ 61
     \<and> c = counter_of (qw_part w) (rq_tenant rq) (qs_id q) (qs_seed_usage q)
     \<and> 0 \<le> c \<and> c < 2 ^ 61 \<and> c < qs_max_limit q"

text \<open>C29: reserving and reconciling charges exactly what was consumed. After a granted reservation
  and its reconciliation the counter holds its previous value plus the input and output tokens,
  whatever the estimate was, every other counter is as before, the reply says what was consumed
  and returned, and repeating the reconciliation changes nothing and answers the same.\<close>

theorem reserve_reconcile_exact:
  assumes sc: "reserve_scenario is_master se rq q new_id w c"
    and rc: "rc_reservation_id rc = wire_id (rq_tenant rq) new_id" "0 \<le> rc_input rc" "0 \<le> rc_output rc"
      "rc_input rc + rc_output rc < 2 ^ 61"
    and clock: "0 \<le> clock"
    and r1: "reserve_tokens local_env is_master (Some se) rq (Inr (Some q)) new_id now ttl w = (w1, rep1)"
    and r2: "reconcile_tokens local_env is_master (Some se) rc clock w1 = (w2, rep2)"
  shows "rep1 = Inr (Reserved (wire_id (rq_tenant rq) new_id) (rq_estimated rq))
    \<and> rep2 = Inr (Reconciled (rc_input rc + rc_output rc)
         (max (rq_estimated rq - (rc_input rc + rc_output rc)) 0))
    \<and> usage (qw_part w2) (rq_tenant rq) (qs_id q) = c + (rc_input rc + rc_output rc)
    \<and> (\<forall>u p. (u, p) \<noteq> (rq_tenant rq, qs_id q) \<longrightarrow> usage (qw_part w2) u p = usage (qw_part w) u p)
    \<and> reconcile_tokens local_env is_master (Some se) rc later w2 = (w2, rep2)"
proof -
  let ?t = "rq_tenant rq" and ?e = "rq_estimated rq" and ?a = "rc_input rc + rc_output rc"
  let ?r = "the_reservation rq q new_id now ttl"
  let ?w1 = "reserved_world w ?r c"
  have s: "authorize is_master se ?t" "wire_ok ?t new_id" "fresh_ticket w ?t new_id" "0 < ?e"
    "?e < 2 ^ 61" "c = counter_of (qw_part w) ?t (qs_id q) (qs_seed_usage q)" "0 \<le> c" "c < 2 ^ 61"
    "c < qs_max_limit q"
    using sc by (simp_all add: reserve_scenario_def)
  have w1: "w1 = ?w1" "rep1 = Inr (Reserved (wire_id ?t new_id) ?e)"
    using reserve_granted [OF s(1,4,5,6,7,8,9), of new_id now ttl] r1
    by (simp_all add: the_reservation_def)
  have a: "i64 ?a = ?a" "i64 (?a - ?e) = ?a - ?e" "i64 (?e - ?a) = ?e - ?a"
    using rc s by simp_all
  have r_fields: "rv_id ?r = new_id" "rv_tenant ?r = ?t" "rv_quota ?r = qs_id q" "rv_estimated ?r = ?e"
    by (simp_all add: the_reservation_def)
  define st where "st = \<lparr>so_reservation = ?r\<lparr>rv_debited := True\<rparr>, so_status = ROpen,
    so_lease_until = 0, so_close_reason = Settled\<rparr>"
  have tk: "mem_ticket (qw_store ?w1) ?t new_id = Some st"
    by (simp add: mem_ticket_def reserved_world_def the_reservation_def st_def)
  have claim: "env_claim local_env clock ?t new_id RECONCILE_LEASE ?w1 =
      (?w1\<lparr>qw_store := om_put (store_key ?t new_id) (st\<lparr>so_lease_until := i64 (clock + RECONCILE_LEASE)\<rparr>)
          (qw_store ?w1)\<rparr>, Inr (Claimed (?r\<lparr>rv_debited := True\<rparr>)))"
    using local_claim [OF tk, of clock] clock by (simp add: st_def)
  define part2 where "part2 = fst (quota_settle_once ?t (qs_id q) (?a - ?e) (settlement_key new_id)
    (qw_part ?w1))"
  have part2: "part2 = (qw_part w)\<lparr>quota_counters := om_put (?t, qs_id q) (c + ?a)
         (quota_counters (qw_part w)),
       quota_idem := om_put (?t, settlement_key new_id) (qs_id q, ?a - ?e) (quota_idem (qw_part w))\<rparr>"
    using settle_reserved [of w ?r c "?a - ?e"] s rc
    by (simp add: part2_def the_reservation_def add.assoc)
  have step2: "reconcile_tokens local_env is_master (Some se) rc clock ?w1 =
    (?w1\<lparr>qw_store := om_put (store_key ?t new_id)
        (st\<lparr>so_status := RClosed, so_close_reason := Settled, so_lease_until := 0\<rparr>) (qw_store ?w1),
      qw_part := part2\<rparr>, Inr (Reconciled ?a (max (?e - ?a) 0)))"
    using rc s(1,2) a
    by (simp add: reconcile_tokens_def Let_def claim local_settle_once local_close part2_def r_fields)
  then have w2: "w2 = ?w1\<lparr>qw_store := om_put (store_key ?t new_id)
        (st\<lparr>so_status := RClosed, so_close_reason := Settled, so_lease_until := 0\<rparr>) (qw_store ?w1),
      qw_part := part2\<rparr>" "rep2 = Inr (Reconciled ?a (max (?e - ?a) 0))"
    using r2 w1(1) by simp_all
  have again: "reconcile_tokens local_env is_master (Some se) rc later w2 = (w2, rep2)"
  proof -
    have "mem_ticket (qw_store w2) ?t new_id
        = Some (st\<lparr>so_status := RClosed, so_close_reason := Settled, so_lease_until := 0\<rparr>)"
      by (simp add: w2 mem_ticket_def)
    from local_claim_closed [OF this, of later RECONCILE_LEASE] show ?thesis
      using rc s(1,2) a by (simp add: reconcile_tokens_def Let_def reconcile_late_def st_def w2
          the_reservation_def)
  qed
  have "usage (qw_part w2) ?t (qs_id q) = c + ?a"
    by (simp add: w2 part2 usage_def counter_of_def unwrap_or_def)
  moreover have "usage (qw_part w2) u p = usage (qw_part w) u p" if "(u, p) \<noteq> (?t, qs_id q)" for u p
    using that by (auto simp: w2 part2 usage_def counter_of_def)
  ultimately show ?thesis using w1(2) w2(2) again by blast
qed

definition sample_world :: quota_world where
  "sample_world = \<lparr>qw_store = om_empty, qw_part = store_default\<rparr>"

definition sample_session :: session where
  "sample_session = \<lparr>se_tenant = ''t'', se_user = ''u''\<rparr>"

definition sample_request :: reserve_request where
  "sample_request = \<lparr>rq_tenant = ''t'', rq_model = ''m'', rq_estimated = 100\<rparr>"

definition sample_quota :: quota_spec where
  "sample_quota = \<lparr>qs_id = ''q'', qs_counter_id = ''q'', qs_max_limit = 1000, qs_seed_usage = 7,
     qs_period_key = ''''\<rparr>"

definition sample_reconcile :: reconcile_request where
  "sample_reconcile = \<lparr>rc_reservation_id = ''t:1'', rc_input = 20, rc_output = 10\<rparr>"

lemmas sample_defs = sample_world_def sample_session_def sample_request_def sample_quota_def
  sample_reconcile_def

lemma sample_scenario:
  "reserve_scenario (\<lambda>_. False) sample_session sample_request sample_quota ''1'' sample_world 7"
  by (simp add: sample_defs reserve_scenario_def authorize_def wire_ok_def fresh_ticket_def
      mem_ticket_def settled_def counter_of_def store_default_def unwrap_or_def)

theorem reserve_reconcile_exact_witness:
  "usage (qw_part (fst (reconcile_tokens local_env (\<lambda>_. False) (Some sample_session) sample_reconcile 5
      (fst (reserve_tokens local_env (\<lambda>_. False) (Some sample_session) sample_request
        (Inr (Some sample_quota)) ''1'' 0 90 sample_world))))) ''t'' ''q'' = 37"
proof -
  obtain w1 p1 where r1: "reserve_tokens local_env (\<lambda>_. False) (Some sample_session) sample_request
      (Inr (Some sample_quota)) ''1'' 0 90 sample_world = (w1, p1)" by fastforce
  obtain w2 p2 where r2: "reconcile_tokens local_env (\<lambda>_. False) (Some sample_session)
      sample_reconcile 5 w1 = (w2, p2)" by fastforce
  have "usage (qw_part w2) ''t'' ''q'' = 37"
    using reserve_reconcile_exact [OF sample_scenario _ _ _ _ _ r1 r2]
    by (simp add: sample_request_def sample_quota_def sample_reconcile_def wire_id_def)
  then show ?thesis by (simp add: r1 r2)
qed

text \<open>C30: a reservation whose caller never came back is refunded exactly once, and a late
  reconciliation still charges what was consumed. After a granted reservation the sweeper returns the
  counter to its value before it and closes the ticket as expired; a reconciliation that arrives
  afterwards leaves the counter at that value plus the actual consumption, and repeating it
  charges nothing more.\<close>

theorem reserve_expire_late_exact:
  assumes sc: "reserve_scenario is_master se rq q new_id w c"
    and rc: "rc_reservation_id rc = wire_id (rq_tenant rq) new_id" "0 \<le> rc_input rc" "0 \<le> rc_output rc"
      "rc_input rc + rc_output rc < 2 ^ 61"
    and clock: "0 \<le> clock"
    and r1: "reserve_tokens local_env is_master (Some se) rq (Inr (Some q)) new_id now ttl w = (w1, rep1)"
    and sw: "sweep_one local_env clock lease
        (the_reservation rq q new_id now ttl \<lparr>rv_debited := True\<rparr>) (w1, sweep_report_zero) = (w2, rep)"
    and r3: "reconcile_tokens local_env is_master (Some se) rc later w2 = (w3, rep3)"
  shows "refunded rep = 1 \<and> usage (qw_part w2) (rq_tenant rq) (qs_id q) = c
    \<and> rep3 = Inr (Reconciled (rc_input rc + rc_output rc) (rq_estimated rq))
    \<and> usage (qw_part w3) (rq_tenant rq) (qs_id q) = c + (rc_input rc + rc_output rc)
    \<and> reconcile_tokens local_env is_master (Some se) rc again w3 = (w3, rep3)"
proof -
  let ?t = "rq_tenant rq" and ?e = "rq_estimated rq" and ?a = "rc_input rc + rc_output rc"
  let ?r = "the_reservation rq q new_id now ttl"
  let ?w1 = "reserved_world w ?r c"
  have s: "authorize is_master se ?t" "wire_ok ?t new_id" "fresh_ticket w ?t new_id" "0 < ?e"
    "?e < 2 ^ 61" "c = counter_of (qw_part w) ?t (qs_id q) (qs_seed_usage q)" "0 \<le> c" "c < 2 ^ 61"
    "c < qs_max_limit q"
    using sc by (simp_all add: reserve_scenario_def)
  have w1: "w1 = ?w1"
    using reserve_granted [OF s(1,4,5,6,7,8,9), of new_id now ttl] r1
    by (simp add: the_reservation_def)
  have a: "i64 ?a = ?a" "i64 (- ?e) = - ?e" "i64 (c + ?a) = c + ?a"
    using rc s by simp_all
  have r_fields: "rv_id ?r = new_id" "rv_tenant ?r = ?t" "rv_quota ?r = qs_id q" "rv_estimated ?r = ?e"
    by (simp_all add: the_reservation_def)
  define st where "st = \<lparr>so_reservation = ?r\<lparr>rv_debited := True\<rparr>, so_status = ROpen,
    so_lease_until = 0, so_close_reason = Settled\<rparr>"
  define st' where "st' = st\<lparr>so_status := RClosed, so_close_reason := Expired, so_lease_until := 0\<rparr>"
  have tk: "mem_ticket (qw_store ?w1) ?t new_id = Some st"
    by (simp add: mem_ticket_def reserved_world_def the_reservation_def st_def)
  have claim: "env_claim local_env clock ?t new_id lease ?w1 =
      (?w1\<lparr>qw_store := om_put (store_key ?t new_id) (st\<lparr>so_lease_until := i64 (clock + lease)\<rparr>)
          (qw_store ?w1)\<rparr>, Inr (Claimed (?r\<lparr>rv_debited := True\<rparr>)))"
    using local_claim [OF tk, of clock] clock by (simp add: st_def)
  define part2 where "part2 = fst (quota_settle_once ?t (qs_id q) (- ?e) (settlement_key new_id)
    (qw_part ?w1))"
  have part2: "part2 = (qw_part w)\<lparr>quota_counters := om_put (?t, qs_id q) c
         (quota_counters (qw_part w)),
       quota_idem := om_put (?t, settlement_key new_id) (qs_id q, - ?e) (quota_idem (qw_part w))\<rparr>"
    using settle_reserved [of w ?r c "- ?e"] s rc
    by (simp add: part2_def the_reservation_def)
  have w2: "w2 = ?w1\<lparr>qw_store := om_put (store_key ?t new_id) st' (qw_store ?w1), qw_part := part2\<rparr>"
    and rep: "refunded rep = 1"
    using sw s(1,2) a
    by (auto simp: w1 sweep_one_def Let_def claim local_settle_once local_close part2_def r_fields st'_def
        sweep_report_zero_def)
  have tk2: "mem_ticket (qw_store w2) ?t new_id = Some st'" "so_status st' = RClosed"
    "so_close_reason st' = Expired" "so_reservation st' = ?r\<lparr>rv_debited := True\<rparr>"
    by (simp_all add: w2 mem_ticket_def st'_def st_def)
  have claim2: "env_claim local_env n ?t new_id l (w2\<lparr>qw_part := p\<rparr>) =
      (w2\<lparr>qw_part := p\<rparr>, Inr (ClaimClosed (?r\<lparr>rv_debited := True\<rparr>) Expired))" for n l p
    using local_claim_closed [of "w2\<lparr>qw_part := p\<rparr>" ?t new_id st' n l] tk2 by simp
  have claim3: "env_claim local_env n ?t new_id l w2 =
      (w2, Inr (ClaimClosed (?r\<lparr>rv_debited := True\<rparr>) Expired))" for n l
    using claim2 [of n l "qw_part w2"] by simp
  have late: "\<not> settled part2 ?t (late_charge_key new_id)"
    using s(3) by (auto simp: part2 settled_def fresh_ticket_def late_charge_key_def settlement_key_def)
  define part3 where "part3 = (if 0 < ?a
    then fst (quota_settle_once ?t (qs_id q) ?a (late_charge_key new_id) part2) else part2)"
  have idem3: "0 < ?a \<Longrightarrow> settled part3 ?t (late_charge_key new_id)"
    by (simp add: part3_def quota_settle_once_def settled_def Let_def split: option.split)
  have u2: "usage part2 ?t (qs_id q) = c"
    by (simp add: part2 usage_def counter_of_def unwrap_or_def)
  have u3: "usage part3 ?t (qs_id q) = c + ?a"
    using late a(3) rc(2,3) s(7) by (auto simp: part3_def part2 quota_settle_once_def usage_def counter_of_def
        unwrap_or_def settled_def Let_def)
  have w2p: "qw_part w2 = part2" by (simp add: w2)
  have step3: "reconcile_tokens local_env is_master (Some se) rc later w2
      = (w2\<lparr>qw_part := part3\<rparr>, Inr (Reconciled ?a ?e))"
    using rc s(1,2) a w2p
    by (auto simp: reconcile_tokens_def Let_def claim3 reconcile_late_def r_fields local_settle_once part3_def)
  have step4: "reconcile_tokens local_env is_master (Some se) rc again (w2\<lparr>qw_part := part3\<rparr>)
      = (w2\<lparr>qw_part := part3\<rparr>, Inr (Reconciled ?a ?e))"
    using rc s(1,2) a idem3
    by (auto simp: reconcile_tokens_def Let_def claim2 reconcile_late_def r_fields local_settle_once
        quota_settle_once_def settled_def split: option.splits)
  show ?thesis using step3 step4 r3 u2 u3 w2p rep by auto
qed

theorem reserve_expire_late_exact_witness:
  "\<exists>(w1 :: quota_world) w2 w3. usage (qw_part w1) ''t'' ''q'' = 107 \<and> usage (qw_part w2) ''t'' ''q'' = 7
     \<and> usage (qw_part w3) ''t'' ''q'' = 37
     \<and> w3 = fst (reconcile_tokens local_env (\<lambda>_. False) (Some sample_session) sample_reconcile 200 w2)"
proof -
  obtain w1 p1 where r1: "reserve_tokens local_env (\<lambda>_. False) (Some sample_session) sample_request
      (Inr (Some sample_quota)) ''1'' 0 90 sample_world = (w1, p1)" by fastforce
  obtain w2 p2 where sw: "sweep_one local_env 100 SWEEP_LEASE
      (the_reservation sample_request sample_quota ''1'' 0 90 \<lparr>rv_debited := True\<rparr>)
      (w1, sweep_report_zero) = (w2, p2)" by fastforce
  obtain w3 p3 where r3: "reconcile_tokens local_env (\<lambda>_. False) (Some sample_session)
      sample_reconcile 200 w2 = (w3, p3)" by fastforce
  have "w1 = reserved_world sample_world
      (the_reservation sample_request sample_quota ''1'' 0 90) 7"
    using r1 reserve_granted [of "\<lambda>_. False" sample_session sample_request 7 sample_world sample_quota
        "''1''" 0 90] sample_scenario
    by (simp add: reserve_scenario_def the_reservation_def)
  then have "usage (qw_part w1) ''t'' ''q'' = 107"
    by (simp add: reserved_world_def the_reservation_def sample_defs usage_def counter_of_def unwrap_or_def)
  moreover have "usage (qw_part w2) ''t'' ''q'' = 7 \<and> usage (qw_part w3) ''t'' ''q'' = 37"
    using reserve_expire_late_exact [OF sample_scenario _ _ _ _ _ r1 sw r3]
    by (simp add: sample_request_def sample_quota_def sample_reconcile_def wire_id_def)
  moreover have "w3 = fst (reconcile_tokens local_env (\<lambda>_. False) (Some sample_session) sample_reconcile 200 w2)"
    by (simp add: r3)
  ultimately show ?thesis by blast
qed

text \<open>C39: a sweep that read a ticket before its debit was marked and claims it after loses the
  refund. With the ticket as read (not debited) the sweeper takes the lease of the marked one, settles
  nothing and closes it as abandoned: the estimate stays debited, and a later reconciliation is
  refused, so that nothing returns it.\<close>

theorem stale_sweep_leaks_debit:
  assumes sc: "reserve_scenario is_master se rq q new_id w c"
    and rc: "rc_reservation_id rc = wire_id (rq_tenant rq) new_id" "0 \<le> rc_input rc" "0 \<le> rc_output rc"
    and clock: "0 \<le> clock"
    and r1: "reserve_tokens local_env is_master (Some se) rq (Inr (Some q)) new_id now ttl w = (w1, rep1)"
    and sw: "sweep_one local_env clock lease (the_reservation rq q new_id now ttl) (w1, sweep_report_zero)
        = (w2, rep)"
  shows "abandoned rep = 1 \<and> usage (qw_part w2) (rq_tenant rq) (qs_id q) = c + rq_estimated rq
    \<and> reconcile_tokens local_env is_master (Some se) rc later w2 = (w2, Inl FailedPrecondition)"
proof -
  let ?t = "rq_tenant rq" and ?e = "rq_estimated rq"
  let ?r = "the_reservation rq q new_id now ttl"
  let ?w1 = "reserved_world w ?r c"
  have s: "authorize is_master se ?t" "wire_ok ?t new_id" "fresh_ticket w ?t new_id" "0 < ?e"
    "?e < 2 ^ 61" "c = counter_of (qw_part w) ?t (qs_id q) (qs_seed_usage q)" "0 \<le> c" "c < 2 ^ 61"
    "c < qs_max_limit q"
    using sc by (simp_all add: reserve_scenario_def)
  have w1: "w1 = ?w1"
    using reserve_granted [OF s(1,4,5,6,7,8,9), of new_id now ttl] r1
    by (simp add: the_reservation_def)
  define st where "st = \<lparr>so_reservation = ?r\<lparr>rv_debited := True\<rparr>, so_status = ROpen,
    so_lease_until = 0, so_close_reason = Settled\<rparr>"
  define st' where "st' = st\<lparr>so_status := RClosed, so_close_reason := Abandoned, so_lease_until := 0\<rparr>"
  have r_fields: "rv_id ?r = new_id" "rv_tenant ?r = ?t" "\<not> rv_debited ?r"
    by (simp_all add: the_reservation_def)
  have tk: "mem_ticket (qw_store ?w1) ?t new_id = Some st"
    by (simp add: mem_ticket_def reserved_world_def the_reservation_def st_def)
  have claim: "env_claim local_env clock ?t new_id lease ?w1 =
      (?w1\<lparr>qw_store := om_put (store_key ?t new_id) (st\<lparr>so_lease_until := i64 (clock + lease)\<rparr>)
          (qw_store ?w1)\<rparr>, Inr (Claimed (?r\<lparr>rv_debited := True\<rparr>)))"
    using local_claim [OF tk, of clock] clock by (simp add: st_def)
  have "sweep_one local_env clock lease ?r (?w1, sweep_report_zero)
      = (?w1\<lparr>qw_store := om_put (store_key ?t new_id) st' (qw_store ?w1)\<rparr>,
         sweep_report_zero\<lparr>abandoned := 1\<rparr>)"
    by (simp add: sweep_one_def claim local_close r_fields st'_def sweep_report_zero_def)
  then have w2: "w2 = ?w1\<lparr>qw_store := om_put (store_key ?t new_id) st' (qw_store ?w1)\<rparr>"
    and rep: "abandoned rep = 1"
    using sw by (auto simp: w1 sweep_report_zero_def)
  have "usage (qw_part w2) ?t (qs_id q) = c + ?e"
    by (simp add: w2 reserved_world_def the_reservation_def usage_def counter_of_def unwrap_or_def)
  moreover have "reconcile_tokens local_env is_master (Some se) rc later w2 = (w2, Inl FailedPrecondition)"
    using local_claim_closed [of w2 ?t new_id st' later RECONCILE_LEASE] rc s(1,2)
    by (simp add: reconcile_tokens_def Let_def reconcile_late_def w2 mem_ticket_def st'_def)
  ultimately show ?thesis using rep by simp
qed

theorem stale_sweep_leaks_debit_witness:
  "\<exists>(w2 :: quota_world) (rep :: sweep_report). abandoned rep = 1 \<and> usage (qw_part w2) ''t'' ''q'' = 107
    \<and> reconcile_tokens local_env (\<lambda>_. False) (Some sample_session) sample_reconcile 200 w2
        = (w2, Inl FailedPrecondition)"
proof -
  obtain w1 p1 where r1: "reserve_tokens local_env (\<lambda>_. False) (Some sample_session) sample_request
      (Inr (Some sample_quota)) ''1'' 0 90 sample_world = (w1, p1)" by fastforce
  obtain w2 p2 where sw: "sweep_one local_env 100 SWEEP_LEASE
      (the_reservation sample_request sample_quota ''1'' 0 90) (w1, sweep_report_zero) = (w2, p2)"
    by fastforce
  have "abandoned p2 = 1 \<and> usage (qw_part w2) ''t'' ''q'' = 107
    \<and> reconcile_tokens local_env (\<lambda>_. False) (Some sample_session) sample_reconcile 200 w2
        = (w2, Inl FailedPrecondition)"
    using stale_sweep_leaks_debit [OF sample_scenario _ _ _ _ r1 sw, of sample_reconcile 200]
    by (simp add: sample_request_def sample_quota_def sample_reconcile_def wire_id_def)
  then show ?thesis by blast
qed

end
