(* ===== verification/FormulaRpn.thy ===== *)
theory FormulaRpn
  imports FormulaLexer
begin

text \<open>Functions of the formula language (\<^verbatim>\<open>src/aegis/formula/functions.rs\<close>), their registry
  (\<^verbatim>\<open>functions_registry.rs\<close>), the shunting-yard parser (\<^verbatim>\<open>parser.rs\<close>), the stack evaluator
  (\<^verbatim>\<open>evaluator.rs\<close>) and the resolvers of variables (\<^verbatim>\<open>resolver.rs\<close>). The operations of \<^verbatim>\<open>f64\<close> are the
  fields of a record. A panic is the outer \<^verbatim>\<open>None\<close> of an evaluation.\<close>

section \<open>Numbers\<close>

record 'f float_ops =
  f_nan :: 'f
  f_of_int :: "int \<Rightarrow> 'f"
  f_neg :: "'f \<Rightarrow> 'f"
  f_add :: "'f \<Rightarrow> 'f \<Rightarrow> 'f"
  f_sub :: "'f \<Rightarrow> 'f \<Rightarrow> 'f"
  f_mul :: "'f \<Rightarrow> 'f \<Rightarrow> 'f"
  f_div :: "'f \<Rightarrow> 'f \<Rightarrow> 'f"
  f_rem :: "'f \<Rightarrow> 'f \<Rightarrow> 'f"
  f_powf :: "'f \<Rightarrow> 'f \<Rightarrow> 'f"
  f_powi :: "'f \<Rightarrow> int \<Rightarrow> 'f"
  f_as_i32 :: "'f \<Rightarrow> int"
  f_eq :: "'f \<Rightarrow> 'f \<Rightarrow> bool"
  f_lt :: "'f \<Rightarrow> 'f \<Rightarrow> bool"
  f_le :: "'f \<Rightarrow> 'f \<Rightarrow> bool"
  f_is_nan :: "'f \<Rightarrow> bool"
  f_abs :: "'f \<Rightarrow> 'f"
  f_round :: "'f \<Rightarrow> 'f"
  f_ceil :: "'f \<Rightarrow> 'f"
  f_floor :: "'f \<Rightarrow> 'f"
  f_sqrt :: "'f \<Rightarrow> 'f"
  f_ln :: "'f \<Rightarrow> 'f"
  f_log10 :: "'f \<Rightarrow> 'f"
  f_max :: "'f \<Rightarrow> 'f \<Rightarrow> 'f"
  f_min :: "'f \<Rightarrow> 'f \<Rightarrow> 'f"

abbreviation f_zero :: "'f float_ops \<Rightarrow> 'f" where "f_zero F \<equiv> f_of_int F 0"

section \<open>Functions\<close>

record 'f formula_function =
  fn_name :: string
  fn_arity :: "nat option"
  fn_evaluate :: "'f list \<Rightarrow> 'f option option"

definition arg :: "nat \<Rightarrow> 'f list \<Rightarrow> 'f option" where
  "arg i xs = (if i < length xs then Some (xs ! i) else None)"

definition with_1 :: "('f \<Rightarrow> 'f option) \<Rightarrow> 'f list \<Rightarrow> 'f option option" where
  "with_1 f xs = Some (Option.bind (arg 0 xs) f)"

definition with_2 :: "('f \<Rightarrow> 'f \<Rightarrow> 'f option) \<Rightarrow> 'f list \<Rightarrow> 'f option option" where
  "with_2 f xs = Some (Option.bind (arg 0 xs) (\<lambda>x. Option.bind (arg 1 xs) (f x)))"

definition abs_function :: "'f float_ops \<Rightarrow> 'f formula_function" where
  "abs_function F = \<lparr>fn_name = ''ABS'', fn_arity = Some 1, fn_evaluate = with_1 (\<lambda>x. Some (f_abs F x))\<rparr>"

definition round_function :: "'f float_ops \<Rightarrow> 'f formula_function" where
  "round_function F = \<lparr>fn_name = ''ROUND'', fn_arity = None, fn_evaluate = (\<lambda>xs. with_1 (\<lambda>x.
     let n = f_as_i32 F (case arg 1 xs of None \<Rightarrow> f_zero F | Some y \<Rightarrow> y);
         factor = f_powi F (f_of_int F 10) n in
     Some (f_div F (f_round F (f_mul F x factor)) factor)) xs)\<rparr>"

definition ceil_function :: "'f float_ops \<Rightarrow> 'f formula_function" where
  "ceil_function F = \<lparr>fn_name = ''CEIL'', fn_arity = Some 1, fn_evaluate = with_1 (\<lambda>x. Some (f_ceil F x))\<rparr>"

definition floor_function :: "'f float_ops \<Rightarrow> 'f formula_function" where
  "floor_function F = \<lparr>fn_name = ''FLOOR'', fn_arity = Some 1, fn_evaluate = with_1 (\<lambda>x. Some (f_floor F x))\<rparr>"

definition power_function :: "'f float_ops \<Rightarrow> 'f formula_function" where
  "power_function F = \<lparr>fn_name = ''POWER'', fn_arity = Some 2,
     fn_evaluate = with_2 (\<lambda>x y. Some (f_powf F x y))\<rparr>"

definition sqrt_function :: "'f float_ops \<Rightarrow> 'f formula_function" where
  "sqrt_function F = \<lparr>fn_name = ''SQRT'', fn_arity = Some 1,
     fn_evaluate = with_1 (\<lambda>x. if f_lt F x (f_zero F) then None else Some (f_sqrt F x))\<rparr>"

definition log_function :: "'f float_ops \<Rightarrow> 'f formula_function" where
  "log_function F = \<lparr>fn_name = ''LOG'', fn_arity = Some 1,
     fn_evaluate = with_1 (\<lambda>x. if f_le F x (f_zero F) then None else Some (f_ln F x))\<rparr>"

definition log10_function :: "'f float_ops \<Rightarrow> 'f formula_function" where
  "log10_function F = \<lparr>fn_name = ''LOG10'', fn_arity = Some 1,
     fn_evaluate = with_1 (\<lambda>x. if f_le F x (f_zero F) then None else Some (f_log10 F x))\<rparr>"

definition mod_function :: "'f float_ops \<Rightarrow> 'f formula_function" where
  "mod_function F = \<lparr>fn_name = ''MOD'', fn_arity = Some 2,
     fn_evaluate = with_2 (\<lambda>x y. if f_eq F y (f_zero F) then None else Some (f_rem F x y))\<rparr>"

definition sign_function :: "'f float_ops \<Rightarrow> 'f formula_function" where
  "sign_function F = \<lparr>fn_name = ''SIGN'', fn_arity = Some 1, fn_evaluate = with_1 (\<lambda>x.
     if f_is_nan F x then Some (f_nan F)
     else Some (if f_lt F (f_zero F) x then f_of_int F 1
                else if f_lt F x (f_zero F) then f_of_int F (- 1) else f_zero F))\<rparr>"

definition nullif_function :: "'f float_ops \<Rightarrow> 'f formula_function" where
  "nullif_function F = \<lparr>fn_name = ''NULLIF'', fn_arity = Some 2,
     fn_evaluate = with_2 (\<lambda>x y. if f_eq F x y then None else Some x)\<rparr>"

definition coalesce_function :: "'f float_ops \<Rightarrow> 'f formula_function" where
  "coalesce_function F = \<lparr>fn_name = ''COALESCE'', fn_arity = None,
     fn_evaluate = (\<lambda>xs. Some (find (\<lambda>x. \<not> f_is_nan F x) xs))\<rparr>"

definition if_function :: "'f float_ops \<Rightarrow> 'f formula_function" where
  "if_function F = \<lparr>fn_name = ''IF'', fn_arity = Some 3, fn_evaluate = (\<lambda>xs. with_2 (\<lambda>c x.
     Option.bind (arg 2 xs) (\<lambda>y. Some (if \<not> f_eq F c (f_zero F) then x else y))) xs)\<rparr>"

fun reduce :: "('a \<Rightarrow> 'a \<Rightarrow> 'a) \<Rightarrow> 'a list \<Rightarrow> 'a option" where
  "reduce f [] = None"
| "reduce f (x # xs) = Some (fold (\<lambda>y a. f a y) xs x)"

definition greatest_function :: "'f float_ops \<Rightarrow> 'f formula_function" where
  "greatest_function F = \<lparr>fn_name = ''GREATEST'', fn_arity = None,
     fn_evaluate = (\<lambda>xs. Some (reduce (f_max F) xs))\<rparr>"

definition least_function :: "'f float_ops \<Rightarrow> 'f formula_function" where
  "least_function F = \<lparr>fn_name = ''LEAST'', fn_arity = None,
     fn_evaluate = (\<lambda>xs. Some (reduce (f_min F) xs))\<rparr>"

text \<open>\<^verbatim>\<open>f64::clamp\<close> asserts that the bounds are ordered.\<close>

definition clamp_function :: "'f float_ops \<Rightarrow> 'f formula_function" where
  "clamp_function F = \<lparr>fn_name = ''CLAMP'', fn_arity = Some 3, fn_evaluate = (\<lambda>xs.
     (case (arg 0 xs, arg 1 xs, arg 2 xs) of
        (Some x, Some lo, Some hi) \<Rightarrow>
          (if \<not> f_le F lo hi then None
           else Some (Some (if f_lt F x lo then lo else if f_lt F hi x then hi else x)))
      | _ \<Rightarrow> Some None))\<rparr>"

section \<open>Registry\<close>

type_synonym 'f registry = "string \<rightharpoonup> 'f formula_function"

definition register :: "'f formula_function \<Rightarrow> 'f registry \<Rightarrow> 'f registry" where
  "register f reg = reg(to_uppercase (fn_name f) \<mapsto> f)"

definition registry_get :: "'f registry \<Rightarrow> string \<Rightarrow> 'f formula_function option" where
  "registry_get reg name = reg (to_uppercase name)"

definition is_registered :: "'f registry \<Rightarrow> string \<Rightarrow> bool" where
  "is_registered reg name \<longleftrightarrow> reg (to_uppercase name) \<noteq> None"

definition registry_standard :: "'f float_ops \<Rightarrow> 'f registry" where
  "registry_standard F = fold register
     [abs_function F, round_function F, ceil_function F, floor_function F, power_function F,
      sqrt_function F, log_function F, log10_function F, mod_function F, sign_function F,
      nullif_function F, coalesce_function F, if_function F, greatest_function F, least_function F,
      clamp_function F] (\<lambda>_. None)"

section \<open>Parser\<close>

record 'f yard =
  ya_output :: "'f token list"
  ya_ops :: "'f token list"
  ya_arity :: "nat list"
  ya_parens :: nat
  ya_funcs :: nat

text \<open>Stacks have their top first.\<close>

definition yard_init :: "'f yard" where
  "yard_init = \<lparr>ya_output = [], ya_ops = [], ya_arity = [], ya_parens = 0, ya_funcs = 0\<rparr>"

fun first_argument :: "nat list \<Rightarrow> nat list" where
  "first_argument (0 # r) = 1 # r"
| "first_argument a = a"

fun next_argument :: "nat list \<Rightarrow> nat list" where
  "next_argument (n # r) = Suc n # r"
| "next_argument [] = []"

definition should_pop :: "operator \<Rightarrow> operator \<Rightarrow> bool" where
  "should_pop op t \<longleftrightarrow> is_left_associative op \<and> precedence op \<le> precedence t
     \<or> \<not> is_left_associative op \<and> precedence op < precedence t"

fun pops :: "operator \<Rightarrow> 'f token \<Rightarrow> bool" where
  "pops op (Operator t) = should_pop op t"
| "pops op _ = False"

definition is_open :: "'f token \<Rightarrow> bool" where
  "is_open t \<longleftrightarrow> (case t of ParenOpen \<Rightarrow> True | _ \<Rightarrow> False)"

definition close_paren :: "'f yard \<Rightarrow> (formula_error, 'f yard) result" where
  "close_paren y =
    (if ya_parens y = 0 then Inl (UnbalancedParentheses 0)
     else (let popped = takeWhile (\<lambda>t. \<not> is_open t) (ya_ops y);
               rest = dropWhile (\<lambda>t. \<not> is_open t) (ya_ops y);
               out = ya_output y @ popped in
       (case rest of
          [] \<Rightarrow> Inl (UnbalancedParentheses 0)
        | _ # ops \<Rightarrow>
           (case ops of
              Function name _ # ops' \<Rightarrow>
                Inr (y\<lparr>ya_output := out @ [Function name (case ya_arity y of [] \<Rightarrow> 0 | n # _ \<Rightarrow> n)],
                       ya_ops := ops', ya_arity := tl (ya_arity y),
                       ya_parens := ya_parens y - 1, ya_funcs := ya_funcs y - 1\<rparr>)
            | _ \<Rightarrow> Inr (y\<lparr>ya_output := out, ya_ops := ops, ya_parens := ya_parens y - 1\<rparr>)))))"

fun yard_step :: "'f registry \<Rightarrow> 'f token \<Rightarrow> 'f yard \<Rightarrow> (formula_error, 'f yard) result" where
  "yard_step reg (Literal v) y =
     Inr (y\<lparr>ya_output := ya_output y @ [Literal v], ya_arity := first_argument (ya_arity y)\<rparr>)"
| "yard_step reg (Variable s) y =
     Inr (y\<lparr>ya_output := ya_output y @ [Variable s], ya_arity := first_argument (ya_arity y)\<rparr>)"
| "yard_step reg (Function name n) y =
     (if \<not> is_registered reg name then Inl (UnknownFunction name)
      else if ya_funcs y + 1 > 16 then Inl (FunctionNestingTooDeep (ya_funcs y + 1) 16)
      else Inr (y\<lparr>ya_ops := Function name n # ya_ops y,
                  ya_arity := 0 # first_argument (ya_arity y), ya_funcs := ya_funcs y + 1\<rparr>))"
| "yard_step reg Comma y =
     Inr (y\<lparr>ya_output := ya_output y @ takeWhile (\<lambda>t. \<not> is_open t) (ya_ops y),
            ya_ops := dropWhile (\<lambda>t. \<not> is_open t) (ya_ops y),
            ya_arity := next_argument (ya_arity y)\<rparr>)"
| "yard_step reg (Operator op) y =
     Inr (y\<lparr>ya_output := ya_output y @ takeWhile (pops op) (ya_ops y),
            ya_ops := Operator op # dropWhile (pops op) (ya_ops y),
            ya_arity := (if op = OpNeg then first_argument (ya_arity y) else ya_arity y)\<rparr>)"
| "yard_step reg ParenOpen y =
     (if ya_parens y + 1 > 32 then Inl (NestingTooDeep (ya_parens y + 1) 32)
      else Inr (y\<lparr>ya_ops := ParenOpen # ya_ops y, ya_arity := first_argument (ya_arity y),
                  ya_parens := ya_parens y + 1\<rparr>))"
| "yard_step reg ParenClose y = close_paren y"

definition yard_finish :: "'f yard \<Rightarrow> (formula_error, 'f token list) result" where
  "yard_finish y =
    (if list_ex is_open (ya_ops y) then Inl (UnbalancedParentheses 0)
     else Inr (ya_output y @ ya_ops y))"

definition to_rpn :: "'f registry \<Rightarrow> 'f token list \<Rightarrow> (formula_error, 'f token list) result" where
  "to_rpn reg toks = rbind (try_fold (yard_step reg) toks yard_init) yard_finish"

section \<open>Evaluator\<close>

definition binary_value :: "'f float_ops \<Rightarrow> operator \<Rightarrow> 'f \<Rightarrow> 'f \<Rightarrow> (formula_error, 'f) result" where
  "binary_value F op l r = (case op of
      OpAdd \<Rightarrow> Inr (f_add F l r)
    | OpSub \<Rightarrow> Inr (f_sub F l r)
    | OpMul \<Rightarrow> Inr (f_mul F l r)
    | OpDiv \<Rightarrow> Inr (if f_eq F r (f_zero F) then f_nan F else f_div F l r)
    | OpMod \<Rightarrow> Inr (if f_eq F r (f_zero F) then f_nan F else f_rem F l r)
    | OpPower \<Rightarrow> Inr (f_powf F l r)
    | OpNeg \<Rightarrow> Inl (MathDomainError ''neg'' 
        (''operador unario en evaluaci'' @ [CHR 0xC3, CHR 0xB3] @ ''n binaria'')))"

definition check_call :: "'f registry \<Rightarrow> string \<Rightarrow> nat \<Rightarrow> (formula_error, 'f formula_function) result" where
  "check_call reg name n = rbind (ok_or (UnknownFunction name) (registry_get reg name)) (\<lambda>f.
     case fn_arity f of
       Some k \<Rightarrow> if n \<noteq> k then Inl (ArityMismatch name k n) else Inr f
     | None \<Rightarrow> Inr f)"

definition apply_function :: "'f float_ops \<Rightarrow> 'f formula_function \<Rightarrow> 'f list \<Rightarrow> 'f option" where
  "apply_function F f args =
     map_option (\<lambda>r. case r of None \<Rightarrow> f_nan F | Some v \<Rightarrow> v) (fn_evaluate f args)"

fun eval_step ::
  "'f float_ops \<Rightarrow> 'f registry \<Rightarrow> (string \<Rightarrow> 'f option) \<Rightarrow> 'f token \<Rightarrow> 'f list
    \<Rightarrow> (formula_error, 'f list) result option" where
  "eval_step F reg resolve (Literal v) st = Some (Inr (v # st))"
| "eval_step F reg resolve (Variable s) st =
     Some (Inr ((case resolve s of None \<Rightarrow> f_nan F | Some v \<Rightarrow> v) # st))"
| "eval_step F reg resolve (Operator op) st = Some (
     if op = OpNeg then (case st of [] \<Rightarrow> Inl EmptyFormula | x # r \<Rightarrow> Inr (f_neg F x # r))
     else (case st of r # l # rest \<Rightarrow> rbind (binary_value F op l r) (\<lambda>v. Inr (v # rest))
           | _ \<Rightarrow> Inl EmptyFormula))"
| "eval_step F reg resolve (Function name n) st =
     (case check_call reg name n of
        Inl e \<Rightarrow> Some (Inl e)
      | Inr f \<Rightarrow> if length st < n then Some (Inl EmptyFormula)
          else map_option (\<lambda>v. Inr (v # drop n st)) (apply_function F f (rev (take n st))))"
| "eval_step F reg resolve _ st = Some (Inr st)"

fun eval_loop ::
  "'f float_ops \<Rightarrow> 'f registry \<Rightarrow> (string \<Rightarrow> 'f option) \<Rightarrow> 'f token list \<Rightarrow> 'f list
    \<Rightarrow> (formula_error, 'f) result option" where
  "eval_loop F reg resolve [] st = Some (case st of [] \<Rightarrow> Inl EmptyFormula | v # _ \<Rightarrow> Inr v)"
| "eval_loop F reg resolve (t # ts) st =
     (case eval_step F reg resolve t st of
        None \<Rightarrow> None
      | Some (Inl e) \<Rightarrow> Some (Inl e)
      | Some (Inr st') \<Rightarrow> eval_loop F reg resolve ts st')"

definition evaluate ::
  "'f float_ops \<Rightarrow> 'f registry \<Rightarrow> (string \<Rightarrow> 'f option) \<Rightarrow> 'f token list \<Rightarrow> (formula_error, 'f) result option" where
  "evaluate F reg resolve rpn = eval_loop F reg resolve rpn []"

text \<open>A measure is compiled once and evaluated on each row.\<close>

definition compile_formula ::
  "(string \<Rightarrow> 'f option) \<Rightarrow> 'f registry \<Rightarrow> string \<Rightarrow> (formula_error, 'f token list) result" where
  "compile_formula parse_num reg formula = rbind (tokenize parse_num formula) (to_rpn reg)"

section \<open>Variables\<close>

definition TENANT_NAME :: string where "TENANT_NAME = ''tenant/id''"

definition last_segment :: "string \<Rightarrow> string" where
  "last_segment s = rev (takeWhile (\<lambda>c. c \<noteq> CHR ''/'') (rev s))"

definition oltp_resolve :: "(string \<rightharpoonup> 'j) \<Rightarrow> ('j \<Rightarrow> 'f option) \<Rightarrow> string \<Rightarrow> 'f option" where
  "oltp_resolve row as_f64 var = Option.bind
     (case row var of Some v \<Rightarrow> Some v | None \<Rightarrow> row (last_segment var)) as_f64"

definition resolve_to_sql_column :: "string \<Rightarrow> string" where
  "resolve_to_sql_column var =
    (if var = TENANT_NAME then ''_tenant''
     else map (\<lambda>c. if c = CHR ''-'' then CHR ''_'' else c) (last_segment var))"

end
