(* ===== verification/FormulaCorrect.thy ===== *)
theory FormulaCorrect
  imports FormulaRpn
begin

text \<open>Correctness of the formula engine: the grammar of formulas as a datatype, their printed form,
  their infix and postfix tokens and their value; the lexer, the shunting yard and the stack machine
  compute exactly these.\<close>

section \<open>Formulas\<close>

datatype 'f expr =
    Num string 'f
  | Ref string
  | Neg "'f expr"
  | Bin operator "'f expr" "'f expr"
  | Call string "'f expr list"
  | Grp "'f expr"

fun level :: "'f expr \<Rightarrow> nat" where
  "level (Bin op l r) = precedence op"
| "level (Neg e) = 4"
| "level _ = 5"

text \<open>The grammar: operands bind at least as tightly as the associativity asks, a negation takes the
  tightest operand, a call has arguments.\<close>

primrec wf_expr :: "'f expr \<Rightarrow> bool" where
  "wf_expr (Num s v) \<longleftrightarrow> True"
| "wf_expr (Ref s) \<longleftrightarrow> True"
| "wf_expr (Neg e) \<longleftrightarrow> wf_expr e \<and> 4 \<le> level e"
| "wf_expr (Bin op l r) \<longleftrightarrow> wf_expr l \<and> wf_expr r \<and> op \<noteq> OpNeg
     \<and> (if is_left_associative op then precedence op \<le> level l \<and> precedence op < level r
        else precedence op < level l \<and> precedence op \<le> level r)"
| "wf_expr (Call f es) \<longleftrightarrow> es \<noteq> [] \<and> list_all id (map wf_expr es)"
| "wf_expr (Grp e) \<longleftrightarrow> wf_expr e"

fun commas :: "'f token list list \<Rightarrow> 'f token list" where
  "commas [] = []"
| "commas [x] = x"
| "commas (x # xs) = x @ Comma # commas xs"

primrec infix_toks :: "'f expr \<Rightarrow> 'f token list" where
  "infix_toks (Num s v) = [Literal v]"
| "infix_toks (Ref s) = [Variable s]"
| "infix_toks (Neg e) = Operator OpNeg # infix_toks e"
| "infix_toks (Bin op l r) = infix_toks l @ Operator op # infix_toks r"
| "infix_toks (Call f es) = [Function f 0, ParenOpen] @ commas (map infix_toks es) @ [ParenClose]"
| "infix_toks (Grp e) = ParenOpen # infix_toks e @ [ParenClose]"

primrec postfix :: "'f expr \<Rightarrow> 'f token list" where
  "postfix (Num s v) = [Literal v]"
| "postfix (Ref s) = [Variable s]"
| "postfix (Neg e) = postfix e @ [Operator OpNeg]"
| "postfix (Bin op l r) = postfix l @ postfix r @ [Operator op]"
| "postfix (Call f es) = concat (map postfix es) @ [Function f (length es)]"
| "postfix (Grp e) = postfix e"

text \<open>Nesting of parentheses, of calls, and the names a formula calls.\<close>

definition max_list :: "nat list \<Rightarrow> nat" where
  "max_list ns = fold max ns 0"

primrec paren_depth :: "'f expr \<Rightarrow> nat" where
  "paren_depth (Num s v) = 0"
| "paren_depth (Ref s) = 0"
| "paren_depth (Neg e) = paren_depth e"
| "paren_depth (Bin op l r) = max (paren_depth l) (paren_depth r)"
| "paren_depth (Call f es) = Suc (max_list (map paren_depth es))"
| "paren_depth (Grp e) = Suc (paren_depth e)"

primrec call_depth :: "'f expr \<Rightarrow> nat" where
  "call_depth (Num s v) = 0"
| "call_depth (Ref s) = 0"
| "call_depth (Neg e) = call_depth e"
| "call_depth (Bin op l r) = max (call_depth l) (call_depth r)"
| "call_depth (Call f es) = Suc (max_list (map call_depth es))"
| "call_depth (Grp e) = call_depth e"

primrec called :: "'f expr \<Rightarrow> string list" where
  "called (Num s v) = []"
| "called (Ref s) = []"
| "called (Neg e) = called e"
| "called (Bin op l r) = called l @ called r"
| "called (Call f es) = f # concat (map called es)"
| "called (Grp e) = called e"

lemma max_list_le: "max_list ns \<le> b \<longleftrightarrow> (\<forall>n\<in>set ns. n \<le> b)"
proof -
  have "fold max ns (a :: nat) \<le> b \<longleftrightarrow> a \<le> b \<and> (\<forall>n\<in>set ns. n \<le> b)" for a
    by (induction ns arbitrary: a) auto
  then show ?thesis by (simp add: max_list_def)
qed

section \<open>The shunting yard\<close>

definition allowed :: "'f registry \<Rightarrow> nat \<Rightarrow> nat \<Rightarrow> 'f expr \<Rightarrow> bool" where
  "allowed reg p c e \<longleftrightarrow> p + paren_depth e \<le> 32 \<and> c + call_depth e \<le> 16
     \<and> (\<forall>f\<in>set (called e). is_registered reg f)"

text \<open>A stack on which the operators of an expression of level \<^verbatim>\<open>q\<close> may be pushed.\<close>

fun room :: "'f token list \<Rightarrow> nat \<Rightarrow> bool" where
  "room (Operator t # r) q \<longleftrightarrow> precedence t < q \<or> precedence t = q \<and> 3 \<le> q"
| "room (Function f n # r) q \<longleftrightarrow> False"
| "room _ q \<longleftrightarrow> True"

definition pending :: "nat \<Rightarrow> 'f token list \<Rightarrow> bool" where
  "pending q B \<longleftrightarrow> (\<forall>t\<in>set B. \<exists>op. t = Operator op \<and> q \<le> precedence op)"

lemma room_mono: "room ops q \<Longrightarrow> q \<le> q' \<Longrightarrow> room ops q'"
  by (cases "(ops, q)" rule: room.cases) auto

lemma level_bounds: "1 \<le> level e \<and> level e \<le> 5"
  by (cases e rule: level.cases) (auto intro: operator.induct, (metis (full_types) operator.exhaust
      precedence.simps one_le_numeral order_refl numeral_le_iff)?)

lemma first_argument_idem [simp]: "first_argument (first_argument a) = first_argument a"
  by (cases a rule: first_argument.cases) auto

lemma pops_pending:
  assumes "pending q B" "room ops (precedence op)"
    and "if is_left_associative op then precedence op \<le> q else precedence op < q"
  shows "takeWhile (pops op) (B @ ops) = B \<and> dropWhile (pops op) (B @ ops) = ops"
proof -
  have B: "\<forall>t\<in>set B. pops op t"
    using assms(1,3) by (force simp: pending_def should_pop_def split: if_splits)
  have "takeWhile (pops op) ops = [] \<and> dropWhile (pops op) ops = ops"
    using assms(2)
    by (cases "(ops, precedence op)" rule: room.cases)
       (cases op; auto simp: should_pop_def is_left_associative_def)+
  then show ?thesis using B by (simp add: takeWhile_append2 dropWhile_append2)
qed

lemma open_pending:
  assumes "pending q B"
  shows "takeWhile (\<lambda>t. \<not> is_open t) (B @ ParenOpen # ops) = B
    \<and> dropWhile (\<lambda>t. \<not> is_open t) (B @ ParenOpen # ops) = ParenOpen # ops
    \<and> \<not> list_ex is_open B"
proof -
  have "\<forall>t\<in>set B. \<not> is_open t"
    using assms by (force simp: pending_def is_open_def)
  then show ?thesis by (simp add: is_open_def list_ex_iff takeWhile_append2 dropWhile_append2)
qed

text \<open>What reading an expression does to the yard.\<close>

abbreviation yd :: "'f token list \<Rightarrow> 'f token list \<Rightarrow> nat list \<Rightarrow> nat \<Rightarrow> nat \<Rightarrow> 'f yard" where
  "yd out ops ar p c \<equiv>
     \<lparr>ya_output = out, ya_ops = ops, ya_arity = ar, ya_parens = p, ya_funcs = c\<rparr>"

definition reads_from ::
  "'f registry \<Rightarrow> 'f expr \<Rightarrow> 'f token list \<Rightarrow> 'f token list \<Rightarrow> nat list \<Rightarrow> nat \<Rightarrow> nat \<Rightarrow> bool" where
  "reads_from reg e out ops ar p c \<longleftrightarrow>
     (if allowed reg p c e
      then \<exists>A B. try_fold (yard_step reg) (infix_toks e) (yd out ops ar p c)
            = Inr (yd (out @ A) (B @ ops) (first_argument ar) p c)
          \<and> A @ B = postfix e \<and> pending (level e) B
      else \<exists>err. try_fold (yard_step reg) (infix_toks e) (yd out ops ar p c) = Inl err)"

lemma reads_fromI:
  assumes "allowed reg p c e" "A @ B = postfix e" "pending (level e) B"
    and "try_fold (yard_step reg) (infix_toks e) (yd out ops ar p c)
      = Inr (yd (out @ A) (B @ ops) (first_argument ar) p c)"
  shows "reads_from reg e out ops ar p c"
  using assms by (auto simp: reads_from_def)

definition reads :: "'f registry \<Rightarrow> 'f expr \<Rightarrow> bool" where
  "reads reg e \<longleftrightarrow> (\<forall>out ops ar p c. room ops (level e) \<longrightarrow> p \<le> 32 \<longrightarrow> c \<le> 16 \<longrightarrow>
     reads_from reg e out ops ar p c)"

lemma reads_ok:
  assumes "reads reg e" "allowed reg p c e" "room ops (level e)"
  obtains A B where "try_fold (yard_step reg) (infix_toks e) (yd out ops ar p c)
      = Inr (yd (out @ A) (B @ ops) (first_argument ar) p c)"
    "A @ B = postfix e" "pending (level e) B"
proof -
  have "p \<le> 32" "c \<le> 16" using assms(2) by (auto simp: allowed_def)
  then have "reads_from reg e out ops ar p c" using assms by (simp add: reads_def)
  then show ?thesis using assms(2) that by (auto simp: reads_from_def)
qed

lemma reads_fail:
  assumes "reads reg e" "\<not> allowed reg p c e" "room ops (level e)" "p \<le> 32" "c \<le> 16"
  obtains err where "try_fold (yard_step reg) (infix_toks e) (yd out ops ar p c) = Inl err"
proof -
  have "reads_from reg e out ops ar p c" using assms by (simp add: reads_def)
  then show ?thesis using assms(2) that by (auto simp: reads_from_def)
qed

lemma allowed_bin [simp]:
  "allowed reg p c (Bin op l r) \<longleftrightarrow> allowed reg p c l \<and> allowed reg p c r"
  by (auto simp: allowed_def)

lemma allowed_neg [simp]: "allowed reg p c (Neg e) \<longleftrightarrow> allowed reg p c e"
  by (auto simp: allowed_def)

lemma allowed_grp [simp]: "allowed reg p c (Grp e) \<longleftrightarrow> allowed reg (Suc p) c e"
  by (auto simp: allowed_def)

lemma allowed_call [simp]: "es \<noteq> [] \<Longrightarrow> allowed reg p c (Call f es) \<longleftrightarrow>
    is_registered reg f \<and> (\<forall>e\<in>set es. allowed reg (Suc p) (Suc c) e)"
proof -
  assume "es \<noteq> []"
  then obtain e0 where e0: "e0 \<in> set es" by (cases es) auto
  have "p + paren_depth (Call f es) \<le> 32 \<longleftrightarrow> (\<forall>e\<in>set es. Suc p + paren_depth e \<le> 32)"
    using max_list_le [of "map paren_depth es" "31 - p"] e0 by fastforce
  moreover have "c + call_depth (Call f es) \<le> 16 \<longleftrightarrow> (\<forall>e\<in>set es. Suc c + call_depth e \<le> 16)"
    using max_list_le [of "map call_depth es" "15 - c"] e0 by fastforce
  ultimately show ?thesis unfolding allowed_def by auto
qed

lemma reads_leaf: "reads reg (Num s v)" "reads reg (Ref s)"
  by (auto simp: reads_def reads_from_def allowed_def pending_def)

lemma reads_neg:
  fixes e :: "'f expr"
  assumes "reads reg e" "4 \<le> level e"
  shows "reads reg (Neg e)"
  unfolding reads_def
proof (intro allI impI)
  fix out ops :: "'f token list" and ar :: "nat list" and p c :: nat
  assume room: "room ops (level (Neg e))" and b: "p \<le> 32" "c \<le> 16"
  have none: "takeWhile (pops OpNeg) ops = []" "dropWhile (pops OpNeg) ops = ops"
    using pops_pending [of 5 "[]" ops OpNeg] room by (simp_all add: pending_def)
  have room': "room (Operator OpNeg # ops) (level e)" using assms(2) by auto
  show "reads_from reg (Neg e) out ops ar p c"
  proof (cases "allowed reg p c e")
    case True
    obtain A B where r: "try_fold (yard_step reg) (infix_toks e)
        (yd out (Operator OpNeg # ops) (first_argument ar) p c)
      = Inr (yd (out @ A) (B @ Operator OpNeg # ops) (first_argument (first_argument ar)) p c)"
      "A @ B = postfix e" "pending (level e) B"
      using reads_ok [OF assms(1) True room'] by metis
    have "pending 4 (B @ [Operator OpNeg])"
      using r(3) assms(2) by (fastforce simp: pending_def)
    then show ?thesis using True r
      by (auto simp: reads_from_def none intro!: exI [of _ A] exI [of _ "B @ [Operator OpNeg]"])
  next
    case False
    then show ?thesis using reads_fail [OF assms(1) False room' b]
      by (simp add: reads_from_def none) metis
  qed
qed

lemma reads_bin:
  fixes l r :: "'f expr"
  assumes "reads reg l" "reads reg r" "wf_expr (Bin op l r)"
  shows "reads reg (Bin op l r)"
  unfolding reads_def
proof (intro allI impI)
  fix out ops :: "'f token list" and ar :: "nat list" and p c :: nat
  assume room: "room ops (level (Bin op l r))" and b: "p \<le> 32" "c \<le> 16"
  have wf: "op \<noteq> OpNeg" "precedence op \<le> level l" "precedence op \<le> level r"
    "if is_left_associative op then precedence op \<le> level l else precedence op < level l"
    using assms(3) by (auto split: if_splits)
  have rooml: "room ops (level l)" using room wf(2) room_mono by auto
  have roomr: "room (Operator op # ops) (level r)"
    using assms(3) by (cases op) (auto simp: is_left_associative_def split: if_splits)
  show "reads_from reg (Bin op l r) out ops ar p c"
  proof (cases "allowed reg p c l")
    case l: True
    obtain A B where L: "try_fold (yard_step reg) (infix_toks l) (yd out ops ar p c)
        = Inr (yd (out @ A) (B @ ops) (first_argument ar) p c)"
      "A @ B = postfix l" "pending (level l) B"
      using reads_ok [OF assms(1) l rooml] by metis
    have pop: "takeWhile (pops op) (B @ ops) = B" "dropWhile (pops op) (B @ ops) = ops"
      using pops_pending [OF L(3) _ wf(4)] room by simp_all
    let ?y = "yd (out @ A @ B) (Operator op # ops) (first_argument ar) p c"
    have step: "try_fold (yard_step reg) (infix_toks (Bin op l r)) (yd out ops ar p c)
        = try_fold (yard_step reg) (infix_toks r) ?y"
      using wf(1) by (simp add: try_fold_append L(1) pop)
    show ?thesis
    proof (cases "allowed reg p c r")
      case r: True
      obtain A' B' where R: "try_fold (yard_step reg) (infix_toks r) ?y
          = Inr (yd ((out @ A @ B) @ A') (B' @ Operator op # ops) (first_argument (first_argument ar)) p c)"
        "A' @ B' = postfix r" "pending (level r) B'"
        using reads_ok [OF assms(2) r roomr] by metis
      have post: "(A @ B @ A') @ (B' @ [Operator op]) = postfix (Bin op l r)"
        using L(2) R(2) by (metis append.assoc postfix.simps(4))
      have "pending (precedence op) (B' @ [Operator op])"
        using R(3) wf(3) by (fastforce simp: pending_def)
      then show ?thesis using l r post
        unfolding reads_from_def step R(1)
        by (auto intro!: exI [of _ "A @ B @ A'"] exI [of _ "B' @ [Operator op]"])
    next
      case False
      then show ?thesis using reads_fail [OF assms(2) False roomr b]
        unfolding reads_from_def step by simp metis
    qed
  next
    case False
    then show ?thesis using reads_fail [OF assms(1) False rooml b]
      by (simp add: reads_from_def try_fold_append) (metis rbind_simps(1))
  qed
qed

lemma close_grp:
  assumes "pending q B" "room ops 5"
  shows "close_paren (yd out (B @ ParenOpen # ops) ar (Suc p) c) = Inr (yd (out @ B) ops ar p c)"
  using open_pending [OF assms(1), of ops] assms(2)
  by (cases "(ops, 5 :: nat)" rule: room.cases) (simp_all add: close_paren_def Let_def)

lemma close_call:
  assumes "pending q B"
  shows "close_paren (yd out (B @ ParenOpen # Function f k # ops) (n # ar) (Suc p) (Suc c))
    = Inr (yd (out @ B @ [Function f n]) ops ar p c)"
  using open_pending [OF assms(1), of "Function f k # ops"] by (simp add: close_paren_def Let_def)

lemma reads_grp:
  fixes e :: "'f expr"
  assumes "reads reg e"
  shows "reads reg (Grp e)"
  unfolding reads_def
proof (intro allI impI)
  fix out ops :: "'f token list" and ar :: "nat list" and p c :: nat
  assume room: "room ops (level (Grp e))" and b: "p \<le> 32" "c \<le> 16"
  have room': "room (ParenOpen # ops) (level e)" by simp
  show "reads_from reg (Grp e) out ops ar p c"
  proof (cases "allowed reg (Suc p) c e")
    case True
    obtain A B where r: "try_fold (yard_step reg) (infix_toks e)
        (yd out (ParenOpen # ops) (first_argument ar) (Suc p) c)
      = Inr (yd (out @ A) (B @ ParenOpen # ops) (first_argument (first_argument ar)) (Suc p) c)"
      "A @ B = postfix e" "pending (level e) B"
      using reads_ok [OF assms(1) True room'] by metis
    have "Suc p \<le> 32" using True by (simp add: allowed_def)
    then show ?thesis using True r close_grp [OF r(3)] room
      by (simp add: reads_from_def try_fold_append pending_def)
  next
    case False
    show ?thesis
    proof (cases "p < 32")
      case True
      then show ?thesis using reads_fail [OF assms(1) False room' _ b(2)] False
        by (simp add: reads_from_def try_fold_append) (metis rbind_simps(1) Suc_leI)
    next
      case False
      then show ?thesis using b by (simp add: reads_from_def allowed_def)
    qed
  qed
qed

lemma pending_weaken: "pending q B \<Longrightarrow> pending 0 B"
  by (auto simp: pending_def)

lemma first_argument_pos [simp]: "first_argument (Suc n # ar) = Suc n # ar"
  by simp

lemma reads_args:
  fixes es :: "'f expr list"
  assumes "es \<noteq> []" "\<forall>e\<in>set es. reads reg e" "p \<le> 32" "c \<le> 16"
  shows "if \<forall>e\<in>set es. allowed reg p c e
    then \<exists>A B. try_fold (yard_step reg) (commas (map infix_toks es)) (yd out (ParenOpen # ops) (Suc n # ar) p c)
        = Inr (yd (out @ A) (B @ ParenOpen # ops) ((n + length es) # ar) p c)
      \<and> A @ B = concat (map postfix es) \<and> pending 0 B
    else \<exists>err. try_fold (yard_step reg) (commas (map infix_toks es))
      (yd out (ParenOpen # ops) (Suc n # ar) p c) = Inl err"
  using assms
proof (induction es arbitrary: out n)
  case (Cons e es)
  have e: "reads reg e" using Cons.prems by simp
  have room: "room (ParenOpen # ops) (level e)" by simp
  show ?case
  proof (cases "allowed reg p c e")
    case True
    obtain A B where r: "try_fold (yard_step reg) (infix_toks e) (yd out (ParenOpen # ops) (Suc n # ar) p c)
        = Inr (yd (out @ A) (B @ ParenOpen # ops) (Suc n # ar) p c)"
      "A @ B = postfix e" "pending (level e) B"
      using reads_ok [OF e True room, of out "Suc n # ar"] by (metis first_argument_pos)
    show ?thesis
    proof (cases es)
      case Nil
      then show ?thesis using True r pending_weaken by auto
    next
      case (Cons e2 es2)
      let ?y = "yd (out @ A @ B) (ParenOpen # ops) (Suc (Suc n) # ar) p c"
      have step: "try_fold (yard_step reg) (commas (map infix_toks (e # es)))
          (yd out (ParenOpen # ops) (Suc n # ar) p c)
        = try_fold (yard_step reg) (commas (map infix_toks es)) ?y"
        using open_pending [OF r(3), of ops] by (simp add: Cons try_fold_append r(1))
      have IH: "if \<forall>e\<in>set es. allowed reg p c e
        then \<exists>A' B'. try_fold (yard_step reg) (commas (map infix_toks es)) ?y
            = Inr (yd ((out @ A @ B) @ A') (B' @ ParenOpen # ops) ((Suc n + length es) # ar) p c)
          \<and> A' @ B' = concat (map postfix es) \<and> pending 0 B'
        else \<exists>err. try_fold (yard_step reg) (commas (map infix_toks es)) ?y = Inl err"
        using Cons.IH [of "out @ A @ B" "Suc n"] Cons.prems Cons by simp
      show ?thesis
      proof (cases "\<forall>e\<in>set es. allowed reg p c e")
        case all: True
        then obtain A' B' where R: "try_fold (yard_step reg) (commas (map infix_toks es)) ?y
            = Inr (yd ((out @ A @ B) @ A') (B' @ ParenOpen # ops) ((Suc n + length es) # ar) p c)"
          "A' @ B' = concat (map postfix es)" "pending 0 B'" using IH by auto
        have "(A @ B @ A') @ B' = concat (map postfix (e # es))" using r(2) R(2) by simp
        then show ?thesis using all True R(3)
          unfolding step R(1) by (auto intro!: exI [of _ "A @ B @ A'"] exI [of _ B'])
      next
        case False
        then show ?thesis using IH unfolding step by auto
      qed
    qed
  next
    case False
    obtain err where "try_fold (yard_step reg) (infix_toks e) (yd out (ParenOpen # ops) (Suc n # ar) p c) = Inl err"
      using reads_fail [OF e False room Cons.prems(3,4)] by metis
    then show ?thesis using False by (cases es) (simp_all add: try_fold_append)
  qed
qed simp

lemma reads_call:
  fixes es :: "'f expr list"
  assumes "es \<noteq> []" "\<forall>e\<in>set es. reads reg e"
  shows "reads reg (Call f es)"
  unfolding reads_def
proof (intro allI impI)
  fix out ops :: "'f token list" and ar :: "nat list" and p c :: nat
  assume room: "room ops (level (Call f es))" and b: "p \<le> 32" "c \<le> 16"
  let ?y = "yd out (ParenOpen # Function f 0 # ops) (Suc 0 # first_argument ar) (Suc p) (Suc c)"
  have step: "try_fold (yard_step reg) (infix_toks (Call f es)) (yd out ops ar p c)
    = rbind (try_fold (yard_step reg) (commas (map infix_toks es)) ?y)
        (try_fold (yard_step reg) [ParenClose])"
    if "is_registered reg f" "c < 16" "p < 32"
    using that by (simp add: try_fold_append)
  show "reads_from reg (Call f es) out ops ar p c"
  proof (cases "is_registered reg f \<and> c < 16 \<and> p < 32")
    case True
    note args = reads_args [OF assms, of "Suc p" "Suc c" out "Function f 0 # ops" 0 "first_argument ar"]
    show ?thesis
    proof (cases "\<forall>e\<in>set es. allowed reg (Suc p) (Suc c) e")
      case all: True
      then obtain A B where R: "try_fold (yard_step reg) (commas (map infix_toks es)) ?y
          = Inr (yd (out @ A) (B @ ParenOpen # Function f 0 # ops) (length es # first_argument ar) (Suc p) (Suc c))"
        "A @ B = concat (map postfix es)" "pending 0 B"
        using args True by auto
      have "allowed reg p c (Call f es)" using True all assms(1) by simp
      moreover have "try_fold (yard_step reg) (infix_toks (Call f es)) (yd out ops ar p c)
          = Inr (yd (out @ (A @ B @ [Function f (length es)])) ops (first_argument ar) p c)"
        using True step R(1) close_call [OF R(3)] by simp
      ultimately show ?thesis
        using R(2) by (intro reads_fromI [where A = "A @ B @ [Function f (length es)]" and B = "[]"])
          (simp_all only: postfix.simps append_Nil append_Nil2 append_assoc [symmetric], simp add: pending_def)
    next
      case False
      then obtain err where "try_fold (yard_step reg) (commas (map infix_toks es)) ?y = Inl err"
        using args True False unfolding if_not_P [OF False] by (simp, metis)
      then show ?thesis using False True step assms(1) by (simp add: reads_from_def)
    qed
  next
    case False
    then show ?thesis using b by (auto simp: reads_from_def allowed_def)
  qed
qed

lemma reads_wf: "wf_expr e \<Longrightarrow> reads reg e"
proof (induction e)
  case (Call f es)
  then show ?case by (intro reads_call) (auto simp: list_all_iff)
qed (auto intro: reads_leaf reads_neg reads_bin reads_grp)

lemma to_rpn_ok:
  assumes "wf_expr e" "allowed reg 0 0 e"
  shows "to_rpn reg (infix_toks e) = Inr (postfix e)"
proof -
  obtain A B where r: "try_fold (yard_step reg) (infix_toks e) (yd [] [] [] 0 0)
      = Inr (yd ([] @ A) (B @ []) (first_argument []) 0 0)"
    "A @ B = postfix e" "pending (level e) B"
    using reads_ok [OF reads_wf [OF assms(1)] assms(2), of "[]"] by (metis room.simps(3))
  have "\<not> list_ex is_open B" using open_pending [OF r(3)] by blast
  then show ?thesis using r by (simp add: to_rpn_def yard_init_def yard_finish_def)
qed

lemma to_rpn_fail:
  assumes "wf_expr e" "\<not> allowed reg 0 0 e"
  shows "\<not> is_ok (to_rpn reg (infix_toks e))"
proof -
  obtain err where "try_fold (yard_step reg) (infix_toks e) (yd [] [] [] 0 0) = Inl err"
    using reads_fail [OF reads_wf [OF assms(1)] assms(2), of "[]" "[]" "[]"] by auto
  then show ?thesis by (simp add: to_rpn_def yard_init_def)
qed

section \<open>The stack machine\<close>

text \<open>The value of a formula: operands left to right, the first error ends it, and a panic of a
  function is a panic of the evaluation.\<close>

definition obind :: "('e, 'a) result option \<Rightarrow> ('a \<Rightarrow> ('e, 'b) result option) \<Rightarrow> ('e, 'b) result option" where
  "obind x f = (case x of None \<Rightarrow> None | Some (Inl e) \<Rightarrow> Some (Inl e) | Some (Inr a) \<Rightarrow> f a)"

fun sequence_results :: "('e, 'a) result option list \<Rightarrow> ('e, 'a list) result option" where
  "sequence_results [] = Some (Inr [])"
| "sequence_results (x # xs) =
     obind x (\<lambda>v. obind (sequence_results xs) (\<lambda>vs. Some (Inr (v # vs))))"

primrec expr_value ::
  "'f float_ops \<Rightarrow> 'f registry \<Rightarrow> (string \<Rightarrow> 'f option) \<Rightarrow> 'f expr \<Rightarrow> (formula_error, 'f) result option" where
  "expr_value F reg \<rho> (Num s v) = Some (Inr v)"
| "expr_value F reg \<rho> (Ref s) = Some (Inr (case \<rho> s of None \<Rightarrow> f_nan F | Some v \<Rightarrow> v))"
| "expr_value F reg \<rho> (Neg e) = obind (expr_value F reg \<rho> e) (\<lambda>v. Some (Inr (f_neg F v)))"
| "expr_value F reg \<rho> (Bin op l r) = obind (expr_value F reg \<rho> l) (\<lambda>x.
     obind (expr_value F reg \<rho> r) (\<lambda>y. Some (binary_value F op x y)))"
| "expr_value F reg \<rho> (Call f es) = obind (sequence_results (map (expr_value F reg \<rho>) es)) (\<lambda>vs.
     case check_call reg f (length vs) of
       Inl e \<Rightarrow> Some (Inl e)
     | Inr g \<Rightarrow> map_option Inr (apply_function F g vs))"
| "expr_value F reg \<rho> (Grp e) = expr_value F reg \<rho> e"

lemma obind_simps [simp]:
  "obind None f = None" "obind (Some (Inl e)) f = Some (Inl e)" "obind (Some (Inr a)) f = f a"
  by (simp_all add: obind_def)

lemma obind_assoc: "obind (obind x f) g = obind x (\<lambda>a. obind (f a) g)"
  by (simp add: obind_def split: option.split sum.split)

lemma obind_cong: "x = y \<Longrightarrow> (\<And>a. y = Some (Inr a) \<Longrightarrow> f a = g a) \<Longrightarrow> obind x f = obind y g"
  by (auto simp: obind_def split: option.split sum.split)

lemma sequence_results_length: "sequence_results xs = Some (Inr vs) \<Longrightarrow> length vs = length xs"
  by (induction xs arbitrary: vs) (auto simp: obind_def split: option.splits sum.splits)

lemma eval_loop_append_concat:
  assumes "\<And>e ts st. e \<in> set es \<Longrightarrow> eval_loop F reg \<rho> (postfix e @ ts) st
      = obind (expr_value F reg \<rho> e) (\<lambda>v. eval_loop F reg \<rho> ts (v # st))"
  shows "eval_loop F reg \<rho> (concat (map postfix es) @ ts) st
    = obind (sequence_results (map (expr_value F reg \<rho>) es)) (\<lambda>vs. eval_loop F reg \<rho> ts (rev vs @ st))"
  using assms
  by (induction es arbitrary: st) (simp_all add: obind_assoc)

lemma eval_postfix:
  "wf_expr e \<Longrightarrow> eval_loop F reg \<rho> (postfix e @ ts) st
    = obind (expr_value F reg \<rho> e) (\<lambda>v. eval_loop F reg \<rho> ts (v # st))"
proof (induction e arbitrary: ts st)
  case (Bin op l r)
  have "(case rbind (binary_value F op x y) (\<lambda>v. Inr (v # st)) of
       Inl e \<Rightarrow> Some (Inl e) | Inr st' \<Rightarrow> eval_loop F reg \<rho> ts st')
     = obind (Some (binary_value F op x y)) (\<lambda>v. eval_loop F reg \<rho> ts (v # st))" for x y
    by (cases "binary_value F op x y") simp_all
  then show ?case using Bin
    by (auto simp: obind_assoc intro!: obind_cong)
next
  case (Call f es)
  have es: "eval_loop F reg \<rho> (concat (map postfix es) @ ts) st
    = obind (sequence_results (map (expr_value F reg \<rho>) es)) (\<lambda>vs. eval_loop F reg \<rho> ts (rev vs @ st))"
    for ts st
    using Call by (intro eval_loop_append_concat) (auto simp: list_all_iff)
  show ?case
    by (auto simp: es obind_assoc split: sum.split option.split dest!: sequence_results_length
        intro!: obind_cong)
qed (auto simp: obind_assoc intro!: obind_cong)

lemma evaluate_postfix: "wf_expr e \<Longrightarrow> evaluate F reg \<rho> (postfix e) = expr_value F reg \<rho> e"
  using eval_postfix [of e F reg \<rho> "[]" "[]"]
  by (auto simp: evaluate_def obind_def split: option.split sum.split)

end
