(* ===== verification/FormulaPrint.thy ===== *)
theory FormulaPrint
  imports FormulaCorrect
begin

text \<open>Printed formulas: the lexer reads back the tokens of every formula of the grammar, so that the
  pipeline of lexer, shunting yard and stack machine computes the value of the formula from its
  text. Also the limits of the lexer and the calls that panic or misread their arguments.\<close>

section \<open>White space\<close>

definition plain_char :: "char \<Rightarrow> bool" where
  "plain_char c \<longleftrightarrow> CHR '' '' < c \<and> c \<le> CHR ''~''"

lemma white_space_chars: "w \<in> set white_space \<Longrightarrow> x \<in> set w \<Longrightarrow> x \<le> 32 \<or> 128 \<le> x"
  by (auto simp: white_space_def)

lemma strip_one_SomeD: "strip_one ws s = Some k \<Longrightarrow> \<exists>w\<in>set ws. take (length w) s = w \<and> k = length w"
  by (induction ws) (auto split: if_splits)

lemma strip_fuel_prefix: "\<exists>p. s = p @ strip_fuel ws n s \<and> (\<forall>x\<in>set p. \<exists>w\<in>set ws. x \<in> set w)"
proof (induction n arbitrary: s)
  case (Suc n)
  show ?case
  proof (cases "strip_one ws s")
    case (Some k)
    then obtain w where w: "w \<in> set ws" "take (length w) s = w" "k = length w"
      using strip_one_SomeD by blast
    obtain p where p: "drop k s = p @ strip_fuel ws n (drop k s)" "\<forall>x\<in>set p. \<exists>w\<in>set ws. x \<in> set w"
      using Suc by blast
    show ?thesis
    proof (cases "s = []")
      case False
      have "s = w @ drop k s" using w(2,3) by (metis append_take_drop_id)
      then have "s = (w @ p) @ strip_fuel ws (Suc n) s"
        using p(1) Some False by simp
      then show ?thesis using w(1) p(2) by (metis UnE set_append)
    qed simp
  qed simp
qed simp

lemma plain_of_char: "plain_char c \<Longrightarrow> 32 < (of_char c :: nat) \<and> of_char c < (128 :: nat)"
  by (simp add: plain_char_def less_char_def less_eq_char_def)

lemma trim_end_plain:
  assumes "c \<in> set s" "plain_char c"
  shows "trim_end s \<noteq> []"
proof
  let ?ws = "map rev white_space" and ?r = "rev (map of_char s) :: nat list"
  assume "trim_end s = []"
  then have "strip_fuel ?ws (length s) ?r = []" by (simp add: trim_end_def)
  then have all: "\<forall>x\<in>set ?r. \<exists>w\<in>set ?ws. x \<in> set w"
    using strip_fuel_prefix [of ?r ?ws "length s"] by auto
  have "(of_char c :: nat) \<in> set ?r" using assms(1) by auto
  then obtain w where "w \<in> set ?ws" "of_char c \<in> set w" using all by blast
  then have "\<exists>v\<in>set white_space. of_char c \<in> set v" by auto
  then show False using white_space_chars plain_of_char [OF assms(2)] by fastforce
qed

lemma strip_one_none:
  assumes "\<forall>w\<in>set ws. w \<noteq> [] \<and> hd w \<noteq> x"
  shows "strip_one ws (x # xs) = None"
proof (rule ccontr)
  assume "strip_one ws (x # xs) \<noteq> None"
  then obtain w where w: "w \<in> set ws" "take (length w) (x # xs) = w" using strip_one_SomeD by fastforce
  then have ne: "w \<noteq> []" "hd w \<noteq> x" using assms by blast+
  then have "hd (take (length w) (x # xs)) = x" by (cases w) simp_all
  then show False using w(2) ne(2) by simp
qed

lemma trim_start_plain: "plain_char c \<Longrightarrow> trim_start (c # cs) = c # cs"
proof -
  assume "plain_char c"
  then have "strip_one white_space (of_char c # map of_char cs) = None"
    using plain_of_char [of c] by (intro strip_one_none) (auto simp: white_space_def)
  then show ?thesis by (simp add: trim_start_def o_def)
qed

lemma trim_start_space: "trim_start (CHR '' '' # cs) = trim_start cs"
  by (simp add: trim_start_def white_space_def)

section \<open>Printing\<close>

primrec op_char :: "operator \<Rightarrow> char" where
  "op_char OpAdd = CHR ''+''"
| "op_char OpSub = CHR ''-''"
| "op_char OpMul = CHR ''*''"
| "op_char OpDiv = CHR ''/''"
| "op_char OpMod = CHR ''%''"
| "op_char OpPower = CHR ''^''"
| "op_char OpNeg = CHR ''-''"

fun comma_strs :: "string list \<Rightarrow> string" where
  "comma_strs [] = []"
| "comma_strs [x] = x"
| "comma_strs (x # xs) = x @ '' ,'' @ comma_strs xs"

text \<open>Every token is preceded by a blank.\<close>

primrec render :: "'f expr \<Rightarrow> string" where
  "render (Num s v) = CHR '' '' # s"
| "render (Ref s) = CHR '' '' # s"
| "render (Neg e) = '' -'' @ render e"
| "render (Bin op l r) = render l @ CHR '' '' # op_char op # render r"
| "render (Call f es) = CHR '' '' # f @ '' ('' @ comma_strs (map render es) @ '' )''"
| "render (Grp e) = '' ('' @ render e @ '' )''"

definition ident_ok :: "string \<Rightarrow> bool" where
  "ident_ok s \<longleftrightarrow> s \<noteq> [] \<and> (is_alpha (hd s) \<or> hd s = CHR ''_'') \<and> scan_identifier s = (s, [])"

definition number_ok :: "string \<Rightarrow> bool" where
  "number_ok s \<longleftrightarrow> s \<noteq> [] \<and> scan_number False s = (s, [])"

primrec lexemes_ok :: "(string \<Rightarrow> 'f option) \<Rightarrow> 'f expr \<Rightarrow> bool" where
  "lexemes_ok pn (Num s v) \<longleftrightarrow> number_ok s \<and> pn s = Some v"
| "lexemes_ok pn (Ref s) \<longleftrightarrow> ident_ok s"
| "lexemes_ok pn (Neg e) \<longleftrightarrow> lexemes_ok pn e"
| "lexemes_ok pn (Bin op l r) \<longleftrightarrow> lexemes_ok pn l \<and> lexemes_ok pn r"
| "lexemes_ok pn (Call f es) \<longleftrightarrow> ident_ok f \<and> to_uppercase f = f \<and> list_all id (map (lexemes_ok pn) es)"
| "lexemes_ok pn (Grp e) \<longleftrightarrow> lexemes_ok pn e"

definition follows_ok :: "string \<Rightarrow> bool" where
  "follows_ok rest \<longleftrightarrow> rest = [] \<or>
     (\<exists>c r. rest = CHR '' '' # c # r \<and> plain_char c \<and> c \<noteq> CHR ''('')"

definition blank_next :: "string \<Rightarrow> bool" where
  "blank_next rest \<longleftrightarrow> rest = [] \<or> (\<exists>r. rest = CHR '' '' # r)"

lemma char_classes [simp]:
  "\<not> is_digit (CHR '' '')" "\<not> is_alpha (CHR '' '')" "\<not> is_alnum (CHR '' '')"
  by code_simp+

lemma scan_number_append:
  "scan_number d s = (s, []) \<Longrightarrow> blank_next rest \<Longrightarrow> scan_number d (s @ rest) = (s, rest)"
proof (induction d s rule: scan_number.induct)
  case 1
  then show ?case by (auto simp: blank_next_def)
qed (auto split: if_splits prod.splits)

lemma scan_identifier_append:
  "scan_identifier s = (s, []) \<Longrightarrow> blank_next rest \<Longrightarrow> scan_identifier (s @ rest) = (s, rest)"
proof (induction s rule: scan_identifier.induct)
  case 1
  then show ?case by (auto simp: blank_next_def)
next
  case (2 c cs)
  let ?ok = "\<lambda>cs. is_alnum c \<or> c = CHR ''_'' \<or> c = CHR ''-''
    \<or> c = CHR ''/'' \<and> (case cs of [] \<Rightarrow> False | x # _ \<Rightarrow> is_alpha x \<or> x = CHR ''_'')"
  have ok: "?ok cs" and cs: "scan_identifier cs = (cs, [])"
    using 2(2) by (simp_all del: de_Morgan_disj split: if_splits prod.splits)
  have "?ok (cs @ rest)" using ok by (cases cs) auto
  then show ?case using 2(1) [OF ok cs 2(3)] by simp
qed

section \<open>Reading back\<close>

lemma symbol_classes:
  assumes "c \<in> {CHR ''+'', CHR ''-'', CHR ''*'', CHR ''/'', CHR ''%'', CHR ''^'', CHR ''('', CHR '')'',
    CHR '','', CHR '' '', CHR 0x09, CHR 0x0A, CHR 0x0D}"
  shows "\<not> is_digit c \<and> \<not> is_alpha c \<and> c \<noteq> CHR ''_'' \<and> c \<noteq> CHR ''.''"
  using assms by (auto simp: is_digit_def is_alpha_def)

lemma lex_blank:
  "length toks < 512 \<Longrightarrow> lex_loop pn n toks (CHR '' '' # cs) = lex_loop pn n toks cs"
  by (subst lex_loop.simps) (simp add: lex_step_def)

lemma lex_symbol:
  assumes "length toks < 512" "symbol_token toks c = Some t"
  shows "lex_loop pn n toks (c # cs) = lex_loop pn n (toks @ [t]) cs"
proof -
  have "symbol_token toks c = None" if "c \<in> {CHR '' '', CHR 0x09, CHR 0x0A, CHR 0x0D}"
    using that by (auto simp: symbol_token_def)
  then have c: "c \<notin> {CHR '' '', CHR 0x09, CHR 0x0A, CHR 0x0D}" using assms(2) by auto
  have "lex_step pn p toks (c # cs) = Inr (toks @ [t], cs)" for p
    unfolding lex_step_def Let_def list.sel if_not_P [OF c] assms(2) by simp
  then show ?thesis using assms(1) by (subst lex_loop.simps) simp
qed

lemma symbol_token_none:
  assumes "is_digit c \<or> is_alpha c \<or> c = CHR ''_'' \<or> c = CHR ''.''"
  shows "symbol_token toks c = None \<and> c \<notin> {CHR '' '', CHR 0x09, CHR 0x0A, CHR 0x0D}"
proof -
  have "c \<notin> {CHR ''+'', CHR ''-'', CHR ''*'', CHR ''/'', CHR ''%'', CHR ''^'', CHR ''('', CHR '')'',
      CHR '','', CHR '' '', CHR 0x09, CHR 0x0A, CHR 0x0D}" (is "c \<notin> ?S")
  proof
    assume "c \<in> ?S"
    from symbol_classes [OF this] show False using assms by iprover
  qed
  then show ?thesis by (simp add: symbol_token_def)
qed

lemma lex_number:
  assumes "length toks < 512" "number_ok s" "pn s = Some v" "blank_next rest"
  shows "lex_loop pn n toks (s @ rest) = lex_loop pn n (toks @ [Literal v]) rest"
proof -
  obtain c s' where s: "s = c # s'" using assms(2) by (cases s) (auto simp: number_ok_def)
  have c: "is_digit c \<or> c = CHR ''.''"
    using assms(2) by (auto simp: number_ok_def s split: if_splits prod.splits)
  have "scan_number False (s @ rest) = (s, rest)"
    using assms(2,4) scan_number_append by (simp add: number_ok_def)
  then have "lex_step pn p toks (s @ rest) = Inr (toks @ [Literal v], rest)" for p
    using assms(3) c symbol_token_none [of c toks] by (auto simp: lex_step_def s)
  then show ?thesis using assms(1) by (subst lex_loop.simps) (simp add: s)
qed

lemma ident_head:
  assumes "ident_ok s"
  obtains c s' where "s = c # s'" "is_alpha c \<or> c = CHR ''_''" "\<not> is_digit c" "c \<noteq> CHR ''.''"
proof -
  obtain c s' where s: "s = c # s'" using assms by (cases s) (auto simp: ident_ok_def)
  have c: "is_alpha c \<or> c = CHR ''_''" using assms by (simp add: ident_ok_def s)
  then have "\<not> is_digit c \<and> c \<noteq> CHR ''.''"
    by (auto simp: is_alpha_def is_digit_def less_eq_char_def)
  then show ?thesis using that s c by blast
qed

lemma lex_ident:
  assumes "ident_ok s" "blank_next rest"
  shows "lex_step pn p toks (s @ rest) = Inr (toks @
    [if trim_start rest \<noteq> [] \<and> hd (trim_start rest) = CHR ''('' then Function (to_uppercase s) 0
     else Variable s], trim_start rest)"
proof -
  obtain c s' where s: "s = c # s'" "is_alpha c \<or> c = CHR ''_''" "\<not> is_digit c" "c \<noteq> CHR ''.''"
    using ident_head [OF assms(1)] by metis
  have "scan_identifier (s @ rest) = (s, rest)"
    using assms scan_identifier_append by (simp add: ident_ok_def)
  then show ?thesis using s symbol_token_none [of c toks]
    by (auto simp: lex_step_def Let_def)
qed

lemma lex_call:
  assumes "length toks < 512" "ident_ok s" "to_uppercase s = s"
  shows "lex_loop pn n toks (s @ '' ('' @ rest) = lex_loop pn n (toks @ [Function s 0]) (CHR ''('' # rest)"
proof -
  have p: "plain_char (CHR ''('')" by code_simp
  have "s \<noteq> []" using assms(2) by (simp add: ident_ok_def)
  moreover have "blank_next ('' ('' @ rest)" by (simp add: blank_next_def)
  ultimately show ?thesis
    using assms lex_ident [OF assms(2), of "'' ('' @ rest" pn] trim_start_plain [OF p, of rest]
    by (subst lex_loop.simps) (simp add: trim_start_space)
qed

lemma lex_variable:
  assumes "length toks < 512" "ident_ok s" "follows_ok rest"
  shows "lex_loop pn n toks (s @ rest) = lex_loop pn n (toks @ [Variable s]) rest"
proof -
  have s: "s \<noteq> []" using assms(2) by (simp add: ident_ok_def)
  have b: "blank_next rest" using assms(3) by (auto simp: follows_ok_def blank_next_def)
  show ?thesis
  proof (cases "rest = []")
    case True
    have "trim_start [] = []" by (simp add: trim_start_def)
    then show ?thesis
      using s assms lex_ident [OF assms(2) b, of pn] True by (subst lex_loop.simps) simp
  next
    case False
    then obtain c r where r: "rest = CHR '' '' # c # r" "plain_char c" "c \<noteq> CHR ''(''"
      using assms(3) by (auto simp: follows_ok_def)
    have "lex_loop pn n toks (s @ rest) = lex_loop pn n (toks @ [Variable s]) (c # r)"
      using s assms(1) lex_ident [OF assms(2) b, of pn] r
      by (subst lex_loop.simps) (simp add: trim_start_space trim_start_plain)
    also have "\<dots> = lex_loop pn n (toks @ [Variable s]) rest"
    proof (cases "length toks < 511")
      case True
      then show ?thesis using lex_blank [of "toks @ [Variable s]" pn n "c # r"] by (simp add: r(1))
    next
      case False
      then show ?thesis using assms(1) by (simp add: r(1) lex_loop.simps)
    qed
    finally show ?thesis .
  qed
qed

definition reads_back :: "(string \<Rightarrow> 'f option) \<Rightarrow> 'f expr \<Rightarrow> bool" where
  "reads_back pn e \<longleftrightarrow> (\<forall>n toks rest. expects_operand toks \<longrightarrow> follows_ok rest \<longrightarrow>
     length toks + length (infix_toks e) \<le> 512 \<longrightarrow>
     lex_loop pn n toks (render e @ rest) = lex_loop pn n (toks @ infix_toks e) rest)"

lemma reads_backD:
  assumes "reads_back pn e" "expects_operand toks" "follows_ok rest"
    and "length toks + length (infix_toks e) \<le> 512"
  shows "lex_loop pn n toks (render e @ rest) = lex_loop pn n (toks @ infix_toks e) rest"
  using assms unfolding reads_back_def by blast

lemma follows_symbol [simp]: "plain_char c \<Longrightarrow> c \<noteq> CHR ''('' \<Longrightarrow> follows_ok (CHR '' '' # c # r)"
  by (simp add: follows_ok_def)

lemma follows_blank: "follows_ok rest \<Longrightarrow> blank_next rest"
  by (auto simp: follows_ok_def blank_next_def)

lemmas plain_defs = plain_char_def less_char_def less_eq_char_def

lemma plain_op [simp]: "plain_char (op_char op)"
  by (cases op) (simp_all add: plain_defs)

lemma plain_delimiters [simp]: "plain_char (CHR '','')" "plain_char (CHR '')'')"
  by (simp_all add: plain_defs)

lemma op_char_not_open [simp]: "op_char op \<noteq> CHR ''(''"
  by (cases op) simp_all

lemma infix_nonempty [simp]: "infix_toks e \<noteq> []"
  by (cases e) simp_all

lemma expects_after [simp]:
  "expects_operand (toks @ [Operator op])" "expects_operand (toks @ [ParenOpen])"
  "expects_operand (toks @ [Comma])"
  by (simp_all add: expects_operand_def)

lemma last_infix: "\<not> expects_operand (toks @ infix_toks e)"
proof -
  have "case last (infix_toks e) of Literal _ \<Rightarrow> True | Variable _ \<Rightarrow> True | ParenClose \<Rightarrow> True | _ \<Rightarrow> False"
    by (induction e) simp_all
  then show ?thesis by (simp add: expects_operand_def split: token.splits)
qed

lemma symbol_of_op:
  assumes "(op = OpNeg) = expects_operand toks"
  shows "symbol_token toks (op_char op) = Some (Operator op)"
  using assms by (cases op) (simp_all add: symbol_token_def)

lemma symbol_parens [simp]:
  "symbol_token toks (CHR ''('') = Some ParenOpen" "symbol_token toks (CHR '')'') = Some ParenClose"
  "symbol_token toks (CHR '','') = Some Comma"
  by (simp_all add: symbol_token_def)

lemma lex_blank_symbol:
  "length toks < 512 \<Longrightarrow> symbol_token toks c = Some t \<Longrightarrow>
    lex_loop pn n toks (CHR '' '' # c # cs) = lex_loop pn n (toks @ [t]) cs"
  by (simp add: lex_blank lex_symbol)

lemma back_leaf:
  "number_ok s \<Longrightarrow> pn s = Some v \<Longrightarrow> reads_back pn (Num s v)"
  "ident_ok s \<Longrightarrow> reads_back pn (Ref s)"
  by (simp_all add: reads_back_def lex_blank lex_number lex_variable follows_blank)

lemma back_neg:
  assumes "reads_back pn e"
  shows "reads_back pn (Neg e)"
  unfolding reads_back_def
proof (intro allI impI)
  fix n toks rest
  assume a: "expects_operand (toks :: 'a token list)" "follows_ok rest"
    "length toks + length (infix_toks (Neg e)) \<le> 512"
  have "symbol_token toks (CHR ''-'') = Some (Operator OpNeg)"
    using symbol_of_op [of OpNeg toks] a(1) by simp
  then show "lex_loop pn n toks (render (Neg e) @ rest) = lex_loop pn n (toks @ infix_toks (Neg e)) rest"
    using a reads_backD [OF assms, of "toks @ [Operator OpNeg]" rest n] by (simp add: lex_blank_symbol)
qed

lemma back_bin:
  assumes "reads_back pn l" "reads_back pn r" "op \<noteq> OpNeg"
  shows "reads_back pn (Bin op l r)"
  unfolding reads_back_def
proof (intro allI impI)
  fix n toks rest
  assume a: "expects_operand (toks :: 'a token list)" "follows_ok rest"
    "length toks + length (infix_toks (Bin op l r)) \<le> 512"
  have s: "symbol_token (toks @ infix_toks l) (op_char op) = Some (Operator op)"
    using symbol_of_op [of op "toks @ infix_toks l"] assms(3) last_infix by blast
  have "lex_loop pn n toks (render (Bin op l r) @ rest)
      = lex_loop pn n (toks @ infix_toks l) (CHR '' '' # op_char op # render r @ rest)"
    using reads_backD [OF assms(1) a(1), of "CHR '' '' # op_char op # render r @ rest" n] a(3) by simp
  also have "\<dots> = lex_loop pn n (toks @ infix_toks l @ [Operator op]) (render r @ rest)"
    using s a(3) by (simp add: lex_blank_symbol)
  also have "\<dots> = lex_loop pn n (toks @ infix_toks (Bin op l r)) rest"
    using reads_backD [OF assms(2) _ a(2), of "toks @ infix_toks l @ [Operator op]" n] a(3)
      expects_after(1) [of "toks @ infix_toks l" op] by simp
  finally show "lex_loop pn n toks (render (Bin op l r) @ rest) = \<dots>" .
qed

lemma back_args:
  assumes "\<forall>e\<in>set es. reads_back pn e" "es \<noteq> []" "expects_operand toks" "follows_ok rest"
    and "length toks + length (commas (map infix_toks es)) \<le> 512"
  shows "lex_loop pn n toks (comma_strs (map render es) @ rest)
    = lex_loop pn n (toks @ commas (map infix_toks es)) rest"
  using assms
proof (induction es arbitrary: toks)
  case (Cons e es)
  show ?case
  proof (cases es)
    case Nil
    then show ?thesis using Cons.prems reads_backD [of pn e toks rest n] by simp
  next
    case (Cons e2 es2)
    have len: "length toks + length (infix_toks e) + 1 + length (commas (map infix_toks es)) \<le> 512"
      using Cons.prems(5) Cons by simp
    have "lex_loop pn n toks (comma_strs (map render (e # es)) @ rest)
        = lex_loop pn n toks (render e @ '' ,'' @ comma_strs (map render es) @ rest)"
      by (simp add: Cons)
    also have "\<dots> = lex_loop pn n (toks @ infix_toks e) ('' ,'' @ comma_strs (map render es) @ rest)"
      using Cons.prems len by (intro reads_backD) simp_all
    also have "\<dots> = lex_loop pn n ((toks @ infix_toks e) @ [Comma]) (comma_strs (map render es) @ rest)"
      using len by (simp add: lex_blank_symbol)
    also have "\<dots> = lex_loop pn n (((toks @ infix_toks e) @ [Comma]) @ commas (map infix_toks es)) rest"
      using Cons.prems len Cons expects_after(3) [of "toks @ infix_toks e"]
      by (intro Cons.IH) simp_all
    finally show ?thesis by (simp add: Cons)
  qed
qed simp

lemma back_grp:
  assumes "reads_back pn e"
  shows "reads_back pn (Grp e)"
  unfolding reads_back_def
proof (intro allI impI)
  fix n toks rest
  assume a: "expects_operand (toks :: 'a token list)" "follows_ok rest"
    "length toks + length (infix_toks (Grp e)) \<le> 512"
  have "lex_loop pn n toks (render (Grp e) @ rest)
      = lex_loop pn n (toks @ [ParenOpen]) (render e @ '' )'' @ rest)"
    using a(3) by (simp add: lex_blank_symbol)
  also have "\<dots> = lex_loop pn n ((toks @ [ParenOpen]) @ infix_toks e) ('' )'' @ rest)"
    using a by (intro reads_backD [OF assms]) simp_all
  also have "\<dots> = lex_loop pn n (((toks @ [ParenOpen]) @ infix_toks e) @ [ParenClose]) rest"
    using a(3) by (simp add: lex_blank_symbol)
  finally show "lex_loop pn n toks (render (Grp e) @ rest) = lex_loop pn n (toks @ infix_toks (Grp e)) rest"
    by simp
qed

lemma back_call:
  assumes "\<forall>e\<in>set es. reads_back pn e" "es \<noteq> []" "ident_ok f" "to_uppercase f = f"
  shows "reads_back pn (Call f es)"
  unfolding reads_back_def
proof (intro allI impI)
  fix n toks rest
  assume a: "expects_operand (toks :: 'a token list)" "follows_ok rest"
    "length toks + length (infix_toks (Call f es)) \<le> 512"
  let ?args = "comma_strs (map render es)" and ?t = "toks @ [Function f 0, ParenOpen]"
  have "lex_loop pn n toks (render (Call f es) @ rest)
      = lex_loop pn n (toks @ [Function f 0]) (CHR ''('' # ?args @ '' )'' @ rest)"
    using a(3) lex_call [OF _ assms(3,4), of toks pn n "?args @ '' )'' @ rest"] by (simp add: lex_blank)
  also have "\<dots> = lex_loop pn n ?t (?args @ '' )'' @ rest)"
    using a(3) by (simp add: lex_symbol)
  also have "\<dots> = lex_loop pn n (?t @ commas (map infix_toks es)) ('' )'' @ rest)"
    using a expects_after(2) [of "toks @ [Function f 0]"] by (intro back_args [OF assms(1,2)]) simp_all
  also have "\<dots> = lex_loop pn n ((?t @ commas (map infix_toks es)) @ [ParenClose]) rest"
    using a(3) by (simp add: lex_blank_symbol)
  finally show "lex_loop pn n toks (render (Call f es) @ rest) = lex_loop pn n (toks @ infix_toks (Call f es)) rest"
    by simp
qed

lemma back_expr: "wf_expr e \<Longrightarrow> lexemes_ok pn e \<Longrightarrow> reads_back pn e"
proof (induction e)
  case (Call f es)
  then show ?case by (intro back_call) (auto simp: list_all_iff)
qed (auto intro: back_leaf back_neg back_bin back_grp)

lemma trim_start_keeps:
  assumes "c \<in> set s" "plain_char c"
  shows "c \<in> set (trim_start s)"
proof -
  let ?s = "map of_char s :: nat list"
  obtain p where p: "?s = p @ strip_fuel white_space (length s) ?s"
    "\<forall>x\<in>set p. \<exists>w\<in>set white_space. x \<in> set w"
    using strip_fuel_prefix by blast
  have "(of_char c :: nat) \<in> set ?s" using assms(1) by auto
  moreover have "(of_char c :: nat) \<notin> set p"
    using p(2) white_space_chars plain_of_char [OF assms(2)] by fastforce
  ultimately have "of_char c \<in> set (strip_fuel white_space (length s) ?s)"
    using p(1) by (metis Un_iff set_append)
  then show ?thesis by (force simp: trim_start_def)
qed

lemma render_plain: "lexemes_ok pn e \<Longrightarrow> \<exists>c\<in>set (render e). plain_char c"
proof (induction e)
  case (Num s v)
  then obtain c s' where s: "s = c # s'" by (cases s) (auto simp: number_ok_def)
  then have "is_digit c \<or> c = CHR ''.''" using Num by (auto simp: number_ok_def split: if_splits prod.splits)
  then have "plain_char c" by (auto simp: plain_defs is_digit_def)
  then show ?case by (simp add: s)
next
  case (Ref s)
  then have "ident_ok s" by simp
  then obtain c s' where s: "s = c # s'" "is_alpha c \<or> c = CHR ''_''" using ident_head by metis
  then have "plain_char c" by (auto simp: plain_defs is_alpha_def)
  then show ?case by (simp add: s(1))
qed auto

lemma tokenize_render:
  assumes "wf_expr e" "lexemes_ok pn e" "length (infix_toks e) \<le> 512" "length (render e) \<le> 4096"
  shows "tokenize pn (render e) = Inr (infix_toks e)"
proof -
  obtain c where "c \<in> set (render e)" "plain_char c" using render_plain [OF assms(2)] by blast
  then have "str_trim (render e) \<noteq> []"
    using trim_end_plain [OF trim_start_keeps] by (simp add: str_trim_def)
  moreover have "lex_loop pn (length (render e)) [] (render e @ []) = lex_loop pn (length (render e)) ([] @ infix_toks e) []"
    using back_expr [OF assms(1,2)] assms(3)
    by (intro reads_backD) (simp_all add: expects_operand_def follows_ok_def)
  ultimately show ?thesis using assms(4) by (simp add: tokenize_def lex_loop.simps)
qed

section \<open>The pipeline\<close>

text \<open>C35: the text of every formula of the grammar compiles and evaluates to its value. The printed
  formula compiles to its postfix form exactly when it nests at most 32 parentheses and 16 calls
  and calls registered functions only (otherwise to an error), and the stack machine then returns
  what the tree denotes: left-to-right operands, the precedences and associativities of the
  grammar, the first error, the panic of a function.\<close>

theorem formula_pipeline:
  assumes "wf_expr e" "lexemes_ok pn e" "length (infix_toks e) \<le> 512" "length (render e) \<le> 4096"
  shows "(if allowed reg 0 0 e then compile_formula pn reg (render e) = Inr (postfix e)
          else \<not> is_ok (compile_formula pn reg (render e)))
    \<and> evaluate F reg \<rho> (postfix e) = expr_value F reg \<rho> e"
  using tokenize_render [OF assms] to_rpn_ok [OF assms(1)] to_rpn_fail [OF assms(1)]
    evaluate_postfix [OF assms(1)]
  by (simp add: compile_formula_def)

text \<open>Numbers of the samples are integers; only the operations they use are meaningful.\<close>

definition int_ops :: "int float_ops" where
  "int_ops = \<lparr>f_nan = 0, f_of_int = id, f_neg = uminus, f_add = (+), f_sub = (-), f_mul = (*),
     f_div = (div), f_rem = (mod), f_powf = (\<lambda>x y. x ^ nat y), f_powi = (\<lambda>x y. x ^ nat y),
     f_as_i32 = id, f_eq = (=), f_lt = (<), f_le = (\<le>), f_is_nan = (\<lambda>_. False), f_abs = abs,
     f_round = id, f_ceil = id, f_floor = id, f_sqrt = id, f_ln = id, f_log10 = id, f_max = max,
     f_min = min\<rparr>"

definition int_num :: "string \<Rightarrow> int option" where
  "int_num s = map_option int (parse_nat s)"

definition sample_formula :: "int expr" where
  "sample_formula = Bin OpSub (Num ''7'' 7) (Call ''ABS'' [Bin OpMul (Neg (Ref ''cost'')) (Grp (Bin OpAdd (Num ''1'' 1) (Num ''2'' 2)))])"

lemma sample_formula_ok: "wf_expr sample_formula" "lexemes_ok int_num sample_formula"
  "length (infix_toks sample_formula) \<le> 512" "length (render sample_formula) \<le> 4096"
  by code_simp+

theorem formula_pipeline_witness:
  "compile_formula int_num (registry_standard int_ops) '' 7 - ABS ( - cost * ( 1 + 2 ) )''
     = Inr (postfix sample_formula)
   \<and> evaluate int_ops (registry_standard int_ops) (\<lambda>_. Some 4) (postfix sample_formula) = Some (Inr (- 5))"
proof -
  have "render sample_formula = '' 7 - ABS ( - cost * ( 1 + 2 ) )''" by code_simp
  moreover have "allowed (registry_standard int_ops) 0 0 sample_formula" by code_simp
  moreover have "expr_value int_ops (registry_standard int_ops) (\<lambda>_. Some 4) sample_formula = Some (Inr (- 5))"
    by code_simp
  ultimately show ?thesis
    using formula_pipeline [OF sample_formula_ok, of "registry_standard int_ops" int_ops "\<lambda>_. Some 4"] by simp
qed

section \<open>Limits and failures\<close>

lemma lex_step_tokens:
  assumes "lex_step pn pos toks cs = Inr (toks', r)"
  shows "toks' = toks \<or> (\<exists>t. toks' = toks @ [t])"
  using assms by (auto simp: lex_step_def Let_def split: if_splits option.splits prod.splits)

lemma lex_loop_bound:
  "lex_loop pn n toks cs = Inr ts \<Longrightarrow> length toks \<le> 512 \<Longrightarrow>
    length ts \<le> 512 \<and> length ts \<le> length toks + length cs"
proof (induction pn n toks cs rule: lex_loop.induct)
  case (1 pn n toks cs)
  show ?case
  proof (cases "cs = []")
    case True
    then show ?thesis using 1(2,3) by (simp add: lex_loop.simps)
  next
    case False
    obtain t r where step: "lex_step pn (n - length cs) toks cs = Inr (t, r)"
      and loop: "lex_loop pn n t r = Inr ts" and len: "length toks < 512"
      using 1(2) False by (subst (asm) lex_loop.simps) (auto split: if_splits)
    have t: "length t \<le> Suc (length toks)" using lex_step_tokens [OF step] by auto
    have r: "length r < length cs" using lex_step_shorter [OF step False] .
    show ?thesis using 1(1) [OF False _ step] loop len t r by simp
  qed
qed

text \<open>The lexer keeps to its limits on every input: what it accepts has at most 4096 bytes, at
  least one of them not blank, and yields at most 512 tokens and no more tokens than bytes.\<close>

theorem tokenize_limits:
  assumes "tokenize pn s = Inr ts"
  shows "length s \<le> 4096 \<and> str_trim s \<noteq> [] \<and> length ts \<le> 512 \<and> length ts \<le> length s"
proof -
  have "lex_loop pn (length s) [] s = Inr ts" "length s \<le> 4096" "str_trim s \<noteq> []"
    using assms by (auto simp: tokenize_def split: if_splits)
  then show ?thesis using lex_loop_bound [of pn "length s" "[]" s ts] by simp
qed

theorem tokenize_limits_witness: "length (infix_toks sample_formula) \<le> length (render sample_formula)"
  using tokenize_limits [OF tokenize_render [OF sample_formula_ok]] by simp

lemma registry_cases:
  assumes "registry_get (registry_standard F) name = Some f"
  shows "f = clamp_function F \<and> to_uppercase name = ''CLAMP'' \<or> (\<forall>xs. fn_evaluate f xs \<noteq> None)"
proof -
  have total: "fn_evaluate g xs \<noteq> None" if "g \<in> {abs_function F, round_function F, ceil_function F,
      floor_function F, power_function F, sqrt_function F, log_function F, log10_function F,
      mod_function F, sign_function F, nullif_function F, coalesce_function F, if_function F,
      greatest_function F, least_function F}" for g xs
    using that unfolding abs_function_def round_function_def ceil_function_def floor_function_def
      power_function_def sqrt_function_def log_function_def log10_function_def mod_function_def
      sign_function_def nullif_function_def coalesce_function_def if_function_def
      greatest_function_def least_function_def with_1_def with_2_def
    by auto
  have reg: "registry_standard F = [''ABS'' \<mapsto> abs_function F, ''ROUND'' \<mapsto> round_function F,
      ''CEIL'' \<mapsto> ceil_function F, ''FLOOR'' \<mapsto> floor_function F, ''POWER'' \<mapsto> power_function F,
      ''SQRT'' \<mapsto> sqrt_function F, ''LOG'' \<mapsto> log_function F, ''LOG10'' \<mapsto> log10_function F,
      ''MOD'' \<mapsto> mod_function F, ''SIGN'' \<mapsto> sign_function F, ''NULLIF'' \<mapsto> nullif_function F,
      ''COALESCE'' \<mapsto> coalesce_function F, ''IF'' \<mapsto> if_function F, ''GREATEST'' \<mapsto> greatest_function F,
      ''LEAST'' \<mapsto> least_function F, ''CLAMP'' \<mapsto> clamp_function F]"
    by (simp add: registry_standard_def register_def abs_function_def round_function_def
        ceil_function_def floor_function_def power_function_def sqrt_function_def log_function_def
        log10_function_def mod_function_def sign_function_def nullif_function_def
        coalesce_function_def if_function_def greatest_function_def least_function_def
        clamp_function_def to_uppercase_def upper_char_def)
  show ?thesis
    using assms total [of f] unfolding registry_get_def reg by (auto split: if_splits)
qed

lemma sequence_results_None: "sequence_results xs = None \<Longrightarrow> None \<in> set xs"
  by (induction xs) (auto simp: obind_def split: option.splits sum.splits)

lemma only_clamp_panics:
  "expr_value F (registry_standard F) \<rho> e = None \<Longrightarrow> ''CLAMP'' \<in> set (map to_uppercase (called e))"
proof (induction e)
  case (Neg e)
  then show ?case by (auto simp: obind_def split: option.splits sum.splits)
next
  case (Bin op l r)
  then show ?case by (auto simp: obind_def split: option.splits sum.splits)
next
  case (Call f es)
  let ?xs = "map (expr_value F (registry_standard F) \<rho>) es"
  show ?case
  proof (cases "sequence_results ?xs")
    case None
    then obtain e where e: "e \<in> set es" "expr_value F (registry_standard F) \<rho> e = None"
      using sequence_results_None [OF None] by force
    then have "''CLAMP'' \<in> set (map to_uppercase (called e))" by (rule Call.IH)
    then show ?thesis using e(1) by auto
  next
    case (Some r)
    then obtain vs where vs: "r = Inr vs" using Call.prems by (cases r) auto
    obtain g where g: "check_call (registry_standard F) f (length vs) = Inr g" "fn_evaluate g vs = None"
      using Call.prems Some vs by (auto simp: apply_function_def split: sum.splits)
    then have get: "registry_get (registry_standard F) f = Some g"
      by (auto simp: check_call_def split: option.splits if_splits)
    have "to_uppercase f = ''CLAMP''" using registry_cases [OF get] g(2) by metis
    then show ?thesis by simp
  qed
qed simp_all



text \<open>A call without arguments is counted as a call of one argument, because its own opening
  parenthesis starts the first argument. So ABS() passes the arity check and takes its argument
  from whatever is left on the stack: after a stray operand the formula evaluates to a number,
  and on its own it reports an empty formula rather than a wrong arity.\<close>

theorem empty_call_takes_operand:
  "(is_registered reg f \<longrightarrow> to_rpn reg [Function f 0, ParenOpen, ParenClose] = Inr [Function f 1])
   \<and> evaluate F (registry_standard F) \<rho> [Function ''ABS'' 1] = Some (Inl EmptyFormula)
   \<and> (pn ''5'' = Some v \<longrightarrow> compile_formula pn (registry_standard F) ''5,ABS()''
        = Inr [Literal v, Function ''ABS'' 1])
   \<and> evaluate F (registry_standard F) \<rho> [Literal v, Function ''ABS'' 1] = Some (Inr (f_abs F v))"
proof (intro conjI impI)
  have abs: "registry_get (registry_standard F) ''ABS'' = Some (abs_function F)"
    by (simp add: registry_get_def registry_standard_def register_def abs_function_def
        round_function_def ceil_function_def floor_function_def power_function_def sqrt_function_def
        log_function_def log10_function_def mod_function_def sign_function_def nullif_function_def
        coalesce_function_def if_function_def greatest_function_def least_function_def
        clamp_function_def to_uppercase_def upper_char_def)
  show call: "is_registered reg f \<Longrightarrow> to_rpn reg [Function f 0, ParenOpen, ParenClose] = Inr [Function f 1]"
    by (simp add: to_rpn_def yard_init_def close_paren_def is_open_def yard_finish_def)
  show "evaluate F (registry_standard F) \<rho> [Function ''ABS'' 1] = Some (Inl EmptyFormula)"
    "evaluate F (registry_standard F) \<rho> [Literal v, Function ''ABS'' 1] = Some (Inr (f_abs F v))"
    using abs by (simp_all add: evaluate_def check_call_def apply_function_def abs_function_def with_1_def arg_def)
  assume v: "pn ''5'' = Some v"
  have "str_trim ''5,ABS()'' \<noteq> []" by code_simp
  moreover have "lex_loop pn n [] ''5,ABS()'' = Inr [Literal v, Comma, Function ''ABS'' 0, ParenOpen, ParenClose]" for n
    using v by (simp add: lex_loop.simps lex_step_def symbol_token_def Let_def is_digit_def is_alpha_def
        is_alnum_def trim_start_plain plain_defs to_uppercase_def upper_char_def)
  ultimately have "tokenize pn ''5,ABS()'' = Inr [Literal v, Comma, Function ''ABS'' 0, ParenOpen, ParenClose]"
    by (simp add: tokenize_def)
  then show "compile_formula pn (registry_standard F) ''5,ABS()'' = Inr [Literal v, Function ''ABS'' 1]"
    using abs by (simp add: compile_formula_def to_rpn_def yard_init_def close_paren_def is_open_def
        yard_finish_def is_registered_def registry_get_def)
qed

theorem empty_call_takes_operand_witness:
  "compile_formula int_num (registry_standard int_ops) ''5,ABS()'' = Inr [Literal 5, Function ''ABS'' 1]"
proof -
  have "int_num ''5'' = Some 5" by code_simp
  then show ?thesis
    using empty_call_takes_operand [of "registry_standard int_ops" "''ABS''" int_ops "\<lambda>_. None" int_num 5]
    by simp
qed

end
