(* ===== verification/MbfEnvelope.thy ===== *)
theory MbfEnvelope
  imports MbfSnapshot StrUtil
begin

text \<open>Whole files (\<^verbatim>\<open>src/mbf/storage.rs\<close>): the sealed envelope of a payload, its decoder, the index mirror
  and the check of a cached file. Digests, checksums and hashes of third-party crates are the fields
  of a record; a slice out of bounds is \<^const>\<open>None\<close>. The clock is an argument.\<close>

record mbf_hashes =
  h_sha :: "bytes \<Rightarrow> bytes"
  h_hmac :: "bytes \<Rightarrow> bytes \<Rightarrow> bytes option"
  h_xxh :: "bytes \<Rightarrow> 64 word \<Rightarrow> 64 word"
  h_crc :: "bytes \<Rightarrow> 32 word"

definition hashes_ok :: "mbf_hashes \<Rightarrow> bool" where
  "hashes_ok H \<longleftrightarrow> (\<forall>x. length (h_sha H x) = 32) \<and> (\<forall>k m t. h_hmac H k m = Some t \<longrightarrow> length t = 32)"

definition FLAG_HAS_PAX :: "16 word" where "FLAG_HAS_PAX = push_bit 2 1"
definition FLAG_HAS_SYNOPSES :: "16 word" where "FLAG_HAS_SYNOPSES = push_bit 6 1"
definition FLAG_HAS_SEARCH :: "16 word" where "FLAG_HAS_SEARCH = push_bit 7 1"

definition zones_default :: zone_offsets_table where
  "zones_default = zones_read (replicate 128 0)"

section \<open>Envelope\<close>

definition envelope_header :: "mbf_hashes \<Rightarrow> 64 word \<Rightarrow> 32 word \<Rightarrow> 64 word \<Rightarrow> 64 word \<Rightarrow> string \<Rightarrow> string \<Rightarrow> mbf_header" where
  "envelope_header H now cell_id rows epoch tenant entity =
     header_with_flags (header_new cell_id rows epoch
       (h_xxh H (str_bytes tenant) 0x4D45545249323032) (h_xxh H (str_bytes entity) 1) now)
       (FLAG_HAS_PAX OR FLAG_ENCRYPTED)"

definition envelope_directory :: "mbf_hashes \<Rightarrow> 64 word \<Rightarrow> string \<Rightarrow> bytes \<Rightarrow> mbf_directory_index" where
  "envelope_directory H rows entity payload =
    \<lparr>zones = zones_default\<lparr>zone1_pax_offset := 128,
       zone1_pax_len := of_nat (length (pad_to_64 payload))\<rparr>,
     columns = [\<lparr>cc_attr_id = ucast (h_xxh H (str_bytes entity) 1 AND 0xFFFF), cc_zone_id = 1,
       cc_value_tag = 2, cc_row_count = ucast (min rows 0xFFFFFFFF), cc_byte_offset = 128,
       cc_byte_len = of_nat (length payload), cc_synopsis_offset = 0\<rparr>]\<rparr>"

definition encode_mbf_envelope ::
  "mbf_hashes \<Rightarrow> engine_config \<Rightarrow> 64 word \<Rightarrow> 32 word \<Rightarrow> 64 word \<Rightarrow> 64 word \<Rightarrow> string \<Rightarrow> string \<Rightarrow> bytes
    \<Rightarrow> bytes res" where
  "encode_mbf_envelope H cfg now cell_id rows epoch tenant entity payload =
    (let header = envelope_header H now cell_id rows epoch tenant entity in
     rbind (seal_active (h_sha H) (h_hmac H) cfg tenant entity epoch payload) (\<lambda>seal.
       let padded = pad_to_64 payload;
           dir_bytes = directory_to_bytes (envelope_directory H rows entity payload);
           buf = header_to_bytes header @ seal_to_bytes seal @ padded;
           footer = footer_new (of_nat (length buf)) (of_nat (length dir_bytes))
             (h_crc H (take 64 buf)) (h_crc H dir_bytes)
             (ucast (h_xxh H (str_bytes entity) 2)) 0 (take 24 (keyed_mac seal)) in
       Inr (buf @ dir_bytes @ footer_to_bytes footer)))"

definition decode_mbf_envelope :: "mbf_hashes \<Rightarrow> bytes \<Rightarrow> (mbf_header \<times> bytes) res option" where
  "decode_mbf_envelope H file =
    (if length file < 256 \<or> length file mod 64 \<noteq> 0 then Some (Inl MbfCorrupt001)
     else case (header_from_bytes (bslice 0 64 file), footer_from_bytes (drop (length file - 64) file)) of
       (Inr header, Inr footer) \<Rightarrow>
        (if header_crc32c footer \<noteq> h_crc H (bslice 0 64 file) then Some (Inl MbfCorrupt001)
         else case (if flags header AND FLAG_ENCRYPTED \<noteq> 0
                    then rbind (seal_from_bytes (bslice 64 64 file)) (\<lambda>seal. verify_footer_tag seal footer)
                    else Inr ()) of
           Inl e \<Rightarrow> Some (Inl e)
         | Inr _ \<Rightarrow>
            (let dir_start = unat (directory_offset footer);
                 dir_end = dir_start + unat (directory_len footer) in
             if dir_start < 128 \<or> length file - 64 < dir_end then Some (Inl MbfCorrupt001)
             else (let dir_slice = bslice dir_start (dir_end - dir_start) file in
               if h_crc H dir_slice \<noteq> directory_crc32c footer then Some (Inl MbfCorrupt001)
               else case directory_from_bytes dir_slice of
                   Inl _ \<Rightarrow> Some (Inl MbfCorrupt001)
                 | Inr directory \<Rightarrow>
                    (let payload_len = (case columns directory of
                           [] \<Rightarrow> dir_start - 128 | c # _ \<Rightarrow> unat (cc_byte_len c)) in
                     if 2 ^ 64 \<le> 128 + payload_len then None
                     else Some (Inr (header, bslice 128 (min (128 + payload_len) dir_start - 128) file))))))
     | _ \<Rightarrow> Some (Inl MbfCorrupt001))"

section \<open>The index mirror and the check of a cached file\<close>

definition encode_mbf_idx_mirror ::
  "mbf_hashes \<Rightarrow> engine_config \<Rightarrow> 64 word \<Rightarrow> 8 word \<Rightarrow> 64 word \<Rightarrow> 32 word \<Rightarrow> string \<Rightarrow> bytes \<Rightarrow> bytes
    \<Rightarrow> bytes" where
  "encode_mbf_idx_mirror H cfg now cell_id epoch_id rows tenant search synopsis =
    (let th = h_xxh H (str_bytes tenant) 0x4D45545249323032;
         header = header_with_flags
           (header_new_idx_mirror (ucast cell_id) (ucast rows) epoch_id th now now)
           (FLAG_HAS_SYNOPSES OR FLAG_HAS_SEARCH);
         head = header_to_bytes header;
         with_z5 = pad_to_64 (head @ synopsis);
         with_z5b = pad_to_64 (with_z5 @ search);
         dir = \<lparr>zones = zones_default
             \<lparr>zone5_synopsis_offset := of_nat (length head),
              zone5_synopsis_len := of_nat (length with_z5) - of_nat (length head),
              zone5b_search_offset := of_nat (length with_z5),
              zone5b_search_len := of_nat (length with_z5b) - of_nat (length with_z5)\<rparr>,
           columns = []\<rparr>;
         dir_bytes = directory_to_bytes dir;
         buf = with_z5b @ dir_bytes;
         tag = (case seal_active (h_sha H) (h_hmac H) cfg tenant ''idx_mirror'' epoch_id dir_bytes of
             Inr seal \<Rightarrow> take 24 (keyed_mac seal) | Inl _ \<Rightarrow> replicate 24 0x49);
         footer = footer_new (of_nat (length with_z5b)) (of_nat (length dir_bytes))
           (h_crc H (take 64 buf)) (h_crc H dir_bytes) (ucast th) 0 tag
     in buf @ footer_to_bytes footer)"

definition is_valid_cached_mbf :: "mbf_hashes \<Rightarrow> string \<Rightarrow> bytes \<Rightarrow> bool" where
  "is_valid_cached_mbf H key bs =
    (if bs = [] then False
     else if \<not> (ends_with ''.mbf'' key \<or> ends_with ''.idx'' key) then True
     else if length bs < 128 \<or> length bs mod 64 \<noteq> 0 then False
     else if \<not> (take 8 bs = MBF_MAGIC \<or> take 8 bs = MBF_IDX_MAGIC)
       \<or> drop (length bs - 8) bs \<noteq> MBF_FOOTER_MAGIC then False
     else case footer_from_bytes (drop (length bs - 64) bs) of
         Inl _ \<Rightarrow> False
       | Inr footer \<Rightarrow> header_crc32c footer = h_crc H (take 64 bs))"

section \<open>Lemmas\<close>

lemma envelope_header_ok [simp]:
  "header_shape (envelope_header H now cell_id rows epoch tenant entity)"
  "header_validate (envelope_header H now cell_id rows epoch tenant entity) = Inr ()"
  by (simp_all add: envelope_header_def header_with_flags_def header_new_def header_shape_def
      header_validate_def Let_def)

lemma envelope_sealed [simp]:
  "flags (envelope_header H now cell_id rows epoch tenant entity) AND FLAG_ENCRYPTED \<noteq> 0"
proof -
  have "bit (flags (envelope_header H now cell_id rows epoch tenant entity) AND FLAG_ENCRYPTED) 1"
    by (simp add: envelope_header_def header_with_flags_def FLAG_ENCRYPTED_def FLAG_HAS_PAX_def
        bit_simps)
  then show ?thesis by (metis bit_0_eq bot_apply bot_bool_def)
qed

lemma seal_active_shape:
  assumes "hashes_ok H" "seal_active (h_sha H) (h_hmac H) cfg t e epoch p = Inr s"
  shows "seal_shape s"
  using assms by (auto simp: seal_active_def seal_block_def compute_context_hash_def seal_shape_def
      hashes_ok_def Let_def ok_or_def split: option.splits)

text \<open>What a well-formed file decodes to, whoever wrote it.\<close>

lemma decode_file:
  assumes "header_shape h" "header_validate h = Inr ()" "flags h AND FLAG_ENCRYPTED \<noteq> 0"
    and "seal_shape s" "body = pad_to_64 body" "length body < 2 ^ 62"
    and "d = directory_to_bytes dir" "columns dir = c # cs" "length (columns dir) < 2 ^ 25"
    and "unat (cc_byte_len c) \<le> length body"
    and "f = footer_new (of_nat (128 + length body)) (of_nat (length d))
           (h_crc H (header_to_bytes h)) (h_crc H d) fp fiscal (take 24 (keyed_mac s))"
  shows "decode_mbf_envelope H (header_to_bytes h @ seal_to_bytes s @ body @ d @ footer_to_bytes f)
    = Some (Inr (h, take (unat (cc_byte_len c)) body))"
proof -
  let ?file = "header_to_bytes h @ seal_to_bytes s @ body @ d @ footer_to_bytes f"
  have len_h: "length (header_to_bytes h) = 64" using assms(1) by simp
  have len_s: "length (seal_to_bytes s) = 64" using assms(4) by (simp add: seal_to_bytes_def seal_shape_def)
  have f_shape: "footer_shape f" using assms(4,11) by (simp add: footer_new_shape seal_shape_def)
  then have len_f: "length (footer_to_bytes f) = 64" by simp
  have mod_d: "length d mod 64 = 0" using assms(7) by (simp add: directory_to_bytes_def pad_to_64_aligned)
  have mod_b: "length body mod 64 = 0" using pad_to_64_aligned [of body] assms(5) by simp
  have len_d: "length d < 2 ^ 31"
    using assms(7,9) by (auto simp: directory_to_bytes_def pad_to_64_def Let_def length_concat comp_def
        sum_list_triv)
  obtain z where "d = (zones_to_bytes (zones dir) @ le_bytes 4 (length (columns dir)) @ le_bytes 4 0
      @ concat (map chunk_to_bytes (columns dir))) @ z"
    using assms(7) pad_to_64_prefix by (metis directory_to_bytes_def)
  then have pos_d: "0 < length d" by simp
  have tot: "length ?file = 192 + length body + length d" using len_h len_s len_f by simp
  have "64 \<le> length d" using mod_d pos_d by (metis dvd_imp_le mod_0_imp_dvd)
  then have big: "256 \<le> length ?file" using tot by simp
  have align: "length ?file mod 64 = 0"
  proof -
    have "64 dvd 192 + length body + length d" using mod_d mod_b by (intro dvd_add) auto
    then show ?thesis unfolding tot by simp
  qed
  have hdr: "header_from_bytes (bslice 0 64 ?file) = Inr h"
    using header_roundtrip [OF assms(1,2), of "[]"] len_h by simp
  have magic_f: "footer_magic f = MBF_FOOTER_MAGIC" using assms(11) by (simp add: footer_new_def)
  have ftr: "footer_from_bytes (drop (length ?file - 64) ?file) = Inr f"
    using footer_roundtrip [OF f_shape magic_f, of "[]"] len_h len_s len_f by simp
  have crc: "header_crc32c f = h_crc H (bslice 0 64 ?file)" using len_h assms(11) by (simp add: footer_new_def)
  have seal: "seal_from_bytes (bslice 64 64 ?file) = Inr s" "verify_footer_tag s f = Inr ()"
    using seal_roundtrip [OF assms(4), of "[]"] len_h len_s assms(11)
    by (simp_all add: verify_footer_tag_def footer_new_def)
  have off: "unat (directory_offset f) = 128 + length body" "unat (directory_len f) = length d"
  proof -
    have "directory_offset f = of_nat (128 + length body)" "directory_len f = of_nat (length d)"
      using assms(11) by (simp_all add: footer_new_def)
    then show "unat (directory_offset f) = 128 + length body" "unat (directory_len f) = length d"
      using assms(6) len_d by (simp_all only: unat_of_nat take_bit_nat_def) simp_all
  qed
  have slice: "bslice (128 + length body) (length d) ?file = d" using len_h len_s by (simp add: bslice_def)
  have dir: "directory_from_bytes d = Inr dir" using directory_roundtrip assms(7,9) by simp
  have dcrc: "h_crc H d = directory_crc32c f" using assms(11) by (simp add: footer_new_def)
  have body: "bslice 128 n ?file = take n body" if "n \<le> length body" for n
    using that len_h len_s by (simp add: bslice_def)
  have small: "\<not> 2 ^ 64 \<le> 128 + unat (cc_byte_len c)" using assms(6,10) by simp
  have bounds: "\<not> (length ?file < 256 \<or> length ?file mod 64 \<noteq> 0)"
    "\<not> length ?file - 64 < 128 + length body + length d"
    using big align tot by simp_all
  have "decode_mbf_envelope H F = Some (Inr (h, take (unat (cc_byte_len c)) body))" if F: "F = ?file" for F
    using hdr ftr crc seal off slice dir dcrc body [of "unat (cc_byte_len c)"] small bounds assms(3,8,10)
    unfolding F [symmetric] by (simp add: decode_mbf_envelope_def Let_def)
  then show ?thesis by simp
qed

text \<open>The image of an encoded payload, and what a file of the same shape with another payload of the
  same length decodes to.\<close>

definition envelope_image :: "mbf_hashes \<Rightarrow> 64 word \<Rightarrow> 32 word \<Rightarrow> 64 word \<Rightarrow> 64 word \<Rightarrow> string \<Rightarrow> string
    \<Rightarrow> bytes \<Rightarrow> mbf_tenant_crypto_seal \<Rightarrow> bytes \<Rightarrow> bytes" where
  "envelope_image H now cell_id rows epoch tenant entity payload s body =
    (let h = envelope_header H now cell_id rows epoch tenant entity;
         d = directory_to_bytes (envelope_directory H rows entity payload) in
     header_to_bytes h @ seal_to_bytes s @ body @ d @ footer_to_bytes
       (footer_new (of_nat (128 + length body)) (of_nat (length d)) (h_crc H (header_to_bytes h)) (h_crc H d)
         (ucast (h_xxh H (str_bytes entity) 2)) 0 (take 24 (keyed_mac s))))"

lemma encode_image:
  assumes "hashes_ok H" "encode_mbf_envelope H cfg now cell_id rows epoch tenant entity payload = Inr blob"
  obtains s where "seal_active (h_sha H) (h_hmac H) cfg tenant entity epoch payload = Inr s" "seal_shape s"
    "blob = envelope_image H now cell_id rows epoch tenant entity payload s (pad_to_64 payload)"
proof -
  obtain s where s: "seal_active (h_sha H) (h_hmac H) cfg tenant entity epoch payload = Inr s"
    using assms(2) by (auto simp: encode_mbf_envelope_def Let_def)
  have shape: "seal_shape s" using seal_active_shape [OF assms(1) s] .
  then have "length (seal_to_bytes s) = 64" by (simp add: seal_to_bytes_def seal_shape_def)
  then have "blob = envelope_image H now cell_id rows epoch tenant entity payload s (pad_to_64 payload)"
    using assms(2) s by (simp add: encode_mbf_envelope_def envelope_image_def Let_def)
  then show thesis using that s shape by blast
qed

lemma decode_image:
  assumes "seal_shape s" "length payload' = length payload" "length payload < 2 ^ 61"
  shows "decode_mbf_envelope H
      (envelope_image H now cell_id rows epoch tenant entity payload s (pad_to_64 payload'))
    = Some (Inr (envelope_header H now cell_id rows epoch tenant entity, payload'))"
proof -
  let ?dir = "envelope_directory H rows entity payload"
  have pad: "pad_to_64 (pad_to_64 payload') = pad_to_64 payload'"
    using pad_to_64_aligned [of payload'] by (simp add: pad_to_64_def [of "pad_to_64 payload'"])
  have len: "length (pad_to_64 payload') < 2 ^ 62" "length payload' \<le> length (pad_to_64 payload')"
    using assms(2,3) by (auto simp: pad_to_64_def Let_def)
  have "unat (of_nat (length payload) :: 64 word) = length payload"
    using assms(3) by (simp add: unat_of_nat take_bit_nat_def)
  then obtain c where c: "columns ?dir = [c]" "unat (cc_byte_len c) = length payload'"
    using assms(2) by (simp add: envelope_directory_def)
  obtain z where z: "pad_to_64 payload' = payload' @ z" using pad_to_64_prefix by blast
  show ?thesis
    unfolding envelope_image_def Let_def
    by (subst decode_file [OF envelope_header_ok envelope_sealed assms(1) pad [symmetric] len(1) refl c(1)])
       (use c len z in simp_all)
qed

lemma envelope_roundtrip:
  assumes "hashes_ok H" "length payload < 2 ^ 61"
    and "encode_mbf_envelope H cfg now cell_id rows epoch tenant entity payload = Inr blob"
  shows "decode_mbf_envelope H blob
    = Some (Inr (envelope_header H now cell_id rows epoch tenant entity, payload))"
  using encode_image [OF assms(1,3)] decode_image [OF _ refl assms(2)] by metis

text \<open>A file is a header, whole cache lines and a footer.\<close>

lemma framed_file:
  assumes "header_shape h" "length mid mod 64 = 0" "footer_shape f" "footer_magic f = MBF_FOOTER_MAGIC"
    and blob: "blob = header_to_bytes h @ mid @ footer_to_bytes f"
  shows "length blob = 128 + length mid" "length blob mod 64 = 0" "take 8 blob = magic h"
    "take 64 blob = header_to_bytes h" "drop (length blob - 8) blob = MBF_FOOTER_MAGIC"
    "footer_from_bytes (drop (length blob - 64) blob) = Inr f"
proof -
  have len: "length (header_to_bytes h) = 64" "length (footer_to_bytes f) = 64"
    using assms(1,3) by simp_all
  then show size: "length blob = 128 + length mid" unfolding blob by simp
  have "64 dvd 128 + length mid" using assms(2) by (intro dvd_add) auto
  then show "length blob mod 64 = 0" unfolding size by simp
  show "take 8 blob = magic h" using assms(1) unfolding blob by (simp add: header_to_bytes_def header_shape_def)
  show "take 64 blob = header_to_bytes h" using len unfolding blob by simp
  have "\<exists>p. footer_to_bytes f = p @ MBF_FOOTER_MAGIC \<and> length p = 56"
    using assms(3,4) by (simp add: footer_to_bytes_def footer_shape_def)
  then obtain p where p: "footer_to_bytes f = p @ MBF_FOOTER_MAGIC" "length p = 56" by blast
  then show "drop (length blob - 8) blob = MBF_FOOTER_MAGIC" using len size unfolding blob by simp
  show "footer_from_bytes (drop (length blob - 64) blob) = Inr f"
    using footer_roundtrip [OF assms(3,4), of "[]"] len size unfolding blob by simp
qed

lemma framed_file_valid:
  assumes "header_shape h" "magic h = MBF_MAGIC \<or> magic h = MBF_IDX_MAGIC" "length mid mod 64 = 0"
    and "footer_shape f" "footer_magic f = MBF_FOOTER_MAGIC"
    and "header_crc32c f = h_crc H (header_to_bytes h)"
  shows "is_valid_cached_mbf H key (header_to_bytes h @ mid @ footer_to_bytes f)"
proof -
  have "is_valid_cached_mbf H key blob" if "blob = header_to_bytes h @ mid @ footer_to_bytes f" for blob
    using framed_file [OF assms(1,3,4,5) that] assms(2,6) by (auto simp: is_valid_cached_mbf_def)
  then show ?thesis by simp
qed

lemma pad_to_64_extend:
  assumes "length h mod 64 = 0"
  obtains r where "pad_to_64 (h @ x) = h @ r" "length r mod 64 = 0"
proof -
  obtain z where z: "pad_to_64 (h @ x) = h @ x @ z" using pad_to_64_prefix by (metis append.assoc)
  have "64 dvd length h + length (x @ z)" using pad_to_64_aligned [of "h @ x"] z by (simp add: mod_0_imp_dvd)
  moreover have "64 dvd length h" using assms by (rule mod_0_imp_dvd)
  ultimately have "64 dvd length (x @ z)" by (simp only: dvd_add_right_iff)
  then have "length (x @ z) mod 64 = 0" by (rule dvd_imp_mod_0)
  with z show thesis by (rule that)
qed

lemma mirror_cached_valid:
  assumes "hashes_ok H"
  shows "is_valid_cached_mbf H key
    (encode_mbf_idx_mirror H cfg now cell_id epoch rows tenant search synopsis)"
proof -
  define th where "th = h_xxh H (str_bytes tenant) 0x4D45545249323032"
  define h where "h = header_with_flags
    (header_new_idx_mirror (ucast cell_id) (ucast rows) epoch th now now) (FLAG_HAS_SYNOPSES OR FLAG_HAS_SEARCH)"
  have h: "header_shape h" "magic h = MBF_IDX_MAGIC"
    by (simp_all add: h_def header_with_flags_def header_new_idx_mirror_def header_new_def header_shape_def
        Let_def)
  have len_h: "length (header_to_bytes h) = 64" using h(1) by simp
  obtain r where r: "pad_to_64 (header_to_bytes h @ synopsis) = header_to_bytes h @ r" "length r mod 64 = 0"
    using pad_to_64_extend [of "header_to_bytes h"] len_h by (metis mod_self)
  have "64 dvd 64 + length r" using r(2) by (intro dvd_add) auto
  then have "length (header_to_bytes h @ r) mod 64 = 0" using len_h by simp
  then obtain q where q: "pad_to_64 ((header_to_bytes h @ r) @ search) = (header_to_bytes h @ r) @ q"
    "length q mod 64 = 0"
    by (rule pad_to_64_extend)
  obtain d where d: "encode_mbf_idx_mirror H cfg now cell_id epoch rows tenant search synopsis =
      (header_to_bytes h @ r @ q @ directory_to_bytes d) @ footer_to_bytes
        (footer_new (of_nat (length (header_to_bytes h @ r @ q))) (of_nat (length (directory_to_bytes d)))
          (h_crc H (header_to_bytes h)) (h_crc H (directory_to_bytes d)) (ucast th) 0
          (case seal_active (h_sha H) (h_hmac H) cfg tenant ''idx_mirror'' epoch (directory_to_bytes d) of
             Inr seal \<Rightarrow> take 24 (keyed_mac seal) | Inl _ \<Rightarrow> replicate 24 0x49))"
    using r(1) q(1) len_h unfolding encode_mbf_idx_mirror_def th_def [symmetric] h_def [symmetric] Let_def
    by simp
  have tag: "length (case seal_active (h_sha H) (h_hmac H) cfg tenant ''idx_mirror'' epoch x of
      Inr seal \<Rightarrow> take 24 (keyed_mac seal) | Inl _ \<Rightarrow> replicate 24 0x49) = 24" for x
    using seal_active_shape [OF assms] by (auto simp: seal_shape_def split: sum.split)
  have "64 dvd length (r @ q @ directory_to_bytes d)"
    using r(2) q(2) pad_to_64_aligned unfolding directory_to_bytes_def length_append mod_0_imp_dvd
    by (intro dvd_add) (simp_all add: mod_0_imp_dvd)
  then show ?thesis
    using framed_file_valid [OF h(1) disjI2 [OF h(2)], of "r @ q @ directory_to_bytes d"] tag footer_new_shape
    unfolding d by (simp add: footer_new_def)
qed

lemma encode_total:
  assumes "\<And>k m. h_hmac H k m \<noteq> None"
  obtains blob where "encode_mbf_envelope H cfg now cell_id rows epoch tenant entity payload = Inr blob"
  using assms by (fastforce simp: encode_mbf_envelope_def seal_active_def seal_block_def ok_or_def Let_def
      split: option.splits)

lemma image_cached_valid:
  assumes "seal_shape s"
  shows "is_valid_cached_mbf H key
    (envelope_image H now cell_id rows epoch tenant entity payload s (pad_to_64 body))"
proof -
  let ?mid = "seal_to_bytes s @ pad_to_64 body @ directory_to_bytes (envelope_directory H rows entity payload)"
  have "length (seal_to_bytes s) = 64" using assms by (simp add: seal_to_bytes_def seal_shape_def)
  then have "64 dvd length ?mid"
    using pad_to_64_aligned unfolding directory_to_bytes_def length_append
    by (intro dvd_add) (simp_all add: mod_0_imp_dvd)
  then have mid: "length ?mid mod 64 = 0" by (rule dvd_imp_mod_0)
  have magic: "magic (envelope_header H now cell_id rows epoch tenant entity) = MBF_MAGIC"
    by (simp add: envelope_header_def header_with_flags_def header_new_def Let_def)
  show ?thesis
    using framed_file_valid [OF envelope_header_ok(1) disjI1 [OF magic] mid] assms footer_new_shape
    by (simp add: envelope_image_def Let_def footer_new_def seal_shape_def)
qed

section \<open>Properties\<close>

text \<open>C21: a payload put into the sealed envelope comes back unchanged with the header it was written
  under, and the file passes the check a cached file has to pass. The payload is shorter than
  2 ^ 61 bytes; digests and authentication tags have 32 bytes.\<close>

theorem envelope_file_roundtrip:
  assumes "hashes_ok H" "length payload < 2 ^ 61"
    and "encode_mbf_envelope H cfg now cell_id rows epoch tenant entity payload = Inr blob"
  shows "decode_mbf_envelope H blob
      = Some (Inr (envelope_header H now cell_id rows epoch tenant entity, payload))
    \<and> is_valid_cached_mbf H key blob"
  using encode_image [OF assms(1,3)] decode_image [OF _ refl assms(2)] image_cached_valid by metis

definition toy_hashes :: mbf_hashes where
  "toy_hashes = \<lparr>h_sha = \<lambda>x. take 32 (x @ replicate 32 7), h_hmac = \<lambda>k m. Some (take 32 (k @ m @ replicate 32 9)),
     h_xxh = \<lambda>x s. s + of_nat (length x), h_crc = \<lambda>x. of_nat (sum_list (map unat x))\<rparr>"

lemma toy_hashes_ok: "hashes_ok toy_hashes" "h_hmac toy_hashes k m \<noteq> None"
  by (auto simp: hashes_ok_def toy_hashes_def)

theorem envelope_file_roundtrip_witness:
  "\<exists>blob. encode_mbf_envelope toy_hashes config_default 77 3 2 9 ''acme'' ''orders'' [1, 2, 3] = Inr blob
    \<and> decode_mbf_envelope toy_hashes blob
      = Some (Inr (envelope_header toy_hashes 77 3 2 9 ''acme'' ''orders'', [1, 2, 3]))"
proof -
  obtain blob where "encode_mbf_envelope toy_hashes config_default 77 3 2 9 ''acme'' ''orders'' [1, 2, 3]
      = Inr blob"
    using encode_total toy_hashes_ok(2) by blast
  then show ?thesis using envelope_file_roundtrip [OF toy_hashes_ok(1), of "[1, 2, 3]"] by simp
qed

text \<open>The decoder does not authenticate the payload. Whatever bytes of the same length replace the
  payload of an encoded file, header, seal, directory and footer left as they are, the file still
  passes the cache check and decodes, to the replacement.\<close>

theorem envelope_payload_not_authenticated:
  assumes "hashes_ok H" "length payload < 2 ^ 61" "length forged = length payload"
    and "encode_mbf_envelope H cfg now cell_id rows epoch tenant entity payload = Inr blob"
    and "forgery = take 128 blob @ pad_to_64 forged @ drop (128 + length (pad_to_64 payload)) blob"
  shows "decode_mbf_envelope H forgery
      = Some (Inr (envelope_header H now cell_id rows epoch tenant entity, forged))
    \<and> is_valid_cached_mbf H key forgery"
proof -
  obtain s where s: "seal_shape s"
    "blob = envelope_image H now cell_id rows epoch tenant entity payload s (pad_to_64 payload)"
    using encode_image [OF assms(1,4)] by metis
  have "length (seal_to_bytes s) = 64" using s(1) by (simp add: seal_to_bytes_def seal_shape_def)
  moreover have "length (pad_to_64 forged) = length (pad_to_64 payload)"
    using assms(3) by (simp add: pad_to_64_def Let_def)
  ultimately have "forgery = envelope_image H now cell_id rows epoch tenant entity payload s (pad_to_64 forged)"
    using s(2) assms(5) by (simp add: envelope_image_def Let_def)
  then show ?thesis using decode_image [OF s(1) assms(3,2)] image_cached_valid [OF s(1)] by simp
qed

theorem envelope_payload_not_authenticated_witness:
  "\<exists>blob forgery. encode_mbf_envelope toy_hashes config_default 77 3 2 9 ''acme'' ''orders'' [1, 2, 3] = Inr blob
    \<and> decode_mbf_envelope toy_hashes forgery
      = Some (Inr (envelope_header toy_hashes 77 3 2 9 ''acme'' ''orders'', [6, 6, 6]))
    \<and> drop 192 forgery = drop 192 blob"
proof -
  obtain blob where blob: "encode_mbf_envelope toy_hashes config_default 77 3 2 9 ''acme'' ''orders'' [1, 2, 3]
      = Inr blob"
    using encode_total toy_hashes_ok(2) by blast
  let ?f = "take 128 blob @ pad_to_64 [6, 6, 6] @ drop 192 blob"
  have len: "length (pad_to_64 [1, 2, 3]) = 64" "length (pad_to_64 [6, 6, 6]) = 64"
    by (simp_all add: pad_to_64_def)
  have "decode_mbf_envelope toy_hashes ?f
      = Some (Inr (envelope_header toy_hashes 77 3 2 9 ''acme'' ''orders'', [6, 6, 6]))"
    using envelope_payload_not_authenticated [OF toy_hashes_ok(1) _ _ blob, of "[6, 6, 6]" ?f] len by simp
  moreover have big: "128 \<le> length blob"
  proof -
    obtain s where s: "seal_shape s" "blob = envelope_image toy_hashes 77 3 2 9 ''acme'' ''orders'' [1, 2, 3] s
        (pad_to_64 [1, 2, 3])"
      using encode_image [OF toy_hashes_ok(1) blob] by metis
    then have "length (seal_to_bytes s) = 64" by (simp add: seal_to_bytes_def seal_shape_def)
    then show ?thesis unfolding s(2) envelope_image_def Let_def by simp
  qed
  moreover have "drop 192 ?f = drop 192 blob" using len big by (simp add: min_def)
  ultimately show ?thesis using blob by (intro exI [of _ blob] exI [of _ ?f]) simp
qed

end
