(* ===== verification/MbfObjects.thy ===== *)
theory MbfObjects
  imports MbfEnvelope
begin

text \<open>The object store port (\<^verbatim>\<open>IMbfObjectStore\<close> of \<^verbatim>\<open>src/domain/protocols.rs\<close>) as a locale, with
  what its clients can rely on, and the in-memory store of \<^verbatim>\<open>src/mbf/mod.rs\<close> that implements it.
  A method takes the store to the store it leaves and its result. A lock of the in-memory store is
  poisoned only by a panic inside it, and none of these sections panics.\<close>

record object_payload =
  ob_bytes :: bytes
  ob_etag :: string

datatype conditional_get = NotModified | Modified object_payload | NotFound

definition hex_digit :: "byte \<Rightarrow> char" where
  "hex_digit b = ''0123456789abcdef'' ! (unat b mod 16)"

definition hex_encode :: "bytes \<Rightarrow> string" where
  "hex_encode bs = concat (map (\<lambda>b. [hex_digit (drop_bit 4 b), hex_digit b]) bs)"

definition compute_etag :: "mbf_hashes \<Rightarrow> bytes \<Rightarrow> string" where
  "compute_etag H bs = hex_encode (take 16 (h_sha H bs))"

section \<open>The port\<close>

text \<open>\<^verbatim>\<open>look\<close> is the object another caller would read, \<^verbatim>\<open>quiet\<close> says that no other writer gets in
  before the next write of the key. A conditional write without an expected tag requires that the
  object does not exist; a mismatch is the conflict error, and then the object is not the caller's.\<close>

locale object_store =
  fixes get_object :: "'s \<Rightarrow> string \<Rightarrow> 's \<times> object_payload option res"
    and get_if_none_match :: "'s \<Rightarrow> string \<Rightarrow> string \<Rightarrow> 's \<times> conditional_get res"
    and get_byte_range :: "'s \<Rightarrow> string \<Rightarrow> nat \<Rightarrow> nat \<Rightarrow> 's \<times> bytes res"
    and put_if_match :: "'s \<Rightarrow> string \<Rightarrow> bytes \<Rightarrow> string option \<Rightarrow> 's \<times> string res"
    and look :: "'s \<Rightarrow> string \<Rightarrow> object_payload option"
    and quiet :: "'s \<Rightarrow> string \<Rightarrow> bool"
  assumes get: "get_object s k = (s', r) \<Longrightarrow> r = Inr (look s k) \<and> look s' = look s \<and> quiet s' = quiet s"
    and cond: "get_if_none_match s k t = (s', c) \<Longrightarrow> look s' = look s \<and> c = Inr (case look s k of
        None \<Rightarrow> NotFound | Some p \<Rightarrow> if ob_etag p = t then NotModified else Modified p)"
    and range: "get_byte_range s k i j = (s', bs) \<Longrightarrow> look s' = look s \<and> bs = (case look s k of
        None \<Rightarrow> Inl MbfCorrupt001
      | Some p \<Rightarrow> if i > j \<or> length (ob_bytes p) < j then Inl MbfCorrupt001
          else Inr (take (j - i) (drop i (ob_bytes p))))"
    and put_ok: "put_if_match s k b e = (s', Inr t) \<Longrightarrow>
        map_option ob_etag (look s k) = e
      \<and> look s' = (look s)(k := Some \<lparr>ob_bytes = b, ob_etag = t\<rparr>) \<and> quiet s' k
      \<and> (\<forall>k'. k' \<noteq> k \<longrightarrow> quiet s' k' = quiet s k')"
    and put_conflict: "put_if_match s k b e = (s', Inl x) \<Longrightarrow> x = MbfCasConflict001
      \<and> (\<forall>k'. k' \<noteq> k \<longrightarrow> look s' k' = look s k' \<and> quiet s' k' = quiet s k') \<and> quiet s' k
      \<and> (quiet s k \<longrightarrow> look s' = look s \<and> map_option ob_etag (look s k) \<noteq> e)"
begin

lemma get_result: "snd (get_object s k) = Inr (look s k)"
  using get by (metis prod.collapse)

lemma get_look [simp]: "look (fst (get_object s k)) = look s"
  using get by (metis prod.collapse)

lemma get_quiet [simp]: "quiet (fst (get_object s k)) = quiet s"
  using get by (metis prod.collapse)

lemma put_quiet_iff:
  assumes "quiet s k"
  shows "(\<exists>t. snd (put_if_match s k b e) = Inr t) \<longleftrightarrow> map_option ob_etag (look s k) = e"
proof (cases "snd (put_if_match s k b e)")
  case (Inl x)
  then have "put_if_match s k b e = (fst (put_if_match s k b e), Inl x)" by (metis prod.collapse)
  then show ?thesis using put_conflict assms Inl by auto
next
  case (Inr t)
  then have "put_if_match s k b e = (fst (put_if_match s k b e), Inr t)" by (metis prod.collapse)
  then show ?thesis using put_ok Inr by auto
qed

text \<open>Writing with the tag just read succeeds, and the object is read back.\<close>

lemma read_then_write:
  assumes "quiet s k" "get_object s k = (s1, Inr p)" "put_if_match s1 k b (map_option ob_etag p) = (s2, r)"
  obtains t where "r = Inr t" "snd (get_object s2 k) = Inr (Some \<lparr>ob_bytes = b, ob_etag = t\<rparr>)"
proof -
  have p: "p = look s k" and s1: "look s1 = look s" "quiet s1 k" using get [OF assms(2)] assms(1) by auto
  obtain t where t: "snd (put_if_match s1 k b (map_option ob_etag p)) = Inr t"
    using put_quiet_iff [OF s1(2)] p s1(1) by metis
  then have r: "r = Inr t" using assms(3) by simp
  then have "look s2 k = Some \<lparr>ob_bytes = b, ob_etag = t\<rparr>" using put_ok assms(3) by fastforce
  then show thesis using that r get_result by simp
qed

text \<open>Of two writers that read the same state, the second is refused unless the first left the tag
  as it was.\<close>

lemma second_writer_refused:
  assumes "put_if_match s k b1 e = (s1, Inr t)" "Some t \<noteq> e" "put_if_match s1 k b2 e = (s2, r)"
  shows "r = Inl MbfCasConflict001 \<and> look s2 = look s1"
proof -
  have s1: "look s1 k = Some \<lparr>ob_bytes = b1, ob_etag = t\<rparr>" "quiet s1 k" using put_ok [OF assms(1)] by auto
  show ?thesis
  proof (cases r)
    case (Inl x)
    then show ?thesis using put_conflict assms(3) s1 by blast
  next
    case (Inr u)
    then show ?thesis using put_ok assms(2,3) s1 by fastforce
  qed
qed

end

text \<open>A store whose tags are computed from the content.\<close>

locale tagged_store = object_store get_object get_if_none_match get_byte_range put_if_match look quiet
  for get_object :: "'s \<Rightarrow> string \<Rightarrow> 's \<times> object_payload option res"
    and get_if_none_match :: "'s \<Rightarrow> string \<Rightarrow> string \<Rightarrow> 's \<times> conditional_get res"
    and get_byte_range :: "'s \<Rightarrow> string \<Rightarrow> nat \<Rightarrow> nat \<Rightarrow> 's \<times> bytes res"
    and put_if_match :: "'s \<Rightarrow> string \<Rightarrow> bytes \<Rightarrow> string option \<Rightarrow> 's \<times> string res"
    and look :: "'s \<Rightarrow> string \<Rightarrow> object_payload option"
    and quiet :: "'s \<Rightarrow> string \<Rightarrow> bool" +
  fixes tag :: "bytes \<Rightarrow> string"
  assumes put_tag: "put_if_match s k b e = (s', Inr t) \<Longrightarrow> t = tag b"

section \<open>The in-memory store\<close>

record chaos_store =
  objects :: "string \<Rightarrow> object_payload option"
  injected_winners :: "string \<Rightarrow> bytes option"
  gets_count :: "64 word"
  puts_count :: "64 word"
  range_gets_count :: "64 word"
  not_modified_304_hits :: "64 word"
  conflict_412_count :: "64 word"

definition chaos_new :: chaos_store where
  "chaos_new = \<lparr>objects = Map.empty, injected_winners = Map.empty, gets_count = 0, puts_count = 0,
     range_gets_count = 0, not_modified_304_hits = 0, conflict_412_count = 0\<rparr>"

definition inject_winner :: "string \<Rightarrow> bytes \<Rightarrow> chaos_store \<Rightarrow> chaos_store" where
  "inject_winner k b s = s\<lparr>injected_winners := (injected_winners s)(k \<mapsto> b)\<rparr>"

definition chaos_get :: "chaos_store \<Rightarrow> string \<Rightarrow> chaos_store \<times> object_payload option res" where
  "chaos_get s k = (s\<lparr>gets_count := gets_count s + 1\<rparr>, Inr (objects s k))"

definition chaos_get_if_none_match :: "chaos_store \<Rightarrow> string \<Rightarrow> string \<Rightarrow> chaos_store \<times> conditional_get res" where
  "chaos_get_if_none_match s k cached = (case objects s k of
     None \<Rightarrow> (s, Inr NotFound)
   | Some p \<Rightarrow>
      if ob_etag p = cached then (s\<lparr>not_modified_304_hits := not_modified_304_hits s + 1\<rparr>, Inr NotModified)
      else (s\<lparr>gets_count := gets_count s + 1\<rparr>, Inr (Modified p)))"

definition chaos_get_byte_range :: "chaos_store \<Rightarrow> string \<Rightarrow> nat \<Rightarrow> nat \<Rightarrow> chaos_store \<times> bytes res" where
  "chaos_get_byte_range s k i j =
    (s\<lparr>range_gets_count := range_gets_count s + 1\<rparr>,
     case objects s k of
       None \<Rightarrow> Inl MbfCorrupt001
     | Some p \<Rightarrow> if i > j \<or> j > length (ob_bytes p) then Inl MbfCorrupt001
         else Inr (bslice i (j - i) (ob_bytes p)))"

definition chaos_put_if_match ::
  "mbf_hashes \<Rightarrow> chaos_store \<Rightarrow> string \<Rightarrow> bytes \<Rightarrow> string option \<Rightarrow> chaos_store \<times> string res" where
  "chaos_put_if_match H s k b expected = (case injected_winners s k of
     Some w \<Rightarrow>
      (s\<lparr>injected_winners := (injected_winners s)(k := None),
         objects := (objects s)(k \<mapsto> \<lparr>ob_bytes = w, ob_etag = compute_etag H w\<rparr>),
         conflict_412_count := conflict_412_count s + 1\<rparr>, Inl MbfCasConflict001)
   | None \<Rightarrow>
      if (case (objects s k, expected) of
            (None, None) \<Rightarrow> True | (Some p, Some e) \<Rightarrow> ob_etag p = e | _ \<Rightarrow> False)
      then (s\<lparr>objects := (objects s)(k \<mapsto> \<lparr>ob_bytes = b, ob_etag = compute_etag H b\<rparr>),
              puts_count := puts_count s + 1\<rparr>, Inr (compute_etag H b))
      else (s\<lparr>conflict_412_count := conflict_412_count s + 1\<rparr>, Inl MbfCasConflict001))"

definition chaos_quiet :: "chaos_store \<Rightarrow> string \<Rightarrow> bool" where
  "chaos_quiet s k = (injected_winners s k = None)"

interpretation chaos: object_store chaos_get chaos_get_if_none_match chaos_get_byte_range
    "chaos_put_if_match H" objects chaos_quiet
proof
  fix s k s' r
  assume "chaos_get s k = (s', r)"
  then show "r = Inr (objects s k) \<and> objects s' = objects s \<and> chaos_quiet s' = chaos_quiet s"
    by (auto simp: chaos_get_def chaos_quiet_def fun_eq_iff)
next
  fix s k t s' r
  assume "chaos_get_if_none_match s k t = (s', r)"
  then show "objects s' = objects s \<and> r = Inr (case objects s k of
      None \<Rightarrow> NotFound | Some p \<Rightarrow> if ob_etag p = t then NotModified else Modified p)"
    by (auto simp: chaos_get_if_none_match_def split: option.splits if_splits)
next
  fix s k i j s' r
  assume "chaos_get_byte_range s k i j = (s', r)"
  then show "objects s' = objects s \<and> r = (case objects s k of
      None \<Rightarrow> Inl MbfCorrupt001
    | Some p \<Rightarrow> if i > j \<or> length (ob_bytes p) < j then Inl MbfCorrupt001
        else Inr (take (j - i) (drop i (ob_bytes p))))"
    by (auto simp: chaos_get_byte_range_def bslice_def split: option.splits)
next
  fix s k b e s' t
  assume "chaos_put_if_match H s k b e = (s', Inr t)"
  then show "map_option ob_etag (objects s k) = e
      \<and> objects s' = (objects s)(k := Some \<lparr>ob_bytes = b, ob_etag = t\<rparr>) \<and> chaos_quiet s' k
      \<and> (\<forall>k'. k' \<noteq> k \<longrightarrow> chaos_quiet s' k' = chaos_quiet s k')"
    by (auto simp: chaos_put_if_match_def chaos_quiet_def split: option.splits if_splits)
next
  fix s k b e s' x
  assume "chaos_put_if_match H s k b e = (s', Inl x)"
  then show "x = MbfCasConflict001 \<and> (\<forall>k'. k' \<noteq> k \<longrightarrow> objects s' k' = objects s k'
        \<and> chaos_quiet s' k' = chaos_quiet s k') \<and> chaos_quiet s' k
      \<and> (chaos_quiet s k \<longrightarrow> objects s' = objects s \<and> map_option ob_etag (objects s k) \<noteq> e)"
    by (auto simp: chaos_put_if_match_def chaos_quiet_def split: option.splits if_splits)
qed

interpretation chaos_tags: tagged_store chaos_get chaos_get_if_none_match chaos_get_byte_range
    "chaos_put_if_match H" objects chaos_quiet "compute_etag H"
  by unfold_locales (auto simp: chaos_put_if_match_def split: option.splits if_splits)

section \<open>The deterministic clock\<close>

definition clock_advance_ms :: "int \<Rightarrow> int \<Rightarrow> int \<times> int" where
  "clock_advance_ms current delta = (i64 (current + delta), i64 (current + delta))"

definition clock_set_ms :: "int \<Rightarrow> int \<Rightarrow> int" where
  "clock_set_ms current new_epoch = new_epoch"

end
