(* ===== verification/MbfS3Store.thy ===== *)
theory MbfS3Store
  imports MbfObjects
begin

text \<open>The object store over S3 with its local file cache (\<^verbatim>\<open>S3MbfObjectStore\<close> of
  \<^verbatim>\<open>src/mbf/storage.rs\<close>). The S3 client is a pair of parameters, a read with its optional
  \<^verbatim>\<open>If-None-Match\<close> and \<^verbatim>\<open>Range\<close> headers and a write with its optional \<^verbatim>\<open>If-Match\<close> header; the cache
  directory is the list of its files with their modification times, and its file operations
  succeed. The time of a call is an argument.\<close>

section \<open>The client and the cache directory\<close>

datatype s3_get_result = S3Body "string option" "bytes option" | S3GetErr "nat option"
datatype s3_put_result = S3Stored "string option" | S3PutErr "nat option"

record 'r s3_service =
  sv_get :: "'r \<Rightarrow> string \<Rightarrow> string option \<Rightarrow> string option \<Rightarrow> s3_get_result"
  sv_put :: "'r \<Rightarrow> string \<Rightarrow> bytes \<Rightarrow> string option \<Rightarrow> 'r \<times> s3_put_result"

type_synonym cache_dir = "(string \<times> nat \<times> bytes) list"

record 'r s3_store =
  remote :: 'r
  cache :: cache_dir

definition safe_name :: "string \<Rightarrow> string" where
  "safe_name key = map (\<lambda>c. if c = CHR ''/'' \<or> c = CHR 0x5C \<or> c = CHR '':'' then CHR ''_'' else c) key"

definition slice_name :: "string \<Rightarrow> nat \<Rightarrow> nat \<Rightarrow> string" where
  "slice_name key i j = safe_name key @ ''__range_'' @ nat_str i @ ''_'' @ nat_str j @ ''.slice''"

definition read_file :: "string \<Rightarrow> cache_dir \<Rightarrow> bytes option" where
  "read_file name dir = map_option snd (map_of dir name)"

definition remove_file :: "string \<Rightarrow> cache_dir \<Rightarrow> cache_dir" where
  "remove_file name dir = filter (\<lambda>f. fst f \<noteq> name) dir"

definition write_file :: "nat \<Rightarrow> string \<Rightarrow> bytes \<Rightarrow> cache_dir \<Rightarrow> cache_dir" where
  "write_file now name bs dir = remove_file name dir @ [(name, now, bs)]"

definition trim_quotes :: "string \<Rightarrow> string" where
  "trim_quotes s = rev (dropWhile (\<lambda>c. c = CHR 0x22) (rev (dropWhile (\<lambda>c. c = CHR 0x22) s)))"

definition quoted :: "string \<Rightarrow> string" where
  "quoted s = [CHR 0x22] @ s @ [CHR 0x22]"

section \<open>The cache budget\<close>

definition file_len :: "string \<times> nat \<times> bytes \<Rightarrow> nat" where
  "file_len f = length (snd (snd f))"

definition is_idx_or_head :: "string \<times> nat \<times> bytes \<Rightarrow> bool" where
  "is_idx_or_head f \<longleftrightarrow> str_contains ''HOT_HEAD'' (fst f) \<or> ends_with ''.idx'' (fst f)"

definition dir_bytes :: "cache_dir \<Rightarrow> nat" where
  "dir_bytes dir = fold (\<lambda>f used. min (used + file_len f) (2 ^ 64 - 1)) dir 0"

fun evict_until :: "nat \<Rightarrow> nat \<Rightarrow> cache_dir \<Rightarrow> cache_dir" where
  "evict_until budget used [] = []"
| "evict_until budget used (f # fs) =
    (if used \<le> budget then [] else f # evict_until budget (used - file_len f) fs)"

definition enforce_nvme_cache_budget :: "nat \<Rightarrow> cache_dir \<Rightarrow> cache_dir \<times> nat" where
  "enforce_nvme_cache_budget budget dir =
    (let used = dir_bytes dir in
     if used \<le> budget then (dir, 0)
     else let evicted = evict_until budget used
            (sort_key (\<lambda>f. fst (snd f)) (filter (\<lambda>f. \<not> is_idx_or_head f) dir)) in
       (filter (\<lambda>f. fst f \<notin> fst ` set evicted) dir, length evicted))"

definition MBF_NVME_CACHE_BUDGET_BYTES :: nat where
  "MBF_NVME_CACHE_BUDGET_BYTES = 450 * 1024 * 1024"

text \<open>What the methods do with a file they fetched or wrote: make room, then write.\<close>

definition store_file :: "nat \<Rightarrow> string \<Rightarrow> bytes \<Rightarrow> cache_dir \<Rightarrow> cache_dir" where
  "store_file now name bs dir =
     write_file now name bs (fst (enforce_nvme_cache_budget MBF_NVME_CACHE_BUDGET_BYTES dir))"

section \<open>Writing and conditional fetching\<close>

definition put_raw_mbf ::
  "mbf_hashes \<Rightarrow> 'r s3_service \<Rightarrow> nat \<Rightarrow> 'r s3_store \<Rightarrow> string \<Rightarrow> bytes \<Rightarrow> 'r s3_store \<times> string res" where
  "put_raw_mbf H sv now st key bs =
    (let fallback = compute_etag H bs; (r, resp) = sv_put sv (remote st) key bs None;
         st1 = \<lparr>remote = r, cache = write_file now (safe_name key) bs (cache st)\<rparr>
     in case resp of
         S3Stored tag \<Rightarrow>
          (let s3_etag = map_option trim_quotes tag in
           (st1, Inr (case s3_etag of Some t \<Rightarrow> if t \<noteq> [] then t else fallback | None \<Rightarrow> fallback)))
       | S3PutErr _ \<Rightarrow> (st1, Inr fallback))"

definition fetch_partition_if_changed ::
  "mbf_hashes \<Rightarrow> 'r s3_service \<Rightarrow> nat \<Rightarrow> 'r s3_store \<Rightarrow> string \<Rightarrow> string option
    \<Rightarrow> 'r s3_store \<times> conditional_get res" where
  "fetch_partition_if_changed H sv now st key known =
    (let cond = (case known of Some e \<Rightarrow> if e \<noteq> [] then Some (quoted e) else None | None \<Rightarrow> None)
     in case sv_get sv (remote st) key cond None of
         S3Body tag body \<Rightarrow>
          (case body of
             None \<Rightarrow> (st, Inl MbfCorrupt001)
           | Some bs \<Rightarrow>
              (let etag = (case tag of Some t \<Rightarrow> trim_quotes t | None \<Rightarrow> []);
                   resolved = (if etag = [] then compute_etag H bs else etag)
               in (st\<lparr>cache := write_file now (safe_name key) bs (cache st)\<rparr>,
                   Inr (Modified \<lparr>ob_bytes = bs, ob_etag = resolved\<rparr>))))
       | S3GetErr status \<Rightarrow> (st, Inr (if status = Some 404 then NotFound else NotModified)))"

section \<open>The port's methods\<close>

text \<open>The part of \<^verbatim>\<open>get_object\<close> behind a cache miss.\<close>

definition s3_get_remote ::
  "mbf_hashes \<Rightarrow> 'r s3_service \<Rightarrow> nat \<Rightarrow> 'r s3_store \<Rightarrow> string \<Rightarrow> 'r s3_store \<times> object_payload option res" where
  "s3_get_remote H sv now st key =
    (case sv_get sv (remote st) key None None of
       S3Body tag body \<Rightarrow>
        (case body of
           None \<Rightarrow> (st, Inl MbfCorrupt001)
         | Some bs \<Rightarrow>
            (let etag = (case tag of Some t \<Rightarrow> trim_quotes t | None \<Rightarrow> []);
                 resolved = (if etag = [] then compute_etag H bs else etag)
             in (st\<lparr>cache := store_file now (safe_name key) bs (cache st)\<rparr>,
                 Inr (Some \<lparr>ob_bytes = bs, ob_etag = resolved\<rparr>))))
     | S3GetErr _ \<Rightarrow> (st, Inr None))"

definition s3_get_object ::
  "mbf_hashes \<Rightarrow> 'r s3_service \<Rightarrow> nat \<Rightarrow> 'r s3_store \<Rightarrow> string \<Rightarrow> 'r s3_store \<times> object_payload option res" where
  "s3_get_object H sv now st key =
    (case read_file (safe_name key) (cache st) of
       Some bs \<Rightarrow>
        (if is_valid_cached_mbf H key bs
         then (st, Inr (Some \<lparr>ob_bytes = bs, ob_etag = compute_etag H bs\<rparr>))
         else s3_get_remote H sv now (st\<lparr>cache := remove_file (safe_name key) (cache st)\<rparr>) key)
     | None \<Rightarrow> s3_get_remote H sv now st key)"

definition s3_get_if_none_match ::
  "mbf_hashes \<Rightarrow> 'r s3_service \<Rightarrow> nat \<Rightarrow> 'r s3_store \<Rightarrow> string \<Rightarrow> string \<Rightarrow> 'r s3_store \<times> conditional_get res" where
  "s3_get_if_none_match H sv now st key cached =
    (case fetch_partition_if_changed H sv now st key (Some cached) of
       (st1, Inr c) \<Rightarrow> (st1, Inr c)
     | (st1, Inl _) \<Rightarrow>
        (case s3_get_object H sv now st1 key of
           (st2, Inl e) \<Rightarrow> (st2, Inl e)
         | (st2, Inr None) \<Rightarrow> (st2, Inr NotFound)
         | (st2, Inr (Some p)) \<Rightarrow> (st2, Inr (if ob_etag p = cached then NotModified else Modified p))))"

definition range_header :: "nat \<Rightarrow> nat \<Rightarrow> string" where
  "range_header i j = ''bytes='' @ nat_str i @ ''-'' @ nat_str (j - 1)"

definition s3_get_byte_range ::
  "'r s3_service \<Rightarrow> nat \<Rightarrow> 'r s3_store \<Rightarrow> string \<Rightarrow> nat \<Rightarrow> nat \<Rightarrow> 'r s3_store \<times> bytes res" where
  "s3_get_byte_range sv now st key i j =
    (if i > j then (st, Inl MbfCorrupt001)
     else if i = j then (st, Inr [])
     else case (case read_file (slice_name key i j) (cache st) of
           Some b \<Rightarrow> if length b = j - i then Some b else None | None \<Rightarrow> None) of
         Some b \<Rightarrow> (st, Inr b)
       | None \<Rightarrow>
          (case read_file (safe_name key) (cache st) of
             Some full \<Rightarrow>
              (if length full < j then (st, Inl MbfCorrupt001)
               else let b = bslice i (j - i) full
                 in (st\<lparr>cache := write_file now (slice_name key i j) b (cache st)\<rparr>, Inr b))
           | None \<Rightarrow>
              (case sv_get sv (remote st) key None (Some (range_header i j)) of
                 S3Body _ (Some b) \<Rightarrow> (st\<lparr>cache := store_file now (slice_name key i j) b (cache st)\<rparr>, Inr b)
               | _ \<Rightarrow> (st, Inl MbfCorrupt001))))"

definition s3_put_if_match ::
  "mbf_hashes \<Rightarrow> 'r s3_service \<Rightarrow> nat \<Rightarrow> 'r s3_store \<Rightarrow> string \<Rightarrow> bytes \<Rightarrow> string option \<Rightarrow> 'r s3_store \<times> string res" where
  "s3_put_if_match H sv now st key bs expected =
    (if (case expected of Some e \<Rightarrow>
           (case read_file (safe_name key) (cache st) of Some old \<Rightarrow> compute_etag H old \<noteq> e | None \<Rightarrow> False)
         | None \<Rightarrow> False)
     then (st, Inl MbfCasConflict001)
     else let new_etag = compute_etag H bs;
              (r, resp) = sv_put sv (remote st) key bs (map_option quoted expected);
              kept = \<lparr>remote = r, cache = store_file now (safe_name key) bs (cache st)\<rparr>
       in case resp of
           S3Stored tag \<Rightarrow>
            (let s3_etag = map_option trim_quotes tag in
             (kept, Inr (case s3_etag of Some t \<Rightarrow> if t \<noteq> [] then t else new_etag | None \<Rightarrow> new_etag)))
         | S3PutErr status \<Rightarrow>
            (if status = Some 412
             then (\<lparr>remote = r, cache = remove_file (safe_name key) (cache st)\<rparr>, Inl MbfCasConflict001)
             else (kept, Inr new_etag)))"

section \<open>Lemmas on the cache\<close>

lemma map_of_filter_fst: "map_of (filter (\<lambda>f. P (fst f)) dir) n = (if P n then map_of dir n else None)"
  by (induction dir) auto

lemmas map_of_kept = map_of_filter_fst [of "\<lambda>n. n \<noteq> m" for m] map_of_filter_fst [of "\<lambda>n. n \<notin> A" for A]

lemma read_remove [simp]: "read_file n (remove_file m dir) = (if n = m then None else read_file n dir)"
  by (simp add: read_file_def remove_file_def map_of_kept)

lemma read_write [simp]: "read_file n (write_file now m bs dir) = (if n = m then Some bs else read_file n dir)"
  by (auto simp: write_file_def read_file_def map_add_def remove_file_def map_of_kept
      split: option.split)

lemma read_enforced:
  "read_file n (fst (enforce_nvme_cache_budget budget dir)) \<in> {None, read_file n dir}"
  by (auto simp: enforce_nvme_cache_budget_def Let_def read_file_def map_of_kept)

lemma read_store_file [simp]: "read_file n (store_file now n bs dir) = Some bs"
  by (simp add: store_file_def)

lemma dir_bytes_sum:
  assumes "sum_list (map file_len dir) < 2 ^ 64"
  shows "dir_bytes dir = sum_list (map file_len dir)"
proof -
  have "fold (\<lambda>f used. min (used + file_len f) (2 ^ 64 - 1)) dir n = n + sum_list (map file_len dir)"
    if "n + sum_list (map file_len dir) < 2 ^ 64" for n
    using that
  proof (induction dir arbitrary: n)
    case (Cons f dir)
    then have "min (n + file_len f) (2 ^ 64 - 1) = n + file_len f" by simp
    then show ?case using Cons.IH [of "n + file_len f"] Cons.prems by (simp add: add.assoc)
  qed simp
  then show ?thesis using assms by (simp add: dir_bytes_def)
qed

lemma evict_until_prefix:
  "\<exists>rest. fs = evict_until budget used fs @ rest
     \<and> (rest = [] \<or> used - sum_list (map file_len (evict_until budget used fs)) \<le> budget)"
proof (induction budget used fs rule: evict_until.induct)
  case (2 budget used f fs)
  then show ?case by (auto simp: diff_diff_left)
qed simp

lemma sum_list_filter_split:
  "sum_list (map g xs) = sum_list (map g (filter P xs)) + sum_list (map (g :: 'a \<Rightarrow> nat) (filter (\<lambda>x. \<not> P x) xs))"
  by (induction xs) simp_all

text \<open>The files that survive are the ones the eviction did not reach.\<close>

lemma enforce_budget:
  assumes "distinct (map fst dir)" "sum_list (map file_len dir) < 2 ^ 64"
    and "enforce_nvme_cache_budget budget dir = (dir', n)"
  obtains ev where "set dir' = set dir - set ev" "n = length ev" "set ev \<subseteq> {f \<in> set dir. \<not> is_idx_or_head f}"
    "sum_list (map file_len dir') + sum_list (map file_len ev) = sum_list (map file_len dir)"
    "sum_list (map file_len dir') \<le> budget \<or> (\<forall>f \<in> set dir'. is_idx_or_head f)"
    "\<forall>e \<in> set ev. \<forall>f \<in> set dir'. is_idx_or_head f \<or> fst (snd e) \<le> fst (snd f)"
proof (cases "dir_bytes dir \<le> budget")
  case True
  then show thesis using that [of "[]"] assms dir_bytes_sum [OF assms(2)]
    by (simp add: enforce_nvme_cache_budget_def)
next
  case False
  define fs where "fs = sort_key (\<lambda>f. fst (snd f)) (filter (\<lambda>f. \<not> is_idx_or_head f) dir)"
  define ev where "ev = evict_until budget (dir_bytes dir) fs"
  obtain rest where rest: "fs = ev @ rest"
    "rest = [] \<or> dir_bytes dir - sum_list (map file_len ev) \<le> budget"
    using evict_until_prefix unfolding ev_def by blast
  have fs: "set fs = {f \<in> set dir. \<not> is_idx_or_head f}" "distinct fs"
    using assms(1) by (auto simp: fs_def distinct_map)
  have ev: "set ev \<subseteq> set dir" "distinct ev" using rest(1) fs by auto
  have dir': "dir' = filter (\<lambda>f. fst f \<notin> fst ` set ev) dir" "n = length ev"
    using assms(3) False by (simp_all add: enforce_nvme_cache_budget_def Let_def ev_def fs_def)
  have names: "fst f \<in> fst ` set ev \<longleftrightarrow> f \<in> set ev" if "f \<in> set dir" for f
    using that ev(1) assms(1) inj_on_image_mem_iff [of fst "set dir" f "set ev"] by (simp add: distinct_map)
  have out: "filter (\<lambda>f. \<not> fst f \<notin> fst ` set ev) dir = filter (\<lambda>f. f \<in> set ev) dir"
    by (rule filter_cong [OF refl]) (simp add: names)
  have "mset (filter (\<lambda>f. f \<in> set ev) dir) = mset ev"
    using ev assms(1) by (intro set_eq_iff_mset_eq_distinct [THEN iffD1]) (auto simp: distinct_map)
  then have evsum: "sum_list (map file_len (filter (\<lambda>f. f \<in> set ev) dir)) = sum_list (map file_len ev)"
    by (metis mset_map sum_mset_sum_list)
  have sum: "sum_list (map file_len dir') + sum_list (map file_len ev) = sum_list (map file_len dir)"
    using sum_list_filter_split [of file_len dir "\<lambda>f. fst f \<notin> fst ` set ev"] out evsum dir'(1) by simp
  have mem: "set dir' = set dir - set ev" using dir'(1) names by auto
  show thesis
  proof (rule that [OF mem dir'(2) _ sum])
    show "set ev \<subseteq> {f \<in> set dir. \<not> is_idx_or_head f}" using rest(1) fs(1) by auto
    show "sum_list (map file_len dir') \<le> budget \<or> (\<forall>f \<in> set dir'. is_idx_or_head f)"
      using rest dir_bytes_sum [OF assms(2)] sum mem fs(1) by auto
    have "fst (snd e) \<le> fst (snd f)" if "e \<in> set ev" "f \<in> set dir'" "\<not> is_idx_or_head f" for e f
    proof -
      have "f \<in> set rest" using that mem fs(1) rest(1) by auto
      moreover have "sorted (map (\<lambda>f. fst (snd f)) (ev @ rest))" using rest(1) sorted_sort_key fs_def by metis
      ultimately show ?thesis using that(1) by (auto simp: sorted_append)
    qed
    then show "\<forall>e \<in> set ev. \<forall>f \<in> set dir'. is_idx_or_head f \<or> fst (snd e) \<le> fst (snd f)" by blast
  qed
qed

section \<open>Lemmas on the methods\<close>

lemma trim_quoted:
  assumes "CHR 0x22 \<notin> set t"
  shows "trim_quotes (quoted t) = t"
proof -
  have keep: "dropWhile (\<lambda>c. c = CHR 0x22) u = u" if "CHR 0x22 \<notin> set u" for u
    using that by (cases u) auto
  have "dropWhile (\<lambda>c. c = CHR 0x22) (t @ [CHR 0x22]) = (if t = [] then [] else t @ [CHR 0x22])"
    using assms by (cases t) auto
  then show ?thesis using keep [of "rev t"] assms by (simp add: trim_quotes_def quoted_def)
qed

lemma slice_name_other: "slice_name key i j \<noteq> safe_name key"
  by (simp add: slice_name_def)

lemma put_none_unconditional:
  assumes "sv_put sv (remote st) key bs None = (r, resp)" "resp \<noteq> S3PutErr (Some 412)"
  shows "\<exists>t. snd (s3_put_if_match H sv now st key bs None) = Inr t"
    "remote (fst (s3_put_if_match H sv now st key bs None)) = r"
  using assms by (auto simp: s3_put_if_match_def Let_def split: s3_put_result.split)

lemma put_ok_cached:
  assumes "s3_put_if_match H sv now st key bs expected = (st1, Inr t)"
  shows "read_file (safe_name key) (cache st1) = Some bs"
  using assms by (auto simp: s3_put_if_match_def Let_def split: if_splits prod.splits s3_put_result.splits)

section \<open>Properties\<close>

text \<open>The cache budget. After it was enforced the directory is within the budget or holds only index
  and HOT_HEAD files; those are never evicted, the evicted files are counted, and none of them is
  younger than a file of the same kind that stays.\<close>

theorem cache_budget_enforced:
  assumes "distinct (map fst dir)" "sum_list (map file_len dir) < 2 ^ 64"
    and "enforce_nvme_cache_budget budget dir = (dir', n)"
  shows "(sum_list (map file_len dir') \<le> budget \<or> (\<forall>f \<in> set dir'. is_idx_or_head f))
    \<and> set dir' \<subseteq> set dir \<and> (\<forall>f \<in> set dir. is_idx_or_head f \<longrightarrow> f \<in> set dir')
    \<and> (\<forall>e \<in> set dir - set dir'. \<forall>f \<in> set dir'. is_idx_or_head f \<or> fst (snd e) \<le> fst (snd f))
    \<and> (sum_list (map file_len dir) \<le> budget \<longrightarrow> dir' = dir \<and> n = 0)"
proof -
  obtain ev where ev: "set dir' = set dir - set ev" "n = length ev" "set ev \<subseteq> {f \<in> set dir. \<not> is_idx_or_head f}"
    "sum_list (map file_len dir') + sum_list (map file_len ev) = sum_list (map file_len dir)"
    "sum_list (map file_len dir') \<le> budget \<or> (\<forall>f \<in> set dir'. is_idx_or_head f)"
    "\<forall>e \<in> set ev. \<forall>f \<in> set dir'. is_idx_or_head f \<or> fst (snd e) \<le> fst (snd f)"
    by (rule enforce_budget [OF assms])
  have small: "sum_list (map file_len dir) \<le> budget \<longrightarrow> dir' = dir \<and> n = 0"
    using assms(3) dir_bytes_sum [OF assms(2)] by (auto simp: enforce_nvme_cache_budget_def)
  have "\<forall>e \<in> set dir - set dir'. \<forall>f \<in> set dir'. is_idx_or_head f \<or> fst (snd e) \<le> fst (snd f)"
    using ev(1,6) by simp
  moreover have "\<forall>f \<in> set dir. is_idx_or_head f \<longrightarrow> f \<in> set dir'" using ev(1,3) by auto
  moreover have "set dir' \<subseteq> set dir" using ev(1) by simp
  ultimately show ?thesis using ev(5) small by (intro conjI)
qed

theorem cache_budget_enforced_witness:
  "set (fst (enforce_nvme_cache_budget 3 [(''a.slice'', 9, [1, 2]), (''b.slice'', 4, [3, 4]), (''c.idx'', 1, [5])]))
    = {(''a.slice'', 9, [1, 2]), (''c.idx'', 1, [5])}"
proof -
  let ?dir = "[(''a.slice'', 9, [1, 2]), (''b.slice'', 4, [3, 4]), (''c.idx'', 1, [5])] :: cache_dir"
  have "enforce_nvme_cache_budget 3 ?dir = ([(''a.slice'', 9, [1, 2]), (''c.idx'', 1, [5])], 1)" by code_simp
  moreover from this have "set (fst (enforce_nvme_cache_budget 3 ?dir)) \<subseteq> set ?dir"
    using cache_budget_enforced [of ?dir 3] by (simp add: file_len_def)
  ultimately show ?thesis by simp
qed

text \<open>A failed write is reported as a success. When the service answers a conditional write with any
  error but 412, the store answers with a tag, keeps the bytes in its cache, and the next read of the
  key returns them, although the remote object never changed.\<close>

theorem failed_put_reported_ok:
  assumes "sv_put sv (remote st) key bs (map_option quoted expected) = (remote st, S3PutErr status)"
    and "status \<noteq> Some 412" "is_valid_cached_mbf H key bs"
    and "\<And>e old. expected = Some e \<Longrightarrow> read_file (safe_name key) (cache st) = Some old \<Longrightarrow> compute_etag H old = e"
    and "s3_put_if_match H sv now st key bs expected = (st1, r)"
  shows "r = Inr (compute_etag H bs) \<and> remote st1 = remote st
    \<and> s3_get_object H sv now' st1 key = (st1, Inr (Some \<lparr>ob_bytes = bs, ob_etag = compute_etag H bs\<rparr>))"
proof -
  have pass: "\<not> (case expected of Some e \<Rightarrow>
      (case read_file (safe_name key) (cache st) of Some old \<Rightarrow> compute_etag H old \<noteq> e | None \<Rightarrow> False)
      | None \<Rightarrow> False)"
    using assms(4) by (auto split: option.splits)
  have st1: "st1 = \<lparr>remote = remote st, cache = store_file now (safe_name key) bs (cache st)\<rparr>"
    and r: "r = Inr (compute_etag H bs)"
    using assms(1,2,5) pass unfolding s3_put_if_match_def by (simp_all add: Let_def)
  then show ?thesis using assms(3) by (simp add: s3_get_object_def)
qed

definition toy_service :: "object_payload s3_service" where
  "toy_service = \<lparr>sv_get = \<lambda>p _ _ _. S3Body (Some (quoted (ob_etag p))) (Some (ob_bytes p)),
     sv_put = \<lambda>p _ bs cond. if cond = None \<or> cond = Some (quoted (ob_etag p))
       then (\<lparr>ob_bytes = bs, ob_etag = ''md5''\<rparr>, S3Stored (Some (quoted ''md5'')))
       else (p, S3PutErr (Some 412))\<rparr>"

definition down_service :: "unit s3_service" where
  "down_service = \<lparr>sv_get = \<lambda>_ _ _ _. S3GetErr None, sv_put = \<lambda>_ _ _ _. ((), S3PutErr (Some 503))\<rparr>"

theorem failed_put_reported_ok_witness:
  "\<exists>st1. s3_put_if_match toy_hashes down_service 5 \<lparr>remote = (), cache = []\<rparr> ''k.txt'' [1, 2] None
      = (st1, Inr (compute_etag toy_hashes [1, 2]))
    \<and> s3_get_object toy_hashes down_service 6 st1 ''k.txt''
      = (st1, Inr (Some \<lparr>ob_bytes = [1, 2], ob_etag = compute_etag toy_hashes [1, 2]\<rparr>))"
proof -
  obtain st1 r where run: "s3_put_if_match toy_hashes down_service 5 \<lparr>remote = (), cache = []\<rparr> ''k.txt'' [1, 2] None
      = (st1, r)"
    by fastforce
  have "is_valid_cached_mbf toy_hashes ''k.txt'' [1, 2]" by (simp add: is_valid_cached_mbf_def ends_with_def)
  then show ?thesis
    using failed_put_reported_ok [OF _ _ _ _ run, of "Some 503" 6] run by (simp add: down_service_def)
qed


lemma toy_tag_other: "compute_etag toy_hashes x \<noteq> ''md5''"
proof
  assume "compute_etag toy_hashes x = ''md5''"
  then have "length (compute_etag toy_hashes x) = 3" by simp
  moreover have "length (hex_encode bs) = 2 * length bs" for bs
    by (induction bs) (simp_all add: hex_encode_def)
  ultimately show False using toy_hashes_ok(1) by (simp add: compute_etag_def hashes_ok_def)
qed


text \<open>Two keys that differ only in slashes, backslashes, colons and underscores share a cache file:
  after one of them was written, the store answers a read of the other with the bytes of the first,
  without asking the service.\<close>

theorem cache_names_collide:
  assumes "safe_name key = safe_name key'" "is_valid_cached_mbf H key' bs"
    and "s3_put_if_match H sv now st key bs expected = (st1, Inr t)"
  shows "s3_get_object H sv now' st1 key' = (st1, Inr (Some \<lparr>ob_bytes = bs, ob_etag = compute_etag H bs\<rparr>))"
  using put_ok_cached [OF assms(3)] assms(1,2) by (simp add: s3_get_object_def)

theorem cache_names_collide_witness:
  "\<exists>st1 t. s3_put_if_match toy_hashes down_service 5 \<lparr>remote = (), cache = []\<rparr> ''e/order/item_1'' [7] None = (st1, Inr t)
    \<and> s3_get_object toy_hashes down_service 6 st1 ''e/order_item/1''
      = (st1, Inr (Some \<lparr>ob_bytes = [7], ob_etag = compute_etag toy_hashes [7]\<rparr>))"
proof -
  obtain st1 t where put: "s3_put_if_match toy_hashes down_service 5 \<lparr>remote = (), cache = []\<rparr> ''e/order/item_1'' [7] None
      = (st1, Inr t)"
    by (simp add: s3_put_if_match_def down_service_def)
  have "safe_name ''e/order/item_1'' = safe_name ''e/order_item/1''" by (simp add: safe_name_def)
  moreover have "is_valid_cached_mbf toy_hashes ''e/order_item/1'' [7]"
    by (simp add: is_valid_cached_mbf_def ends_with_def)
  ultimately show ?thesis using cache_names_collide [OF _ _ put] put by blast
qed

text \<open>A range read does not see a later write. A slice cached under its range is returned as it is
  after the object was overwritten through the same store, as long as the cache has room.\<close>

theorem range_read_stale:
  assumes "s3_get_byte_range sv now st key i j = (st1, Inr old)" "i < j" "length old = j - i"
    and "read_file (slice_name key i j) (cache st1) = Some old"
    and "dir_bytes (cache st1) \<le> MBF_NVME_CACHE_BUDGET_BYTES"
    and "s3_put_if_match H sv now' st1 key bs expected = (st2, Inr t)"
  shows "s3_get_byte_range sv now'' st2 key i j = (st2, Inr old)"
proof -
  have "read_file (slice_name key i j) (cache st2) = Some old"
    using assms(4-6) slice_name_other [of key i j]
    by (auto simp: s3_put_if_match_def Let_def store_file_def enforce_nvme_cache_budget_def
        split: if_splits prod.splits s3_put_result.splits)
  then show ?thesis using assms(2,3) by (simp add: s3_get_byte_range_def)
qed

theorem range_read_stale_witness:
  "\<exists>st1 st2 t. s3_get_byte_range toy_service 1
        \<lparr>remote = \<lparr>ob_bytes = [4, 5], ob_etag = ''md5''\<rparr>, cache = [(''k'', 0, [4, 5])]\<rparr> ''k'' 0 1 = (st1, Inr [4])
    \<and> s3_put_if_match toy_hashes toy_service 2 st1 ''k'' [6, 6] None = (st2, Inr t)
    \<and> s3_get_byte_range toy_service 3 st2 ''k'' 0 1 = (st2, Inr [4])"
proof -
  let ?st = "\<lparr>remote = \<lparr>ob_bytes = [4, 5], ob_etag = ''md5''\<rparr>, cache = [(''k'', 0, [4, 5])]\<rparr>"
  let ?slice = "slice_name ''k'' 0 1"
  have names: "safe_name ''k'' = ''k''" "?slice \<noteq> ''k''" using slice_name_other [of "''k''" 0 1] by (simp_all add: safe_name_def)
  define st1 where "st1 = ?st\<lparr>cache := write_file 1 ?slice [4] [(''k'', 0, [4, 5])]\<rparr>"
  have get: "s3_get_byte_range toy_service 1 ?st ''k'' 0 1 = (st1, Inr [4])"
    using names by (simp add: s3_get_byte_range_def st1_def read_file_def bslice_def Let_def)
  have cached: "read_file ?slice (cache st1) = Some [4]" by (simp add: st1_def)
  have small: "dir_bytes (cache st1) \<le> MBF_NVME_CACHE_BUDGET_BYTES"
    using names by (simp add: st1_def dir_bytes_def write_file_def remove_file_def file_len_def
        MBF_NVME_CACHE_BUDGET_BYTES_def)
  obtain st2 t where put: "s3_put_if_match toy_hashes toy_service 2 st1 ''k'' [6, 6] None = (st2, Inr t)"
    by (simp add: s3_put_if_match_def toy_service_def)
  show ?thesis using range_read_stale [OF get _ _ cached small put] get put by auto
qed

end
