(* ===== verification/MbfReplica.thy ===== *)
theory MbfReplica
  imports MbfS3Store MbfStoreCorrect
begin

text \<open>Replication of a partition over S3 (\<^verbatim>\<open>sync_from_s3\<close>, \<^verbatim>\<open>flush_to_s3\<close> and the operations between
  them, \<^verbatim>\<open>src/mbf/storage.rs\<close>). A replica is a partition store and its S3 store; other replicas act
  on the remote service only. \<^const>\<open>None\<close> is a panic of a decoder. The files a flush writes per
  entity, cell and tenant (\<^verbatim>\<open>append_entity_flush_files\<close>, the synopses and the search zones) are the
  argument \<^verbatim>\<open>extra\<close>; the read caches and the full-text corpora that a sync evicts are not part of the
  state. The in-process lock of a table serialises the flushes of one process only.\<close>

record flush_env =
  fe_hashes :: mbf_hashes
  fe_config :: engine_config
  fe_compress :: "bytes \<Rightarrow> bytes"
  fe_decompress :: "bytes \<Rightarrow> bytes option"
  fe_prefix :: string
  fe_extra :: "partition_store \<Rightarrow> (string \<times> string \<times> string) set \<Rightarrow> (string \<times> bytes) list"

definition vortex_s3_key :: "flush_env \<Rightarrow> string \<Rightarrow> string" where
  "vortex_s3_key E table = fe_prefix E @ ''/vortex/'' @ table @ ''.mbf''"

definition decode_vortex :: "flush_env \<Rightarrow> bytes \<Rightarrow> partition_snapshot res option" where
  "decode_vortex E bs = (case decode_mbf_envelope (fe_hashes E) bs of
     None \<Rightarrow> None
   | Some (Inl e) \<Rightarrow> Some (Inl e)
   | Some (Inr (_, raw)) \<Rightarrow> snapshot_decode (fe_decompress E) raw)"

section \<open>Synchronisation\<close>

type_synonym 'r replica = "'r s3_store \<times> partition_store"

text \<open>The clock of a call: the cache files' times and the milliseconds.\<close>

definition sync_from_s3_inner ::
  "flush_env \<Rightarrow> 'r s3_service \<Rightarrow> nat \<Rightarrow> int \<Rightarrow> string \<Rightarrow> bool \<Rightarrow> 'r replica \<Rightarrow> ('r replica \<times> unit res) option" where
  "sync_from_s3_inner E sv t now table force rep = (case rep of (st, part) \<Rightarrow>
     if 0 < bulk_depth part then Some (rep, Inr ())
     else if \<not> force \<and> last_s3_etag part \<noteq> None \<and> i64 (now - last_sync_ms part) < 200 then Some (rep, Inr ())
     else case fetch_partition_if_changed (fe_hashes E) sv t st (vortex_s3_key E table) (last_s3_etag part) of
         (st1, Inl e) \<Rightarrow> Some ((st1, part), Inl e)
       | (st1, Inr NotModified) \<Rightarrow> Some ((st1, part\<lparr>last_sync_ms := now\<rparr>), Inr ())
       | (st1, Inr NotFound) \<Rightarrow>
          (if last_s3_etag part \<noteq> None
           then Some ((st1, store_default\<lparr>bulk_depth := bulk_depth part, last_sync_ms := now\<rparr>), Inr ())
           else Some ((st1, part\<lparr>last_sync_ms := now\<rparr>), Inr ()))
       | (st1, Inr (Modified p)) \<Rightarrow>
          (case decode_vortex E (ob_bytes p) of
             None \<Rightarrow> None
           | Some (Inl _) \<Rightarrow> Some ((st1, part), Inr ())
           | Some (Inr snap) \<Rightarrow> Some ((st1, apply_wire_snapshot snap (ob_etag p) now part), Inr ())))"

text \<open>\<^verbatim>\<open>sync_from_s3\<close> makes the same two tests before it takes the lock of the table.\<close>

definition sync_from_s3 ::
  "flush_env \<Rightarrow> 'r s3_service \<Rightarrow> nat \<Rightarrow> int \<Rightarrow> string \<Rightarrow> bool \<Rightarrow> 'r replica \<Rightarrow> ('r replica \<times> unit res) option" where
  "sync_from_s3 E sv t now table force rep = (case rep of (st, part) \<Rightarrow>
     if 0 < bulk_depth part then Some (rep, Inr ())
     else if \<not> force \<and> last_s3_etag part \<noteq> None \<and> i64 (now - last_sync_ms part) < 200 then Some (rep, Inr ())
     else sync_from_s3_inner E sv t now table force rep)"

definition apply_remote_vortex_envelope ::
  "flush_env \<Rightarrow> bytes \<Rightarrow> string \<Rightarrow> int \<Rightarrow> partition_store \<Rightarrow> (partition_store \<times> unit res) option" where
  "apply_remote_vortex_envelope E bs etag now part = (case decode_vortex E bs of
     None \<Rightarrow> None
   | Some (Inl e) \<Rightarrow> Some (part, Inl e)
   | Some (Inr snap) \<Rightarrow> Some (apply_wire_snapshot snap etag now part, Inr ()))"

section \<open>Flushing\<close>

definition serialize_flush_artifacts ::
  "flush_env \<Rightarrow> int \<Rightarrow> string \<Rightarrow> partition_store \<Rightarrow> partition_store \<times> (bytes \<times> (string \<times> bytes) list) res" where
  "serialize_flush_artifacts E now table part =
    (let dirty = dirty_entities part;
         part1 = part\<lparr>dirty_entities := {}, epoch_id := epoch_id part + 1\<rparr>;
         snap = to_wire_snapshot part1
     in (part1, rbind (encode_mbf_envelope (fe_hashes E) (fe_config E) (word_of_int now) 0
           (of_nat (length (ps_items snap))) (epoch_id part1) ''system'' table
           (snapshot_encode (fe_compress E) snap)) (\<lambda>vortex. Inr (vortex, fe_extra E part1 dirty))))"

definition put_all ::
  "flush_env \<Rightarrow> 'r s3_service \<Rightarrow> nat \<Rightarrow> (string \<times> bytes) list \<Rightarrow> 'r s3_store \<Rightarrow> 'r s3_store" where
  "put_all E sv t files st = fold (\<lambda>(k, b) st. fst (put_raw_mbf (fe_hashes E) sv t st k b)) files st"

definition flush_to_s3 ::
  "flush_env \<Rightarrow> 'r s3_service \<Rightarrow> nat \<Rightarrow> int \<Rightarrow> string \<Rightarrow> (string \<times> string \<times> string) list \<Rightarrow> 'r replica
    \<Rightarrow> ('r replica \<times> unit res) option" where
  "flush_to_s3 E sv t now table touched rep = (case rep of (st, part0) \<Rightarrow>
     let part = flush_local touched part0 in
     if 0 < bulk_depth part then Some ((st, part), Inr ())
     else case sync_from_s3_inner E sv t now table True (st, part) of
         None \<Rightarrow> None
       | Some (rep1, Inl e) \<Rightarrow> Some (rep1, Inl e)
       | Some ((st1, part1), Inr _) \<Rightarrow>
          (if 0 < bulk_depth part1 then Some ((st1, part1), Inr ())
           else case serialize_flush_artifacts E now table part1 of
             (part2, Inl e) \<Rightarrow> Some ((st1, part2), Inl e)
           | (part2, Inr (vortex, files)) \<Rightarrow>
              (case put_raw_mbf (fe_hashes E) sv t st1 (vortex_s3_key E table) vortex of
                 (st2, Inl e) \<Rightarrow> Some ((st2, part2), Inl e)
               | (st2, Inr etag) \<Rightarrow>
                  Some ((put_all E sv t files st2, part2\<lparr>last_s3_etag := Some etag, last_sync_ms := now\<rparr>), Inr ()))))"

definition begin_bulk_s3_batch ::
  "flush_env \<Rightarrow> 'r s3_service \<Rightarrow> nat \<Rightarrow> int \<Rightarrow> string \<Rightarrow> 'r replica \<Rightarrow> ('r replica \<times> unit res) option" where
  "begin_bulk_s3_batch E sv t now table rep = (case sync_from_s3_inner E sv t now table True rep of
     None \<Rightarrow> None
   | Some (rep1, Inl e) \<Rightarrow> Some (rep1, Inl e)
   | Some ((st1, part1), Inr _) \<Rightarrow> Some ((st1, part1\<lparr>bulk_depth := bulk_depth part1 + 1\<rparr>), Inr ()))"

definition finish_bulk_s3_batch ::
  "flush_env \<Rightarrow> 'r s3_service \<Rightarrow> nat \<Rightarrow> int \<Rightarrow> string \<Rightarrow> 'r replica \<Rightarrow> ('r replica \<times> unit res) option" where
  "finish_bulk_s3_batch E sv t now table rep = (case rep of (st, part) \<Rightarrow>
     let part1 = part\<lparr>bulk_depth := bulk_depth part - 1\<rparr> in
     if bulk_depth part1 = 0 then flush_to_s3 E sv t now table [] (st, part1) else Some ((st, part1), Inr ()))"

section \<open>Replicated operations\<close>

text \<open>A write is a forced sync, the change in memory, and a flush. The remote object may change between
  the two accesses to it: \<^verbatim>\<open>interfere\<close> is what the other replicas do to the service meanwhile.\<close>

definition with_remote :: "('r \<Rightarrow> 'r) \<Rightarrow> 'r replica \<Rightarrow> 'r replica" where
  "with_remote g rep = (case rep of (st, part) \<Rightarrow> (st\<lparr>remote := g (remote st)\<rparr>, part))"

definition replicated_write ::
  "flush_env \<Rightarrow> 'r s3_service \<Rightarrow> nat \<Rightarrow> int \<Rightarrow> string \<Rightarrow> ('r \<Rightarrow> 'r) \<Rightarrow> (partition_store \<Rightarrow> partition_store res)
    \<Rightarrow> 'r replica \<Rightarrow> ('r replica \<times> unit res) option" where
  "replicated_write E sv t now table interfere change rep =
    (case sync_from_s3 E sv t now table True rep of
       None \<Rightarrow> None
     | Some (rep1, Inl e) \<Rightarrow> Some (rep1, Inl e)
     | Some ((st1, part1), Inr _) \<Rightarrow>
        (case change part1 of
           Inl e \<Rightarrow> Some ((st1, part1), Inl e)
         | Inr part2 \<Rightarrow> flush_to_s3 E sv t now table [] (with_remote interfere (st1, part2))))"

definition replica_put_item ::
  "flush_env \<Rightarrow> 'r s3_service \<Rightarrow> nat \<Rightarrow> int \<Rightarrow> string \<Rightarrow> ('r \<Rightarrow> 'r) \<Rightarrow> item \<Rightarrow> 'r replica
    \<Rightarrow> ('r replica \<times> unit res) option" where
  "replica_put_item E sv t now table interfere it = replicated_write E sv t now table interfere (put_item_op it)"

definition replica_delete_item ::
  "flush_env \<Rightarrow> 'r s3_service \<Rightarrow> nat \<Rightarrow> int \<Rightarrow> string \<Rightarrow> ('r \<Rightarrow> 'r) \<Rightarrow> string \<Rightarrow> bytes option \<Rightarrow> 'r replica
    \<Rightarrow> ('r replica \<times> unit res) option" where
  "replica_delete_item E sv t now table interfere pk sk =
     replicated_write E sv t now table interfere (\<lambda>s. Inr (delete_item pk sk s))"

definition replica_transact_write ::
  "flush_env \<Rightarrow> 'r s3_service \<Rightarrow> nat \<Rightarrow> int \<Rightarrow> string \<Rightarrow> ('r \<Rightarrow> 'r) \<Rightarrow> put option list \<Rightarrow> 'r replica
    \<Rightarrow> ('r replica \<times> unit res) option" where
  "replica_transact_write E sv t now table interfere txs rep =
     (if txs = [] then Some (rep, Inr ())
      else replicated_write E sv t now table interfere (transact_store txs) rep)"

definition replica_get_item ::
  "flush_env \<Rightarrow> 'r s3_service \<Rightarrow> nat \<Rightarrow> int \<Rightarrow> string \<Rightarrow> string \<Rightarrow> bytes option \<Rightarrow> 'r replica
    \<Rightarrow> ('r replica \<times> item option res) option" where
  "replica_get_item E sv t now table pk sk rep =
    (case sync_from_s3 E sv t now table False rep of
       None \<Rightarrow> None
     | Some (rep1, Inl e) \<Rightarrow> Some (rep1, Inl e)
     | Some ((st1, part1), Inr _) \<Rightarrow> Some ((st1, part1), Inr (get_item pk sk part1)))"

section \<open>What a flush uploads\<close>

text \<open>The documented behaviour of the service, when it accepts writes: an unconditional write stores the
  object, a plain read returns it. \<^verbatim>\<open>obj\<close> is the object under a key.\<close>

definition s3_puts :: "'r s3_service \<Rightarrow> ('r \<Rightarrow> string \<Rightarrow> bytes option) \<Rightarrow> bool" where
  "s3_puts sv obj \<longleftrightarrow> (\<forall>r k b. obj (fst (sv_put sv r k b None)) = (obj r)(k \<mapsto> b))"

definition s3_gets :: "'r s3_service \<Rightarrow> ('r \<Rightarrow> string \<Rightarrow> bytes option) \<Rightarrow> bool" where
  "s3_gets sv obj \<longleftrightarrow> (\<forall>r k b. obj r k = Some b \<longrightarrow> (\<exists>tag. sv_get sv r k None None = S3Body tag (Some b)))"

definition flush_env_ok :: "flush_env \<Rightarrow> string \<Rightarrow> bool" where
  "flush_env_ok E table \<longleftrightarrow> hashes_ok (fe_hashes E) \<and> (\<forall>x. fe_decompress E (fe_compress E x) = Some x)
     \<and> (\<forall>s d. vortex_s3_key E table \<notin> fst ` set (fe_extra E s d))"

definition small_snapshot :: "flush_env \<Rightarrow> partition_snapshot \<Rightarrow> bool" where
  "small_snapshot E snap \<longleftrightarrow> snapshot_ok snap \<and> length (fe_compress E (snapshot_raw snap)) < 2 ^ 60"

lemma put_raw_remote:
  "remote (fst (put_raw_mbf H sv t st k b)) = fst (sv_put sv (remote st) k b None)"
  "\<exists>e. snd (put_raw_mbf H sv t st k b) = Inr e"
  by (simp_all add: put_raw_mbf_def Let_def split: prod.split s3_put_result.split option.split)

lemma put_all_keeps:
  assumes "s3_puts sv obj" "k \<notin> fst ` set files"
  shows "obj (remote (put_all E sv t files st)) k = obj (remote st) k"
  using assms(2)
proof (induction files arbitrary: st)
  case (Cons f files)
  then show ?case using assms(1) by (cases f) (simp add: put_all_def put_raw_remote s3_puts_def)
qed (simp add: put_all_def)

lemma length_snapshot_encode: "length (snapshot_encode compress snap) \<le> length (compress (snapshot_raw snap)) + 80"
proof -
  have "length (pad_to_64 x) \<le> length x + 64" for x by (simp add: pad_to_64_def Let_def)
  from this [of "SNAP_MAGIC @ le_bytes 8 (length (compress (snapshot_raw snap))) @ compress (snapshot_raw snap)"]
  show ?thesis by (simp add: snapshot_encode_def frame_write_def Let_def)
qed

lemma decode_vortex_encoded:
  assumes "flush_env_ok E table" "small_snapshot E snap"
    and "encode_mbf_envelope (fe_hashes E) (fe_config E) w 0 rows epoch ''system'' table
        (snapshot_encode (fe_compress E) snap) = Inr blob"
  shows "decode_vortex E blob = Some (Inr snap)"
proof -
  have "length (snapshot_encode (fe_compress E) snap) < 2 ^ 61"
    using assms(2) length_snapshot_encode [of "fe_compress E" snap] by (simp add: small_snapshot_def)
  then have "decode_mbf_envelope (fe_hashes E) blob = Some (Inr (envelope_header (fe_hashes E) w 0 rows epoch ''system'' table,
      snapshot_encode (fe_compress E) snap))"
    using envelope_roundtrip assms(1,3) by (simp add: flush_env_ok_def)
  moreover have "snapshot_decode (fe_decompress E) (snapshot_encode (fe_compress E) snap) = Some (Inr snap)"
    using assms(1,2) by (intro snapshot_decode_encode) (simp_all add: flush_env_ok_def small_snapshot_def)
  ultimately show ?thesis by (simp add: decode_vortex_def)
qed

lemma to_wire_marks [simp]:
  "to_wire_snapshot (s\<lparr>last_s3_etag := e, last_sync_ms := n\<rparr>) = to_wire_snapshot s"
  "exported_key (s\<lparr>last_s3_etag := e, last_sync_ms := n\<rparr>) = exported_key s"
  by (simp_all add: to_wire_snapshot_def exported_key_def fun_eq_iff)

lemma flush_result:
  assumes "flush_to_s3 E sv t now table touched (st, part) = Some ((st', part'), Inr ())" "bulk_depth part = 0"
  obtains st1 part1 where
    "sync_from_s3_inner E sv t now table True (st, flush_local touched part) = Some ((st1, part1), Inr ())"
    "0 < bulk_depth part1 \<and> st' = st1 \<and> part' = part1 \<or>
     (\<exists>vortex files etag st2. encode_mbf_envelope (fe_hashes E) (fe_config E) (word_of_int now) 0
           (of_nat (length (ps_items (to_wire_snapshot part')))) (epoch_id part') ''system'' table
           (snapshot_encode (fe_compress E) (to_wire_snapshot part')) = Inr vortex
        \<and> put_raw_mbf (fe_hashes E) sv t st1 (vortex_s3_key E table) vortex = (st2, Inr etag)
        \<and> (\<exists>d. files = fe_extra E (part1\<lparr>dirty_entities := {}, epoch_id := epoch_id part1 + 1\<rparr>) d)
        \<and> st' = put_all E sv t files st2
        \<and> part' = part1\<lparr>dirty_entities := {}, epoch_id := epoch_id part1 + 1, last_s3_etag := Some etag, last_sync_ms := now\<rparr>)"
proof -
  have depth: "\<not> 0 < bulk_depth (flush_local touched part)" using assms(2) by (simp add: flush_local_def)
  obtain st1 part1 where s: "sync_from_s3_inner E sv t now table True (st, flush_local touched part)
      = Some ((st1, part1), Inr ())"
    using assms(1) depth by (auto simp: flush_to_s3_def split: option.splits prod.splits sum.splits)
  show thesis
  proof (cases "0 < bulk_depth part1")
    case True
    then show thesis using that [OF s] assms(1) depth s by (simp add: flush_to_s3_def)
  next
    case False
    let ?p1 = "part1\<lparr>dirty_entities := {}, epoch_id := epoch_id part1 + 1\<rparr>"
    let ?enc = "encode_mbf_envelope (fe_hashes E) (fe_config E) (word_of_int now) 0
      (of_nat (length (ps_items (to_wire_snapshot ?p1)))) (epoch_id ?p1) ''system'' table
      (snapshot_encode (fe_compress E) (to_wire_snapshot ?p1))"
    have run: "(case serialize_flush_artifacts E now table part1 of
        (part2, Inl e) \<Rightarrow> Some ((st1, part2), Inl e)
      | (part2, Inr (vortex, files)) \<Rightarrow>
         (case put_raw_mbf (fe_hashes E) sv t st1 (vortex_s3_key E table) vortex of
            (st2, Inl e) \<Rightarrow> Some ((st2, part2), Inl e)
          | (st2, Inr etag) \<Rightarrow>
             Some ((put_all E sv t files st2, part2\<lparr>last_s3_etag := Some etag, last_sync_ms := now\<rparr>), Inr ())))
      = Some ((st', part'), Inr ())"
      using assms(1) depth s False by (simp add: flush_to_s3_def)
    show thesis
    proof (cases ?enc)
      case (Inl e)
      then show thesis using run by (simp add: serialize_flush_artifacts_def Let_def)
    next
      case (Inr vortex)
      obtain st2 etag where put: "put_raw_mbf (fe_hashes E) sv t st1 (vortex_s3_key E table) vortex = (st2, Inr etag)"
        using put_raw_remote(2) by (metis prod.collapse)
      have part': "part' = ?p1\<lparr>last_s3_etag := Some etag, last_sync_ms := now\<rparr>"
        and st': "st' = put_all E sv t (fe_extra E ?p1 (dirty_entities part1)) st2"
        using run Inr put by (simp_all add: serialize_flush_artifacts_def Let_def)
      have "to_wire_snapshot part' = to_wire_snapshot ?p1" "epoch_id part' = epoch_id ?p1" unfolding part' by simp_all
      with Inr put part' st' show thesis by (intro that [OF s] disjI2) auto
    qed
  qed
qed

lemma flush_uploads:
  assumes "flush_to_s3 E sv t now table touched (st, part) = Some ((st', part'), Inr ())"
    and "bulk_depth part = 0" "bulk_depth part' = 0"
    and "flush_env_ok E table" "s3_puts sv obj" "small_snapshot E (to_wire_snapshot part')"
  shows "\<exists>blob. obj (remote st') (vortex_s3_key E table) = Some blob
    \<and> decode_vortex E blob = Some (Inr (to_wire_snapshot part'))"
proof -
  obtain st1 part1 vortex files etag st2 d where f: "bulk_depth part1 = 0"
    "encode_mbf_envelope (fe_hashes E) (fe_config E) (word_of_int now) 0
       (of_nat (length (ps_items (to_wire_snapshot part')))) (epoch_id part') ''system'' table
       (snapshot_encode (fe_compress E) (to_wire_snapshot part')) = Inr vortex"
    "put_raw_mbf (fe_hashes E) sv t st1 (vortex_s3_key E table) vortex = (st2, Inr etag)"
    "files = fe_extra E (part1\<lparr>dirty_entities := {}, epoch_id := epoch_id part1 + 1\<rparr>) d"
    "st' = put_all E sv t files st2"
    by (rule flush_result [OF assms(1,2)]) (use assms(3) in auto)
  have "obj (remote st2) (vortex_s3_key E table) = Some vortex"
    using put_raw_remote(1) [of "fe_hashes E" sv t st1 "vortex_s3_key E table" vortex] f(3) assms(5)
    by (simp add: s3_puts_def)
  moreover have "vortex_s3_key E table \<notin> fst ` set files" using assms(4) f(4) by (simp add: flush_env_ok_def)
  ultimately have "obj (remote st') (vortex_s3_key E table) = Some vortex"
    using put_all_keeps [OF assms(5)] f(5) by metis
  then show ?thesis using decode_vortex_encoded [OF assms(4,6) f(2)] by blast
qed

section \<open>What a synchronisation does to the records\<close>

lemma apply_snapshot_items:
  "items (apply_wire_snapshot snap etag now s) = items (fold (merge_item (om_entries (items s) = [])
     (ps_epoch_id snap \<ge> epoch_id s)) (ps_items snap) (s\<lparr>epoch_id := max (epoch_id s) (ps_epoch_id snap)\<rparr>))"
  by (simp add: apply_wire_snapshot_def Let_def fold_frame [where f = merge_idem and g = items]
      fold_frame [where f = "merge_counter nw" and g = items for nw])

lemma bulk_depth_index [simp]:
  "bulk_depth (index_item k it s) = bulk_depth s" "bulk_depth (unindex_item k it s) = bulk_depth s"
  by (auto simp: index_item_def unindex_item_def index_secondary_only_def Let_def split: option.split)

lemma bulk_depth_merge:
  "bulk_depth (merge_item e nw r s) = bulk_depth s" "bulk_depth (merge_counter nw c s) = bulk_depth s"
  "bulk_depth (merge_idem i s) = bulk_depth s"
  by (auto simp: merge_item_def insert_indexed_def merge_counter_def merge_idem_def Let_def
      split: prod.split option.split)

lemma bulk_depth_apply [simp]: "bulk_depth (apply_wire_snapshot snap e n s) = bulk_depth s"
  by (simp add: apply_wire_snapshot_def Let_def bulk_depth_merge fold_frame [where g = bulk_depth])

lemma get_merge_item:
  "om_get (items (merge_item e nw (k, it) s)) j =
    (if j = k \<and> \<not> str_contains ''#FTS#'' (fst k) \<and> (e \<or> remote_wins nw (om_get (items s) k) it) then Some it
     else om_get (items s) j)"
  by (auto simp: merge_item_def Let_def)

lemma sync_keeps_absent:
  assumes "k \<notin> fst ` set (ps_items snap)"
  shows "om_get (items (apply_wire_snapshot snap etag now s)) k = om_get (items s) k"
proof -
  have "om_get (items (fold (merge_item e nw) rows u)) k = om_get (items u) k"
    if "k \<notin> fst ` set rows" for e nw rows u
    using that
  proof (induction rows arbitrary: u)
    case (Cons r rows)
    then show ?case by (cases r) (auto simp: get_merge_item)
  qed simp
  then show ?thesis using assms by (simp add: apply_snapshot_items)
qed

lemma sync_replaces:
  assumes "(k, old) \<in> set (ps_items snap)" "distinct (map fst (ps_items snap))" "\<not> str_contains ''#FTS#'' (fst k)"
    and "epoch_id s \<le> ps_epoch_id snap" "current_value old = None"
  shows "om_get (items (apply_wire_snapshot snap etag now s)) k = Some old"
proof -
  have win: "remote_wins True x old" for x
    using assms(5) by (cases x) (auto simp: remote_wins_def split: option.split)
  have "om_get (items (fold (merge_item e True) rows u)) k = Some old"
    if "(k, old) \<in> set rows" "distinct (map fst rows)" for e rows u
    using that
  proof (induction rows arbitrary: u)
    case (Cons r rows)
    obtain j it where r: "r = (j, it)" by (cases r)
    have later: "om_get (items (fold (merge_item e True) rows u)) k = om_get (items u) k" if "k \<notin> fst ` set rows" for u
      using that
    proof (induction rows arbitrary: u)
      case (Cons q rows)
      then show ?case by (cases q) (auto simp: get_merge_item)
    qed simp
    show ?case
    proof (cases "j = k")
      case True
      then have "it = old" "k \<notin> fst ` set rows" using Cons.prems r by (auto simp: image_iff)
      then show ?thesis using True r later win assms(3) by (simp add: get_merge_item)
    next
      case False
      then show ?thesis using Cons r by simp
    qed
  qed simp
  then show ?thesis using assms(1,2,4) by (simp add: apply_snapshot_items)
qed

lemma fetch_plain:
  assumes "s3_gets sv obj" "obj (remote st) key = Some b"
  obtains e where "fetch_partition_if_changed H sv t st key None
    = (st\<lparr>cache := write_file t (safe_name key) b (cache st)\<rparr>, Inr (Modified \<lparr>ob_bytes = b, ob_etag = e\<rparr>))"
proof -
  obtain tag where "sv_get sv (remote st) key None None = S3Body tag (Some b)"
    using assms unfolding s3_gets_def by blast
  then show thesis using that by (auto simp: fetch_partition_if_changed_def Let_def)
qed

lemma flush_succeeds:
  assumes "bulk_depth part = 0" "bulk_depth part1 = 0" "\<And>k m. h_hmac (fe_hashes E) k m \<noteq> None"
    and "sync_from_s3_inner E sv t now table True (st, flush_local touched part) = Some ((st1, part1), Inr ())"
  obtains st' etag where "flush_to_s3 E sv t now table touched (st, part) = Some ((st',
      part1\<lparr>dirty_entities := {}, epoch_id := epoch_id part1 + 1, last_s3_etag := Some etag, last_sync_ms := now\<rparr>),
      Inr ())"
proof -
  let ?p1 = "part1\<lparr>dirty_entities := {}, epoch_id := epoch_id part1 + 1\<rparr>"
  obtain vortex where "encode_mbf_envelope (fe_hashes E) (fe_config E) (word_of_int now) 0
      (of_nat (length (ps_items (to_wire_snapshot ?p1)))) (epoch_id ?p1) ''system'' table
      (snapshot_encode (fe_compress E) (to_wire_snapshot ?p1)) = Inr vortex"
    using encode_total [OF assms(3)] by blast
  moreover obtain st2 etag where "put_raw_mbf (fe_hashes E) sv t st1 (vortex_s3_key E table) vortex = (st2, Inr etag)"
    using put_raw_remote(2) by (metis prod.collapse)
  moreover have "\<not> 0 < bulk_depth (flush_local touched part)" using assms(1) by (simp add: flush_local_def)
  ultimately show thesis
    using that assms(2,4) by (simp add: flush_to_s3_def serialize_flush_artifacts_def Let_def)
qed

definition toy_flush_env :: flush_env where
  "toy_flush_env = \<lparr>fe_hashes = toy_hashes, fe_config = config_default, fe_compress = id, fe_decompress = Some,
     fe_prefix = ''m'', fe_extra = \<lambda>_ _. []\<rparr>"

definition map_service :: "(string \<Rightarrow> bytes option) s3_service" where
  "map_service = \<lparr>sv_get = \<lambda>r k _ _. (case r k of None \<Rightarrow> S3GetErr (Some 404) | Some b \<Rightarrow> S3Body None (Some b)),
     sv_put = \<lambda>r k b _. (r(k \<mapsto> b), S3Stored None)\<rparr>"

lemma toy_flush_ok:
  "flush_env_ok toy_flush_env table" "s3_puts map_service id" "s3_gets map_service id"
  "h_hmac (fe_hashes toy_flush_env) k m \<noteq> None"
  using toy_hashes_ok by (simp_all add: flush_env_ok_def toy_flush_env_def s3_puts_def s3_gets_def map_service_def)

text \<open>A flush of the toy replica onto a published snapshot.\<close>

lemma toy_flush:
  assumes "snapshot_ok snap" "length (snapshot_raw snap) < 2 ^ 60" "bulk_depth part = 0" "last_s3_etag part = None"
    and m0: "m0 = (apply_wire_snapshot snap [] 0 part)\<lparr>dirty_entities := {}, epoch_id := epoch_id part2\<rparr>"
    and "epoch_id (apply_wire_snapshot snap [] 0 part) + 1 = epoch_id part2"
    and "snapshot_ok (to_wire_snapshot m0)" "length (snapshot_raw (to_wire_snapshot m0)) < 2 ^ 60"
  obtains blob u e st' part' where "decode_vortex toy_flush_env blob = Some (Inr snap)"
    "fetch_partition_if_changed (fe_hashes toy_flush_env) map_service 1
        \<lparr>remote = [vortex_s3_key toy_flush_env ''t'' \<mapsto> blob], cache = []\<rparr> (vortex_s3_key toy_flush_env ''t'') None
      = (u, Inr (Modified \<lparr>ob_bytes = blob, ob_etag = e\<rparr>))"
    "flush_to_s3 toy_flush_env map_service 1 0 ''t'' []
        (\<lparr>remote = [vortex_s3_key toy_flush_env ''t'' \<mapsto> blob], cache = []\<rparr>, part) = Some ((st', part'), Inr ())"
    "bulk_depth part' = 0" "small_snapshot toy_flush_env (to_wire_snapshot part')" "exported_key part' = exported_key m0"
proof -
  let ?key = "vortex_s3_key toy_flush_env ''t''"
  obtain blob where enc: "encode_mbf_envelope (fe_hashes toy_flush_env) (fe_config toy_flush_env) 0 0 1 0 ''system'' ''t''
      (snapshot_encode (fe_compress toy_flush_env) snap) = Inr blob"
    using encode_total [OF toy_flush_ok(4)] by blast
  have dec: "decode_vortex toy_flush_env blob = Some (Inr snap)"
    using assms(1,2) by (intro decode_vortex_encoded [OF toy_flush_ok(1) _ enc]) (simp add: small_snapshot_def toy_flush_env_def)
  let ?st = "\<lparr>remote = [?key \<mapsto> blob], cache = []\<rparr> :: (string \<Rightarrow> bytes option) s3_store"
  obtain u e where fetch: "fetch_partition_if_changed (fe_hashes toy_flush_env) map_service 1 ?st ?key None
      = (u, Inr (Modified \<lparr>ob_bytes = blob, ob_etag = e\<rparr>))"
    using fetch_plain [OF toy_flush_ok(3), of ?st ?key blob] by (metis fun_upd_same id_apply s3_store.select_convs(1))
  let ?m = "apply_wire_snapshot snap e 0 part"
  have quiet: "flush_local [] part = part" by (simp add: flush_local_def)
  have sync: "sync_from_s3_inner toy_flush_env map_service 1 0 ''t'' True (?st, flush_local [] part) = Some ((u, ?m), Inr ())"
    using fetch dec assms(3,4) by (simp add: sync_from_s3_inner_def quiet)
  have retag: "x\<lparr>last_s3_etag := Some e, last_sync_ms := n\<rparr> = x\<lparr>last_s3_etag := Some [], last_sync_ms := n\<rparr>\<lparr>last_s3_etag := Some e\<rparr>"
    for x :: partition_store and n by (cases x) simp
  have m: "?m = (apply_wire_snapshot snap [] 0 part)\<lparr>last_s3_etag := Some e\<rparr>"
    unfolding apply_wire_snapshot_def Let_def by (rule retag)
  have depth: "bulk_depth ?m = 0" by (simp add: assms(3))
  obtain st' etag where flush: "flush_to_s3 toy_flush_env map_service 1 0 ''t'' [] (?st, part) = Some ((st',
      ?m\<lparr>dirty_entities := {}, epoch_id := epoch_id ?m + 1, last_s3_etag := Some etag, last_sync_ms := 0\<rparr>), Inr ())"
    by (rule flush_succeeds [OF assms(3) depth toy_flush_ok(4) sync])
  let ?p = "?m\<lparr>dirty_entities := {}, epoch_id := epoch_id ?m + 1, last_s3_etag := Some etag, last_sync_ms := 0\<rparr>"
  have wire: "to_wire_snapshot ?p = to_wire_snapshot m0" "exported_key ?p = exported_key m0"
    using assms(6) unfolding m m0 by (simp_all add: to_wire_snapshot_def exported_key_def fun_eq_iff)
  have "small_snapshot toy_flush_env (to_wire_snapshot ?p)"
    unfolding wire using assms(7,8) by (simp add: small_snapshot_def toy_flush_env_def)
  then show thesis by (intro that [OF dec fetch flush]) (simp_all add: assms(3) wire del: to_wire_marks)
qed

section \<open>Properties\<close>

text \<open>C13: a replica that starts empty after a flush gets everything the flush exported: the records but
  full-text rows and outbox events, the quota counters, the idempotency marks and the epoch, with
  exact secondary indexes. The service stores what is written and returns what it stores, the
  entity files go to other keys, LZ4 inverts, and the snapshot fits its length fields.\<close>

theorem flush_then_cold_start:
  assumes "flush_to_s3 E sv t now table touched (st, part) = Some ((st', part'), Inr ())"
    and "bulk_depth part = 0" "bulk_depth part' = 0"
    and "flush_env_ok E table" "s3_puts sv obj" "s3_gets sv obj" "small_snapshot E (to_wire_snapshot part')"
    and "obj (remote fresh) = obj (remote st')"
  shows "\<exists>fresh' store. sync_from_s3 E sv t' now' table True (fresh, store_default) = Some ((fresh', store), Inr ())
    \<and> (\<forall>k. om_get (items store) k = (if exported_key part' k then om_get (items part') k else None))
    \<and> quota_counters store = quota_counters part' \<and> quota_idem store = quota_idem part'
    \<and> epoch_id store = epoch_id part' \<and> store_wf store"
proof -
  obtain blob where blob: "obj (remote st') (vortex_s3_key E table) = Some blob"
    "decode_vortex E blob = Some (Inr (to_wire_snapshot part'))"
    using flush_uploads [OF assms(1-5,7)] by blast
  obtain e where fetch: "fetch_partition_if_changed (fe_hashes E) sv t' fresh (vortex_s3_key E table) None
      = (fresh\<lparr>cache := write_file t' (safe_name (vortex_s3_key E table)) blob (cache fresh)\<rparr>,
         Inr (Modified \<lparr>ob_bytes = blob, ob_etag = e\<rparr>))"
    using fetch_plain [OF assms(6), of fresh "vortex_s3_key E table" blob] blob(1) assms(8) by metis
  have d: "bulk_depth store_default = 0" "last_s3_etag store_default = None" by (simp_all add: store_default_def)
  have "sync_from_s3 E sv t' now' table True (fresh, store_default)
      = Some ((fresh\<lparr>cache := write_file t' (safe_name (vortex_s3_key E table)) blob (cache fresh)\<rparr>,
          apply_wire_snapshot (to_wire_snapshot part') e now' store_default), Inr ())"
    using fetch blob(2) d by (simp add: sync_from_s3_def sync_from_s3_inner_def)
  then show ?thesis using restore_from_snapshot [OF refl, of part' e now'] by auto
qed

theorem flush_then_cold_start_witness:
  "\<exists>st' part' fresh' store.
     flush_to_s3 toy_flush_env map_service 1 0 ''t'' [] (\<lparr>remote = Map.empty, cache = []\<rparr>, sample_store)
       = Some ((st', part'), Inr ())
   \<and> sync_from_s3 toy_flush_env map_service 2 9 ''t'' True (st', store_default) = Some ((fresh', store), Inr ())
   \<and> om_get (items store) (''p'', [2]) = om_get (items sample_store) (''p'', [2])"
proof -
  let ?st = "\<lparr>remote = Map.empty, cache = []\<rparr> :: (string \<Rightarrow> bytes option) s3_store"
  have marks: "bulk_depth sample_store = 0" "last_s3_etag sample_store = None" by code_simp+
  have sync: "sync_from_s3_inner toy_flush_env map_service 1 0 ''t'' True (?st, flush_local [] sample_store)
      = Some ((?st, (flush_local [] sample_store)\<lparr>last_sync_ms := 0\<rparr>), Inr ())"
    using marks by (simp add: sync_from_s3_inner_def fetch_partition_if_changed_def map_service_def flush_local_def)
  let ?p = "sample_store\<lparr>dirty_entities := {}, epoch_id := epoch_id sample_store + 1\<rparr>"
  obtain st' etag where flush: "flush_to_s3 toy_flush_env map_service 1 0 ''t'' [] (?st, sample_store)
      = Some ((st', ?p\<lparr>last_s3_etag := Some etag, last_sync_ms := 0\<rparr>), Inr ())"
    by (rule flush_succeeds [OF marks(1) _ toy_flush_ok(4) sync]) (use marks in \<open>simp_all add: flush_local_def\<close>)
  have "snapshot_ok (to_wire_snapshot ?p)" "length (snapshot_raw (to_wire_snapshot ?p)) < 2 ^ 60" by code_simp+
  then have small: "small_snapshot toy_flush_env (to_wire_snapshot (?p\<lparr>last_s3_etag := Some etag, last_sync_ms := 0\<rparr>))"
    by (simp add: small_snapshot_def toy_flush_env_def to_wire_snapshot_def)
  have key: "exported_key ?p (''p'', [2])" by code_simp
  show ?thesis
    using flush_then_cold_start [OF flush marks(1) _ toy_flush_ok(1-3) small, of st' 2 9] flush key marks(1)
    by (fastforce simp: exported_key_def)
qed


definition edited_item :: item where
  "edited_item = om_of_list [(''PK'', AvS ''p''), (''SK'', AvB [2]), (''ap'', AvS ''b''), (''as'', AvB [7])]"


text \<open>C15: deletions do not replicate. When the published snapshot no longer holds a record that a replica
  still has, the replica keeps it through the synchronisation and its next flush publishes it again.\<close>

theorem deleted_item_resurrected:
  assumes "flush_to_s3 E sv t now table touched (st, part) = Some ((st', part'), Inr ())"
    and "bulk_depth part = 0" "bulk_depth part' = 0"
    and "fetch_partition_if_changed (fe_hashes E) sv t st (vortex_s3_key E table) (last_s3_etag part)
      = (st1, Inr (Modified p))" "decode_vortex E (ob_bytes p) = Some (Inr snap)"
    and "k \<notin> fst ` set (ps_items snap)" "om_get (items part) k = Some it" "exported_key part' k"
    and "flush_env_ok E table" "s3_puts sv obj" "small_snapshot E (to_wire_snapshot part')"
  shows "om_get (items part') k = Some it
    \<and> (\<exists>blob up. obj (remote st') (vortex_s3_key E table) = Some blob \<and> decode_vortex E blob = Some (Inr up)
          \<and> (k, it) \<in> set (ps_items up))"
proof -
  let ?part = "flush_local touched part"
  have l: "bulk_depth ?part = 0" "last_s3_etag ?part = last_s3_etag part" "items ?part = items part"
    using assms(2) by (simp_all add: flush_local_def)
  have sync: "sync_from_s3_inner E sv t now table True (st, ?part)
      = Some ((st1, apply_wire_snapshot snap (ob_etag p) now ?part), Inr ())"
    using assms(4,5) l by (simp add: sync_from_s3_inner_def)
  have kept: "om_get (items (apply_wire_snapshot snap (ob_etag p) now ?part)) k = Some it"
    using sync_keeps_absent [OF assms(6)] assms(7) l(3) by simp
  have got: "om_get (items part') k = Some it"
    by (rule flush_result [OF assms(1,2)]; use sync kept in force)
  then have "(k, it) \<in> set (ps_items (to_wire_snapshot part'))"
    using assms(8) by (simp add: wire_items om_entries_filter om.in_entries_iff)
  then show ?thesis using flush_uploads [OF assms(1-3,9-11)] got by blast
qed

theorem deleted_item_resurrected_witness:
  "\<exists>blob st' part' it. decode_vortex toy_flush_env blob = Some (Inr (to_wire_snapshot store_default))
   \<and> om_get (items sample_store) (''p'', [2]) = Some it
   \<and> flush_to_s3 toy_flush_env map_service 1 0 ''t'' []
       (\<lparr>remote = [vortex_s3_key toy_flush_env ''t'' \<mapsto> blob], cache = []\<rparr>, sample_store) = Some ((st', part'), Inr ())
   \<and> om_get (items part') (''p'', [2]) = Some it"
proof -
  let ?k = "(''p'', [2])" and ?snap = "to_wire_snapshot store_default"
  let ?m0 = "(apply_wire_snapshot ?snap [] 0 sample_store)\<lparr>dirty_entities := {}, epoch_id := epoch_id (store_default\<lparr>epoch_id := 1\<rparr>)\<rparr>"
  have c: "snapshot_ok ?snap" "length (snapshot_raw ?snap) < 2 ^ 60" "bulk_depth sample_store = 0"
    "last_s3_etag sample_store = None"
    "epoch_id (apply_wire_snapshot ?snap [] 0 sample_store) + 1 = epoch_id (store_default\<lparr>epoch_id := 1\<rparr>)"
    "snapshot_ok (to_wire_snapshot ?m0)" "length (snapshot_raw (to_wire_snapshot ?m0)) < 2 ^ 60"
    "?k \<notin> fst ` set (ps_items ?snap)" "exported_key ?m0 ?k" "om_get (items sample_store) ?k \<noteq> None"
    by code_simp+
  obtain it where it: "om_get (items sample_store) ?k = Some it" using c(10) by blast
  obtain blob u e st' part' where f: "decode_vortex toy_flush_env blob = Some (Inr ?snap)"
    "fetch_partition_if_changed (fe_hashes toy_flush_env) map_service 1
        \<lparr>remote = [vortex_s3_key toy_flush_env ''t'' \<mapsto> blob], cache = []\<rparr> (vortex_s3_key toy_flush_env ''t'') None
      = (u, Inr (Modified \<lparr>ob_bytes = blob, ob_etag = e\<rparr>))"
    "flush_to_s3 toy_flush_env map_service 1 0 ''t'' []
        (\<lparr>remote = [vortex_s3_key toy_flush_env ''t'' \<mapsto> blob], cache = []\<rparr>, sample_store) = Some ((st', part'), Inr ())"
    "bulk_depth part' = 0" "small_snapshot toy_flush_env (to_wire_snapshot part')" "exported_key part' = exported_key ?m0"
    by (rule toy_flush [OF c(1-4) refl c(5-7)])
  have "exported_key part' ?k" using f(6) c(9) by simp
  then have "om_get (items part') ?k = Some it"
    using deleted_item_resurrected [OF f(3) c(3) f(4) f(2) [folded c(4)] _ c(8) it _ toy_flush_ok(1,2) f(5)] f(1) by simp
  then show ?thesis using f(1,3) it by blast
qed

end
