(* ===== verification/MbfHotHead.thy ===== *)
theory MbfHotHead
  imports MbfEnvelope
begin

text \<open>The transaction log of a cell (\<^verbatim>\<open>src/mbf/tx/mod.rs\<close>): conflict signatures, the router of
  entities to cells, and the binary image of the log. The LZ4 codec is a pair of parameters; the
  models of the Codice are given by the attributes the router looks at.\<close>

section \<open>Conflict signatures\<close>

record tx_signature =
  base_epoch_id :: "64 word"
  new_epoch_id :: "64 word"
  read_set_bloom :: "64 word"
  write_set_bloom :: "64 word"

definition bloom_bits :: "mbf_hashes \<Rightarrow> string \<Rightarrow> 64 word" where
  "bloom_bits H k =
    push_bit (unat (h_xxh H (str_bytes k) 0x12345678 mod 64)) 1
    OR push_bit (unat (h_xxh H (str_bytes k) 0x87654321 mod 64)) 1"

definition compute_bloom64 :: "mbf_hashes \<Rightarrow> string list \<Rightarrow> 64 word" where
  "compute_bloom64 H keys = fold (\<lambda>k mask. mask OR bloom_bits H k) keys 0"

definition from_keys :: "mbf_hashes \<Rightarrow> 64 word \<Rightarrow> 64 word \<Rightarrow> string list \<Rightarrow> string list \<Rightarrow> tx_signature" where
  "from_keys H base new reads writes =
    \<lparr>base_epoch_id = base, new_epoch_id = new, read_set_bloom = compute_bloom64 H reads,
     write_set_bloom = compute_bloom64 H writes\<rparr>"

definition conflicts_with :: "tx_signature \<Rightarrow> tx_signature \<Rightarrow> bool" where
  "conflicts_with sig winner \<longleftrightarrow>
     read_set_bloom sig AND write_set_bloom winner \<noteq> 0
     \<or> write_set_bloom sig AND write_set_bloom winner \<noteq> 0"

section \<open>The router\<close>

record attr_topology =
  ta_spectral :: bool
  ta_subtype :: "string option"
  ta_fenwick :: bool
  ta_entity_ref :: "string option"
  ta_dimensions :: "64 word option"
  ta_json :: bool

record entity_topology =
  tm_entity :: string
  tm_attributes :: "attr_topology list"
  tm_survival :: bool
  tm_scope_provider :: bool
  tm_shadow_sagas :: bool
  tm_event_rules :: bool
  tm_system :: bool
  tm_write_locked :: bool

definition CELL_SEED :: "64 word" where "CELL_SEED = 0x4D42465F43454C4C"

definition classify_model_topology :: "mbf_hashes \<Rightarrow> entity_topology \<Rightarrow> string \<Rightarrow> 8 word" where
  "classify_model_topology H m hint =
    (if \<exists>a \<in> set (tm_attributes m). ta_spectral a
       then 6 + ucast (h_xxh H (str_bytes hint) 0 AND 1)
     else if tm_survival m then 0
     else if \<exists>a \<in> set (tm_attributes m). ta_subtype a = Some ''currency'' \<or> ta_fenwick a then 1
     else if tm_scope_provider m \<or> (\<exists>a \<in> set (tm_attributes m). ta_entity_ref a = Some (tm_entity m)) then 2
     else if tm_shadow_sagas m \<or> tm_event_rules m then 3
     else if \<exists>a \<in> set (tm_attributes m). ta_dimensions a \<noteq> None \<or> ta_json a then 4
     else if tm_system m \<or> tm_write_locked m then 5
     else ucast (h_xxh H (str_bytes (tm_entity m)) CELL_SEED mod 6))"

text \<open>The global registry is an argument: \<^const>\<open>None\<close> before it is initialised.\<close>

definition resolve_cell_id ::
  "mbf_hashes \<Rightarrow> (string \<Rightarrow> entity_topology option) option \<Rightarrow> string \<Rightarrow> string \<Rightarrow> 8 word" where
  "resolve_cell_id H reg entity_type hint =
    (case Option.bind reg (\<lambda>get. get entity_type) of
       Some m \<Rightarrow> classify_model_topology H m hint
     | None \<Rightarrow> ucast (h_xxh H (str_bytes entity_type) CELL_SEED mod 6))"

definition s3_hot_head_key :: "string \<Rightarrow> 8 word \<Rightarrow> string" where
  "s3_hot_head_key tenant cell = ''tenants/'' @ tenant @ ''/head/HOT_HEAD_c'' @ nat_str (unat cell) @ ''.mbf''"

section \<open>The binary log\<close>

record delta_frame =
  signature :: tx_signature
  payload_json :: string

definition sig_to_bytes :: "tx_signature \<Rightarrow> bytes" where
  "sig_to_bytes s = le_word (base_epoch_id s) @ le_word (new_epoch_id s) @ le_word (read_set_bloom s)
     @ le_word (write_set_bloom s)"

definition sig_from_bytes :: "bytes \<Rightarrow> tx_signature" where
  "sig_from_bytes bs = \<lparr>base_epoch_id = of_le (bslice 0 8 bs), new_epoch_id = of_le (bslice 8 8 bs),
     read_set_bloom = of_le (bslice 16 8 bs), write_set_bloom = of_le (bslice 24 8 bs)\<rparr>"

definition mask_bytes :: "bytes \<Rightarrow> bytes" where
  "mask_bytes bs = map (\<lambda>(i, b). b XOR 0xA5 XOR (of_nat i * 31)) (enumerate 0 bs)"

definition frame_to_bytes :: "(bytes \<Rightarrow> bytes) \<Rightarrow> delta_frame \<Rightarrow> bytes" where
  "frame_to_bytes compress f =
    (let masked = mask_bytes (compress (str_bytes (payload_json f))) in
     sig_to_bytes (signature f) @ le_bytes 4 (length masked) @ masked)"

definition last_epoch :: "delta_frame list \<Rightarrow> 64 word" where
  "last_epoch frames = (if frames = [] then 0 else new_epoch_id (signature (last frames)))"

definition encode_hot_head_binary ::
  "mbf_hashes \<Rightarrow> (bytes \<Rightarrow> bytes) \<Rightarrow> engine_config \<Rightarrow> 64 word \<Rightarrow> string \<Rightarrow> 8 word \<Rightarrow> delta_frame list \<Rightarrow> bytes" where
  "encode_hot_head_binary H compress cfg now tenant cell frames =
    (let epoch = last_epoch frames;
         th = h_xxh H (str_bytes tenant) 0x4D45545249323032;
         header = header_with_flags
           (header_new (ucast cell) (of_nat (length frames)) epoch th now now) FLAG_HOT_HEAD;
         head = header_to_bytes header;
         buf = pad_to_64 (head @ le_bytes 4 (length frames) @ le_bytes 4 0
           @ concat (map (frame_to_bytes compress) frames));
         dir = drop (length head) buf;
         tag = (case seal_active (h_sha H) (h_hmac H) cfg tenant ''hot_head'' epoch dir of
             Inr seal \<Rightarrow> take 24 (keyed_mac seal) | Inl _ \<Rightarrow> replicate 24 0x48)
     in buf @ footer_to_bytes (footer_new (of_nat (length head)) (of_nat (length buf - length head))
          (h_crc H (take 64 buf)) (h_crc H dir) (ucast th) 0 tag))"

fun hot_frames :: "(bytes \<Rightarrow> bytes option) \<Rightarrow> nat \<Rightarrow> bytes \<Rightarrow> delta_frame list res" where
  "hot_frames decompress 0 rest = Inr []"
| "hot_frames decompress (Suc n) rest =
    (if length rest < 36 then Inl MbfCorrupt001
     else let sig = sig_from_bytes (take 32 rest); masked_len = le_nat (bslice 32 4 rest) in
       if length rest < 36 + masked_len then Inl MbfCorrupt001
       else case decompress (mask_bytes (bslice 36 masked_len rest)) of
           None \<Rightarrow> Inl MbfCorrupt001
         | Some raw \<Rightarrow>
            (if \<not> utf8_valid raw then Inl MbfCorrupt001
             else rbind (hot_frames decompress n (drop (36 + masked_len) rest)) (\<lambda>frames.
               Inr (\<lparr>signature = sig, payload_json = bytes_str raw\<rparr> # frames))))"

definition decode_hot_head_binary :: "mbf_hashes \<Rightarrow> (bytes \<Rightarrow> bytes option) \<Rightarrow> bytes \<Rightarrow> delta_frame list res" where
  "decode_hot_head_binary H decompress bs =
    (if length bs < 128 \<or> length bs mod 64 \<noteq> 0 then Inl MbfCorrupt001
     else if take 8 bs \<noteq> MBF_MAGIC \<or> drop (length bs - 8) bs \<noteq> MBF_FOOTER_MAGIC then Inl MbfCorrupt001
     else rbind (footer_from_bytes (drop (length bs - 64) bs)) (\<lambda>footer.
       if header_crc32c footer \<noteq> h_crc H (take 64 bs) then Inl MbfCorrupt001
       else let body = bslice 64 (length bs - 128) bs in
         if length body < 8 then Inr []
         else hot_frames decompress (le_nat (take 4 body)) (drop 8 body)))"

section \<open>Lemmas on signatures\<close>

lemma bloom_fold: "fold (\<lambda>k mask. mask OR bloom_bits H k) keys m = m OR compute_bloom64 H keys"
proof (induction keys arbitrary: m)
  case (Cons k keys)
  show ?case
    using Cons [of "m OR bloom_bits H k"] Cons [of "0 OR bloom_bits H k"]
    by (simp add: compute_bloom64_def or.assoc)
qed (simp add: compute_bloom64_def)

lemma bloom_Cons: "compute_bloom64 H (k # keys) = bloom_bits H k OR compute_bloom64 H keys"
  using bloom_fold [of H keys "bloom_bits H k"] by (simp add: compute_bloom64_def)

lemma bloom_contains:
  "k \<in> set keys \<Longrightarrow> compute_bloom64 H keys AND bloom_bits H k = bloom_bits H k"
proof (induction keys)
  case (Cons x keys)
  then have "bit (bloom_bits H k) n \<Longrightarrow> k \<noteq> x \<Longrightarrow> bit (compute_bloom64 H keys) n" for n
    by (metis bit_and_iff set_ConsD)
  then show ?case by (intro bit_eqI) (auto simp: bloom_Cons bit_simps)
qed simp

lemma bloom_bits_nonzero: "bloom_bits H k \<noteq> 0"
proof -
  let ?n = "unat (h_xxh H (str_bytes k) 0x12345678 mod 64)"
  have "?n < 64" by (simp add: unat_mod)
  then have "bit (bloom_bits H k) ?n" by (simp add: bloom_bits_def bit_simps)
  then show ?thesis by (metis bit_0_eq bot_apply bot_bool_def)
qed

lemma bloom_common:
  assumes "k \<in> set xs" "k \<in> set ys"
  shows "compute_bloom64 H xs AND compute_bloom64 H ys \<noteq> 0"
proof
  assume zero: "compute_bloom64 H xs AND compute_bloom64 H ys = 0"
  have "bloom_bits H k = (compute_bloom64 H xs AND bloom_bits H k) AND (compute_bloom64 H ys AND bloom_bits H k)"
    using bloom_contains [OF assms(1)] bloom_contains [OF assms(2)] by simp
  also have "\<dots> = (compute_bloom64 H xs AND compute_bloom64 H ys) AND bloom_bits H k"
    by (simp add: and.assoc and.left_commute)
  finally show False using zero bloom_bits_nonzero by simp
qed

text \<open>A Bloom signature never misses a conflict.\<close>

lemma conflict_not_missed:
  assumes "(set reads \<union> set writes) \<inter> set writes' \<noteq> {}"
  shows "conflicts_with (from_keys H b n reads writes) (from_keys H b' n' reads' writes')"
  using assms bloom_common unfolding conflicts_with_def from_keys_def by auto

section \<open>Lemmas on the router\<close>

lemma resolve_cell_id_bound: "resolve_cell_id H reg entity hint < 8"
proof -
  have six: "ucast (x mod 6 :: 64 word) < (8 :: 8 word)" for x
  proof -
    have "x mod 6 < 6" by (simp add: word_mod_less_divisor)
    then have "unat (x mod 6) < 6" by (simp add: word_less_nat_alt)
    then show ?thesis by (simp add: word_less_nat_alt unsigned_ucast_eq take_bit_nat_def)
  qed
  have two: "6 + ucast (x AND 1 :: 64 word) < (8 :: 8 word)" for x
    by (cases "x AND 1 = 0") (simp_all add: and_one_eq word_less_nat_alt)
  have "classify_model_topology H m hint < 8" for m
    using six two by (auto simp: classify_model_topology_def word_less_nat_alt)
  then show ?thesis using six by (simp add: resolve_cell_id_def split: option.split)
qed

section \<open>Lemmas on the binary log\<close>

lemma mask_involutive [simp]: "mask_bytes (mask_bytes bs) = bs"
  by (rule nth_equalityI) (simp_all add: mask_bytes_def nth_enumerate_eq xor.assoc xor.left_commute)

lemma length_mask [simp]: "length (mask_bytes bs) = length bs"
  by (simp add: mask_bytes_def)

lemma length_sig [simp]: "length (sig_to_bytes s) = 32"
  by (simp add: sig_to_bytes_def)

lemma sig_roundtrip [simp]: "sig_from_bytes (sig_to_bytes s) = s"
  by (simp add: sig_from_bytes_def sig_to_bytes_def)

definition frame_ok :: "(bytes \<Rightarrow> bytes) \<Rightarrow> delta_frame \<Rightarrow> bool" where
  "frame_ok compress f \<longleftrightarrow> str_ok (payload_json f) \<and> length (compress (str_bytes (payload_json f))) < 2 ^ 32"

definition log_ok :: "(bytes \<Rightarrow> bytes) \<Rightarrow> delta_frame list \<Rightarrow> bool" where
  "log_ok compress frames \<longleftrightarrow> list_all (frame_ok compress) frames \<and> length frames < 2 ^ 32"

lemma hot_frames_encoded:
  assumes lz4: "\<And>x. decompress (compress x) = Some x"
    and "list_all (frame_ok compress) frames"
  shows "hot_frames decompress (length frames) (concat (map (frame_to_bytes compress) frames) @ tail) = Inr frames"
  using assms(2)
proof (induction frames)
  case (Cons f frames)
  define m where "m = mask_bytes (compress (str_bytes (payload_json f)))"
  have f: "utf8_valid (str_bytes (payload_json f))" "length m < 2 ^ 32"
    using Cons.prems by (simp_all add: frame_ok_def str_ok_def m_def)
  have image: "frame_to_bytes compress f = sig_to_bytes (signature f) @ le_bytes 4 (length m) @ m"
    by (simp add: frame_to_bytes_def m_def)
  have len: "le_nat (le_bytes 4 (length m)) = length m" using f(2) by (simp add: le_nat_le_bytes)
  have "decompress (mask_bytes m) = Some (str_bytes (payload_json f))" by (simp add: m_def lz4)
  then show ?case using Cons f len by (simp add: image)
qed simp

lemma pad_to_64_idem: "length bs mod 64 = 0 \<Longrightarrow> pad_to_64 bs = bs"
  by (simp add: pad_to_64_def)

lemma hot_head_roundtrip:
  assumes "hashes_ok H" and lz4: "\<And>x. decompress (compress x) = Some x" and "log_ok compress frames"
  shows "decode_hot_head_binary H decompress (encode_hot_head_binary H compress cfg now tenant cell frames)
    = Inr frames"
proof -
  define th where "th = h_xxh H (str_bytes tenant) 0x4D45545249323032"
  define h where "h = header_with_flags
    (header_new (ucast cell) (of_nat (length frames)) (last_epoch frames) th now now) FLAG_HOT_HEAD"
  have h: "header_shape h" "magic h = MBF_MAGIC"
    by (simp_all add: h_def header_with_flags_def header_new_def header_shape_def Let_def)
  have len_h: "length (header_to_bytes h) = 64" using h(1) by simp
  let ?log = "le_bytes 4 (length frames) @ le_bytes 4 0 @ concat (map (frame_to_bytes compress) frames)"
  obtain r where r: "pad_to_64 (header_to_bytes h @ ?log) = header_to_bytes h @ r" "length r mod 64 = 0"
    using pad_to_64_extend [of "header_to_bytes h"] len_h by (metis mod_self)
  obtain z where "pad_to_64 (header_to_bytes h @ ?log) = (header_to_bytes h @ ?log) @ z"
    using pad_to_64_prefix by blast
  then have body: "r = ?log @ z" using r(1) by simp
  define tag where "tag = (case seal_active (h_sha H) (h_hmac H) cfg tenant ''hot_head'' (last_epoch frames) r of
      Inr seal \<Rightarrow> take 24 (keyed_mac seal) | Inl _ \<Rightarrow> replicate 24 0x48)"
  have tag: "length tag = 24"
    using seal_active_shape [OF assms(1)] by (auto simp: seal_shape_def tag_def split: sum.split)
  define f where "f = footer_new 64 (of_nat (length r)) (h_crc H (header_to_bytes h)) (h_crc H r) (ucast th) 0 tag"
  have f: "footer_shape f" "footer_magic f = MBF_FOOTER_MAGIC" "header_crc32c f = h_crc H (header_to_bytes h)"
    using tag footer_new_shape by (simp_all add: f_def footer_new_def)
  have image: "encode_hot_head_binary H compress cfg now tenant cell frames
      = header_to_bytes h @ r @ footer_to_bytes f"
    using r(1) len_h
    unfolding encode_hot_head_binary_def Let_def h_def [symmetric] th_def [symmetric] f_def tag_def by simp
  have "decode_hot_head_binary H decompress blob = Inr frames"
    if blob: "blob = header_to_bytes h @ r @ footer_to_bytes f" for blob
  proof -
    note framed = framed_file [OF h(1) r(2) f(1,2) blob]
    have inner: "bslice 64 (length blob - 128) blob = r" using framed(1) len_h unfolding blob by simp
    have count: "le_nat (take 4 r) = length frames"
      using assms(3) by (simp add: body log_ok_def le_nat_le_bytes)
    have rest: "drop 8 r = concat (map (frame_to_bytes compress) frames) @ z" by (simp add: body)
    have "hot_frames decompress (length frames) (drop 8 r) = Inr frames"
      using hot_frames_encoded [of decompress compress, OF lz4] assms(3) by (simp add: rest log_ok_def)
    then show ?thesis
      using framed h(2) f(3) inner count by (simp add: decode_hot_head_binary_def Let_def body)
  qed
  then show ?thesis using image by simp
qed

end
