(* ===== verification/MbfCommit.thy ===== *)
theory MbfCommit
  imports MbfObjects MbfHotHead
begin

text \<open>The write coordinator (\<^verbatim>\<open>MbfWriteCoordinator\<close> of \<^verbatim>\<open>src/mbf/tx/mod.rs\<close>): optimistic commits
  to the log of a cell over any object store, with eight attempts and a rebase onto the log of the
  winner when the Bloom signatures do not meet. The coordinators of several instances run
  interleaved, one store operation at a time.\<close>

section \<open>The commit loop\<close>

record codec_env =
  ce_hashes :: mbf_hashes
  ce_compress :: "bytes \<Rightarrow> bytes"
  ce_decompress :: "bytes \<Rightarrow> bytes option"
  ce_config :: engine_config

record tx_request =
  rq_tenant :: string
  rq_cell :: "8 word"
  rq_reads :: "string list"
  rq_writes :: "string list"
  rq_payload :: string

record coordinator =
  total_commits :: "64 word"
  total_auto_rebases :: "64 word"

definition rq_key :: "tx_request \<Rightarrow> string" where
  "rq_key rq = s3_hot_head_key (rq_tenant rq) (rq_cell rq)"

definition next_epoch :: "delta_frame list \<Rightarrow> 64 word" where
  "next_epoch frames = (if frames = [] then 1 else new_epoch_id (signature (last frames)) + 1)"

definition my_signature :: "codec_env \<Rightarrow> tx_request \<Rightarrow> 64 word \<Rightarrow> delta_frame list \<Rightarrow> tx_signature" where
  "my_signature E rq base frames = from_keys (ce_hashes E) base (next_epoch frames) (rq_reads rq) (rq_writes rq)"

definition candidate_frames :: "codec_env \<Rightarrow> tx_request \<Rightarrow> 64 word \<Rightarrow> delta_frame list \<Rightarrow> delta_frame list" where
  "candidate_frames E rq base frames =
     frames @ [\<lparr>signature = my_signature E rq base frames, payload_json = rq_payload rq\<rparr>]"

definition encode_log :: "codec_env \<Rightarrow> 64 word \<Rightarrow> tx_request \<Rightarrow> delta_frame list \<Rightarrow> bytes" where
  "encode_log E now rq frames = encode_hot_head_binary (ce_hashes E) (ce_compress E) (ce_config E) now
     (rq_tenant rq) (rq_cell rq) frames"

definition decode_log :: "codec_env \<Rightarrow> bytes \<Rightarrow> delta_frame list res" where
  "decode_log E = decode_hot_head_binary (ce_hashes E) (ce_decompress E)"

definition blocked_by :: "64 word \<Rightarrow> tx_signature \<Rightarrow> delta_frame list \<Rightarrow> bool" where
  "blocked_by base sig remote \<longleftrightarrow>
     (\<exists>w \<in> set (filter (\<lambda>f. base < new_epoch_id (signature f)) remote). conflicts_with sig (signature w))"

fun commit_attempts ::
  "('s \<Rightarrow> string \<Rightarrow> 's \<times> object_payload option res)
   \<Rightarrow> ('s \<Rightarrow> string \<Rightarrow> bytes \<Rightarrow> string option \<Rightarrow> 's \<times> string res)
   \<Rightarrow> codec_env \<Rightarrow> (nat \<Rightarrow> 64 word) \<Rightarrow> tx_request \<Rightarrow> 64 word \<Rightarrow> nat \<Rightarrow> 's \<Rightarrow> coordinator
   \<Rightarrow> delta_frame list \<Rightarrow> string option \<Rightarrow> 's \<times> coordinator \<times> 64 word res" where
  "commit_attempts get put E now rq base 0 s c frames etag = (s, c, Inl MbfCasConflict001)"
| "commit_attempts get put E now rq base (Suc n) s c frames etag =
    (case put s (rq_key rq) (encode_log E (now n) rq (candidate_frames E rq base frames)) etag of
       (s1, Inr _) \<Rightarrow> (s1, c\<lparr>total_commits := total_commits c + 1\<rparr>, Inr (next_epoch frames))
     | (s1, Inl err) \<Rightarrow>
        (if err = MbfCasConflict001 \<and> 0 < n
         then case get s1 (rq_key rq) of
             (s2, Inl e) \<Rightarrow> (s2, c, Inl e)
           | (s2, Inr None) \<Rightarrow> (s2, c, Inl err)
           | (s2, Inr (Some remote)) \<Rightarrow>
              (case decode_log E (ob_bytes remote) of
                 Inl e \<Rightarrow> (s2, c, Inl e)
               | Inr remote_frames \<Rightarrow>
                  (if blocked_by base (my_signature E rq base frames) remote_frames
                   then (s2, c, Inl MbfCasConflict001)
                   else commit_attempts get put E now rq base n s2
                     (c\<lparr>total_auto_rebases := total_auto_rebases c + 1\<rparr>) remote_frames (Some (ob_etag remote))))
         else (s1, c, Inl err)))"

definition commit_transaction ::
  "('s \<Rightarrow> string \<Rightarrow> 's \<times> object_payload option res)
   \<Rightarrow> ('s \<Rightarrow> string \<Rightarrow> bytes \<Rightarrow> string option \<Rightarrow> 's \<times> string res)
   \<Rightarrow> codec_env \<Rightarrow> (string \<Rightarrow> entity_topology option) option \<Rightarrow> (nat \<Rightarrow> 64 word) \<Rightarrow> 's \<Rightarrow> coordinator
   \<Rightarrow> string \<Rightarrow> string \<Rightarrow> string \<Rightarrow> string list \<Rightarrow> string list \<Rightarrow> string \<Rightarrow> 's \<times> coordinator \<times> 64 word res" where
  "commit_transaction get put E reg now s c tenant entity hint reads writes payload =
    (let cell = resolve_cell_id (ce_hashes E) reg entity hint;
         rq = \<lparr>rq_tenant = tenant, rq_cell = cell, rq_reads = reads, rq_writes = writes, rq_payload = payload\<rparr>
     in case get s (rq_key rq) of
         (s1, Inl e) \<Rightarrow> (s1, c, Inl e)
       | (s1, Inr None) \<Rightarrow> commit_attempts get put E now rq 0 8 s1 c [] None
       | (s1, Inr (Some p)) \<Rightarrow>
          (case decode_log E (ob_bytes p) of
             Inl e \<Rightarrow> (s1, c, Inl e)
           | Inr frames \<Rightarrow>
              commit_attempts get put E now rq (last_epoch frames) 8 s1 c frames (Some (ob_etag p))))"

section \<open>Interleaved coordinators\<close>

text \<open>The same loop, cut at its store operations: one call of the store per step.\<close>

datatype phase =
    Starting
  | Putting "64 word" nat "delta_frame list" "string option"
  | Rereading "64 word" nat tx_signature error_code
  | Finished "64 word res"

fun coord_step ::
  "('s \<Rightarrow> string \<Rightarrow> 's \<times> object_payload option res)
   \<Rightarrow> ('s \<Rightarrow> string \<Rightarrow> bytes \<Rightarrow> string option \<Rightarrow> 's \<times> string res)
   \<Rightarrow> codec_env \<Rightarrow> 64 word \<Rightarrow> tx_request \<Rightarrow> 's \<Rightarrow> phase \<Rightarrow> 's \<times> phase" where
  "coord_step get put E now rq s Starting =
    (case get s (rq_key rq) of
       (s1, Inl e) \<Rightarrow> (s1, Finished (Inl e))
     | (s1, Inr None) \<Rightarrow> (s1, Putting 0 7 [] None)
     | (s1, Inr (Some p)) \<Rightarrow>
        (case decode_log E (ob_bytes p) of
           Inl e \<Rightarrow> (s1, Finished (Inl e))
         | Inr frames \<Rightarrow> (s1, Putting (last_epoch frames) 7 frames (Some (ob_etag p)))))"
| "coord_step get put E now rq s (Putting base n frames etag) =
    (case put s (rq_key rq) (encode_log E now rq (candidate_frames E rq base frames)) etag of
       (s1, Inr _) \<Rightarrow> (s1, Finished (Inr (next_epoch frames)))
     | (s1, Inl err) \<Rightarrow>
        (if err = MbfCasConflict001 \<and> 0 < n then (s1, Rereading base n (my_signature E rq base frames) err)
         else (s1, Finished (Inl err))))"
| "coord_step get put E now rq s (Rereading base n sig err) =
    (case get s (rq_key rq) of
       (s2, Inl e) \<Rightarrow> (s2, Finished (Inl e))
     | (s2, Inr None) \<Rightarrow> (s2, Finished (Inl err))
     | (s2, Inr (Some remote)) \<Rightarrow>
        (case decode_log E (ob_bytes remote) of
           Inl e \<Rightarrow> (s2, Finished (Inl e))
         | Inr remote_frames \<Rightarrow>
            (if blocked_by base sig remote_frames then (s2, Finished (Inl MbfCasConflict001))
             else (s2, Putting base (n - 1) remote_frames (Some (ob_etag remote))))))"
| "coord_step get put E now rq s (Finished r) = (s, Finished r)"

fun run_alone ::
  "('s \<Rightarrow> string \<Rightarrow> 's \<times> object_payload option res)
   \<Rightarrow> ('s \<Rightarrow> string \<Rightarrow> bytes \<Rightarrow> string option \<Rightarrow> 's \<times> string res)
   \<Rightarrow> codec_env \<Rightarrow> (nat \<Rightarrow> 64 word) \<Rightarrow> tx_request \<Rightarrow> nat \<Rightarrow> 's \<Rightarrow> phase \<Rightarrow> 's \<times> phase" where
  "run_alone get put E now rq 0 s ph = (s, ph)"
| "run_alone get put E now rq (Suc k) s ph =
    (case coord_step get put E (case ph of Putting _ n _ _ \<Rightarrow> now n | _ \<Rightarrow> 0) rq s ph of
       (s1, ph1) \<Rightarrow> run_alone get put E now rq k s1 ph1)"

record 's commit_world =
  w_store :: 's
  w_phase :: "nat \<Rightarrow> phase"
  w_written :: "bytes set"

fun attempted_blobs :: "codec_env \<Rightarrow> 64 word \<Rightarrow> tx_request \<Rightarrow> phase \<Rightarrow> bytes set" where
  "attempted_blobs E now rq (Putting base n frames etag) = {encode_log E now rq (candidate_frames E rq base frames)}"
| "attempted_blobs E now rq _ = {}"

inductive commit_reach ::
  "('s \<Rightarrow> string \<Rightarrow> 's \<times> object_payload option res)
   \<Rightarrow> ('s \<Rightarrow> string \<Rightarrow> bytes \<Rightarrow> string option \<Rightarrow> 's \<times> string res)
   \<Rightarrow> codec_env \<Rightarrow> (nat \<Rightarrow> tx_request) \<Rightarrow> 's \<Rightarrow> nat \<Rightarrow> 's commit_world \<Rightarrow> bool"
  for get put E rq s0 where
  commit_start: "commit_reach get put E rq s0 0 \<lparr>w_store = s0, w_phase = \<lambda>_. Starting, w_written = {}\<rparr>"
| commit_step: "commit_reach get put E rq s0 k w \<Longrightarrow>
    coord_step get put E now (rq i) (w_store w) (w_phase w i) = (s', ph) \<Longrightarrow>
    commit_reach get put E rq s0 (Suc k)
      \<lparr>w_store = s', w_phase = (w_phase w)(i := ph),
       w_written = w_written w \<union> attempted_blobs E now (rq i) (w_phase w i)\<rparr>"

section \<open>The loop is the steps\<close>

lemma run_alone_Finished [simp]: "run_alone get put E now rq k s (Finished r) = (s, Finished r)"
  by (induction k) simp_all

lemma run_alone_attempts:
  assumes "commit_attempts get put E now rq base (Suc n) s c frames etag = (s', c', r)"
  shows "run_alone get put E now rq (2 * n + 1) s (Putting base n frames etag) = (s', Finished r)"
  using assms
proof (induction n arbitrary: s c frames etag)
  case 0
  then show ?case by (auto split: prod.splits sum.splits if_splits)
next
  case (Suc n)
  have two: "run_alone get put E now rq (2 * Suc n + 1) s ph =
      (case coord_step get put E (case ph of Putting _ m _ _ \<Rightarrow> now m | _ \<Rightarrow> 0) rq s ph of (s1, ph1) \<Rightarrow>
       case coord_step get put E (case ph1 of Putting _ m _ _ \<Rightarrow> now m | _ \<Rightarrow> 0) rq s1 ph1 of (s2, ph2) \<Rightarrow>
         run_alone get put E now rq (2 * n + 1) s2 ph2)" for ph
    by (simp split: prod.split)
  show ?case
    using Suc.prems Suc.IH unfolding two
    by (auto simp: commit_attempts.simps(2) [of _ _ _ _ _ _ "Suc n"]
        simp del: commit_attempts.simps(2) run_alone.simps(2)
        split: prod.splits sum.splits if_splits option.splits)
qed

lemma run_alone_commit:
  fixes E :: codec_env
  defines "rq \<equiv> \<lambda>reg tenant entity hint reads writes payload. \<lparr>rq_tenant = tenant,
      rq_cell = resolve_cell_id (ce_hashes E) reg entity hint, rq_reads = reads, rq_writes = writes,
      rq_payload = payload\<rparr>"
  assumes "commit_transaction get put E reg now s c tenant entity hint reads writes payload = (s', c', r)"
  shows "run_alone get put E now (rq reg tenant entity hint reads writes payload) 16 s Starting = (s', Finished r)"
proof -
  have att: "run_alone get put E now q 15 s (Putting base 7 frames etag) = (s', Finished r)"
    if "commit_attempts get put E now q base 8 s c frames etag = (s', c', r)" for q base s frames etag
    using run_alone_attempts [of get put E now q base 7] that by simp
  have start: "run_alone get put E now q 16 s Starting
      = (case coord_step get put E 0 q s Starting of (s1, ph1) \<Rightarrow> run_alone get put E now q 15 s1 ph1)" for q
    using run_alone.simps(2) [of get put E now q 15 s Starting] by simp
  show ?thesis
    using assms(2) att unfolding rq_def start
    by (auto simp: commit_transaction_def Let_def split: prod.splits sum.splits option.splits)
qed

section \<open>Serializable logs\<close>

definition ssi_log :: "delta_frame list \<Rightarrow> bool" where
  "ssi_log fs \<longleftrightarrow> (\<forall>i < length fs. new_epoch_id (signature (fs ! i)) = of_nat (Suc i)
     \<and> (\<forall>j < i. base_epoch_id (signature (fs ! i)) < new_epoch_id (signature (fs ! j)) \<longrightarrow>
          \<not> conflicts_with (signature (fs ! i)) (signature (fs ! j))))"

lemma ssi_log_Nil [simp]: "ssi_log []"
  by (simp add: ssi_log_def)

lemma ssi_log_snoc:
  "ssi_log (fs @ [f]) \<longleftrightarrow> ssi_log fs \<and> new_epoch_id (signature f) = of_nat (Suc (length fs))
     \<and> \<not> blocked_by (base_epoch_id (signature f)) (signature f) fs"
  unfolding ssi_log_def length_append_singleton All_less_Suc
  by (auto simp: nth_append blocked_by_def in_set_conv_nth)

lemma ssi_log_epoch: "ssi_log fs \<Longrightarrow> fs \<noteq> [] \<Longrightarrow> new_epoch_id (signature (last fs)) = of_nat (length fs)"
  by (cases "length fs") (simp_all add: ssi_log_def last_conv_nth)

lemma ssi_log_next: "ssi_log fs \<Longrightarrow> next_epoch fs = of_nat (Suc (length fs))"
  using ssi_log_epoch by (auto simp: next_epoch_def)

lemma ssi_log_none_newer:
  assumes "ssi_log fs" "length fs < 2 ^ 32"
  shows "\<not> blocked_by (last_epoch fs) sig fs"
proof -
  have le: "new_epoch_id (signature (fs ! i)) \<le> last_epoch fs" if "i < length fs" for i
  proof -
    have "(of_nat (Suc i) :: 64 word) \<le> of_nat (length fs)"
      using that assms(2) by (simp add: word_le_nat_alt unat_of_nat take_bit_nat_def del: of_nat_Suc)
    then show ?thesis using that assms(1) ssi_log_epoch [OF assms(1)]
      by (auto simp: last_epoch_def ssi_log_def)
  qed
  then show ?thesis by (force simp: blocked_by_def in_set_conv_nth not_less)
qed

lemma conflicts_from_keys:
  "conflicts_with (from_keys H b n reads writes) w = conflicts_with (from_keys H b' n' reads writes) w"
  by (simp add: conflicts_with_def from_keys_def)

lemma blocked_by_same_keys:
  "blocked_by base (my_signature E rq b f) fs = blocked_by base (my_signature E rq b' f') fs"
  unfolding blocked_by_def my_signature_def using conflicts_from_keys by blast

section \<open>The invariant of interleaved commits\<close>

definition env_ok :: "codec_env \<Rightarrow> bool" where
  "env_ok E \<longleftrightarrow> hashes_ok (ce_hashes E) \<and> (\<forall>x. ce_decompress E (ce_compress E x) = Some x)"

definition request_ok :: "codec_env \<Rightarrow> tx_request \<Rightarrow> bool" where
  "request_ok E rq \<longleftrightarrow> str_ok (rq_payload rq) \<and> length (ce_compress E (str_bytes (rq_payload rq))) < 2 ^ 32"

definition log_inv :: "codec_env \<Rightarrow> (bytes \<Rightarrow> string) \<Rightarrow> bytes set \<Rightarrow> nat \<Rightarrow> object_payload option \<Rightarrow> bool" where
  "log_inv E tag written n x \<longleftrightarrow> (\<forall>p. x = Some p \<longrightarrow> ob_etag p = tag (ob_bytes p) \<and> ob_bytes p \<in> written
     \<and> (\<exists>fs. decode_log E (ob_bytes p) = Inr fs \<and> ssi_log fs
           \<and> list_all (frame_ok (ce_compress E)) fs \<and> length fs \<le> n))"

definition committed_in :: "codec_env \<Rightarrow> tx_request \<Rightarrow> 64 word \<Rightarrow> object_payload option \<Rightarrow> bool" where
  "committed_in E rq e x \<longleftrightarrow> (\<exists>p fs i b. x = Some p \<and> decode_log E (ob_bytes p) = Inr fs \<and> i < length fs
     \<and> e = of_nat (Suc i)
     \<and> fs ! i = \<lparr>signature = from_keys (ce_hashes E) b e (rq_reads rq) (rq_writes rq), payload_json = rq_payload rq\<rparr>)"

fun phase_inv :: "codec_env \<Rightarrow> (bytes \<Rightarrow> string) \<Rightarrow> bytes set \<Rightarrow> tx_request \<Rightarrow> object_payload option \<Rightarrow> phase \<Rightarrow> bool" where
  "phase_inv E tag written rq x (Putting base m fs etag) \<longleftrightarrow>
     (etag = None \<and> fs = [] \<or> (\<exists>b \<in> written. etag = Some (tag b) \<and> decode_log E b = Inr fs))
     \<and> \<not> blocked_by base (my_signature E rq base fs) fs"
| "phase_inv E tag written rq x (Rereading base m sig err) \<longleftrightarrow> (\<exists>fs. sig = my_signature E rq base fs)"
| "phase_inv E tag written rq x (Finished (Inr e)) \<longleftrightarrow> committed_in E rq e x"
| "phase_inv E tag written rq x _ \<longleftrightarrow> True"

lemma decode_encode_log:
  assumes "env_ok E" "log_ok (ce_compress E) fs"
  shows "decode_log E (encode_log E now rq fs) = Inr fs"
  using hot_head_roundtrip [of "ce_hashes E" "ce_decompress E" "ce_compress E"] assms
  by (simp add: env_ok_def decode_log_def encode_log_def)

lemma log_inv_mono: "log_inv E tag W n x \<Longrightarrow> W \<subseteq> W' \<Longrightarrow> n \<le> n' \<Longrightarrow> log_inv E tag W' n' x"
  by (cases x) (fastforce simp: log_inv_def)+

lemma phase_inv_mono: "phase_inv E tag W rq x ph \<Longrightarrow> W \<subseteq> W' \<Longrightarrow> phase_inv E tag W' rq x ph"
  by (cases "(E, tag, W, rq, x, ph)" rule: phase_inv.cases) auto

text \<open>A write that passes the tag check extends exactly the log that was read.\<close>

lemma commit_extends:
  assumes "env_ok E" "request_ok E rq" "log_inv E tag W n x" "phase_inv E tag W rq y (Putting base m fs etag)"
    and "map_option ob_etag x = etag" "inj_on tag W" "n < 2 ^ 32 - 1"
    and new: "new = \<lparr>ob_bytes = encode_log E now rq (candidate_frames E rq base fs), ob_etag = t\<rparr>"
    and t: "t = tag (ob_bytes new)" "ob_bytes new \<in> W'" "W \<subseteq> W'"
  shows "log_inv E tag W' (Suc n) (Some new)" "committed_in E rq (next_epoch fs) (Some new)"
    "\<And>rq' e. committed_in E rq' e x \<Longrightarrow> committed_in E rq' e (Some new)"
proof -
  have old: "(x = None \<and> fs = []) \<or> (\<exists>p. x = Some p \<and> decode_log E (ob_bytes p) = Inr fs)"
    using assms(3-6) by (cases x) (auto simp: log_inv_def inj_on_def)
  have fs: "ssi_log fs" "list_all (frame_ok (ce_compress E)) fs" "length fs \<le> n"
    using old assms(3) by (auto simp: log_inv_def)
  let ?f = "\<lparr>signature = my_signature E rq base fs, payload_json = rq_payload rq\<rparr>"
  have cand: "candidate_frames E rq base fs = fs @ [?f]" by (simp add: candidate_frames_def)
  have ok: "log_ok (ce_compress E) (fs @ [?f])"
    using fs(2,3) assms(2,7) by (simp add: log_ok_def request_ok_def frame_ok_def)
  have dec: "decode_log E (ob_bytes new) = Inr (fs @ [?f])"
    using decode_encode_log [OF assms(1) ok] by (simp add: new cand)
  have epoch: "next_epoch fs = of_nat (Suc (length fs))" using ssi_log_next [OF fs(1)] .
  have sig: "my_signature E rq base fs
      = from_keys (ce_hashes E) base (next_epoch fs) (rq_reads rq) (rq_writes rq)"
    by (simp add: my_signature_def)
  have "ssi_log (fs @ [?f])"
    using fs(1) epoch assms(4) by (simp add: ssi_log_snoc sig) (simp add: from_keys_def)
  moreover have etag: "ob_etag new = tag (ob_bytes new)" using t(1) unfolding new by simp
  ultimately show "log_inv E tag W' (Suc n) (Some new)"
    using dec ok fs(3) t(2) etag by (simp add: log_inv_def log_ok_def)
  show "committed_in E rq (next_epoch fs) (Some new)"
    unfolding committed_in_def
    by (intro exI [of _ new] exI [of _ "fs @ [?f]"] exI [of _ "length fs"] exI [of _ base])
       (simp add: dec epoch sig del: of_nat_Suc)
  show "committed_in E rq' e (Some new)" if before: "committed_in E rq' e x" for rq' e
  proof -
    obtain i b where "i < length fs" "e = of_nat (Suc i)"
      "fs ! i = \<lparr>signature = from_keys (ce_hashes E) b e (rq_reads rq') (rq_writes rq'), payload_json = rq_payload rq'\<rparr>"
      using before old by (auto simp: committed_in_def simp del: of_nat_Suc)
    then show ?thesis
      unfolding committed_in_def
      by (intro exI [of _ new] exI [of _ "fs @ [?f]"] exI [of _ i] exI [of _ b])
         (simp add: dec nth_append del: of_nat_Suc)
  qed
qed

context tagged_store
begin

definition commit_inv :: "codec_env \<Rightarrow> (nat \<Rightarrow> tx_request) \<Rightarrow> nat \<Rightarrow> 's commit_world \<Rightarrow> bool" where
  "commit_inv E rq n w \<longleftrightarrow> (\<forall>k. quiet (w_store w) k \<and> log_inv E tag (w_written w) n (look (w_store w) k))
     \<and> (\<forall>i. phase_inv E tag (w_written w) (rq i) (look (w_store w) (rq_key (rq i))) (w_phase w i))"

lemma read_step:
  assumes "coord_step get_object put_if_match E now rq s ph = (s', ph')" "\<And>base m fs etag. ph \<noteq> Putting base m fs etag"
    and "log_inv E tag W n (look s (rq_key rq))" "n < 2 ^ 32 - 1" "phase_inv E tag W rq (look s (rq_key rq)) ph"
  shows "look s' = look s \<and> quiet s' = quiet s \<and> phase_inv E tag W rq (look s (rq_key rq)) ph'"
proof (cases ph)
  case Starting
  obtain s1 r where g: "get_object s (rq_key rq) = (s1, r)" by fastforce
  then have r: "r = Inr (look s (rq_key rq))" "look s1 = look s" "quiet s1 = quiet s" using get by blast+
  show ?thesis
  proof (cases "look s (rq_key rq)")
    case None
    then show ?thesis using assms(1) Starting g r by (auto simp: blocked_by_def)
  next
    case (Some p)
    then obtain fs where fs: "decode_log E (ob_bytes p) = Inr fs" "ssi_log fs" "length fs \<le> n"
      "ob_etag p = tag (ob_bytes p)" "ob_bytes p \<in> W"
      using assms(3) by (auto simp: log_inv_def)
    have "\<not> blocked_by (last_epoch fs) sig fs" for sig using ssi_log_none_newer fs(2,3) assms(4) by simp
    then show ?thesis using assms(1) Starting g r Some fs by auto
  qed
next
  case (Rereading base m sig err)
  obtain s1 r where g: "get_object s (rq_key rq) = (s1, r)" by fastforce
  then have r: "r = Inr (look s (rq_key rq))" "look s1 = look s" "quiet s1 = quiet s" using get by blast+
  obtain fs0 where sig: "sig = my_signature E rq base fs0" using assms(5) Rereading by auto
  show ?thesis
  proof (cases "look s (rq_key rq)")
    case None
    then show ?thesis using assms(1) Rereading g r by auto
  next
    case (Some p)
    then obtain fs where fs: "decode_log E (ob_bytes p) = Inr fs" "ob_etag p = tag (ob_bytes p)" "ob_bytes p \<in> W"
      using assms(3) by (auto simp: log_inv_def)
    then show ?thesis
      using assms(1) Rereading g r Some sig blocked_by_same_keys [of base E rq base fs0 fs base fs]
      by (auto split: if_splits)
  qed
next
  case (Finished r)
  then show ?thesis using assms(1,5) by simp
next
  case (Putting base m fs etag)
  then show ?thesis using assms(2) by blast
qed

lemma put_step:
  assumes "env_ok E" "request_ok E rq"
    and "coord_step get_object put_if_match E now rq s (Putting base m fs etag) = (s', ph')"
    and "\<And>k. quiet s k" "log_inv E tag W n (look s (rq_key rq))" "n < 2 ^ 32 - 1"
    and "phase_inv E tag W rq (look s (rq_key rq)) (Putting base m fs etag)"
    and W': "W' = W \<union> {encode_log E now rq (candidate_frames E rq base fs)}" "inj_on tag W'"
  shows "(\<forall>k. quiet s' k) \<and> (\<forall>k. k \<noteq> rq_key rq \<longrightarrow> look s' k = look s k)
    \<and> log_inv E tag W' (Suc n) (look s' (rq_key rq)) \<and> phase_inv E tag W' rq (look s' (rq_key rq)) ph'
    \<and> (\<forall>rq' e. committed_in E rq' e (look s (rq_key rq)) \<longrightarrow> committed_in E rq' e (look s' (rq_key rq)))"
proof -
  let ?blob = "encode_log E now rq (candidate_frames E rq base fs)"
  obtain s1 r where p: "put_if_match s (rq_key rq) ?blob etag = (s1, r)" by fastforce
  show ?thesis
  proof (cases r)
    case (Inl x)
    note c = put_conflict [OF p [unfolded Inl]]
    have look: "look s1 = look s" "\<And>k. quiet s1 k" using c assms(4) by metis+
    have "log_inv E tag W' (Suc n) (look s (rq_key rq))"
      using log_inv_mono [OF assms(5), of W' "Suc n"] W'(1) by auto
    then show ?thesis using assms(3) p Inl look by (auto split: if_splits)
  next
    case (Inr t)
    note ok = put_ok [OF p [unfolded Inr]]
    let ?new = "\<lparr>ob_bytes = ?blob, ob_etag = t\<rparr>"
    have t: "t = tag (ob_bytes ?new)" "ob_bytes ?new \<in> W'" "W \<subseteq> W'" "inj_on tag W"
      using put_tag p Inr W' inj_on_subset [OF W'(2)] by auto
    have quiet: "quiet s1 k" for k using ok assms(4) by metis
    note ext = commit_extends [OF assms(1,2,5,7) _ t(4) assms(6) refl t(1-3)]
    show ?thesis using ok quiet ext assms(3) p Inr by auto
  qed
qed

lemma commit_inv_step:
  assumes "env_ok E" "\<And>i. request_ok E (rq i)" "commit_inv E rq n w" "n < 2 ^ 32 - 1"
    and step: "coord_step get_object put_if_match E now (rq i) (w_store w) (w_phase w i) = (s', ph)"
    and W': "W' = w_written w \<union> attempted_blobs E now (rq i) (w_phase w i)" "inj_on tag W'"
  shows "commit_inv E rq (Suc n) \<lparr>w_store = s', w_phase = (w_phase w)(i := ph), w_written = W'\<rparr>"
proof -
  let ?k = "rq_key (rq i)" and ?W = "w_written w"
  have inv: "quiet (w_store w) k" "log_inv E tag ?W n (look (w_store w) k)"
    "phase_inv E tag ?W (rq j) (look (w_store w) (rq_key (rq j))) (w_phase w j)" for k j
    using assms(3) by (auto simp: commit_inv_def)
  have sub: "?W \<subseteq> W'" using W'(1) by blast
  have keep: "phase_inv E tag W' r x' q"
    if "phase_inv E tag ?W r x q" "\<And>e. committed_in E r e x \<Longrightarrow> committed_in E r e x'" for r x x' q
    using phase_inv_mono [OF that(1) sub] that(2)
    by (cases "(E, tag, W', r, x, q)" rule: phase_inv.cases) auto
  show ?thesis
  proof (cases "\<exists>base m fs etag. w_phase w i = Putting base m fs etag")
    case False
    then have r: "look s' = look (w_store w)" "quiet s' = quiet (w_store w)"
      "phase_inv E tag ?W (rq i) (look (w_store w) ?k) ph"
      using read_step [OF step _ inv(2) assms(4) inv(3)] by auto
    have "phase_inv E tag W' (rq j) (look (w_store w) (rq_key (rq j))) (((w_phase w)(i := ph)) j)" for j
      using keep [OF inv(3) [of j]] keep [OF r(3)] by auto
    then show ?thesis
      using r inv(1) log_inv_mono [OF inv(2) sub, of "Suc n"] by (simp add: commit_inv_def)
  next
    case True
    then obtain base m fs etag where ph: "w_phase w i = Putting base m fs etag" by blast
    note put = put_step [OF assms(1,2) step [unfolded ph] inv(1,2) assms(4) inv(3) [of i, unfolded ph]]
    have W2: "W' = ?W \<union> {encode_log E now (rq i) (candidate_frames E (rq i) base fs)}" using W'(1) ph by simp
    note put = put [OF W2 W'(2)]
    have "log_inv E tag W' (Suc n) (look s' k)" for k
      using put log_inv_mono [OF inv(2) [of k] sub, of "Suc n"] by (cases "k = ?k") auto
    moreover have "phase_inv E tag W' (rq j) (look s' (rq_key (rq j))) (((w_phase w)(i := ph)) j)" for j
    proof (cases "j = i")
      case False
      have "committed_in E (rq j) e (look s' (rq_key (rq j)))"
        if "committed_in E (rq j) e (look (w_store w) (rq_key (rq j)))" for e
        using put that by (cases "rq_key (rq j) = ?k") auto
      then show ?thesis using keep [OF inv(3)] False by simp
    qed (use put in simp)
    ultimately show ?thesis using put by (simp add: commit_inv_def)
  qed
qed

lemma commit_inv_reach:
  assumes "env_ok E" "\<And>i. request_ok E (rq i)" "\<And>k. look s0 k = None" "\<And>k. quiet s0 k"
    and "commit_reach get_object put_if_match E rq s0 n w" "inj_on tag (w_written w)" "n < 2 ^ 32"
  shows "commit_inv E rq n w"
  using assms(5-7)
proof (induction rule: commit_reach.induct)
  case commit_start
  then show ?case using assms(3,4) by (simp add: commit_inv_def log_inv_def)
next
  case (commit_step n w now i s' ph)
  have "inj_on tag (w_written w)" using commit_step.prems(1) by (auto intro: inj_on_subset)
  then have "commit_inv E rq n w" using commit_step by simp
  then show ?case
    using commit_inv_step [where E = E and rq = rq, OF assms(1,2) _ _ commit_step.hyps(2) refl] commit_step.prems by simp
qed

end

section \<open>The clustering key\<close>

definition gray_level :: "64 word \<Rightarrow> 64 word \<Rightarrow> 64 word \<Rightarrow> nat \<Rightarrow> 64 word" where
  "gray_level x y z i =
    (let bx = drop_bit i x AND 1; by = drop_bit i y AND 1; bz = drop_bit i z AND 1 in
     push_bit 2 bx OR push_bit 1 (bx XOR by) OR (by XOR bz))"

definition hilbert_cluster_key_3d :: "32 word \<Rightarrow> 32 word \<Rightarrow> 32 word \<Rightarrow> 64 word" where
  "hilbert_cluster_key_3d d0 d1 d2 =
    (let x = ucast (d0 AND 0x1FFFFF); y = ucast (d1 AND 0x1FFFFF); z = ucast (d2 AND 0x1FFFFF) in
     fold (\<lambda>i code. code OR push_bit (3 * i) (gray_level x y z i)) [0..<21] 0)"

lemma gray_level_bits:
  "bit (gray_level x y z i) 0 \<longleftrightarrow> bit y i \<noteq> bit z i"
  "bit (gray_level x y z i) 1 \<longleftrightarrow> bit x i \<noteq> bit y i"
  "bit (gray_level x y z i) 2 \<longleftrightarrow> bit x i"
  "2 < n \<Longrightarrow> \<not> bit (gray_level x y z i) n"
  unfolding gray_level_def Let_def bit_or_iff bit_push_bit_iff bit_and_iff bit_xor_iff bit_drop_bit_eq bit_1_iff
  by auto

lemma interleave_bits:
  assumes "n \<le> 21" "r < 3"
  shows "bit (fold (\<lambda>i code. code OR push_bit (3 * i) (gray_level x y z i)) [0..<n] (0 :: 64 word)) (3 * j + r)
    \<longleftrightarrow> j < n \<and> bit (gray_level x y z j) r"
  using assms(1)
proof (induction n)
  case (Suc n)
  have "bit (push_bit (3 * n) (gray_level x y z n)) (3 * j + r) \<longleftrightarrow> j = n \<and> bit (gray_level x y z n) r"
  proof -
    show ?thesis
    proof (cases "j = n")
      case False
      then have "3 * n \<le> 3 * j + r \<Longrightarrow> 2 < 3 * j + r - 3 * n" using assms(2) by arith
      then show ?thesis using False gray_level_bits(4) by (auto simp: bit_push_bit_iff)
    qed (use assms(2) Suc.prems in \<open>auto simp: bit_push_bit_iff\<close>)
  qed
  then show ?case using Suc by (auto simp: bit_or_iff less_Suc_eq)
qed simp

lemma hilbert_bits:
  assumes "i < 21"
  shows "bit (hilbert_cluster_key_3d d0 d1 d2) (3 * i + 2) \<longleftrightarrow> bit d0 i"
    "bit (hilbert_cluster_key_3d d0 d1 d2) (3 * i + 1) \<longleftrightarrow> bit d0 i \<noteq> bit d1 i"
    "bit (hilbert_cluster_key_3d d0 d1 d2) (3 * i) \<longleftrightarrow> bit d1 i \<noteq> bit d2 i"
proof -
  have m: "bit (ucast (d AND 0x1FFFFF) :: 64 word) i \<longleftrightarrow> bit d i" for d :: "32 word"
  proof -
    have "(0x1FFFFF :: 32 word) = mask 21" by (simp add: mask_eq_exp_minus_1)
    then have "bit (0x1FFFFF :: 32 word) i" using assms by (simp only: bit_mask_iff) simp
    then show ?thesis using assms by (simp only: bit_unsigned_iff bit_and_iff) simp
  qed
  show "bit (hilbert_cluster_key_3d d0 d1 d2) (3 * i + 2) \<longleftrightarrow> bit d0 i"
    "bit (hilbert_cluster_key_3d d0 d1 d2) (3 * i + 1) \<longleftrightarrow> bit d0 i \<noteq> bit d1 i"
    "bit (hilbert_cluster_key_3d d0 d1 d2) (3 * i) \<longleftrightarrow> bit d1 i \<noteq> bit d2 i"
    using assms interleave_bits [of 21 2 _ _ _ i] interleave_bits [of 21 1 _ _ _ i]
      interleave_bits [of 21 0 _ _ _ i]
    by (simp_all only: hilbert_cluster_key_3d_def Let_def gray_level_bits m) (simp_all add: m)
qed

section \<open>Properties\<close>

text \<open>C11: concurrent coordinators keep every log serializable, and no commit is lost. Whatever the
  interleaving of any number of coordinators on an initially empty in-memory store, the object
  under each key decodes to a log whose frames carry the epochs 1, 2, 3 and so on and where no frame
  conflicts with a frame newer than its base epoch; a coordinator that was answered with an epoch
  finds its signature and its payload in the log of its cell at that epoch. The tags of the blobs
  written so far must be distinct, LZ4 must invert and the payloads must be UTF-8.\<close>

theorem commits_serializable:
  assumes "env_ok E" "\<And>i. request_ok E (rq i)"
    and "commit_reach chaos_get (chaos_put_if_match H) E rq chaos_new n w"
    and "inj_on (compute_etag H) (w_written w)" "n < 2 ^ 32"
  shows "(\<forall>k p. objects (w_store w) k = Some p \<longrightarrow>
        (\<exists>fs. decode_log E (ob_bytes p) = Inr fs \<and> ssi_log fs))
    \<and> (\<forall>i e. w_phase w i = Finished (Inr e) \<longrightarrow>
        committed_in E (rq i) e (objects (w_store w) (rq_key (rq i))))"
proof -
  have "chaos_tags.commit_inv H E rq n w"
    using chaos_tags.commit_inv_reach [of E rq chaos_new H n w] assms by (simp add: chaos_new_def chaos_quiet_def)
  then have inv: "log_inv E (compute_etag H) (w_written w) n (objects (w_store w) k)"
    "phase_inv E (compute_etag H) (w_written w) (rq i) (objects (w_store w) (rq_key (rq i))) (w_phase w i)" for k i
    by (simp_all add: chaos_tags.commit_inv_def)
  have "committed_in E (rq i) e (objects (w_store w) (rq_key (rq i)))" if "w_phase w i = Finished (Inr e)" for i e
    using inv(2) [of i] that by simp
  then show ?thesis using inv(1) unfolding log_inv_def by blast
qed

definition toy_env :: codec_env where
  "toy_env = \<lparr>ce_hashes = toy_hashes, ce_compress = id, ce_decompress = Some, ce_config = config_default\<rparr>"

definition toy_request :: tx_request where
  "toy_request = \<lparr>rq_tenant = ''t'', rq_cell = 1, rq_reads = [], rq_writes = [''r1''], rq_payload = ''p''\<rparr>"

lemma toy_env_ok: "env_ok toy_env" "request_ok toy_env toy_request"
proof -
  have "str_ok ''p''" by code_simp
  then show "env_ok toy_env" "request_ok toy_env toy_request"
    using toy_hashes_ok by (simp_all add: env_ok_def toy_env_def request_ok_def toy_request_def)
qed

theorem commits_serializable_witness:
  "\<exists>w. commit_reach chaos_get (chaos_put_if_match toy_hashes) toy_env (\<lambda>_. toy_request) chaos_new 2 w
     \<and> w_phase w 0 = Finished (Inr 1)
     \<and> committed_in toy_env toy_request 1 (objects (w_store w) (rq_key toy_request))"
proof -
  let ?R = "commit_reach chaos_get (chaos_put_if_match toy_hashes) toy_env (\<lambda>_. toy_request) chaos_new"
  let ?blob = "encode_log toy_env 0 toy_request (candidate_frames toy_env toy_request 0 [])"
  note s1 = commit_step [OF commit_start, of chaos_get "chaos_put_if_match toy_hashes" toy_env 0
      "\<lambda>_. toy_request" 0 chaos_new]
  have "\<exists>w. ?R (Suc 0) w \<and> w_phase w 0 = Putting 0 7 [] None \<and> w_written w = {}
      \<and> objects (w_store w) = Map.empty \<and> injected_winners (w_store w) = Map.empty"
    using s1 by (fastforce simp: chaos_get_def chaos_new_def)
  then obtain w where w: "?R (Suc 0) w" "w_phase w 0 = Putting 0 7 [] None" "w_written w = {}"
    "objects (w_store w) = Map.empty" "injected_winners (w_store w) = Map.empty" by blast
  obtain s' where put: "coord_step chaos_get (chaos_put_if_match toy_hashes) toy_env 0 toy_request
      (w_store w) (w_phase w 0) = (s', Finished (Inr 1))"
    using w by (simp add: chaos_put_if_match_def next_epoch_def)
  define v where "v = \<lparr>w_store = s', w_phase = (w_phase w)(0 := Finished (Inr 1)),
    w_written = w_written w \<union> attempted_blobs toy_env 0 toy_request (w_phase w 0)\<rparr>"
  have v: "?R 2 v" "w_phase v 0 = Finished (Inr 1)" "w_written v = {?blob}"
    using commit_step [OF w(1) put] w by (simp_all add: v_def numeral_2_eq_2)
  then have "committed_in toy_env toy_request 1 (objects (w_store v) (rq_key toy_request))"
    using commits_serializable [OF toy_env_ok(1) toy_env_ok(2) v(1)] by simp
  then show ?thesis using v by blast
qed

text \<open>C17: the commit loop of one coordinator is a sequence of at most sixteen of the steps that the
  concurrent system interleaves, ending finished with the result of the loop.\<close>

theorem commit_is_steps:
  assumes "commit_transaction get put E reg now s c tenant entity hint reads writes payload = (s', c', r)"
    and "rq = \<lparr>rq_tenant = tenant, rq_cell = resolve_cell_id (ce_hashes E) reg entity hint,
           rq_reads = reads, rq_writes = writes, rq_payload = payload\<rparr>"
  shows "run_alone get put E now rq 16 s Starting = (s', Finished r)"
  using run_alone_commit [OF assms(1)] assms(2) by simp

theorem commit_is_steps_witness:
  "\<exists>s' c' r. commit_transaction chaos_get (chaos_put_if_match toy_hashes) toy_env None (\<lambda>_. 0) chaos_new
      \<lparr>total_commits = 0, total_auto_rebases = 0\<rparr> ''t'' ''e'' ''h'' [] [''r1''] ''p'' = (s', c', r)
    \<and> run_alone chaos_get (chaos_put_if_match toy_hashes) toy_env (\<lambda>_. 0)
      \<lparr>rq_tenant = ''t'', rq_cell = resolve_cell_id toy_hashes None ''e'' ''h'', rq_reads = [],
       rq_writes = [''r1''], rq_payload = ''p''\<rparr> 16 chaos_new Starting = (s', Finished r)"
  using commit_is_steps [where E = toy_env and get = chaos_get and put = "chaos_put_if_match toy_hashes"]
  by (metis prod.collapse toy_env_def codec_env.select_convs(1))

text \<open>Without another writer a commit succeeds at its first attempt: the answer is the epoch after
  the last one of the log, and the object becomes the image of the log with the new frame, which
  decodes to it.\<close>

theorem commit_alone_succeeds:
  assumes "env_ok E" "request_ok E rq"
    and rq: "rq = \<lparr>rq_tenant = tenant, rq_cell = resolve_cell_id (ce_hashes E) reg entity hint,
           rq_reads = reads, rq_writes = writes, rq_payload = payload\<rparr>"
    and "objects s (rq_key rq) = None \<and> fs = []
      \<or> (\<exists>p. objects s (rq_key rq) = Some p \<and> decode_log E (ob_bytes p) = Inr fs)"
    and "injected_winners s (rq_key rq) = None" "list_all (frame_ok (ce_compress E)) fs" "length fs < 2 ^ 32 - 1"
    and b: "b = encode_log E (now 7) rq (candidate_frames E rq (last_epoch fs) fs)"
  shows "\<exists>s' c'. commit_transaction chaos_get (chaos_put_if_match H) E reg now s c tenant entity hint reads
        writes payload = (s', c', Inr (next_epoch fs))
    \<and> objects s' = (objects s)(rq_key rq \<mapsto> \<lparr>ob_bytes = b, ob_etag = compute_etag H b\<rparr>)
    \<and> decode_log E b = Inr (candidate_frames E rq (last_epoch fs) fs)
    \<and> total_commits c' = total_commits c + 1 \<and> total_auto_rebases c' = total_auto_rebases c"
proof -
  have dec: "decode_log E b = Inr (candidate_frames E rq (last_epoch fs) fs)"
    unfolding b using assms(1,2,6,7)
    by (intro decode_encode_log) (simp_all add: candidate_frames_def log_ok_def frame_ok_def request_ok_def)
  have eight: "commit_attempts chaos_get (chaos_put_if_match H) E now rq base 8 s1 c fs etag
      = (s1\<lparr>objects := (objects s1)(rq_key rq \<mapsto> \<lparr>ob_bytes = b, ob_etag = compute_etag H b\<rparr>),
            puts_count := puts_count s1 + 1\<rparr>, c\<lparr>total_commits := total_commits c + 1\<rparr>, Inr (next_epoch fs))"
    if "objects s1 (rq_key rq) = x" "injected_winners s1 (rq_key rq) = None" "etag = map_option ob_etag x"
      "base = last_epoch fs" for s1 x etag base
    using that commit_attempts.simps(2) [of chaos_get "chaos_put_if_match H" E now rq base 7 s1 c fs etag]
    by (cases x) (simp_all add: chaos_put_if_match_def b)
  show ?thesis
    using assms(4)
  proof
    assume none: "objects s (rq_key rq) = None \<and> fs = []"
    then show ?thesis
      using eight [of "s\<lparr>gets_count := gets_count s + 1\<rparr>" None] dec assms(5)
      by (simp add: commit_transaction_def rq [symmetric] chaos_get_def last_epoch_def)
  next
    assume "\<exists>p. objects s (rq_key rq) = Some p \<and> decode_log E (ob_bytes p) = Inr fs"
    then obtain p where "objects s (rq_key rq) = Some p" "decode_log E (ob_bytes p) = Inr fs" by blast
    then show ?thesis
      using eight [of "s\<lparr>gets_count := gets_count s + 1\<rparr>" "Some p"] dec assms(5)
      by (simp add: commit_transaction_def rq [symmetric] chaos_get_def)
  qed
qed

theorem commit_alone_succeeds_witness:
  "\<exists>s' c' b. commit_transaction chaos_get (chaos_put_if_match toy_hashes) toy_env None (\<lambda>_. 0) chaos_new
      \<lparr>total_commits = 4, total_auto_rebases = 0\<rparr> ''t'' ''e'' ''h'' [] [''r1''] ''p'' = (s', c', Inr 1)
    \<and> total_commits c' = 5
    \<and> objects s' (s3_hot_head_key ''t'' (resolve_cell_id toy_hashes None ''e'' ''h''))
      = Some \<lparr>ob_bytes = b, ob_etag = compute_etag toy_hashes b\<rparr>"
proof -
  have ok: "request_ok toy_env \<lparr>rq_tenant = ''t'', rq_cell = resolve_cell_id (ce_hashes toy_env) None ''e'' ''h'',
      rq_reads = [], rq_writes = [''r1''], rq_payload = ''p''\<rparr>"
    using toy_env_ok(2) by (simp add: request_ok_def toy_request_def)
  show ?thesis
    using commit_alone_succeeds [OF toy_env_ok(1) ok refl _ _ _ _ refl, of chaos_new "[]" toy_hashes "\<lambda>_. 0"
        "\<lparr>total_commits = 4, total_auto_rebases = 0\<rparr>"]
    by (fastforce simp: chaos_new_def next_epoch_def rq_key_def toy_env_def)
qed

text \<open>C18: a commit that loses the race once is decided by the signatures: it is refused, and nothing of
  it is written, when the winner's frames newer than its base meet its Bloom signature; otherwise it
  is appended behind the winner's frames.\<close>

theorem commit_meets_winner:
  assumes rq: "rq = \<lparr>rq_tenant = tenant, rq_cell = resolve_cell_id (ce_hashes E) reg entity hint,
           rq_reads = reads, rq_writes = writes, rq_payload = payload\<rparr>"
    and "objects s (rq_key rq) = None" "injected_winners s (rq_key rq) = Some wb"
    and "decode_log E wb = Inr ws"
    and run: "commit_transaction chaos_get (chaos_put_if_match H) E reg now s c tenant entity hint reads
        writes payload = (s', c', r)"
  shows "if blocked_by 0 (my_signature E rq 0 []) ws
    then r = Inl MbfCasConflict001
      \<and> objects s' (rq_key rq) = Some \<lparr>ob_bytes = wb, ob_etag = compute_etag H wb\<rparr>
    else r = Inr (next_epoch ws) \<and> total_auto_rebases c' = total_auto_rebases c + 1
      \<and> (let b = encode_log E (now 6) rq (candidate_frames E rq 0 ws) in
          objects s' (rq_key rq) = Some \<lparr>ob_bytes = b, ob_etag = compute_etag H b\<rparr>)"
proof -
  let ?s1 = "s\<lparr>gets_count := gets_count s + 1\<rparr>"
  have "commit_attempts chaos_get (chaos_put_if_match H) E now rq 0 8 ?s1 c [] None = (s', c', r)"
    using run assms(2) by (simp add: commit_transaction_def rq [symmetric] chaos_get_def)
  then show ?thesis
    using assms(3,4) commit_attempts.simps(2) [of chaos_get "chaos_put_if_match H" E now rq 0 7 ?s1 c "[]" None]
      commit_attempts.simps(2) [of chaos_get "chaos_put_if_match H" E now rq 0 6 _ _ ws]
    by (auto simp: chaos_put_if_match_def chaos_get_def Let_def split: if_splits)
qed

theorem commit_meets_winner_witness:
  "\<exists>wb s'. \<exists>c' :: coordinator. commit_transaction chaos_get (chaos_put_if_match toy_hashes) toy_env None (\<lambda>_. 0)
      (inject_winner (s3_hot_head_key ''t'' (resolve_cell_id toy_hashes None ''e'' ''h'')) wb chaos_new)
      \<lparr>total_commits = 0, total_auto_rebases = 0\<rparr> ''t'' ''e'' ''h'' [] [''r1''] ''p'' = (s', c', Inl MbfCasConflict001)
    \<and> decode_log toy_env wb = Inr [\<lparr>signature = from_keys toy_hashes 0 1 [] [''r1''], payload_json = ''p''\<rparr>]"
proof -
  let ?rq = "\<lparr>rq_tenant = ''t'', rq_cell = resolve_cell_id (ce_hashes toy_env) None ''e'' ''h'',
      rq_reads = [], rq_writes = [''r1''], rq_payload = ''p''\<rparr>"
  let ?ws = "[\<lparr>signature = from_keys toy_hashes 0 1 [] [''r1''], payload_json = ''p''\<rparr>]"
  let ?wb = "encode_log toy_env 0 ?rq ?ws"
  let ?s = "inject_winner (rq_key ?rq) ?wb chaos_new"
  have "log_ok (ce_compress toy_env) ?ws"
    using toy_env_ok(2) by (simp add: log_ok_def frame_ok_def request_ok_def toy_request_def)
  then have dec: "decode_log toy_env ?wb = Inr ?ws" using decode_encode_log toy_env_ok(1) by blast
  have "conflicts_with (from_keys toy_hashes 0 1 [] [''r1'']) (from_keys toy_hashes 0 1 [] [''r1''])"
    using conflict_not_missed by auto
  then have "blocked_by 0 (my_signature toy_env ?rq 0 []) ?ws"
    by (simp add: blocked_by_def my_signature_def next_epoch_def toy_env_def) (simp add: from_keys_def)
  moreover obtain s' c' r where run: "commit_transaction chaos_get (chaos_put_if_match toy_hashes) toy_env None
      (\<lambda>_. 0) ?s \<lparr>total_commits = 0, total_auto_rebases = 0\<rparr> ''t'' ''e'' ''h'' [] [''r1''] ''p'' = (s', c', r)"
    by (metis prod.collapse)
  ultimately have "r = Inl MbfCasConflict001"
    using commit_meets_winner [OF refl _ _ dec run] by (simp add: inject_winner_def chaos_new_def)
  then show ?thesis using run dec by (auto simp: rq_key_def toy_env_def)
qed

text \<open>The signatures have no false negatives: two transactions that share a key, written by the
  earlier and read or written by the later, are always found in conflict.\<close>

theorem shared_key_is_conflict:
  assumes "k \<in> set reads \<union> set writes" "k \<in> set writes'"
  shows "conflicts_with (from_keys H b n reads writes) (from_keys H b' n' reads' writes')"
  using conflict_not_missed assms by (metis IntI empty_iff)

theorem shared_key_is_conflict_witness:
  "conflicts_with (from_keys toy_hashes 0 1 [''a''] [''b'']) (from_keys toy_hashes 3 4 [] [''c'', ''a''])"
  using shared_key_is_conflict [of "''a''" "[''a'']" "[''b'']" "[''c'', ''a'']"] by simp

text \<open>The clustering key identifies its three coordinates: it is injective on their low 21 bits.\<close>

theorem hilbert_key_injective:
  assumes "hilbert_cluster_key_3d a b c = hilbert_cluster_key_3d a' b' c'"
  shows "take_bit 21 a = take_bit 21 a' \<and> take_bit 21 b = take_bit 21 b' \<and> take_bit 21 c = take_bit 21 c'"
proof -
  have "bit a i = bit a' i \<and> bit b i = bit b' i \<and> bit c i = bit c' i" if "i < 21" for i
    using hilbert_bits [OF that, of a b c] hilbert_bits [OF that, of a' b' c'] assms by metis
  then show ?thesis by (auto intro!: bit_eqI simp: bit_take_bit_iff)
qed

theorem hilbert_key_injective_witness:
  "hilbert_cluster_key_3d 1 2 3 = hilbert_cluster_key_3d 0x200001 2 3 \<and> take_bit 21 (1 :: 32 word) = take_bit 21 0x200001"
  using hilbert_key_injective [of 1 2 3 "0x200001" 2 3] by (simp add: hilbert_cluster_key_3d_def)

end
