(* ===== verification/FixedDecimal.thy ===== *)
theory FixedDecimal
  imports DomainErrors "HOL-Library.Signed_Division"
begin

text \<open>Fixed-point amounts (\<^verbatim>\<open>FixedDecimal128\<close> of \<^verbatim>\<open>src/mbf/zones/financial_ledger.rs\<close>): 128-bit two's
  complement integers scaled by ten thousand, with banker's rounding, the largest-remainder
  allocation and straight-line amortisation. Arithmetic wraps as in the release profile; the one
  quotient that panics, the least value divided by minus one, is given its wrapped value.\<close>

type_synonym fixed = int

abbreviation i128 :: "int \<Rightarrow> int" where "i128 \<equiv> wrap_s 128"

lemma i128_id [simp]: "- (2 ^ 127) \<le> x \<Longrightarrow> x < 2 ^ 127 \<Longrightarrow> i128 x = x"
  by (simp add: wrap_s_id in_s_def)

definition SCALE :: int where "SCALE = 10000"

definition from_whole :: "int \<Rightarrow> fixed" where
  "from_whole units = i128 (units * SCALE)"

definition to_micro_units :: "fixed \<Rightarrow> int" where
  "to_micro_units x = i128 (x * 100)"

definition from_units_and_bps :: "int \<Rightarrow> int \<Rightarrow> fixed" where
  "from_units_and_bps units bps = i128 (units * SCALE + bps)"

definition checked_add :: "fixed \<Rightarrow> fixed \<Rightarrow> fixed res" where
  "checked_add a b = (if in_s 128 (a + b) then Inr (a + b) else Inl MbfLedgerUnbalanced001)"

definition checked_sub :: "fixed \<Rightarrow> fixed \<Rightarrow> fixed res" where
  "checked_sub a b = (if in_s 128 (a - b) then Inr (a - b) else Inl MbfLedgerUnbalanced001)"

definition div_bankers_raw :: "int \<Rightarrow> int \<Rightarrow> fixed" where
  "div_bankers_raw numerator denominator =
    (let q = i128 (numerator sdiv denominator);
         r = numerator smod denominator;
         abs_r2 = i128 (\<bar>r\<bar> * 2);
         abs_d = i128 \<bar>denominator\<bar>;
         sign = (if (numerator < 0) \<noteq> (denominator < 0) then -1 else 1)
     in if abs_d < abs_r2 then i128 (q + sign)
        else if abs_r2 < abs_d then q
        else if i128 \<bar>q\<bar> smod 2 = 1 then i128 (q + sign)
        else q)"

definition from_micro_units :: "int \<Rightarrow> fixed" where
  "from_micro_units m = div_bankers_raw m 100"

definition mul_bankers :: "fixed \<Rightarrow> fixed \<Rightarrow> fixed" where
  "mul_bankers a b = div_bankers_raw (i128 (a * b)) SCALE"

definition div_bankers :: "fixed \<Rightarrow> fixed \<Rightarrow> fixed res" where
  "div_bankers a d = (if d = 0 then Inl MbfLedgerUnbalanced001 else Inr (div_bankers_raw (i128 (a * SCALE)) d))"

definition compute_straight_line_amortization :: "fixed \<Rightarrow> fixed \<Rightarrow> nat \<Rightarrow> nat \<Rightarrow> fixed res" where
  "compute_straight_line_amortization cost salvage capacity consumed =
    (if capacity = 0 then Inl MbfLedgerUnbalanced001
     else rbind (checked_sub cost salvage) (\<lambda>base.
       let capped = min consumed capacity in
       rbind (div_bankers (from_whole (i64 (int capped))) (from_whole (i64 (int capacity)))) (\<lambda>ratio.
         Inr (mul_bankers base ratio))))"

section \<open>Allocation by largest remainders\<close>

definition bump :: "int \<Rightarrow> nat list \<Rightarrow> int list \<Rightarrow> int list" where
  "bump d idxs shares = fold (\<lambda>i s. s[i := s ! i + d]) idxs shares"

definition allocate_hamilton :: "fixed \<Rightarrow> nat list \<Rightarrow> fixed list res" where
  "allocate_hamilton amount weights =
    (let weight_sum = sum_list weights in
     if weight_sum = 0 then Inl MbfLedgerUnbalanced001
     else let sign = (if amount < 0 then -1 else 1);
              abs_total = nat \<bar>amount\<bar>;
              nums = map (\<lambda>w. (abs_total * w) mod 2 ^ 128) weights;
              floors = map (\<lambda>n. n div weight_sum) nums;
              remainders = enumerate 0 (map (\<lambda>n. n mod weight_sum) nums);
              leftover = abs_total - sum_list floors;
              sorted = sort_key (\<lambda>(i, r). (- int r, i)) remainders
       in Inr (bump sign (map fst (take leftover sorted)) (map (\<lambda>f. int f * sign) floors)))"

section \<open>Rounding\<close>

lemma div_le_dividend_int: "0 \<le> a \<Longrightarrow> 0 < b \<Longrightarrow> a div b \<le> a" for a b :: int
  using div_by_1 [of a] zdiv_mono2 [of a 1 b] by simp

lemma sdiv_abs: "n sdiv d = sgn n * sgn d * (\<bar>n\<bar> div \<bar>d\<bar>)" for n d :: int
  by (simp add: signed_divide_int_def)

lemma smod_abs: "n smod d = sgn n * (\<bar>n\<bar> mod \<bar>d\<bar>)" for n d :: int
  by (simp add: signed_modulo_int_def)

text \<open>The rounding of a non-negative quotient: \<^verbatim>\<open>k\<close> and \<^verbatim>\<open>m\<close> are quotient and remainder.\<close>

lemma div_bankers_raw_eq:
  fixes n d :: int
  defines "k \<equiv> \<bar>n\<bar> div \<bar>d\<bar>" and "m \<equiv> \<bar>n\<bar> mod \<bar>d\<bar>"
  assumes "d \<noteq> 0" "\<bar>n\<bar> < 2 ^ 126" "\<bar>d\<bar> < 2 ^ 126"
  shows "div_bankers_raw n d = (if (n < 0) \<noteq> (d < 0) then -1 else 1) *
    (if \<bar>d\<bar> < 2 * m \<or> 2 * m = \<bar>d\<bar> \<and> odd k then k + 1 else k)"
proof -
  let ?s = "(if (n < 0) \<noteq> (d < 0) then -1 else 1) :: int"
  have m: "0 \<le> m" "m < \<bar>d\<bar>" using assms(3) by (simp_all add: m_def)
  have k: "0 \<le> k" "k \<le> \<bar>n\<bar>" using assms(3) by (simp_all add: k_def pos_imp_zdiv_nonneg_iff div_le_dividend_int)
  have q: "n sdiv d = ?s * k"
    by (cases "n = 0") (use assms(3) in \<open>auto simp: sdiv_abs k_def sgn_if\<close>)
  have r: "\<bar>n smod d\<bar> = m" using assms(3) m by (auto simp: smod_abs m_def [symmetric] abs_mult sgn_if) (simp add: m_def)
  have i: "i128 (?s * k) = ?s * k" "i128 (?s * k + ?s) = ?s * (k + 1)" "i128 \<bar>?s * k\<bar> = k"
    using k assms(4) by (auto simp: algebra_simps)
  have a: "i128 (m * 2) = 2 * m" "i128 \<bar>d\<bar> = \<bar>d\<bar>" using m assms(5) by auto
  have o: "k smod 2 = 1 \<longleftrightarrow> odd k" using k by (auto simp: smod_abs sgn_if odd_iff_mod_2_eq_one)
  show ?thesis unfolding div_bankers_raw_def Let_def q r i a o by auto
qed

lemma div_bankers_nearest:
  assumes "d \<noteq> 0" "\<bar>n\<bar> < 2 ^ 126" "\<bar>d\<bar> < 2 ^ 126"
  shows "2 * \<bar>n - div_bankers_raw n d * d\<bar> \<le> \<bar>d\<bar>"
    "2 * \<bar>n - div_bankers_raw n d * d\<bar> = \<bar>d\<bar> \<Longrightarrow> even (div_bankers_raw n d)"
proof -
  define k m where "k = \<bar>n\<bar> div \<bar>d\<bar>" and "m = \<bar>n\<bar> mod \<bar>d\<bar>"
  let ?s = "(if (n < 0) \<noteq> (d < 0) then -1 else 1) :: int"
  have n: "\<bar>n\<bar> = k * \<bar>d\<bar> + m" "0 \<le> m" "m < \<bar>d\<bar>" using assms(1) by (simp_all add: k_def m_def)
  note eq = div_bankers_raw_eq [OF assms, folded k_def m_def]
  have "n - ?s * j * d = (if n < 0 then -1 else 1) * (\<bar>n\<bar> - j * \<bar>d\<bar>)" for j
    by (auto simp: abs_if algebra_simps)
  then have err: "\<bar>n - ?s * j * d\<bar> = \<bar>\<bar>n\<bar> - j * \<bar>d\<bar>\<bar>" for j
    by (simp only: abs_mult) simp
  have dist: "\<bar>n - ?s * k * d\<bar> = m" "\<bar>n - ?s * (k + 1) * d\<bar> = \<bar>d\<bar> - m"
    unfolding err using n by (simp_all add: algebra_simps)
  show "2 * \<bar>n - div_bankers_raw n d * d\<bar> \<le> \<bar>d\<bar>"
    using dist n unfolding eq by (auto split: if_splits)
  show "even (div_bankers_raw n d)" if "2 * \<bar>n - div_bankers_raw n d * d\<bar> = \<bar>d\<bar>"
    using that dist unfolding eq by (auto split: if_splits)
qed

lemma div_bankers_exact:
  assumes "d \<noteq> 0" "\<bar>q * d\<bar> < 2 ^ 126" "\<bar>d\<bar> < 2 ^ 126"
  shows "div_bankers_raw (q * d) d = q"
proof -
  have "\<bar>q * d - div_bankers_raw (q * d) d * d\<bar> = \<bar>q - div_bankers_raw (q * d) d\<bar> * \<bar>d\<bar>"
    by (simp add: abs_mult [symmetric] left_diff_distrib)
  then have near: "2 * (\<bar>q - div_bankers_raw (q * d) d\<bar> * \<bar>d\<bar>) \<le> \<bar>d\<bar>"
    using div_bankers_nearest(1) [OF assms] by simp
  show ?thesis
  proof (rule ccontr)
    assume "div_bankers_raw (q * d) d \<noteq> q"
    then have "1 * \<bar>d\<bar> \<le> \<bar>q - div_bankers_raw (q * d) d\<bar> * \<bar>d\<bar>" by (intro mult_right_mono) simp_all
    then show False using near assms(1) by simp
  qed
qed

section \<open>Allocation\<close>

lemma length_bump [simp]: "length (bump d idxs shares) = length shares"
  unfolding bump_def by (induction idxs arbitrary: shares) simp_all

lemma bump_Cons [simp]: "bump d (i # idxs) shares = bump d idxs (shares[i := shares ! i + d])"
  by (simp add: bump_def)

lemma bump_Nil [simp]: "bump d [] shares = shares"
  by (simp add: bump_def)

lemma sum_list_add_at: "i < length s \<Longrightarrow> sum_list (s[i := s ! i + d]) = sum_list s + d" for s :: "int list"
  by (induction s arbitrary: i) (auto simp: nth_Cons split: nat.split)

lemma sum_list_bump:
  "\<forall>i \<in> set idxs. i < length shares \<Longrightarrow> sum_list (bump d idxs shares) = sum_list shares + d * int (length idxs)"
  by (induction idxs arbitrary: shares) (simp_all add: sum_list_add_at distrib_left)

lemma nth_bump:
  "distinct idxs \<Longrightarrow> j < length shares \<Longrightarrow> bump d idxs shares ! j = shares ! j + (if j \<in> set idxs then d else 0)"
proof (induction idxs arbitrary: shares)
  case (Cons i idxs)
  then show ?case by (cases "i = j") auto
qed simp

lemma remainders_total:
  fixes a :: nat and ws :: "nat list"
  defines "S \<equiv> sum_list ws"
  assumes "S \<noteq> 0"
  shows "sum_list (map (\<lambda>w. a * w div S) ws) \<le> a"
    "a - sum_list (map (\<lambda>w. a * w div S) ws) < length ws"
proof -
  let ?F = "sum_list (map (\<lambda>w. a * w div S) ws)" and ?R = "sum_list (map (\<lambda>w. a * w mod S) ws)"
  have split: "?F * S + ?R = a * S"
  proof -
    have "sum_list (map (\<lambda>w. a * w div S) xs) * S + sum_list (map (\<lambda>w. a * w mod S) xs) = a * sum_list xs" for xs
    proof (induction xs)
      case (Cons x xs)
      have "a * x div S * S + a * x mod S = a * x" by simp
      then show ?case using Cons by (simp add: distrib_left distrib_right)
    qed simp
    then show ?thesis by (simp add: S_def)
  qed
  then have "?F * S \<le> a * S" by linarith
  then show le: "?F \<le> a" using assms(2) by simp
  have "ws \<noteq> []" using assms(2) by (auto simp: S_def)
  then have "?R < length ws * S"
  proof -
    have "xs \<noteq> [] \<Longrightarrow> sum_list (map (\<lambda>w. a * w mod S) xs) < length xs * S" for xs
    proof (induction xs)
      case (Cons x xs)
      have "a * x mod S < S" using assms(2) by simp
      then show ?case using Cons by (cases "xs = []") (simp_all add: add_less_le_mono)
    qed simp
    then show ?thesis using \<open>ws \<noteq> []\<close> by blast
  qed
  then have "(a - ?F) * S < length ws * S" using split le by (simp add: diff_mult_distrib)
  then show "a - ?F < length ws" by simp
qed

lemma allocate_hamilton_shares:
  assumes "\<bar>amount\<bar> < 2 ^ 63" "\<forall>w \<in> set weights. w < 2 ^ 64" "sum_list weights \<noteq> 0"
  obtains extra where "allocate_hamilton amount weights = Inr (bump (if amount < 0 then -1 else 1) extra
      (map (\<lambda>w. int (nat \<bar>amount\<bar> * w div sum_list weights) * (if amount < 0 then -1 else 1)) weights))"
    "distinct extra" "set extra \<subseteq> {..<length weights}"
    "length extra = nat \<bar>amount\<bar> - sum_list (map (\<lambda>w. nat \<bar>amount\<bar> * w div sum_list weights) weights)"
proof -
  let ?a = "nat \<bar>amount\<bar>" and ?S = "sum_list weights"
  have small: "?a * w < 2 ^ 128" if "w \<in> set weights" for w
  proof -
    have "?a * w \<le> 2 ^ 63 * 2 ^ 64" using assms(1,2) that by (intro mult_le_mono) auto
    then show ?thesis by simp
  qed
  have nums: "map (\<lambda>w. (?a * w) mod 2 ^ 128) weights = map (\<lambda>w. ?a * w) weights"
    by (rule map_cong [OF refl]) (use small in simp)
  define left where "left = ?a - sum_list (map (\<lambda>w. ?a * w div ?S) weights)"
  define order where "order = sort_key (\<lambda>(i, r). (- int r, i))
    (enumerate 0 (map (\<lambda>n. n mod ?S) (map (\<lambda>w. ?a * w) weights)))"
  have less: "left < length weights" using remainders_total(2) [OF assms(3)] by (simp add: left_def)
  have order: "length order = length weights" "distinct (map fst order)" "set (map fst order) = {..<length weights}"
  proof -
    have "mset (map fst order) = mset (map fst (enumerate 0 (map (\<lambda>n. n mod ?S) (map (\<lambda>w. ?a * w) weights))))"
      unfolding order_def mset_map [where f = fst] mset_sort ..
    then have perm: "mset (map fst order) = mset [0..<length weights]" unfolding map_fst_enumerate by simp
    show "distinct (map fst order)" using mset_eq_imp_distinct_iff [OF perm] by simp
    show "set (map fst order) = {..<length weights}" using mset_eq_setD [OF perm] by (simp add: atLeast0LessThan)
    show "length order = length weights" by (simp add: order_def)
  qed
  let ?extra = "map fst (take left order)"
  have e: "distinct ?extra" "set ?extra \<subseteq> {..<length weights}" "length ?extra = left"
    using order less by (auto simp: take_map [symmetric] dest: in_set_takeD)
  have "allocate_hamilton amount weights = Inr (bump (if amount < 0 then -1 else 1) ?extra
      (map (\<lambda>w. int (?a * w div ?S) * (if amount < 0 then -1 else 1)) weights))"
    using assms(3) unfolding allocate_hamilton_def Let_def nums left_def order_def by (simp add: comp_def)
  then show thesis using that e by (simp add: left_def)
qed

section \<open>Amortisation\<close>

lemma div_bankers_between:
  assumes "0 < d" "\<bar>n\<bar> < 2 ^ 126" "\<bar>d\<bar> < 2 ^ 126" "0 \<le> n" "n \<le> q * d"
  shows "0 \<le> div_bankers_raw n d" "div_bankers_raw n d \<le> q"
proof -
  have near: "2 * \<bar>n - div_bankers_raw n d * d\<bar> \<le> d" using div_bankers_nearest(1) [of d n] assms by simp
  show "0 \<le> div_bankers_raw n d"
  proof (rule ccontr)
    assume "\<not> 0 \<le> div_bankers_raw n d"
    then have "div_bankers_raw n d * d \<le> (-1) * d" using assms(1) by (intro mult_right_mono) simp_all
    then have "d \<le> n - div_bankers_raw n d * d" using assms(4) by simp
    then show False using near assms(1) by simp
  qed
  show "div_bankers_raw n d \<le> q"
  proof (rule ccontr)
    assume "\<not> div_bankers_raw n d \<le> q"
    then have "(q + 1) * d \<le> div_bankers_raw n d * d" using assms(1) by (intro mult_right_mono) simp_all
    then show False using near assms(1,5) by (simp add: distrib_right)
  qed
qed

lemma amortization_between:
  assumes "0 < capacity" "capacity < 2 ^ 63" "0 \<le> cost - salvage" "cost - salvage < 2 ^ 112"
  obtains r where "compute_straight_line_amortization cost salvage capacity consumed = Inr r"
    "0 \<le> r" "r \<le> cost - salvage" "capacity \<le> consumed \<Longrightarrow> r = cost - salvage"
proof -
  let ?base = "cost - salvage" and ?c = "int (min consumed capacity)"
  let ?n = "?c * SCALE * SCALE" and ?d = "int capacity * SCALE"
  let ?ratio = "div_bankers_raw ?n ?d"
  have sub: "checked_sub cost salvage = Inr ?base" using assms(3,4) by (simp add: checked_sub_def in_s_def)
  have c: "0 \<le> ?c" "?c \<le> int capacity" "int capacity < 2 ^ 63" using assms(2) by auto
  have "i128 (from_whole (i64 ?c) * SCALE) = ?n" "from_whole (i64 (int capacity)) = ?d"
    using c by (simp_all add: from_whole_def SCALE_def)
  then have ratio: "div_bankers (from_whole (i64 ?c)) (from_whole (i64 (int capacity))) = Inr ?ratio"
    using assms(1) by (simp add: div_bankers_def SCALE_def)
  have d: "0 < ?d" "\<bar>?n\<bar> < 2 ^ 126" "\<bar>?d\<bar> < 2 ^ 126" using c assms(1) by (simp_all add: SCALE_def)
  have b: "0 \<le> ?ratio" "?ratio \<le> SCALE"
    using div_bankers_between [OF d, of SCALE] c by (simp_all add: SCALE_def)
  let ?m = "?base * ?ratio"
  have m: "0 \<le> ?m" "?m \<le> ?base * SCALE" using b assms(3) by (simp_all add: mult_left_mono)
  then have mb: "\<bar>?m\<bar> < 2 ^ 126" "i128 ?m = ?m" using assms(4) by (simp_all add: SCALE_def)
  have r: "compute_straight_line_amortization cost salvage capacity consumed = Inr (div_bankers_raw ?m SCALE)"
    using assms(1) sub ratio mb(2) by (simp add: compute_straight_line_amortization_def mul_bankers_def)
  have s: "0 < SCALE" "\<bar>SCALE\<bar> < 2 ^ 126" by (simp_all add: SCALE_def)
  note between = div_bankers_between [OF s(1) mb(1) s(2) m]
  have "div_bankers_raw ?m SCALE = ?base" if "capacity \<le> consumed"
  proof -
    have n: "?n = SCALE * ?d" using that by (simp add: min_def SCALE_def)
    have "?ratio = SCALE" unfolding n by (rule div_bankers_exact) (use d n assms(1) in \<open>simp_all add: SCALE_def\<close>)
    then show ?thesis using div_bankers_exact [of SCALE ?base] s mb(1) by simp
  qed
  then show thesis using that [OF r between] by blast
qed

section \<open>Properties\<close>

text \<open>Banker's rounding. Away from the ends of the 128-bit range a division differs from the exact
  quotient by at most one half, and gives the even neighbour at a tie; a quotient that is a whole
  number is exact.\<close>

theorem bankers_rounding:
  assumes "d \<noteq> 0" "\<bar>n\<bar> < 2 ^ 126" "\<bar>d\<bar> < 2 ^ 126"
  shows "2 * \<bar>n - div_bankers_raw n d * d\<bar> \<le> \<bar>d\<bar>
    \<and> (2 * \<bar>n - div_bankers_raw n d * d\<bar> = \<bar>d\<bar> \<longrightarrow> even (div_bankers_raw n d))
    \<and> (d dvd n \<longrightarrow> div_bankers_raw n d * d = n)"
proof -
  have "div_bankers_raw n d * d = n" if dvd: "d dvd n"
  proof -
    obtain q where "n = q * d" using dvd by (metis dvd_def mult.commute)
    then show ?thesis using div_bankers_exact assms by simp
  qed
  then show ?thesis using div_bankers_nearest [OF assms] by blast
qed

theorem bankers_rounding_witness:
  "div_bankers_raw 25 (-10) = -2 \<and> even (div_bankers_raw 25 (-10))"
proof -
  have "div_bankers_raw 25 (-10) = -2" by code_simp
  then show ?thesis using bankers_rounding [of "-10" 25] by simp
qed

text \<open>An allocation is exact. The shares of an amount add up to the amount, there is one per weight,
  and each is the proportional share rounded down or up in magnitude, with the sign of the amount;
  the allocation is refused exactly when all weights are zero.\<close>

theorem allocation_exact:
  assumes "\<bar>amount\<bar> < 2 ^ 63" "\<forall>w \<in> set weights. w < 2 ^ 64"
  shows "if sum_list weights = 0 then allocate_hamilton amount weights = Inl MbfLedgerUnbalanced001
    else \<exists>shares. allocate_hamilton amount weights = Inr shares \<and> sum_list shares = amount
      \<and> length shares = length weights
      \<and> (\<forall>i < length weights. \<exists>up \<in> {0, 1}. shares ! i = (if amount < 0 then -1 else 1)
            * (int (nat \<bar>amount\<bar> * weights ! i div sum_list weights) + up))"
proof (cases "sum_list weights = 0")
  case False
  let ?s = "(if amount < 0 then -1 else 1) :: int" and ?f = "\<lambda>w. nat \<bar>amount\<bar> * w div sum_list weights"
  obtain extra where e: "allocate_hamilton amount weights
      = Inr (bump ?s extra (map (\<lambda>w. int (?f w) * ?s) weights))"
    "distinct extra" "set extra \<subseteq> {..<length weights}"
    "length extra = nat \<bar>amount\<bar> - sum_list (map ?f weights)"
    by (rule allocate_hamilton_shares [OF assms False])
  let ?shares = "bump ?s extra (map (\<lambda>w. int (?f w) * ?s) weights)"
  have "sum_list ?shares = sum_list (map (\<lambda>w. int (?f w) * ?s) weights) + ?s * int (length extra)"
    using e(3) by (intro sum_list_bump) auto
  also have "sum_list (map (\<lambda>w. int (?f w) * ?s) weights) = int (sum_list (map ?f weights)) * ?s"
  proof -
    have "sum_list (map (\<lambda>w. int (g w) * c) ws) = int (sum_list (map g ws)) * c" for g c and ws :: "nat list"
      by (induction ws) (simp_all add: distrib_right)
    then show ?thesis .
  qed
  also have "\<dots> + ?s * int (length extra) = ?s * int (nat \<bar>amount\<bar>)"
    using e(4) remainders_total(1) [OF False, of "nat \<bar>amount\<bar>"] by (simp add: algebra_simps of_nat_diff)
  also have "\<dots> = amount" by simp
  finally have "sum_list ?shares = amount" .
  moreover have "\<exists>up \<in> {0, 1}. ?shares ! i = ?s * (int (?f (weights ! i)) + up)" if "i < length weights" for i
    using nth_bump [OF e(2), of i "map (\<lambda>w. int (?f w) * ?s) weights" ?s] that by auto
  ultimately show ?thesis using e(1) False by auto
qed (simp add: allocate_hamilton_def)

theorem allocation_exact_witness:
  "\<exists>shares. allocate_hamilton (-100) [1, 1, 1] = Inr shares \<and> sum_list shares = -100 \<and> shares = [-34, -33, -33]"
proof -
  have "allocate_hamilton (-100) [1, 1, 1] = Inr [-34, -33, -33]" by code_simp
  then show ?thesis using allocation_exact [of "-100" "[1, 1, 1]"] by simp
qed

text \<open>Straight-line amortisation stays between zero and the amortisable base, and reaches the base
  exactly when the capacity is used up, for bases below 2 ^ 112 units of the scale.\<close>

theorem amortization_bounds:
  assumes "0 < capacity" "capacity < 2 ^ 63" "0 \<le> cost - salvage" "cost - salvage < 2 ^ 112"
  shows "\<exists>r. compute_straight_line_amortization cost salvage capacity consumed = Inr r
    \<and> 0 \<le> r \<and> r \<le> cost - salvage \<and> (capacity \<le> consumed \<longrightarrow> r = cost - salvage)"
  by (rule amortization_between [OF assms, of consumed]) blast

theorem amortization_bounds_witness:
  "compute_straight_line_amortization 1000000 100000 3 9 = Inr 900000"
  using amortization_bounds [of 3 1000000 100000 9] by auto

end
