(* ===== verification/FinLedger.thy ===== *)
theory FinLedger
  imports FixedDecimal OrderedMap MbfFormat
begin

text \<open>The financial ledger zone (\<^verbatim>\<open>FinancialLedgerZone\<close> of
  \<^verbatim>\<open>src/mbf/zones/financial_ledger.rs\<close>): inventory batches with their valuation, checkpoints, the
  hash chain of journal entries, exchange rates and the binary image of the zone. An operation
  returns its result and the zone it leaves, since the code may change the zone before it fails.
  SHA-256 is a parameter.\<close>

datatype valuation_method = Fifo | Lifo | Wac | Fefo

record active_batch_layer =
  batch_id :: "32 word"
  resource_row_id :: "32 word"
  received_ms :: int
  expiry_ms :: int
  remaining_qty_scaled :: int

record financial_checkpoint =
  closing_qty :: fixed
  closing_book_value :: fixed
  running_wac_unit_cost :: fixed
  block_end_epoch_ms :: int
  checkpoint_reserved :: int

record ledger_audit_header =
  prev_block_sha256 :: bytes
  block_merkle_root :: bytes

record ledger_zone =
  fiscal_lock_epoch_ms :: int
  batches :: "(active_batch_layer \<times> fixed) list"
  checkpoints :: "financial_checkpoint list"
  audit_headers :: "ledger_audit_header list"
  merkle_chain_tip :: bytes
  fx_rates_to_base :: "(string, fixed) omap"

definition le_i128 :: "int \<Rightarrow> bytes" where
  "le_i128 x = le_bytes 16 (nat (x mod 2 ^ 128))"

definition of_le_i128 :: "bytes \<Rightarrow> int" where
  "of_le_i128 bs = i128 (int (le_nat bs))"

definition ledger_new :: "int \<Rightarrow> ledger_zone" where
  "ledger_new lock = \<lparr>fiscal_lock_epoch_ms = lock, batches = [], checkpoints = [], audit_headers = [],
     merkle_chain_tip = replicate 32 0, fx_rates_to_base = om_empty\<rparr>"

definition set_exchange_rate :: "ledger_zone \<Rightarrow> string \<Rightarrow> fixed \<Rightarrow> ledger_zone" where
  "set_exchange_rate z currency rate = z\<lparr>fx_rates_to_base := om_put currency rate (fx_rates_to_base z)\<rparr>"

definition journal_block :: "(bytes \<Rightarrow> bytes) \<Rightarrow> bytes \<Rightarrow> int \<Rightarrow> int \<Rightarrow> bytes" where
  "journal_block sha prev now amount = sha (prev @ le_i64 now @ le_i128 amount)"

definition record_journal_entry ::
  "(bytes \<Rightarrow> bytes) \<Rightarrow> ledger_zone \<Rightarrow> int \<Rightarrow> fixed list \<Rightarrow> fixed list \<Rightarrow> bytes res \<times> ledger_zone" where
  "record_journal_entry sha z now debits credits =
    (if now \<le> fiscal_lock_epoch_ms z then (Inl MbfFiscalClosed001, z)
     else let sum_d = i128 (sum_list debits); sum_c = i128 (sum_list credits) in
       if sum_d \<noteq> sum_c then (Inl MbfLedgerUnbalanced001, z)
       else let tip = journal_block sha (merkle_chain_tip z) now sum_d in
         (Inr tip, z\<lparr>merkle_chain_tip := tip, audit_headers := audit_headers z
            @ [\<lparr>prev_block_sha256 = merkle_chain_tip z, block_merkle_root = tip\<rparr>]\<rparr>))"

definition convert_to_base_currency :: "ledger_zone \<Rightarrow> fixed \<Rightarrow> string \<Rightarrow> fixed res" where
  "convert_to_base_currency z amount currency =
    (case om_get (fx_rates_to_base z) currency of
       None \<Rightarrow> Inl MbfLedgerUnbalanced001
     | Some rate \<Rightarrow> Inr (mul_bankers amount rate))"

definition add_layer :: "active_batch_layer \<times> fixed \<Rightarrow> fixed \<times> fixed \<Rightarrow> (fixed \<times> fixed) res" where
  "add_layer = (\<lambda>(layer, unit_cost) (total_qty, total_val).
    if 0 < remaining_qty_scaled layer then
      rbind (checked_add total_qty (remaining_qty_scaled layer)) (\<lambda>q.
      rbind (checked_add total_val (mul_bankers (remaining_qty_scaled layer) unit_cost)) (\<lambda>v. Inr (q, v)))
    else Inr (total_qty, total_val))"

definition compute_checkpoint :: "ledger_zone \<Rightarrow> int \<Rightarrow> financial_checkpoint res" where
  "compute_checkpoint z epoch_ms =
    rbind (try_fold add_layer (batches z) (0, 0)) (\<lambda>(total_qty, total_val).
    rbind (if 0 < total_qty then div_bankers total_val total_qty else Inr 0) (\<lambda>wac.
    Inr \<lparr>closing_qty = total_qty, closing_book_value = total_val, running_wac_unit_cost = wac,
         block_end_epoch_ms = epoch_ms, checkpoint_reserved = 0\<rparr>))"

definition receive_batch :: "ledger_zone \<Rightarrow> 32 word \<Rightarrow> 32 word \<Rightarrow> int \<Rightarrow> int \<Rightarrow> fixed \<Rightarrow> fixed
    \<Rightarrow> financial_checkpoint res \<times> ledger_zone" where
  "receive_batch z bid row received expiry qty unit_cost =
    (if received \<le> fiscal_lock_epoch_ms z then (Inl MbfFiscalClosed001, z)
     else let z1 = z\<lparr>batches := batches z @ [(\<lparr>batch_id = bid, resource_row_id = row, received_ms = received,
                       expiry_ms = expiry, remaining_qty_scaled = i64 qty\<rparr>, unit_cost)]\<rparr> in
       case compute_checkpoint z1 received of
         Inl e \<Rightarrow> (Inl e, z1)
       | Inr cp \<Rightarrow> (Inr cp, z1\<lparr>checkpoints := checkpoints z1 @ [cp]\<rparr>))"

definition issue_key :: "valuation_method \<Rightarrow> active_batch_layer \<Rightarrow> int" where
  "issue_key m layer = (case m of Fifo \<Rightarrow> received_ms layer | Wac \<Rightarrow> received_ms layer
     | Lifo \<Rightarrow> - received_ms layer | Fefo \<Rightarrow> expiry_ms layer)"

definition issue_order :: "valuation_method \<Rightarrow> (active_batch_layer \<times> fixed) list \<Rightarrow> nat list" where
  "issue_order m bs = sort_key (\<lambda>i. issue_key m (fst (bs ! i))) [0..<length bs]"

fun issue_loop :: "valuation_method \<Rightarrow> fixed \<Rightarrow> nat list \<Rightarrow> (active_batch_layer \<times> fixed) list \<Rightarrow> int \<Rightarrow> fixed
    \<Rightarrow> fixed res \<times> (active_batch_layer \<times> fixed) list" where
  "issue_loop m wac [] bs left cogs = (Inr cogs, bs)"
| "issue_loop m wac (i # idxs) bs left cogs =
    (if left = 0 then (Inr cogs, bs)
     else let layer = fst (bs ! i); avail = remaining_qty_scaled layer in
       if avail = 0 then issue_loop m wac idxs bs left cogs
       else let taken = min avail left;
                bs1 = bs[i := (layer\<lparr>remaining_qty_scaled := i64 (avail - taken)\<rparr>, snd (bs ! i))];
                unit_cost = (if m = Wac then wac else snd (bs ! i))
            in case checked_add cogs (mul_bankers taken unit_cost) of
                 Inl e \<Rightarrow> (Inl e, bs1)
               | Inr c \<Rightarrow> issue_loop m wac idxs bs1 (i64 (left - taken)) c)"

definition issue_inventory :: "ledger_zone \<Rightarrow> int \<Rightarrow> fixed \<Rightarrow> valuation_method
    \<Rightarrow> (fixed \<times> financial_checkpoint) res \<times> ledger_zone" where
  "issue_inventory z now qty m =
    (if now \<le> fiscal_lock_epoch_ms z then (Inl MbfFiscalClosed001, z)
     else case compute_checkpoint z now of
       Inl e \<Rightarrow> (Inl e, z)
     | Inr current \<Rightarrow>
       if closing_qty current < qty then (Inl MbfLedgerUnbalanced001, z)
       else let (r, bs) = issue_loop m (running_wac_unit_cost current) (issue_order m (batches z)) (batches z) (i64 qty) 0;
                z1 = z\<lparr>batches := bs\<rparr>
            in case r of
                 Inl e \<Rightarrow> (Inl e, z1)
               | Inr cogs \<Rightarrow> (case compute_checkpoint z1 now of
                   Inl e \<Rightarrow> (Inl e, z1)
                 | Inr cp \<Rightarrow> (Inr (cogs, cp), z1\<lparr>checkpoints := checkpoints z1 @ [cp]\<rparr>)))"

text \<open>\<^verbatim>\<open>partition_point\<close> of the standard library, whose result is specified for partitioned slices.\<close>

definition partition_point :: "('a \<Rightarrow> bool) \<Rightarrow> 'a list \<Rightarrow> nat" where
  "partition_point P xs = length (takeWhile P xs)"

definition last_value_as_of :: "ledger_zone \<Rightarrow> int \<Rightarrow> financial_checkpoint option" where
  "last_value_as_of z target =
    (let idx = partition_point (\<lambda>cp. block_end_epoch_ms cp \<le> target) (checkpoints z)
     in if idx = 0 then None else Some (checkpoints z ! (idx - 1)))"

section \<open>The binary image of the zone\<close>

definition ZONE4_MAGIC :: bytes where "ZONE4_MAGIC = str_bytes ''MBFZ4FIN''"

definition batch_to_bytes :: "active_batch_layer \<times> fixed \<Rightarrow> bytes" where
  "batch_to_bytes = (\<lambda>(layer, cost). le_word (batch_id layer) @ le_word (resource_row_id layer)
     @ le_i64 (received_ms layer) @ le_i64 (expiry_ms layer) @ le_i64 (remaining_qty_scaled layer) @ le_i128 cost)"

definition batch_from_bytes :: "bytes \<Rightarrow> active_batch_layer \<times> fixed" where
  "batch_from_bytes b = (\<lparr>batch_id = of_le (bslice 0 4 b), resource_row_id = of_le (bslice 4 4 b),
     received_ms = of_le_i64 (bslice 8 8 b), expiry_ms = of_le_i64 (bslice 16 8 b),
     remaining_qty_scaled = of_le_i64 (bslice 24 8 b)\<rparr>, of_le_i128 (bslice 32 16 b))"

definition checkpoint_to_bytes :: "financial_checkpoint \<Rightarrow> bytes" where
  "checkpoint_to_bytes cp = le_i128 (closing_qty cp) @ le_i128 (closing_book_value cp)
     @ le_i128 (running_wac_unit_cost cp) @ le_i64 (block_end_epoch_ms cp) @ le_i64 (checkpoint_reserved cp)"

definition checkpoint_from_bytes :: "bytes \<Rightarrow> financial_checkpoint" where
  "checkpoint_from_bytes b = \<lparr>closing_qty = of_le_i128 (bslice 0 16 b), closing_book_value = of_le_i128 (bslice 16 16 b),
     running_wac_unit_cost = of_le_i128 (bslice 32 16 b), block_end_epoch_ms = of_le_i64 (bslice 48 8 b),
     checkpoint_reserved = of_le_i64 (bslice 56 8 b)\<rparr>"

definition audit_to_bytes :: "ledger_audit_header \<Rightarrow> bytes" where
  "audit_to_bytes h = prev_block_sha256 h @ block_merkle_root h"

definition audit_from_bytes :: "bytes \<Rightarrow> ledger_audit_header" where
  "audit_from_bytes b = \<lparr>prev_block_sha256 = bslice 0 32 b, block_merkle_root = bslice 32 32 b\<rparr>"

definition fx_to_bytes :: "string \<times> fixed \<Rightarrow> bytes" where
  "fx_to_bytes = (\<lambda>(currency, rate). le_bytes 2 (length currency) @ str_bytes currency @ le_i128 rate)"

definition rd_fx :: "bytes \<Rightarrow> ((string \<times> fixed) \<times> bytes) res" where
  "rd_fx bs = rbind (rd_fixed MbfCorrupt001 2 bs) (\<lambda>(l, r).
     rbind (rd_fixed MbfCorrupt001 (le_nat l + 16) r) (\<lambda>(b, r1).
     Inr ((lossy_str (take (le_nat l) b), of_le_i128 (drop (le_nat l) b)), r1)))"

definition rd_struct :: "nat \<Rightarrow> (bytes \<Rightarrow> 'a) \<Rightarrow> bytes \<Rightarrow> ('a \<times> bytes) res" where
  "rd_struct n from_bytes bs = rbind (rd_fixed MbfCorrupt001 n bs) (\<lambda>(b, r). Inr (from_bytes b, r))"

definition rd_table :: "(bytes \<Rightarrow> ('a \<times> bytes) res) \<Rightarrow> bytes \<Rightarrow> ('a list \<times> bytes) res" where
  "rd_table rd bs = rbind (rd_fixed MbfCorrupt001 4 bs) (\<lambda>(c, r). rd_many rd (le_nat c) r)"

definition encode_zone_binary :: "ledger_zone \<Rightarrow> bytes" where
  "encode_zone_binary z = pad_to_64 (ZONE4_MAGIC @ le_i64 (fiscal_lock_epoch_ms z) @ merkle_chain_tip z
     @ le_bytes 4 (length (batches z)) @ concat (map batch_to_bytes (batches z))
     @ le_bytes 4 (length (checkpoints z)) @ concat (map checkpoint_to_bytes (checkpoints z))
     @ le_bytes 4 (length (audit_headers z)) @ concat (map audit_to_bytes (audit_headers z))
     @ le_bytes 4 (length (om_entries (fx_rates_to_base z))) @ concat (map fx_to_bytes (om_entries (fx_rates_to_base z))))"

definition decode_zone_binary :: "bytes \<Rightarrow> ledger_zone res" where
  "decode_zone_binary bs =
    (if length bs < 48 \<or> take 8 bs \<noteq> ZONE4_MAGIC then Inl MbfCorrupt001
     else rbind (rd_table (rd_struct 48 batch_from_bytes) (drop 48 bs)) (\<lambda>(layers, r1).
          rbind (rd_table (rd_struct 64 checkpoint_from_bytes) r1) (\<lambda>(cps, r2).
          rbind (rd_table (rd_struct 64 audit_from_bytes) r2) (\<lambda>(headers, r3).
          rbind (rd_table rd_fx r3) (\<lambda>(fx, _).
          Inr \<lparr>fiscal_lock_epoch_ms = of_le_i64 (bslice 8 8 bs), batches = layers, checkpoints = cps,
               audit_headers = headers, merkle_chain_tip = bslice 16 32 bs, fx_rates_to_base = om_of_list fx\<rparr>)))))"

section \<open>Round trip of the image\<close>

lemma length_le_i128 [simp]: "length (le_i128 x) = 16"
  by (simp add: le_i128_def)

lemma of_le_le_i128 [simp, codec_simps]: "of_le_i128 (le_i128 x) = i128 x"
proof -
  have "nat (x mod 2 ^ 128) < 256 ^ 16" by (simp add: nat_less_iff)
  then have "le_nat (le_i128 x) = nat (x mod 2 ^ 128)" by (simp add: le_i128_def le_nat_le_bytes)
  then have "int (le_nat (le_i128 x)) = x mod 2 ^ 128" by simp
  then show ?thesis unfolding of_le_i128_def by (simp only: wrap_s_cong mod_mod_trivial)
qed

definition layer_ok :: "active_batch_layer \<times> fixed \<Rightarrow> bool" where
  "layer_ok = (\<lambda>(layer, cost). in_s 64 (received_ms layer) \<and> in_s 64 (expiry_ms layer)
     \<and> in_s 64 (remaining_qty_scaled layer) \<and> in_s 128 cost)"

definition checkpoint_ok :: "financial_checkpoint \<Rightarrow> bool" where
  "checkpoint_ok cp \<longleftrightarrow> in_s 128 (closing_qty cp) \<and> in_s 128 (closing_book_value cp)
     \<and> in_s 128 (running_wac_unit_cost cp) \<and> in_s 64 (block_end_epoch_ms cp) \<and> in_s 64 (checkpoint_reserved cp)"

definition audit_ok :: "ledger_audit_header \<Rightarrow> bool" where
  "audit_ok h \<longleftrightarrow> length (prev_block_sha256 h) = 32 \<and> length (block_merkle_root h) = 32"

definition fx_ok :: "string \<times> fixed \<Rightarrow> bool" where
  "fx_ok = (\<lambda>(currency, rate). str_ok currency \<and> length currency < 2 ^ 16 \<and> in_s 128 rate)"

definition zone_ok :: "ledger_zone \<Rightarrow> bool" where
  "zone_ok z \<longleftrightarrow> in_s 64 (fiscal_lock_epoch_ms z) \<and> length (merkle_chain_tip z) = 32
     \<and> list_all layer_ok (batches z) \<and> length (batches z) < 2 ^ 32
     \<and> list_all checkpoint_ok (checkpoints z) \<and> length (checkpoints z) < 2 ^ 32
     \<and> list_all audit_ok (audit_headers z) \<and> length (audit_headers z) < 2 ^ 32
     \<and> list_all fx_ok (om_entries (fx_rates_to_base z)) \<and> length (om_entries (fx_rates_to_base z)) < 2 ^ 32"

lemma rd_struct_write: "length (wr x) = n \<Longrightarrow> from_bytes (wr x) = x \<Longrightarrow> rd_struct n from_bytes (wr x @ rest) = Inr (x, rest)"
  by (simp add: rd_struct_def)

lemma i128_in_s [simp]: "in_s 128 x \<Longrightarrow> i128 x = x"
  by (simp add: wrap_s_id)

interpretation layer: byte_codec batch_to_bytes "rd_struct 48 batch_from_bytes" layer_ok
  by unfold_locales
     (rule rd_struct_write, auto simp: batch_to_bytes_def batch_from_bytes_def layer_ok_def split: prod.splits)

interpretation cpoint: byte_codec checkpoint_to_bytes "rd_struct 64 checkpoint_from_bytes" checkpoint_ok
  by unfold_locales
     (rule rd_struct_write, auto simp: checkpoint_to_bytes_def checkpoint_from_bytes_def checkpoint_ok_def)

interpretation audit: byte_codec audit_to_bytes "rd_struct 64 audit_from_bytes" audit_ok
  by unfold_locales (rule rd_struct_write, auto simp: audit_to_bytes_def audit_from_bytes_def audit_ok_def)

interpretation fx: byte_codec fx_to_bytes rd_fx fx_ok
proof
  fix x :: "string \<times> fixed" and rest assume ok: "fx_ok x"
  obtain c r where x: "x = (c, r)" by (cases x)
  have l: "le_nat (le_bytes 2 (length c)) = length c" using ok by (simp add: x fx_ok_def le_nat_le_bytes)
  have "rd_fixed MbfCorrupt001 (length c + 16) ((str_bytes c @ le_i128 r) @ rest) = Inr (str_bytes c @ le_i128 r, rest)"
    by (rule rd_fixed_append) simp
  then show "rd_fx (fx_to_bytes x @ rest) = Inr (x, rest)"
    using ok by (simp add: x rd_fx_def fx_to_bytes_def fx_ok_def l)
qed

lemma rd_table_wr:
  assumes "\<And>xs rest. list_all ok xs \<Longrightarrow> rd_many rd (length xs) (concat (map wr xs) @ rest) = Inr (xs, rest)"
    and "list_all ok xs" "length xs < 2 ^ 32"
  shows "rd_table rd (le_bytes 4 (length xs) @ concat (map wr xs) @ rest) = Inr (xs, rest)"
  using assms(3) assms(1) [OF assms(2)] by (simp add: rd_table_def le_nat_le_bytes)

lemma rd_table_layers:
  "list_all layer_ok xs \<Longrightarrow> length xs < 2 ^ 32 \<Longrightarrow>
    rd_table (rd_struct 48 batch_from_bytes) (le_bytes 4 (length xs) @ concat (map batch_to_bytes xs) @ rest) = Inr (xs, rest)"
  by (rule rd_table_wr [OF layer.rd_many_wr])

lemma rd_table_checkpoints:
  "list_all checkpoint_ok xs \<Longrightarrow> length xs < 2 ^ 32 \<Longrightarrow>
    rd_table (rd_struct 64 checkpoint_from_bytes) (le_bytes 4 (length xs) @ concat (map checkpoint_to_bytes xs) @ rest)
      = Inr (xs, rest)"
  by (rule rd_table_wr [OF cpoint.rd_many_wr])

lemma rd_table_audits:
  "list_all audit_ok xs \<Longrightarrow> length xs < 2 ^ 32 \<Longrightarrow>
    rd_table (rd_struct 64 audit_from_bytes) (le_bytes 4 (length xs) @ concat (map audit_to_bytes xs) @ rest) = Inr (xs, rest)"
  by (rule rd_table_wr [OF audit.rd_many_wr])

lemma rd_table_fx:
  "list_all fx_ok xs \<Longrightarrow> length xs < 2 ^ 32 \<Longrightarrow>
    rd_table rd_fx (le_bytes 4 (length xs) @ concat (map fx_to_bytes xs) @ rest) = Inr (xs, rest)"
  by (rule rd_table_wr [OF fx.rd_many_wr])

lemma zone_codec:
  assumes "zone_ok z"
  shows "decode_zone_binary (encode_zone_binary z) = Inr z"
proof -
  let ?tables = "le_bytes 4 (length (batches z)) @ concat (map batch_to_bytes (batches z))
     @ le_bytes 4 (length (checkpoints z)) @ concat (map checkpoint_to_bytes (checkpoints z))
     @ le_bytes 4 (length (audit_headers z)) @ concat (map audit_to_bytes (audit_headers z))
     @ le_bytes 4 (length (om_entries (fx_rates_to_base z))) @ concat (map fx_to_bytes (om_entries (fx_rates_to_base z)))"
  obtain p where image: "encode_zone_binary z
      = ZONE4_MAGIC @ le_i64 (fiscal_lock_epoch_ms z) @ merkle_chain_tip z @ ?tables @ p"
    using pad_to_64_prefix [of "ZONE4_MAGIC @ le_i64 (fiscal_lock_epoch_ms z) @ merkle_chain_tip z @ ?tables"]
    unfolding encode_zone_binary_def append_assoc by blast
  have ok: "in_s 64 (fiscal_lock_epoch_ms z)" "length (merkle_chain_tip z) = 32" "length ZONE4_MAGIC = 8"
    using assms by (simp_all add: zone_ok_def ZONE4_MAGIC_def)
  have head: "take 8 (encode_zone_binary z) = ZONE4_MAGIC" "bslice 8 8 (encode_zone_binary z) = le_i64 (fiscal_lock_epoch_ms z)"
    "bslice 16 32 (encode_zone_binary z) = merkle_chain_tip z" "drop 48 (encode_zone_binary z) = ?tables @ p"
    "\<not> length (encode_zone_binary z) < 48"
    using ok unfolding image by simp_all
  have fx: "om_of_list (om_entries (fx_rates_to_base z)) = fx_rates_to_base z" by simp
  show ?thesis
    using assms ok(1) unfolding decode_zone_binary_def head zone_ok_def
    by (simp add: rd_table_layers rd_table_checkpoints rd_table_audits rd_table_fx wrap_s_id head(5) del: in_s_64)
qed

section \<open>Bounds of the amounts\<close>

lemma mul_bankers_bound:
  assumes "\<bar>a * b\<bar> < 2 ^ 126"
  shows "\<bar>mul_bankers a b\<bar> \<le> \<bar>a * b\<bar>"
proof -
  let ?n = "a * b"
  have n: "i128 ?n = ?n" using assms by simp
  obtain n where nn: "n = \<bar>?n\<bar>" "0 \<le> n" by simp
  have eq: "div_bankers_raw ?n 10000 = (if ?n < 0 then -1 else 1) *
      (if 10000 < 2 * (n mod 10000) \<or> 2 * (n mod 10000) = 10000 \<and> odd (n div 10000) then n div 10000 + 1 else n div 10000)"
    using div_bankers_raw_eq [of 10000 ?n] assms by (simp add: nn(1))
  have "\<bar>div_bankers_raw ?n 10000\<bar> \<le> n div 10000 + (if 10000 \<le> 2 * (n mod 10000) then 1 else 0)"
    using nn(2) unfolding eq by (simp add: abs_mult)
  also have "\<dots> \<le> n"
  proof -
    have "q + (if 10000 \<le> 2 * r then 1 else 0) \<le> q * 10000 + r" if "0 \<le> q" "0 \<le> r" for q r :: int
      using that by (cases "10000 \<le> 2 * r") simp_all
    from this [of "n div 10000" "n mod 10000"] show ?thesis
      using nn(2) div_mult_mod_eq [of n 10000] by (simp add: pos_imp_zdiv_nonneg_iff del: div_mult_mod_eq)
  qed
  finally have "\<bar>div_bankers_raw ?n SCALE\<bar> \<le> \<bar>?n\<bar>" by (simp add: SCALE_def nn(1))
  then show ?thesis by (simp only: mul_bankers_def n)
qed

lemma mul_bankers_zero [simp]: "mul_bankers 0 c = 0"
  by (simp add: mul_bankers_def div_bankers_raw_def SCALE_def Let_def)

lemma quotient_bound:
  assumes "0 < d" "d < 2 ^ 126" "\<bar>n\<bar> \<le> q * d" "\<bar>n\<bar> < 2 ^ 126"
  shows "\<bar>div_bankers_raw n d\<bar> \<le> q + 1"
proof -
  have "2 * \<bar>n - div_bankers_raw n d * d\<bar> \<le> d" using div_bankers_nearest(1) [of d n] assms by simp
  then have "\<bar>div_bankers_raw n d * d\<bar> \<le> q * d + d" using assms(1,3) by (simp add: abs_if split: if_splits)
  then have "\<bar>div_bankers_raw n d\<bar> * d \<le> (q + 1) * d" using assms(1) by (simp add: abs_mult distrib_right)
  then show ?thesis using assms(1) by simp
qed

abbreviation qty_at :: "(active_batch_layer \<times> fixed) list \<Rightarrow> nat \<Rightarrow> int" where
  "qty_at bs i \<equiv> remaining_qty_scaled (fst (bs ! i))"

definition stock :: "(active_batch_layer \<times> fixed) list \<Rightarrow> int" where
  "stock bs = sum_list (map (\<lambda>b. remaining_qty_scaled (fst b)) bs)"

text \<open>Batches within the range where no sum overflows: unit costs below 2 ^ 48 units of the scale.\<close>

definition stock_ok :: "(active_batch_layer \<times> fixed) list \<Rightarrow> bool" where
  "stock_ok bs \<longleftrightarrow> (\<forall>b \<in> set bs. 0 \<le> remaining_qty_scaled (fst b) \<and> \<bar>snd b\<bar> \<le> 2 ^ 48) \<and> stock bs < 2 ^ 63"

lemma stock_simps [simp]: "stock [] = 0" "stock (b # bs) = remaining_qty_scaled (fst b) + stock bs"
  by (simp_all add: stock_def)

lemma stock_nonneg: "\<forall>b \<in> set bs. 0 \<le> remaining_qty_scaled (fst b) \<Longrightarrow> 0 \<le> stock bs"
  by (induction bs) simp_all

lemma add_layers:
  assumes "\<forall>b \<in> set bs. 0 \<le> remaining_qty_scaled (fst b) \<and> \<bar>snd b\<bar> \<le> K" "0 \<le> q" "q + stock bs < 2 ^ 63"
    and "\<bar>v\<bar> + stock bs * K < 2 ^ 126"
  shows "\<exists>w. try_fold add_layer bs (q, v) = Inr (q + stock bs, w) \<and> \<bar>w\<bar> \<le> \<bar>v\<bar> + stock bs * K"
  using assms
proof (induction bs arbitrary: q v)
  case (Cons b bs)
  obtain layer cost where b: "b = (layer, cost)" by (cases b)
  let ?r = "remaining_qty_scaled layer" and ?x = "mul_bankers (remaining_qty_scaled layer) cost"
  have r: "0 \<le> ?r" "\<bar>cost\<bar> \<le> K" "0 \<le> stock bs" using Cons.prems(1) stock_nonneg [of bs] by (auto simp: b)
  have K: "0 \<le> K" using r(2) by linarith
  have p: "\<bar>?r * cost\<bar> \<le> ?r * K" using r by (simp add: abs_mult mult_left_mono)
  have sk: "0 \<le> stock bs * K" using r(3) K by simp
  have tot: "\<bar>v\<bar> + ?r * K + stock bs * K < 2 ^ 126" using Cons.prems(4) by (simp add: b distrib_right)
  have "\<bar>?r * cost\<bar> < 2 ^ 126" using p tot sk by linarith
  from mul_bankers_bound [OF this] p have x: "\<bar>?x\<bar> \<le> ?r * K" by linarith
  have vx: "\<bar>v + ?x\<bar> \<le> \<bar>v\<bar> + ?r * K" using x by linarith
  have vv: "\<bar>v + ?x\<bar> < 2 ^ 126" using vx tot sk by linarith
  have add: "checked_add q ?r = Inr (q + ?r)" "checked_add v ?x = Inr (v + ?x)"
    using Cons.prems(2,3) r b vv by (auto simp: checked_add_def in_s_def)
  have one: "add_layer b (q, v) = Inr (q + ?r, v + ?x)"
    using r(1) add by (cases "?r = 0") (auto simp: add_layer_def b)
  have "\<exists>w. try_fold add_layer bs (q + ?r, v + ?x) = Inr (q + ?r + stock bs, w) \<and> \<bar>w\<bar> \<le> \<bar>v + ?x\<bar> + stock bs * K"
    using Cons.prems r(1) vx tot by (intro Cons.IH) (auto simp: b)
  then show ?case using one vx by (auto simp: b distrib_right)
qed simp

lemma checkpoint_of_stock:
  assumes "stock_ok (batches z)"
  obtains cp where "compute_checkpoint z now = Inr cp" "closing_qty cp = stock (batches z)"
    "block_end_epoch_ms cp = now" "\<bar>running_wac_unit_cost cp\<bar> \<le> 2 ^ 62"
proof -
  let ?s = "stock (batches z)"
  have s: "0 \<le> ?s" "?s < 2 ^ 63" using assms stock_nonneg by (auto simp: stock_ok_def)
  obtain v where v: "try_fold add_layer (batches z) (0, 0) = Inr (?s, v)" "\<bar>v\<bar> \<le> ?s * 2 ^ 48"
    using add_layers [of "batches z" "2 ^ 48" 0 0] assms s by (auto simp: stock_ok_def)
  show thesis
  proof (cases "0 < ?s")
    case True
    have n: "\<bar>v * SCALE\<bar> \<le> (2 ^ 48 * SCALE) * ?s" using v(2) by (simp add: SCALE_def abs_mult)
    then have small: "\<bar>v * SCALE\<bar> < 2 ^ 126" using s by (simp add: SCALE_def)
    then have id: "i128 (v * SCALE) = v * SCALE" by simp
    have "\<bar>div_bankers_raw (v * SCALE) ?s\<bar> \<le> 2 ^ 48 * SCALE + 1"
      using s by (intro quotient_bound [OF True _ n small]) simp
    also have "\<dots> \<le> 2 ^ 62" by (simp add: SCALE_def)
    finally show ?thesis using that v(1) True by (simp add: compute_checkpoint_def div_bankers_def id)
  qed (use that v(1) in \<open>simp add: compute_checkpoint_def\<close>)
qed

section \<open>What an issue takes from the batches\<close>

definition drawn :: "(nat \<Rightarrow> int) \<Rightarrow> (active_batch_layer \<times> fixed) list \<Rightarrow> (active_batch_layer \<times> fixed) list" where
  "drawn taken bs = map (\<lambda>i. ((fst (bs ! i))\<lparr>remaining_qty_scaled := qty_at bs i - taken i\<rparr>, snd (bs ! i))) [0..<length bs]"

definition cost_of :: "valuation_method \<Rightarrow> fixed \<Rightarrow> (active_batch_layer \<times> fixed) list \<Rightarrow> nat \<Rightarrow> fixed" where
  "cost_of m wac bs i = (if m = Wac then wac else snd (bs ! i))"

lemma length_drawn [simp]: "length (drawn taken bs) = length bs"
  by (simp add: drawn_def)

lemma nth_drawn [simp]: "i < length bs \<Longrightarrow>
    drawn taken bs ! i = ((fst (bs ! i))\<lparr>remaining_qty_scaled := qty_at bs i - taken i\<rparr>, snd (bs ! i))"
  by (simp add: drawn_def)

lemma drawn_zero [simp]: "drawn (\<lambda>_. 0) bs = bs"
  by (rule nth_equalityI) simp_all

lemma stock_eq_sum: "stock bs = (\<Sum>i<length bs. qty_at bs i)"
  by (simp add: stock_def sum_list_sum_nth atLeast0LessThan)

lemma stock_drawn: "stock (drawn taken bs) = stock bs - (\<Sum>i<length bs. taken i)"
  by (simp add: stock_eq_sum sum_subtractf)

text \<open>The quantities taken: what each batch has or what is left, in the order given, until nothing is
  left.\<close>

definition takes :: "(nat \<Rightarrow> int) \<Rightarrow> nat list \<Rightarrow> (active_batch_layer \<times> fixed) list \<Rightarrow> int \<Rightarrow> bool" where
  "takes taken idxs bs left \<longleftrightarrow> (\<forall>i. i \<notin> set idxs \<longrightarrow> taken i = 0)
     \<and> (\<forall>i \<in> set idxs. 0 \<le> taken i \<and> taken i \<le> qty_at bs i) \<and> (\<Sum>i \<in> set idxs. taken i) = left
     \<and> sorted_wrt (\<lambda>i j. 0 < taken j \<longrightarrow> taken i = qty_at bs i) idxs"

lemma issue_loop_takes:
  assumes "distinct idxs" "set idxs \<subseteq> {..<length bs}" "\<forall>i \<in> set idxs. 0 \<le> qty_at bs i \<and> qty_at bs i < 2 ^ 63"
    and "0 \<le> left" "left < 2 ^ 63" "left \<le> (\<Sum>i \<in> set idxs. qty_at bs i)"
    and "\<forall>i \<in> set idxs. \<bar>cost_of m wac bs i\<bar> \<le> C" "0 \<le> C" "\<bar>cogs\<bar> + left * C < 2 ^ 126"
  shows "\<exists>taken. takes taken idxs bs left \<and> issue_loop m wac idxs bs left cogs
    = (Inr (cogs + (\<Sum>i \<in> set idxs. mul_bankers (taken i) (cost_of m wac bs i))), drawn taken bs)"
  using assms
proof (induction idxs arbitrary: bs left cogs)
  case Nil
  then show ?case by (intro exI [of _ "\<lambda>_. 0"]) (simp add: takes_def)
next
  case (Cons i idxs)
  let ?layer = "fst (bs ! i)" and ?avail = "qty_at bs i"
  have i: "i < length bs" "i \<notin> set idxs" "0 \<le> ?avail" "?avail < 2 ^ 63" using Cons.prems(1-3) by auto
  show ?case
  proof (cases "left = 0 \<or> ?avail = 0")
    case True
    show ?thesis
    proof (cases "left = 0")
      case True
      then show ?thesis
        using Cons.prems(3) by (intro exI [of _ "\<lambda>_. 0"]) (auto simp: takes_def sorted_wrt_iff_nth_less)
    next
      case False
      with True have a: "?avail = 0" by simp
      have "left \<le> (\<Sum>j \<in> set idxs. qty_at bs j)" using Cons.prems(6) i(2) a by simp
      then obtain taken where t: "takes taken idxs bs left" "issue_loop m wac idxs bs left cogs
          = (Inr (cogs + (\<Sum>j \<in> set idxs. mul_bankers (taken j) (cost_of m wac bs j))), drawn taken bs)"
        using Cons.IH [of bs left cogs] Cons.prems by auto
      then have "taken i = 0" using i(2) by (simp add: takes_def)
      with t a False i(2) show ?thesis by (intro exI [of _ taken]) (simp add: takes_def)
    qed
  next
    case False
    define t where "t = min ?avail left"
    define bs1 where "bs1 = bs[i := (?layer\<lparr>remaining_qty_scaled := ?avail - t\<rparr>, snd (bs ! i))]"
    let ?x = "mul_bankers t (cost_of m wac bs i)"
    have t: "0 \<le> t" "t \<le> ?avail" "t \<le> left" "0 < t" using i False Cons.prems(4) by (auto simp: t_def)
    have same: "j \<in> set idxs \<Longrightarrow> bs1 ! j = bs ! j" for j
      using i(2) by (cases "j = i") (auto simp: bs1_def)
    have cost1: "j \<in> set idxs \<Longrightarrow> cost_of m wac bs1 j = cost_of m wac bs j" for j by (simp add: cost_of_def same)
    have "\<bar>t * cost_of m wac bs i\<bar> \<le> t * C" using t(1) Cons.prems(7) by (simp add: abs_mult mult_left_mono)
    moreover have tc: "t * C + (left - t) * C = left * C" "0 \<le> (left - t) * C"
      using t(3) Cons.prems(8) by (simp_all add: left_diff_distrib mult_right_mono)
    ultimately have x: "\<bar>?x\<bar> \<le> t * C"
      using mul_bankers_bound [of t "cost_of m wac bs i"] Cons.prems(9) by linarith
    have cx: "\<bar>cogs + ?x\<bar> + (left - t) * C < 2 ^ 126" using x tc Cons.prems(9) by linarith
    have add: "checked_add cogs ?x = Inr (cogs + ?x)" using cx tc(2) by (auto simp: checked_add_def in_s_def)
    have "left - t \<le> (\<Sum>j \<in> set idxs. qty_at bs1 j)"
    proof (cases "t = ?avail")
      case True
      then show ?thesis using Cons.prems(6) i(2) same by simp
    next
      case False
      then have "t = left" by (auto simp: t_def)
      then show ?thesis using Cons.prems(3) same by (simp add: sum_nonneg)
    qed
    then obtain taken where taken: "takes taken idxs bs1 (left - t)"
      "issue_loop m wac idxs bs1 (left - t) (cogs + ?x)
        = (Inr (cogs + ?x + (\<Sum>j \<in> set idxs. mul_bankers (taken j) (cost_of m wac bs1 j))), drawn taken bs1)"
      using Cons.IH [of bs1 "left - t" "cogs + ?x"] Cons.prems t cx same cost1 by (auto simp: bs1_def)
    let ?all = "taken(i := t)"
    have upd: "j \<in> set idxs \<Longrightarrow> ?all j = taken j" for j using i(2) by auto
    have zero: "taken i = 0" using taken(1) i(2) by (simp add: takes_def)
    have i64s: "i64 (?avail - t) = ?avail - t" "i64 (left - t) = left - t" using t i Cons.prems(5) by simp_all
    have step: "issue_loop m wac (i # idxs) bs left cogs = issue_loop m wac idxs bs1 (left - t) (cogs + ?x)"
      using False add [unfolded cost_of_def] i64s by (simp add: Let_def t_def [symmetric] bs1_def cost_of_def)
    have d: "drawn taken bs1 = drawn ?all bs"
      by (rule nth_equalityI) (auto simp: bs1_def zero nth_list_update i(1))
    have s: "(\<Sum>j \<in> set idxs. ?all j) = left - t" "(\<Sum>j \<in> set idxs. mul_bankers (?all j) (cost_of m wac bs j))
        = (\<Sum>j \<in> set idxs. mul_bankers (taken j) (cost_of m wac bs1 j))"
      using taken(1) upd cost1 by (auto simp: takes_def intro!: sum.cong)
    have full: "t = ?avail" if pos: "j \<in> set idxs" "0 < taken j" for j
    proof (rule ccontr)
      assume "t \<noteq> ?avail"
      then have "left - t = 0" by (auto simp: t_def)
      then have "(\<Sum>k \<in> set idxs. taken k) = 0" "\<forall>k \<in> set idxs. 0 \<le> taken k" using taken(1) by (simp_all add: takes_def)
      then show False using pos by (simp add: sum_nonneg_eq_0_iff)
    qed
    have order: "sorted_wrt (\<lambda>k j. 0 < ?all j \<longrightarrow> ?all k = qty_at bs k) idxs"
    proof (rule sorted_wrt_mono_rel [of idxs "\<lambda>k j. 0 < taken j \<longrightarrow> taken k = qty_at bs1 k"])
      show "sorted_wrt (\<lambda>k j. 0 < taken j \<longrightarrow> taken k = qty_at bs1 k) idxs" using taken(1) by (simp add: takes_def)
    qed (simp add: upd same del: fun_upd_apply)
    have "takes ?all (i # idxs) bs left"
      using taken(1) t full order s(1) i(2) upd by (auto simp: takes_def same)
    moreover have "issue_loop m wac (i # idxs) bs left cogs
        = (Inr (cogs + (\<Sum>j \<in> set (i # idxs). mul_bankers (?all j) (cost_of m wac bs j))), drawn ?all bs)"
      unfolding step taken(2) d using s(2) i(2) by (simp add: add.assoc del: issue_loop.simps)
    ultimately show ?thesis by blast
  qed
qed

lemma issue_order_perm: "distinct (issue_order m bs)" "set (issue_order m bs) = {..<length bs}"
  by (simp_all add: issue_order_def atLeast0LessThan)

definition issues_before :: "valuation_method \<Rightarrow> active_batch_layer \<Rightarrow> active_batch_layer \<Rightarrow> bool" where
  "issues_before m a b = (case m of Lifo \<Rightarrow> received_ms b < received_ms a | Fefo \<Rightarrow> expiry_ms a < expiry_ms b
     | _ \<Rightarrow> received_ms a < received_ms b)"

lemma issues_before_key: "issues_before m a b \<Longrightarrow> issue_key m a < issue_key m b"
  by (cases m) (simp_all add: issues_before_def issue_key_def)

lemma takes_in_order:
  assumes "takes taken (issue_order m bs) bs qty" "i < length bs" "j < length bs"
    and "issue_key m (fst (bs ! i)) < issue_key m (fst (bs ! j))" "0 < taken j"
  shows "taken i = qty_at bs i"
proof -
  let ?o = "issue_order m bs"
  obtain a b where ab: "a < length ?o" "?o ! a = i" "b < length ?o" "?o ! b = j"
    using assms(2,3) issue_order_perm(2) [of m bs] by (metis in_set_conv_nth lessThan_iff)
  have "sorted (map (\<lambda>i. issue_key m (fst (bs ! i))) ?o)" by (simp add: issue_order_def)
  then have "a < b"
    using assms(4) ab sorted_nth_mono [of "map (\<lambda>i. issue_key m (fst (bs ! i))) ?o" b a] by fastforce
  then show ?thesis using assms(1,5) ab by (auto simp: takes_def sorted_wrt_iff_nth_less)
qed

lemma stock_ok_drawn:
  assumes "stock_ok bs" "\<forall>i < length bs. 0 \<le> taken i \<and> taken i \<le> qty_at bs i"
  shows "stock_ok (drawn taken bs)"
proof -
  have "0 \<le> (\<Sum>i<length bs. taken i)" using assms(2) by (intro sum_nonneg) simp
  then have "stock (drawn taken bs) < 2 ^ 63" using assms(1) by (simp add: stock_drawn stock_ok_def)
  moreover have "0 \<le> remaining_qty_scaled (fst b) \<and> \<bar>snd b\<bar> \<le> 2 ^ 48" if b: "b \<in> set (drawn taken bs)" for b
  proof -
    obtain i where "i < length bs" "b = drawn taken bs ! i" using b by (auto simp: in_set_conv_nth)
    then show ?thesis using assms by (auto simp: stock_ok_def)
  qed
  ultimately show ?thesis by (auto simp: stock_ok_def)
qed

lemma issue_draws:
  assumes "fiscal_lock_epoch_ms z < now" "stock_ok (batches z)" "0 \<le> qty" "qty \<le> stock (batches z)"
  obtains taken cur cogs cp where "takes taken (issue_order m (batches z)) (batches z) qty"
    "cogs = (\<Sum>i<length (batches z). mul_bankers (taken i) (cost_of m (running_wac_unit_cost cur) (batches z) i))"
    "closing_qty cp = stock (batches z) - qty" "block_end_epoch_ms cp = now"
    "compute_checkpoint z now = Inr cur"
    "issue_inventory z now qty m
      = (Inr (cogs, cp), z\<lparr>batches := drawn taken (batches z), checkpoints := checkpoints z @ [cp]\<rparr>)"
    "stock_ok (drawn taken (batches z))"
proof -
  let ?bs = "batches z" and ?o = "issue_order m (batches z)"
  obtain cur0 where cur: "compute_checkpoint z now = Inr cur0" "closing_qty cur0 = stock ?bs"
    "\<bar>running_wac_unit_cost cur0\<bar> \<le> 2 ^ 62" by (rule checkpoint_of_stock [OF assms(2)])
  have elem: "0 \<le> qty_at ?bs i" "qty_at ?bs i < 2 ^ 63" "\<bar>snd (?bs ! i)\<bar> \<le> 2 ^ 48" if i: "i < length ?bs" for i
  proof -
    show "0 \<le> qty_at ?bs i" "\<bar>snd (?bs ! i)\<bar> \<le> 2 ^ 48" using assms(2) i by (simp_all add: stock_ok_def)
    have "qty_at ?bs i \<le> stock ?bs"
      unfolding stock_eq_sum using assms(2) i by (intro member_le_sum) (auto simp: stock_ok_def)
    then show "qty_at ?bs i < 2 ^ 63" using assms(2) by (simp add: stock_ok_def)
  qed
  have qty: "qty < 2 ^ 63" "i64 qty = qty" using assms(2-4) by (simp_all add: stock_ok_def)
  obtain taken where taken: "takes taken ?o ?bs qty" "issue_loop m (running_wac_unit_cost cur0) ?o ?bs qty 0
      = (Inr (0 + (\<Sum>i \<in> set ?o. mul_bankers (taken i) (cost_of m (running_wac_unit_cost cur0) ?bs i))), drawn taken ?bs)"
    using issue_loop_takes [of ?o ?bs qty m "running_wac_unit_cost cur0" "2 ^ 62" 0] issue_order_perm [of m ?bs]
      elem qty(1) assms(3,4) cur(3) by (fastforce simp: cost_of_def stock_eq_sum)
  have t: "\<forall>i < length ?bs. 0 \<le> taken i \<and> taken i \<le> qty_at ?bs i" "(\<Sum>i<length ?bs. taken i) = qty"
    using taken(1) issue_order_perm [of m ?bs] by (simp_all add: takes_def)
  have ok: "stock_ok (drawn taken ?bs)" by (rule stock_ok_drawn [OF assms(2) t(1)])
  obtain cp where cp: "compute_checkpoint (z\<lparr>batches := drawn taken ?bs\<rparr>) now = Inr cp"
    "closing_qty cp = stock (drawn taken ?bs)" "block_end_epoch_ms cp = now"
    using checkpoint_of_stock [of "z\<lparr>batches := drawn taken ?bs\<rparr>" now] ok by auto
  have "closing_qty cp = stock ?bs - qty" using cp(2) t(2) by (simp add: stock_drawn)
  then show thesis
    using that [OF taken(1) refl _ cp(3) cur(1) _ ok] taken(2) issue_order_perm [of m ?bs] cur cp(1) assms(1,4) qty(2)
    by (simp add: issue_inventory_def)
qed

section \<open>Issues of a negative quantity\<close>

lemma issue_loop_negative:
  assumes "left < 0" "\<exists>i \<in> set idxs. 0 < qty_at bs i" "\<forall>i \<in> set idxs. i < length bs \<and> 0 \<le> qty_at bs i \<and> qty_at bs i - left < 2 ^ 63"
    and "\<forall>i \<in> set idxs. \<bar>left * cost_of m wac bs i\<bar> < 2 ^ 126"
  shows "\<exists>i \<in> set idxs. issue_loop m wac idxs bs left 0
    = (Inr (mul_bankers left (cost_of m wac bs i)), drawn (\<lambda>j. if j = i then left else 0) bs)"
  using assms(2-4)
proof (induction idxs)
  case (Cons i idxs)
  show ?case
  proof (cases "qty_at bs i = 0")
    case True
    then show ?thesis using Cons assms(1) by simp
  next
    case False
    let ?x = "mul_bankers left (cost_of m wac bs i)"
    have i: "i < length bs" "0 < qty_at bs i" "qty_at bs i - left < 2 ^ 63" using False Cons.prems(2) by force+
    have small: "\<bar>left * cost_of m wac bs i\<bar> < 2 ^ 126" using Cons.prems(3) by simp
    have "\<bar>?x\<bar> < 2 ^ 126" using mul_bankers_bound [OF small] small by linarith
    then have add: "checked_add 0 ?x = Inr ?x" by (auto simp: checked_add_def in_s_def)
    have stop: "issue_loop m wac idxs bs2 0 c = (Inr c, bs2)" for bs2 c by (cases idxs) simp_all
    have d: "bs[i := ((fst (bs ! i))\<lparr>remaining_qty_scaled := qty_at bs i - left\<rparr>, snd (bs ! i))]
        = drawn (\<lambda>j. if j = i then left else 0) bs"
      by (rule nth_equalityI) (auto simp: nth_list_update i(1))
    have mins: "min (qty_at bs i) left = left" "i64 (qty_at bs i - left) = qty_at bs i - left" using i assms(1) by simp_all
    have "issue_loop m wac (i # idxs) bs left 0 = (Inr ?x, drawn (\<lambda>j. if j = i then left else 0) bs)"
      using False assms(1) add [unfolded cost_of_def] by (simp add: Let_def mins stop d [symmetric] cost_of_def)
    then show ?thesis by (intro bexI [of _ i]) simp_all
  qed
qed simp

section \<open>Reachable ledgers\<close>

inductive ledger_step :: "(bytes \<Rightarrow> bytes) \<Rightarrow> ledger_zone \<Rightarrow> ledger_zone \<Rightarrow> bool" for sha where
  rate: "ledger_step sha z (set_exchange_rate z currency r)"
| journal: "ledger_step sha z (snd (record_journal_entry sha z now debits credits))"
| receive: "ledger_step sha z (snd (receive_batch z bid row received expiry qty unit_cost))"
| issue: "ledger_step sha z (snd (issue_inventory z now qty m))"

inductive ledger_reachable :: "(bytes \<Rightarrow> bytes) \<Rightarrow> int \<Rightarrow> ledger_zone \<Rightarrow> bool" for sha lock where
  start: "ledger_reachable sha lock (ledger_new lock)"
| step: "ledger_reachable sha lock z \<Longrightarrow> ledger_step sha z z1 \<Longrightarrow> ledger_reachable sha lock z1"

text \<open>The chain of audit headers from one tip to another, of blocks posted after the lock.\<close>

fun chained :: "(bytes \<Rightarrow> bytes) \<Rightarrow> int \<Rightarrow> bytes \<Rightarrow> ledger_audit_header list \<Rightarrow> bytes \<Rightarrow> bool" where
  "chained sha lock prev [] tip \<longleftrightarrow> tip = prev"
| "chained sha lock prev (h # hs) tip \<longleftrightarrow> prev_block_sha256 h = prev
     \<and> (\<exists>now amount. lock < now \<and> in_s 128 amount \<and> block_merkle_root h = journal_block sha prev now amount)
     \<and> chained sha lock (block_merkle_root h) hs tip"

definition ledger_inv :: "(bytes \<Rightarrow> bytes) \<Rightarrow> int \<Rightarrow> ledger_zone \<Rightarrow> bool" where
  "ledger_inv sha lock z \<longleftrightarrow> fiscal_lock_epoch_ms z = lock
     \<and> chained sha lock (replicate 32 0) (audit_headers z) (merkle_chain_tip z)
     \<and> (\<forall>cp \<in> set (checkpoints z). lock < block_end_epoch_ms cp)
     \<and> (\<forall>t \<in> set (map (\<lambda>b. received_ms (fst b)) (batches z)). lock < t)"

lemma chained_snoc:
  "chained sha lock prev hs tip \<Longrightarrow> lock < now \<Longrightarrow> in_s 128 amount \<Longrightarrow>
    chained sha lock prev (hs @ [\<lparr>prev_block_sha256 = tip, block_merkle_root = journal_block sha tip now amount\<rparr>])
      (journal_block sha tip now amount)"
  by (induction hs arbitrary: prev) auto

lemma issue_loop_keeps:
  "\<forall>i \<in> set idxs. i < length bs \<Longrightarrow>
    map (\<lambda>b. received_ms (fst b)) (snd (issue_loop m wac idxs bs left cogs)) = map (\<lambda>b. received_ms (fst b)) bs"
proof (induction idxs arbitrary: bs left cogs)
  case (Cons i idxs)
  define t where "t = min (qty_at bs i) left"
  let ?bs1 = "bs[i := ((fst (bs ! i))\<lparr>remaining_qty_scaled := i64 (qty_at bs i - t)\<rparr>, snd (bs ! i))]"
  have same: "map (\<lambda>b. received_ms (fst b)) ?bs1 = map (\<lambda>b. received_ms (fst b)) bs"
    using Cons.prems by (intro nth_equalityI) (auto simp: nth_list_update)
  consider "left = 0" | "left \<noteq> 0" "qty_at bs i = 0" | "left \<noteq> 0" "qty_at bs i \<noteq> 0" by blast
  then show ?case
  proof cases
    case 2
    then show ?thesis using Cons by simp
  next
    case 3
    then show ?thesis
      using Cons.IH [of ?bs1 "i64 (left - t)"] Cons.prems same
      by (cases "checked_add cogs (mul_bankers t (if m = Wac then wac else snd (bs ! i)))")
         (simp_all add: Let_def t_def [symmetric])
  qed simp
qed simp

lemma compute_checkpoint_time: "compute_checkpoint z now = Inr cp \<Longrightarrow> block_end_epoch_ms cp = now"
  by (auto simp: compute_checkpoint_def split: if_splits prod.splits)

lemma ledger_step_inv:
  assumes "ledger_inv sha lock z" "ledger_step sha z z1"
  shows "ledger_inv sha lock z1"
  using assms(2,1)
proof cases
  case (journal now debits credits)
  have s: "in_s 128 (i128 (sum_list debits))" by (rule in_s_wrap_s) simp
  show ?thesis
  proof (cases "lock < now \<and> i128 (sum_list debits) = i128 (sum_list credits)")
    case True
    then show ?thesis
      using journal assms(1) s by (auto simp: record_journal_entry_def ledger_inv_def Let_def intro!: chained_snoc)
  next
    case False
    then show ?thesis using journal assms(1) by (auto simp: record_journal_entry_def ledger_inv_def)
  qed
next
  case (receive bid row received expiry qty unit_cost)
  then show ?thesis
    using assms(1) compute_checkpoint_time
    by (fastforce simp: receive_batch_def ledger_inv_def Let_def split: sum.splits)
next
  case (issue now qty m)
  have keep: "map (\<lambda>b. received_ms (fst b)) bs = map (\<lambda>b. received_ms (fst b)) (batches z)"
    if "issue_loop m w (issue_order m (batches z)) (batches z) q 0 = (r, bs)" for w q r bs
    using issue_loop_keeps [of "issue_order m (batches z)" "batches z" m w q 0] issue_order_perm(2) that by simp
  show ?thesis
  proof (cases "now \<le> lock")
    case True
    then show ?thesis using issue assms(1) by (simp add: issue_inventory_def ledger_inv_def)
  next
    case unlocked: False
    show ?thesis
    proof (cases "compute_checkpoint z now")
      case (Inr cur)
      obtain r bs where loop: "issue_loop m (running_wac_unit_cost cur) (issue_order m (batches z)) (batches z) (i64 qty) 0 = (r, bs)"
        by fastforce
      have inv: "ledger_inv sha lock (z\<lparr>batches := bs\<rparr>)" using assms(1) keep [OF loop] by (simp add: ledger_inv_def)
      show ?thesis
        using issue unlocked Inr loop inv assms(1) compute_checkpoint_time [of "z\<lparr>batches := bs\<rparr>" now]
        by (auto simp: issue_inventory_def ledger_inv_def Let_def split: sum.splits if_splits)
    qed (use issue assms(1) in \<open>simp add: issue_inventory_def\<close>)
  qed
qed (simp add: set_exchange_rate_def ledger_inv_def)

lemma ledger_reachable_inv: "ledger_reachable sha lock z \<Longrightarrow> ledger_inv sha lock z"
proof (induction rule: ledger_reachable.induct)
  case start
  then show ?case by (simp add: ledger_inv_def ledger_new_def)
qed (rule ledger_step_inv)

section \<open>Properties\<close>

text \<open>The zone the witnesses run on: two batches, the older one received second.\<close>

definition two_batches :: ledger_zone where
  "two_batches = (ledger_new 0)\<lparr>batches :=
     [(\<lparr>batch_id = 1, resource_row_id = 7, received_ms = 20, expiry_ms = 50, remaining_qty_scaled = 50000\<rparr>, 20000),
      (\<lparr>batch_id = 2, resource_row_id = 7, received_ms = 10, expiry_ms = 90, remaining_qty_scaled = 30000\<rparr>, 10000)]\<rparr>"

lemma two_batches_ok: "fiscal_lock_epoch_ms two_batches = 0" "stock_ok (batches two_batches)" "stock (batches two_batches) = 80000"
  by (simp_all add: two_batches_def ledger_new_def stock_ok_def)

text \<open>C24: an issue of inventory is exact. In an open period, on batches without negative remainders and
  within the range of the sums, an issue beyond the stock is refused and changes nothing. Any
  other issue succeeds: what is taken from the batches adds up to the quantity, no batch goes
  below zero, a batch is touched only when every batch that precedes it under the valuation
  method has been emptied, the cost is the sum of the rounded costs of the quantities taken (at
  the weighted average of the stock before the issue for that method), and the checkpoint
  appended shows the stock less the quantity.\<close>

theorem issue_inventory_exact:
  assumes "fiscal_lock_epoch_ms z < now" "stock_ok (batches z)" "0 \<le> qty"
  shows "if stock (batches z) < qty then issue_inventory z now qty m = (Inl MbfLedgerUnbalanced001, z)
    else \<exists>taken cur cogs cp.
      issue_inventory z now qty m
        = (Inr (cogs, cp), z\<lparr>batches := drawn taken (batches z), checkpoints := checkpoints z @ [cp]\<rparr>)
      \<and> (\<forall>i < length (batches z). 0 \<le> taken i \<and> taken i \<le> qty_at (batches z) i)
      \<and> (\<Sum>i < length (batches z). taken i) = qty
      \<and> (\<forall>i < length (batches z). \<forall>j < length (batches z).
          issues_before m (fst (batches z ! i)) (fst (batches z ! j)) \<and> 0 < taken j
            \<longrightarrow> taken i = qty_at (batches z) i)
      \<and> compute_checkpoint z now = Inr cur
      \<and> cogs = (\<Sum>i < length (batches z). mul_bankers (taken i) (cost_of m (running_wac_unit_cost cur) (batches z) i))
      \<and> closing_qty cp = stock (batches z) - qty \<and> block_end_epoch_ms cp = now
      \<and> stock_ok (drawn taken (batches z))"
proof (cases "stock (batches z) < qty")
  case True
  obtain cp where "compute_checkpoint z now = Inr cp" "closing_qty cp = stock (batches z)"
    by (rule checkpoint_of_stock [OF assms(2)])
  then show ?thesis using True assms(1) by (simp add: issue_inventory_def)
next
  case False
  then have le: "qty \<le> stock (batches z)" by simp
  obtain taken cur cogs cp where r: "takes taken (issue_order m (batches z)) (batches z) qty"
    "cogs = (\<Sum>i<length (batches z). mul_bankers (taken i) (cost_of m (running_wac_unit_cost cur) (batches z) i))"
    "closing_qty cp = stock (batches z) - qty" "block_end_epoch_ms cp = now" "compute_checkpoint z now = Inr cur"
    "issue_inventory z now qty m
      = (Inr (cogs, cp), z\<lparr>batches := drawn taken (batches z), checkpoints := checkpoints z @ [cp]\<rparr>)"
    "stock_ok (drawn taken (batches z))"
    by (rule issue_draws [OF assms le])
  have "\<forall>i < length (batches z). 0 \<le> taken i \<and> taken i \<le> qty_at (batches z) i"
    "(\<Sum>i < length (batches z). taken i) = qty"
    using r(1) issue_order_perm [of m "batches z"] by (simp_all add: takes_def)
  then show ?thesis
    unfolding if_not_P [OF False] using r takes_in_order [OF r(1)] issues_before_key [of m] by blast
qed

theorem issue_inventory_exact_witness:
  "\<exists>z1 cogs cp. issue_inventory two_batches 30 40000 Fifo = (Inr (cogs, cp), z1) \<and> closing_qty cp = 40000"
  using issue_inventory_exact [of two_batches 30 40000 Fifo] two_batches_ok by auto

text \<open>An issue of a negative quantity is accepted whenever there is stock, and adds to it: the whole
  quantity goes to the first batch that is not empty, and the cost is negative or zero.\<close>

theorem negative_issue_adds_stock:
  assumes "fiscal_lock_epoch_ms z < now" "stock_ok (batches z)" "0 < stock (batches z)"
    and "qty < 0" "stock (batches z) - qty < 2 ^ 63"
  shows "\<exists>cogs cp bs. issue_inventory z now qty m
      = (Inr (cogs, cp), z\<lparr>batches := bs, checkpoints := checkpoints z @ [cp]\<rparr>)
    \<and> stock bs = stock (batches z) - qty \<and> closing_qty cp = stock bs \<and> stock (batches z) < stock bs"
proof -
  let ?bs = "batches z" and ?o = "issue_order m (batches z)"
  obtain cur where cur: "compute_checkpoint z now = Inr cur" "closing_qty cur = stock ?bs"
    "\<bar>running_wac_unit_cost cur\<bar> \<le> 2 ^ 62" by (rule checkpoint_of_stock [OF assms(2)])
  let ?c = "cost_of m (running_wac_unit_cost cur) ?bs"
  have elem: "0 \<le> qty_at ?bs i" "qty_at ?bs i \<le> stock ?bs" "\<bar>?c i\<bar> \<le> 2 ^ 62" if i: "i < length ?bs" for i
  proof -
    show "0 \<le> qty_at ?bs i" using assms(2) i by (simp add: stock_ok_def)
    show "qty_at ?bs i \<le> stock ?bs"
      unfolding stock_eq_sum using assms(2) i by (intro member_le_sum) (auto simp: stock_ok_def)
    have "\<bar>snd (?bs ! i)\<bar> \<le> 2 ^ 48" using assms(2) i by (simp add: stock_ok_def)
    then show "\<bar>?c i\<bar> \<le> 2 ^ 62" using cur(3) by (auto simp: cost_of_def)
  qed
  have "\<exists>i < length ?bs. 0 < qty_at ?bs i"
  proof (rule ccontr)
    assume "\<not> (\<exists>i < length ?bs. 0 < qty_at ?bs i)"
    then have "stock ?bs \<le> 0" unfolding stock_eq_sum by (intro sum_nonpos) force
    then show False using assms(3) by simp
  qed
  moreover have small: "\<bar>qty * ?c i\<bar> < 2 ^ 126" if "i < length ?bs" for i
  proof -
    have "\<bar>qty * ?c i\<bar> \<le> \<bar>qty\<bar> * 2 ^ 62" using elem(3) [OF that] by (simp add: abs_mult mult_left_mono)
    also have "\<dots> < 2 ^ 126" using assms(3-5) by simp
    finally show ?thesis .
  qed
  ultimately have "\<exists>i \<in> set ?o. issue_loop m (running_wac_unit_cost cur) ?o ?bs qty 0
      = (Inr (mul_bankers qty (?c i)), drawn (\<lambda>j. if j = i then qty else 0) ?bs)"
    using assms(4,5) elem issue_order_perm(2) [of m ?bs] by (intro issue_loop_negative) fastforce+
  then obtain i where i: "i < length ?bs" "issue_loop m (running_wac_unit_cost cur) ?o ?bs qty 0
      = (Inr (mul_bankers qty (?c i)), drawn (\<lambda>j. if j = i then qty else 0) ?bs)"
    using issue_order_perm(2) [of m ?bs] by blast
  let ?d = "drawn (\<lambda>j. if j = i then qty else 0) ?bs"
  have d: "stock ?d = stock ?bs - qty" using i(1) by (simp add: stock_drawn)
  have "0 \<le> remaining_qty_scaled (fst b) \<and> \<bar>snd b\<bar> \<le> 2 ^ 48" if b: "b \<in> set ?d" for b
  proof -
    obtain j where j: "j < length ?bs" "b = ?d ! j" using b by (auto simp: in_set_conv_nth)
    then show ?thesis using assms(2,4) elem(1) [OF j(1)] elem(1) [OF i(1)] by (auto simp: stock_ok_def)
  qed
  then have "stock_ok ?d" using d assms(5) by (auto simp: stock_ok_def)
  then obtain cp where "compute_checkpoint (z\<lparr>batches := ?d\<rparr>) now = Inr cp" "closing_qty cp = stock ?d"
    using checkpoint_of_stock [of "z\<lparr>batches := ?d\<rparr>" now] by auto
  moreover have "i64 qty = qty" using assms(3-5) by simp
  ultimately have "issue_inventory z now qty m
      = (Inr (mul_bankers qty (?c i), cp), z\<lparr>batches := ?d, checkpoints := checkpoints z @ [cp]\<rparr>) \<and> closing_qty cp = stock ?d"
    using i(2) cur assms(1,3,4) by (simp add: issue_inventory_def)
  then show ?thesis using d assms(4) by (intro exI [of _ "mul_bankers qty (?c i)"] exI [of _ cp] exI [of _ ?d]) simp
qed

theorem negative_issue_adds_stock_witness:
  "\<exists>z1 cogs cp. issue_inventory two_batches 30 (-5000) Lifo = (Inr (cogs, cp), z1) \<and> closing_qty cp = 85000"
  using negative_issue_adds_stock [of two_batches 30 "-5000" Lifo] two_batches_ok by auto

text \<open>C25: whatever operations a ledger has gone through, failed ones included, its lock is the one it was
  made with, its audit headers form an unbroken chain from the zero block to the tip, each root the
  hash of its predecessor with a time after the lock, and no checkpoint and no batch lies in the
  closed period.\<close>

theorem ledger_invariant:
  assumes "ledger_reachable sha lock z"
  shows "ledger_inv sha lock z"
  using assms by (rule ledger_reachable_inv)

theorem ledger_invariant_witness:
  "ledger_inv (take 32) 5 (snd (record_journal_entry (take 32) (set_exchange_rate (ledger_new 5) ''USD'' 9) 6 [3] [1, 2]))"
  by (rule ledger_invariant [OF ledger_reachable.step [OF ledger_reachable.step [OF ledger_reachable.start
        ledger_step.rate] ledger_step.journal]])


text \<open>C27: a zone whose numbers fit their widths comes back unchanged from its binary image.\<close>

theorem ledger_zone_roundtrip:
  assumes "zone_ok z"
  shows "decode_zone_binary (encode_zone_binary z) = Inr z"
  by (rule zone_codec [OF assms])

theorem ledger_zone_roundtrip_witness:
  "decode_zone_binary (encode_zone_binary two_batches) = Inr two_batches"
  by (rule ledger_zone_roundtrip) (simp add: two_batches_def ledger_new_def zone_ok_def layer_ok_def in_s_def)

end
