(* ===== verification/Fenwick.thy ===== *)
theory Fenwick
  imports FixedDecimal
begin

text \<open>The binary indexed tree of prefix sums (\<^verbatim>\<open>FenwickPrefixSum128\<close> of
  \<^verbatim>\<open>src/mbf/zones/financial_ledger.rs\<close>), against the sums of the list of values. Indexes are 64-bit
  machine words read as naturals; the additions wrap.\<close>

unbundle bit_operations_syntax

definition lowbit :: "nat \<Rightarrow> nat" where
  "lowbit i = unat ((of_nat i :: 64 word) AND (NOT (of_nat i) + 1))"

definition strip_lowbit :: "nat \<Rightarrow> nat" where
  "strip_lowbit i = unat ((of_nat i :: 64 word) AND (of_nat i - 1))"

definition fenwick_with_capacity :: "nat \<Rightarrow> int list" where
  "fenwick_with_capacity n = replicate (n + 1) 0"

text \<open>The loop starts at one, where \<^const>\<open>lowbit\<close> is positive.\<close>

function fenwick_add :: "int list \<Rightarrow> nat \<Rightarrow> int \<Rightarrow> int list" where
  "fenwick_add tree i delta =
    (if i < length tree \<and> 0 < lowbit i
     then fenwick_add (tree[i := i128 (tree ! i + delta)]) (i + lowbit i) delta
     else tree)"
  by pat_completeness auto
termination by (relation "measure (\<lambda>(tree, i, _). length tree - i)") auto

definition fenwick_add_at :: "int list \<Rightarrow> nat \<Rightarrow> fixed \<Rightarrow> int list" where
  "fenwick_add_at tree idx delta = fenwick_add tree (idx + 1) delta"

definition fenwick_from_slice :: "fixed list \<Rightarrow> int list" where
  "fenwick_from_slice values =
     fold (\<lambda>(i, v) tree. fenwick_add_at tree i v) (enumerate 0 values) (fenwick_with_capacity (length values))"

function fenwick_sum :: "int list \<Rightarrow> nat \<Rightarrow> int \<Rightarrow> int" where
  "fenwick_sum tree i acc =
    (if 0 < i \<and> strip_lowbit i < i then fenwick_sum tree (strip_lowbit i) (i128 (acc + tree ! i)) else acc)"
  by pat_completeness auto
termination by (relation "measure (\<lambda>(_, i, _). i)") auto

definition prefix_sum :: "int list \<Rightarrow> nat \<Rightarrow> fixed" where
  "prefix_sum tree idx = fenwick_sum tree (min (idx + 1) (length tree - 1)) 0"

definition range_sum :: "int list \<Rightarrow> nat \<Rightarrow> nat \<Rightarrow> fixed" where
  "range_sum tree start stop =
    (if stop < start then 0
     else let upper = prefix_sum tree stop in
       if start = 0 then upper else i128 (upper - prefix_sum tree (start - 1)))"

section \<open>The lowest set bit\<close>

lemma int_lowbit:
  assumes "0 < x"
  obtains k a where "x AND - x = (2 :: int) ^ k" "x = (2 * a + 1) * 2 ^ k" "0 \<le> a"
proof -
  have "\<exists>k a. x AND - x = 2 ^ k \<and> x = (2 * a + 1) * 2 ^ k \<and> 0 \<le> a"
    using assms
  proof (induction "nat x" arbitrary: x rule: less_induct)
    case less
    show ?case
    proof (cases "even x")
      case True
      then obtain y where y: "x = 2 * y" by blast
      then obtain k a where "y AND - y = 2 ^ k" "y = (2 * a + 1) * 2 ^ k" "0 \<le> a"
        using less(1) [of y] less(2) by auto
      moreover have "x AND - x = 2 * (y AND - y)"
        unfolding y by (rule bit_eqI) (auto simp: bit_simps bit_double_iff minus_mult_right simp del: mult_minus_right)
      ultimately show ?thesis by (intro exI [of _ "Suc k"] exI [of _ a]) (simp add: y)
    next
      case False
      then obtain y where y: "x = 1 + 2 * y" by (metis oddE add.commute)
      have neg: "- x = 1 + 2 * NOT y" by (simp add: y not_int_def)
      have "x AND - x = 1"
        unfolding neg unfolding y
        by (rule bit_eqI) (auto simp: bit_and_iff even_bit_succ_iff bit_double_iff bit_not_iff bit_1_iff)
      then show ?thesis using y less(2) by (intro exI [of _ 0] exI [of _ y]) simp
    qed
  qed
  then show thesis using that by blast
qed

lemma uint_neg_and: "uint (w AND (NOT w + 1)) = uint w AND - uint w" for w :: "64 word"
proof -
  have "NOT w + 1 = - w" by (simp add: not_eq_complement)
  then have "uint (w AND (NOT w + 1)) = uint w AND take_bit 64 (- uint w)"
    by (simp add: uint_and uint_word_ariths take_bit_eq_mod)
  also have "\<dots> = take_bit 64 (uint w AND - uint w)"
    using take_bit_int_eq_self [of "uint w" 64] uint_lt2p [of w] by (simp add: take_bit_and)
  also have "\<dots> = uint w AND - uint w"
  proof (rule take_bit_int_eq_self)
    show "0 \<le> uint w AND - uint w" by simp
    have "uint w AND - uint w \<le> uint w" by (rule AND_upper1) simp
    also have "\<dots> < 2 ^ 64" using uint_lt2p [of w] by simp
    finally show "uint w AND - uint w < 2 ^ 64" .
  qed
  finally show ?thesis .
qed

lemma lowbit_form:
  assumes "0 < i" "i < 2 ^ 63"
  obtains k a where "lowbit i = 2 ^ k" "i = (2 * a + 1) * 2 ^ k"
proof -
  let ?w = "of_nat i :: 64 word"
  have u: "uint ?w = int i" using assms(2) by (simp add: uint_nat unat_of_nat take_bit_nat_def)
  obtain k a where k: "int i AND - int i = 2 ^ k" "int i = (2 * a + 1) * 2 ^ k" "0 \<le> a"
    using int_lowbit [of "int i"] assms(1) by auto
  have "int (lowbit i) = 2 ^ k" using uint_neg_and [of ?w] u k(1) by (simp add: lowbit_def)
  then have "lowbit i = 2 ^ k" by (metis of_nat_eq_iff of_nat_numeral of_nat_power)
  moreover have "int i = int ((2 * nat a + 1) * 2 ^ k)" using k(2,3) by (simp add: algebra_simps)
  then have "i = (2 * nat a + 1) * 2 ^ k" by (simp only: of_nat_eq_iff)
  ultimately show thesis using that by blast
qed

lemma strip_lowbit_eq:
  assumes "0 < i" "i < 2 ^ 63"
  shows "strip_lowbit i = i - lowbit i" "lowbit i \<le> i" "0 < lowbit i"
proof -
  obtain k a where k: "lowbit i = 2 ^ k" "i = (2 * a + 1) * 2 ^ k" by (rule lowbit_form [OF assms])
  show "0 < lowbit i" "lowbit i \<le> i" using k by simp_all
  let ?w = "of_nat i :: 64 word"
  have "NOT (NOT ?w + 1) = ?w - 1" by (simp add: not_eq_complement)
  moreover have "(?w AND n) + (?w AND NOT n) = ?w" for n
  proof -
    have "(?w AND n) AND (?w AND NOT n) = 0" by (rule bit_eqI) (simp add: bit_and_iff bit_not_iff)
    then have "(?w AND n) + (?w AND NOT n) = (?w AND n) OR (?w AND NOT n)" by (rule disjunctive_add_eq_or)
    also have "\<dots> = ?w" by (rule bit_eqI) (auto simp: bit_and_iff bit_or_iff bit_not_iff)
    finally show ?thesis .
  qed
  ultimately have "(?w AND (NOT ?w + 1)) + (?w AND (?w - 1)) = ?w" by metis
  then have "?w AND (?w - 1) = ?w - of_nat (lowbit i)" by (simp add: lowbit_def algebra_simps)
  also have "\<dots> = of_nat (i - lowbit i)" using k by simp
  finally show "strip_lowbit i = i - lowbit i"
    using assms(2) by (simp add: strip_lowbit_def unat_of_nat take_bit_nat_def)
qed

section \<open>Which cells an index belongs to\<close>

definition covers :: "nat \<Rightarrow> nat \<Rightarrow> bool" where
  "covers t i \<longleftrightarrow> t - lowbit t < i \<and> i \<le> t"

text \<open>A multiple of a power of two strictly inside a block around another one.\<close>

lemma multiple_le: "(p :: nat) dvd x \<Longrightarrow> p dvd y \<Longrightarrow> x < y \<Longrightarrow> x + p \<le> y"
  by (metis dvd_add_right_iff dvd_imp_le le_add_diff_inverse less_imp_le_nat nat_add_left_cancel_le zero_less_diff)

lemma covers_step:
  assumes "0 < i" "i < 2 ^ 62" "0 < t" "t < 2 ^ 62"
  shows "covers t i \<longleftrightarrow> t = i \<or> covers t (i + lowbit i)" "\<not> covers i (i + lowbit i)"
proof -
  obtain k a where i: "lowbit i = 2 ^ k" "i = (2 * a + 1) * 2 ^ k" using lowbit_form [of i] assms(1,2) by auto
  obtain m b where t: "lowbit t = 2 ^ m" "t = (2 * b + 1) * 2 ^ m" using lowbit_form [of t] assms(3,4) by auto
  show "\<not> covers i (i + lowbit i)" using i(1) by (simp add: covers_def)
  have low: "t - lowbit t = b * 2 ^ Suc m" using t by (simp add: algebra_simps)
  have i2: "i + lowbit i = (a + 1) * 2 ^ Suc k" using i by (simp add: algebra_simps)
  have div_i: "2 ^ k dvd i" "\<not> 2 ^ Suc k dvd i"
  proof -
    show "2 ^ k dvd i" using i(2) by simp
    show "\<not> 2 ^ Suc k dvd i"
    proof
      assume "2 ^ Suc k dvd i"
      then obtain c where "(2 * a + 1) * 2 ^ k = (2 * c) * 2 ^ k" using i(2) by (auto simp: dvd_def ac_simps)
      then have "2 * a + 1 = 2 * c" by (simp only: mult_cancel2) simp
      then show False by presburger
    qed
  qed
  show "covers t i \<longleftrightarrow> t = i \<or> covers t (i + lowbit i)"
  proof (cases "t = i")
    case True
    have "i - lowbit i < i" using assms(1) i(1) by simp
    then show ?thesis using True by (simp add: covers_def)
  next
    case neq: False
    show ?thesis
    proof
      assume c: "covers t i"
      then have less: "i < t" and above: "b * 2 ^ Suc m < i" using neq low by (auto simp: covers_def)
      have "k < m"
      proof (rule ccontr)
        assume "\<not> k < m"
        then have "2 ^ m dvd i" using div_i(1) by (meson dvd_trans le_imp_power_dvd not_less)
        moreover have "2 ^ m dvd b * 2 ^ Suc m" by simp
        ultimately have "b * 2 ^ Suc m + 2 ^ m \<le> i" using above by (intro multiple_le)
        then show False using less t by (simp add: algebra_simps)
      qed
      then have "2 ^ k dvd t" using t(2) by (metis dvd_mult le_imp_power_dvd less_imp_le_nat)
      then have "i + 2 ^ k \<le> t" using div_i(1) less by (intro multiple_le)
      then show "t = i \<or> covers t (i + lowbit i)" using above low i(1) by (simp add: covers_def)
    next
      assume "t = i \<or> covers t (i + lowbit i)"
      then have c: "b * 2 ^ Suc m < i + 2 ^ k" "i + 2 ^ k \<le> t" using neq low i(1) by (auto simp: covers_def)
      have "b * 2 ^ Suc m < i"
      proof (rule ccontr)
        assume "\<not> b * 2 ^ Suc m < i"
        then have le: "i \<le> b * 2 ^ Suc m" by simp
        show False
        proof (cases "k \<le> Suc m")
          case True
          then have "2 ^ k dvd b * 2 ^ Suc m" by (meson dvd_mult le_imp_power_dvd)
          then have "i = b * 2 ^ Suc m" using multiple_le [OF div_i(1), of "b * 2 ^ Suc m"] le c(1) by force
          moreover from this have "(2 :: nat) ^ k \<le> 2 ^ m" using c(2) t(2) by (simp add: algebra_simps)
          then have "Suc k \<le> Suc m" by simp
          then have "(2 :: nat) ^ Suc k dvd 2 ^ Suc m" by (rule le_imp_power_dvd)
          ultimately have "2 ^ Suc k dvd i" by simp
          then show False using div_i(2) by simp
        next
          case False
          then have "2 ^ m dvd i + 2 ^ k" using i2 i(1)
            by (metis dvd_mult le_imp_power_dvd less_imp_le_nat not_le Suc_lessD less_SucI)
          then have "t = i + 2 ^ k" using multiple_le [of "2 ^ m" "i + 2 ^ k" t] c t(2) by (force simp: algebra_simps)
          moreover have "2 ^ Suc m dvd i + 2 ^ k" using False i2 i(1)
            by (metis dvd_mult le_imp_power_dvd nat_le_linear not_less_eq_eq)
          ultimately obtain q where "(2 * b + 1) * 2 ^ m = (2 * q) * 2 ^ m" using t(2) by (auto simp: dvd_def ac_simps)
          then have "2 * b + 1 = 2 * q" by (simp only: mult_cancel2) simp
          then show False by presburger
        qed
      qed
      then show "covers t i" using c low by (simp add: covers_def)
    qed
  qed
qed

section \<open>Cells hold the sums of their ranges\<close>

lemma length_fenwick_add [simp]: "length (fenwick_add tree i d) = length tree"
  by (induction tree i d rule: fenwick_add.induct) (simp add: fenwick_add.simps)

declare fenwick_add.simps [simp del] fenwick_sum.simps [simp del]

lemma nth_fenwick_add:
  assumes "0 < i" "length tree < 2 ^ 61" "0 < t" "t < length tree"
  shows "fenwick_add tree i d ! t = (if covers t i then i128 (tree ! t + d) else tree ! t)"
  using assms
proof (induction tree i d rule: fenwick_add.induct)
  case (1 tree i d)
  show ?case
  proof (cases "i < length tree")
    case True
    then have small: "i < 2 ^ 62" "t < 2 ^ 62" using 1(3,5) by simp_all
    have pos: "0 < lowbit i" using strip_lowbit_eq(3) 1(2) small by simp
    have step: "fenwick_add tree i d = fenwick_add (tree[i := i128 (tree ! i + d)]) (i + lowbit i) d"
      using True pos by (simp add: fenwick_add.simps [of tree i])
    note c = covers_step [OF 1(2) small(1) 1(4) small(2)]
    show ?thesis
      unfolding step using 1(1) [OF conjI [OF True pos]] 1(2-5) True c by (cases "t = i") auto
  next
    case False
    then have "\<not> covers t i" using 1(5) by (simp add: covers_def)
    then show ?thesis using False by (simp add: fenwick_add.simps [of tree i])
  qed
qed

definition fenwick_ok :: "int list \<Rightarrow> int list \<Rightarrow> bool" where
  "fenwick_ok tree vs \<longleftrightarrow> (\<forall>t. 0 < t \<and> t < length tree \<longrightarrow>
     tree ! t = i128 (\<Sum>j \<in> {t - lowbit t..<t}. if j < length vs then vs ! j else 0))"

lemma i128_add: "i128 (i128 x + y) = i128 (x + y)" "i128 (x + i128 y) = i128 (x + y)" "i128 (x - i128 y) = i128 (x - y)"
  "i128 (i128 x - y) = i128 (x - y)"
  unfolding wrap_s_def by (simp_all add: mod_simps algebra_simps)

lemma fenwick_ok_snoc:
  assumes "fenwick_ok tree vs" "length tree < 2 ^ 61" "length vs + 1 < length tree"
  shows "fenwick_ok (fenwick_add_at tree (length vs) v) (vs @ [v])"
  unfolding fenwick_ok_def
proof (intro allI impI)
  fix t assume t: "0 < t \<and> t < length (fenwick_add_at tree (length vs) v)"
  then have t: "0 < t" "t < length tree" by (simp_all add: fenwick_add_at_def)
  let ?R = "{t - lowbit t..<t}" and ?g = "\<lambda>xs j. if j < length xs then xs ! j else (0 :: int)"
  have cell: "fenwick_add_at tree (length vs) v ! t
      = (if covers t (length vs + 1) then i128 (tree ! t + v) else tree ! t)"
    using nth_fenwick_add [of "length vs + 1" tree t v] assms(2) t by (simp add: fenwick_add_at_def)
  have old: "tree ! t = i128 (\<Sum>j \<in> ?R. ?g vs j)" using assms(1) t by (simp add: fenwick_ok_def)
  have app: "?g (vs @ [v]) j = ?g vs j + (if j = length vs then v else 0)" for j by (auto simp: nth_append)
  have "(\<Sum>j \<in> ?R. ?g (vs @ [v]) j) = (\<Sum>j \<in> ?R. ?g vs j) + (\<Sum>j \<in> ?R. if j = length vs then v else 0)"
    unfolding app by (rule sum.distrib)
  also have "(\<Sum>j \<in> ?R. if j = length vs then v else 0) = (if length vs \<in> ?R then v else 0)" by (simp add: sum.delta)
  also have "length vs \<in> ?R \<longleftrightarrow> covers t (length vs + 1)" by (auto simp: covers_def)
  finally show "fenwick_add_at tree (length vs) v ! t = i128 (\<Sum>j \<in> ?R. ?g (vs @ [v]) j)"
    using cell old by (simp add: i128_add)
qed

lemma fenwick_from_slice_ok:
  assumes "length vs < 2 ^ 60"
  shows "fenwick_ok (fenwick_from_slice vs) vs" "length (fenwick_from_slice vs) = length vs + 1"
proof -
  have gen: "fenwick_ok (fold (\<lambda>(i, v) tree. fenwick_add_at tree i v) (enumerate (length us) ws) tree) (us @ ws)
      \<and> length (fold (\<lambda>(i, v) tree. fenwick_add_at tree i v) (enumerate (length us) ws) tree) = length tree"
    if "fenwick_ok tree us" "length us + length ws + 1 = length tree" "length tree < 2 ^ 61" for us ws tree
    using that
  proof (induction ws arbitrary: us tree)
    case (Cons w ws)
    have "fenwick_ok (fenwick_add_at tree (length us) w) (us @ [w])"
      using fenwick_ok_snoc [OF Cons.prems(1,3)] Cons.prems(2) by simp
    then show ?case
      using Cons.IH [of "fenwick_add_at tree (length us) w" "us @ [w]"] Cons.prems
      by (simp add: fenwick_add_at_def)
  qed simp
  have len: "length (fenwick_with_capacity (length vs)) = length vs + 1" by (simp add: fenwick_with_capacity_def)
  have "fenwick_ok (fenwick_with_capacity (length vs)) []"
    by (simp add: fenwick_ok_def fenwick_with_capacity_def nth_replicate del: replicate_Suc replicate.simps)
  from gen [OF this, of vs] len assms
  show "fenwick_ok (fenwick_from_slice vs) vs" "length (fenwick_from_slice vs) = length vs + 1"
    by (simp_all add: fenwick_from_slice_def)
qed

lemma fenwick_sum_prefix:
  assumes "fenwick_ok tree vs" "i < length tree" "length tree < 2 ^ 61"
  shows "fenwick_sum tree i acc = (if i = 0 then acc
    else i128 (acc + (\<Sum>j \<in> {0..<i}. if j < length vs then vs ! j else 0)))"
  using assms
proof (induction tree i acc rule: fenwick_sum.induct)
  case (1 tree i acc)
  let ?g = "\<lambda>j. if j < length vs then vs ! j else (0 :: int)"
  show ?case
  proof (cases "i = 0")
    case False
    then have lb: "strip_lowbit i = i - lowbit i" "lowbit i \<le> i" "0 < lowbit i"
      using strip_lowbit_eq [of i] 1(3,4) by simp_all
    have cell: "tree ! i = i128 (\<Sum>j \<in> {i - lowbit i..<i}. ?g j)" using 1(2,3) False by (simp add: fenwick_ok_def)
    have split: "(\<Sum>j \<in> {0..<i - lowbit i}. ?g j) + (\<Sum>j \<in> {i - lowbit i..<i}. ?g j) = (\<Sum>j \<in> {0..<i}. ?g j)"
      by (intro sum.atLeastLessThan_concat) simp_all
    have step: "fenwick_sum tree i acc = fenwick_sum tree (i - lowbit i) (i128 (acc + tree ! i))"
      using False lb by (simp add: fenwick_sum.simps [of tree i])
    have rest: "fenwick_sum tree (i - lowbit i) (i128 (acc + tree ! i)) = (if i - lowbit i = 0 then i128 (acc + tree ! i)
        else i128 (i128 (acc + tree ! i) + (\<Sum>j \<in> {0..<i - lowbit i}. ?g j)))"
      using 1(1) [unfolded lb(1)] False lb 1(2-4) by simp
    have "fenwick_sum tree i acc = i128 (acc + ((\<Sum>j \<in> {0..<i - lowbit i}. ?g j) + (\<Sum>j \<in> {i - lowbit i..<i}. ?g j)))"
      unfolding step rest unfolding cell by (simp add: i128_add add.assoc add.commute add.left_commute)
    then show ?thesis using False split by simp
  qed (simp add: fenwick_sum.simps)
qed

lemma prefix_sum_from_slice:
  assumes "length vs < 2 ^ 60"
  shows "prefix_sum (fenwick_from_slice vs) idx = i128 (sum_list (take (idx + 1) vs))"
proof -
  let ?i = "min (idx + 1) (length vs)"
  have g: "(\<Sum>j \<in> {0..<n}. if j < length vs then vs ! j else 0) = sum_list (take n vs)" if "n \<le> length vs" for n
  proof -
    have "(\<Sum>j \<in> {0..<n}. if j < length vs then vs ! j else 0) = (\<Sum>j \<in> {0..<n}. take n vs ! j)"
      using that by (intro sum.cong) auto
    then show ?thesis using that by (simp add: sum_list_sum_nth)
  qed
  have "prefix_sum (fenwick_from_slice vs) idx = (if ?i = 0 then 0 else i128 (sum_list (take ?i vs)))"
    using fenwick_sum_prefix [OF fenwick_from_slice_ok(1) [OF assms], of ?i 0] fenwick_from_slice_ok(2) [OF assms]
      assms g [of ?i] by (simp add: prefix_sum_def)
  then show ?thesis by (auto simp: min_def)
qed

section \<open>Properties\<close>

text \<open>The binary indexed tree answers as the list of values does: a prefix sum is the sum of the
  values up to the index, and a range sum the sum of the values of the range, as 128-bit sums, also
  for indexes behind the end and for empty ranges.\<close>

theorem fenwick_refines_list:
  assumes "length vs < 2 ^ 60"
  shows "prefix_sum (fenwick_from_slice vs) idx = i128 (sum_list (take (idx + 1) vs))
    \<and> range_sum (fenwick_from_slice vs) start stop = i128 (sum_list (drop start (take (stop + 1) vs)))"
proof -
  have "sum_list (take (stop + 1) vs) = sum_list (take start vs) + sum_list (drop start (take (stop + 1) vs))"
    if "start \<le> stop"
  proof -
    have "take (stop + 1) vs = take start (take (stop + 1) vs) @ drop start (take (stop + 1) vs)"
      by (rule append_take_drop_id [symmetric])
    moreover have "take start (take (stop + 1) vs) = take start vs" using that by simp
    ultimately show ?thesis by (metis sum_list_append)
  qed
  then have "range_sum (fenwick_from_slice vs) start stop = i128 (sum_list (drop start (take (stop + 1) vs)))"
    by (cases "start = 0")
       (auto simp: range_sum_def prefix_sum_from_slice [OF assms] i128_add)
  then show ?thesis using prefix_sum_from_slice [OF assms] by simp
qed

theorem fenwick_refines_list_witness:
  "prefix_sum (fenwick_from_slice [5, -2, 7, 1]) 2 = 10 \<and> range_sum (fenwick_from_slice [5, -2, 7, 1]) 1 9 = 6"
  using fenwick_refines_list [of "[5, -2, 7, 1]" 2 1 9] by simp

end
