(* ===== verification/Codice.thy ===== *)
theory Codice
  imports Json MbfObjects
begin

text \<open>The registry of models (\<^verbatim>\<open>src/codice/registry.rs\<close>): attribute types and descriptors, constraints,
  the parser of a model, the registry with its guards and its map from attribute numbers to names,
  and the lookups. The math and search profiles of a model (read by the analytic zones only) and
  the localised labels are left out; reading and parsing the files is an argument, as are SHA-256,
  the text of a JSON value and the debug form of a string.\<close>

section \<open>Models\<close>

datatype attr_type =
    AtString | AtNumber | AtEpoch | AtDecimal | AtBoolean | AtArray | AtReference | AtUuid | AtBytes
  | AtEnum | AtJson | AtUnknown string

definition attr_type_from :: "string \<Rightarrow> attr_type" where
  "attr_type_from s =
    (if s = ''string'' then AtString
     else if s \<in> {''number'', ''integer'', ''int'', ''long''} then AtNumber
     else if s = ''epoch'' then AtEpoch
     else if s \<in> {''decimal'', ''double'', ''float''} then AtDecimal
     else if s = ''boolean'' then AtBoolean
     else if s = ''array'' then AtArray
     else if s = ''reference'' then AtReference
     else if s = ''uuid'' then AtUuid
     else if s \<in> {''bytes'', ''vector''} then AtBytes
     else if s = ''enum'' then AtEnum
     else if s = ''json'' then AtJson
     else AtUnknown s)"

definition attr_type_is_avet_indexable :: "attr_type \<Rightarrow> bool" where
  "attr_type_is_avet_indexable t \<longleftrightarrow> t \<noteq> AtBytes \<and> t \<noteq> AtArray"

record attribute_descriptor =
  ad_name :: string
  ad_type :: attr_type
  ad_label :: "string option"
  ad_required :: bool
  ad_unique :: "string option"
  ad_indexed :: bool
  ad_fts :: bool
  ad_history_mirror :: bool
  ad_is_dimension :: bool
  ad_is_metric :: bool
  ad_is_measure :: bool
  ad_entity_ref :: "string option"
  ad_options :: "string list"
  ad_enum_open :: bool
  ad_is_sequence_scope :: bool
  ad_is_sequence_scope_via :: bool
  ad_sensitive :: bool
  ad_auto_generate :: "json option"
  ad_validation_regex :: "string option"
  ad_default_value :: "string option"
  ad_default_rollup :: "string option"
  ad_subtype :: "string option"
  ad_terminology_uri :: "string option"
  ad_dimensions :: "nat option"
  ad_vector_model :: "string option"
  ad_auto_generate_from :: "string list"

datatype constraint_scope = ScopeTenant | ScopeGlobal

definition constraint_scope_from :: "string \<Rightarrow> constraint_scope" where
  "constraint_scope_from s = (if s = ''global'' \<or> s = ''identity'' then ScopeGlobal else ScopeTenant)"

datatype constraint_kind = Unique | RequiresWhen | AtMost | AtLeast | RequiresAny | RefState

record codice_constraint =
  c_kind :: constraint_kind
  c_scope :: constraint_scope
  c_attributes :: "string list"
  c_when :: "(string \<times> string) list option"

record entity_model =
  em_entity :: string
  em_label :: "string option"
  em_icon :: "string option"
  em_primary_key :: "string option"
  em_fts_fields :: "string list"
  em_attributes :: "attribute_descriptor list"
  em_event_rules :: "json list"
  em_is_sequence_scope_provider :: bool
  em_write_path_locked :: bool
  em_is_system :: bool
  em_track_history :: bool
  em_disable_eda :: bool
  em_shadow_sagas_mapping :: "json option"
  em_constraints :: "codice_constraint list"

definition model_default :: entity_model where
  "model_default = \<lparr>em_entity = [], em_label = None, em_icon = None, em_primary_key = None,
     em_fts_fields = [], em_attributes = [], em_event_rules = [], em_is_sequence_scope_provider = False,
     em_write_path_locked = False, em_is_system = False, em_track_history = True,
     em_disable_eda = False, em_shadow_sagas_mapping = None, em_constraints = []\<rparr>"

section \<open>Parsing a model\<close>

definition bool_field :: "json \<Rightarrow> string \<Rightarrow> bool" where
  "bool_field j k = unwrap_or (json_bool (json_at j k)) False"

definition parse_attribute :: "json \<Rightarrow> attribute_descriptor" where
  "parse_attribute a =
    (let is_measure = json_bool (json_at a ''is_measure''); is_metric = json_bool (json_at a ''is_metric'') in
     \<lparr>ad_name = unwrap_or (as_str (json_at a ''name'')) [],
      ad_type = attr_type_from (unwrap_or (as_str (json_at a ''type'')) ''string''),
      ad_label = as_str (json_at a ''label''),
      ad_required = bool_field a ''required'',
      ad_unique = as_str (json_at a ''unique''),
      ad_indexed = bool_field a ''index'',
      ad_fts = bool_field a ''fts'',
      ad_history_mirror = bool_field a ''history_mirror'',
      ad_is_dimension = bool_field a ''is_dimension'',
      ad_is_metric = unwrap_or (or_else is_metric is_measure) False,
      ad_is_measure = unwrap_or (or_else is_measure is_metric) False,
      ad_entity_ref = as_str (json_at a ''entityRef''),
      ad_options = string_list (json_at a ''options''),
      ad_enum_open = bool_field a ''enum_open'',
      ad_is_sequence_scope = bool_field a ''is_sequence_scope'',
      ad_is_sequence_scope_via = bool_field a ''is_sequence_scope_via'',
      ad_sensitive = bool_field a ''sensitive'',
      ad_auto_generate = json_get a ''auto_generate'',
      ad_validation_regex = as_str (json_at a ''pattern''),
      ad_default_value = as_str (json_at a ''default_value''),
      ad_default_rollup = as_str (json_at a ''default_rollup''),
      ad_subtype = as_str (json_at a ''subtype''),
      ad_terminology_uri = or_else (as_str (json_at a ''terminologyUri'')) (as_str (json_at a ''terminology_uri'')),
      ad_dimensions = map_option (\<lambda>d. d mod 2 ^ 32) (as_u64 (json_at a ''dimensions'')),
      ad_vector_model = as_str (json_at a ''model''),
      ad_auto_generate_from = string_list (json_at a ''auto_generate_from'')\<rparr>)"

definition parse_pairs :: "json \<Rightarrow> (string \<times> string) list option" where
  "parse_pairs j = map_option (List.map_filter (\<lambda>(k, v). map_option (Pair k) (as_str v))) (as_object j)"

definition constraint_body ::
  "string \<Rightarrow> json \<Rightarrow> (constraint_kind \<times> string list \<times> (string \<times> string) list option) option" where
  "constraint_body ty c =
    (if ty = ''unique'' then Some (Unique, string_list (json_at c ''attributes''), None)
     else if ty = ''requires_when'' then
       Some (RequiresWhen, string_list (json_at c ''required''), parse_pairs (json_at c ''when''))
     else if ty = ''at_most'' then
       Some (AtMost, List.map_filter (\<lambda>k. as_str (json_at c k)) [''field'', ''of''], None)
     else if ty = ''at_least'' then
       Some (AtLeast, List.map_filter (\<lambda>k. as_str (json_at c k)) [''field'', ''of''], None)
     else if ty = ''requires_any'' then Some (RequiresAny, string_list (json_at c ''any''), None)
     else if ty = ''ref_state'' then
       Some (RefState, (case as_str (json_at c ''attr'') of Some s \<Rightarrow> [s] | None \<Rightarrow> []),
         parse_pairs (json_at c ''conditions''))
     else None)"

definition parse_constraint :: "json \<Rightarrow> codice_constraint option" where
  "parse_constraint c =
    (case constraint_body (unwrap_or (as_str (json_at c ''type'')) ''unique'') c of
       None \<Rightarrow> None
     | Some (kind, attributes, when_pairs) \<Rightarrow>
        if attributes = [] then None
        else if kind \<in> {RequiresWhen, RefState} \<and> (case when_pairs of None \<Rightarrow> True | Some w \<Rightarrow> w = []) then None
        else Some \<lparr>c_kind = kind,
           c_scope = constraint_scope_from (unwrap_or (as_str (json_at c ''scope'')) ''tenant''),
           c_attributes = attributes, c_when = when_pairs\<rparr>)"

definition parse_constraints :: "json \<Rightarrow> codice_constraint list" where
  "parse_constraints j = List.map_filter parse_constraint (unwrap_or (as_array (json_at j ''constraints'')) [])"

definition parse_entity_model :: "json \<Rightarrow> entity_model" where
  "parse_entity_model j =
    (let attributes = map parse_attribute (unwrap_or (as_array (json_at j ''attributes'')) []);
         fts = string_list (json_at j ''fts_fields'') in
     \<lparr>em_entity = unwrap_or (as_str (json_at j ''entity'')) ''unknown'',
      em_label = as_str (json_at j ''label''),
      em_icon = as_str (json_at j ''icon''),
      em_primary_key = as_str (json_at j ''primary_key''),
      em_fts_fields = (if fts = [] then map ad_name (filter ad_fts attributes) else fts),
      em_attributes = attributes,
      em_event_rules = unwrap_or (as_array (json_at j ''event_rules'')) [],
      em_is_sequence_scope_provider = bool_field j ''is_sequence_scope_provider'',
      em_write_path_locked = bool_field (json_at j ''routing'') ''write_path_locked'',
      em_is_system = bool_field j ''is_system'',
      em_track_history = unwrap_or (json_bool (json_at j ''track_history'')) True,
      em_disable_eda = bool_field j ''disable_eda'',
      em_shadow_sagas_mapping = Option.bind (json_get j ''shadow_sagas_mapping'')
        (\<lambda>v. if as_object v = None then None else Some v),
      em_constraints = parse_constraints j\<rparr>)"

section \<open>The registry\<close>

record registry_entry =
  re_model :: entity_model
  re_fingerprint :: string
  re_cache_fingerprint :: string

record registry =
  reg_entities :: "(string, registry_entry) omap"
  reg_attr_ids :: "(16 word, string) omap"

definition mirror_attr_name :: "string \<Rightarrow> string" where
  "mirror_attr_name child = ''_refs/'' @ child"

definition debug_list :: "(string \<Rightarrow> string) \<Rightarrow> string list \<Rightarrow> string" where
  "debug_list debug xs = ''['' @ join_with '', '' (map debug xs) @ '']''"

definition schema_fingerprint ::
  "(bytes \<Rightarrow> bytes) \<Rightarrow> (string \<Rightarrow> string) \<Rightarrow> string \<Rightarrow> json \<Rightarrow> string" where
  "schema_fingerprint sha debug entity_name j =
     hex_encode (sha (str_bytes (entity_name @ debug_list debug
       (List.map_filter (\<lambda>a. as_str (json_at a ''name'')) (unwrap_or (as_array (json_at j ''attributes'')) [])))))"

definition model_cache_fingerprint :: "(bytes \<Rightarrow> bytes) \<Rightarrow> (json \<Rightarrow> string) \<Rightarrow> json \<Rightarrow> string" where
  "model_cache_fingerprint sha text j = hex_encode (sha (str_bytes (text j)))"

definition seed_rule :: "string \<Rightarrow> json \<Rightarrow> json" where
  "seed_rule entity_name rule = (case as_object rule of
      None \<Rightarrow> rule
    | Some kvs \<Rightarrow> JObj (om_entries (om_put ''is_system_seeded'' (JBool True)
        (om_put ''target_entity_name'' (JStr entity_name) (om_of_list kvs)))))"

text \<open>The state of the loop over the files: the registry so far, the fingerprints seen with their
  entities, and the rules to be seeded.\<close>

record build_state =
  bs_entities :: "(string, registry_entry) omap"
  bs_hashes :: "(string, string) omap"
  bs_attr_ids :: "(16 word, string) omap"
  bs_rules :: "json list"

definition sys_attr_ids :: "(16 word, string) omap" where
  "sys_attr_ids = om_of_list [sys_ulid, sys_type, sys_tenant, sys_created_at, sys_updated_at,
     sys_created_by, sys_updated_by]"

definition register_attr :: "string \<Rightarrow> (16 word, string) omap \<Rightarrow> (16 word, string) omap" where
  "register_attr name ids = om_put (hash_attr_name name) name ids"

text \<open>The names a model adds to the map of attribute numbers.\<close>

definition registered_names :: "string \<Rightarrow> entity_model \<Rightarrow> string list" where
  "registered_names entity_name m = map ad_name (em_attributes m)
     @ (if list_ex ad_history_mirror (em_attributes m) then [mirror_attr_name entity_name] else [])"

definition register_model ::
  "(bytes \<Rightarrow> bytes) \<Rightarrow> (string \<Rightarrow> string) \<Rightarrow> (json \<Rightarrow> string) \<Rightarrow> json option \<Rightarrow> build_state \<Rightarrow> build_state res" where
  "register_model sha debug text doc st =
    rbind (ok_or Cod001 doc) (\<lambda>j.
    rbind (ok_or Cod001 (as_str (json_at j ''entity''))) (\<lambda>entity_name.
      if om_mem entity_name (bs_entities st) then Inl Cod002
      else let fp = schema_fingerprint sha debug entity_name j in
        if om_mem fp (bs_hashes st) then Inl Cod003
        else let m = parse_entity_model j in
          Inr \<lparr>bs_entities = om_put entity_name \<lparr>re_model = m, re_fingerprint = fp,
                 re_cache_fingerprint = model_cache_fingerprint sha text j\<rparr> (bs_entities st),
               bs_hashes = om_put fp entity_name (bs_hashes st),
               bs_attr_ids = fold register_attr (registered_names entity_name m) (bs_attr_ids st),
               bs_rules = bs_rules st @ map (seed_rule entity_name)
                 (unwrap_or (as_array (json_at j ''event_rules'')) [])\<rparr>))"

definition scope_ok :: "(string, registry_entry) omap \<Rightarrow> attribute_descriptor \<Rightarrow> bool" where
  "scope_ok entities a =
    (ad_is_sequence_scope a \<or> ad_is_sequence_scope_via a \<longrightarrow>
       (case Option.bind (ad_entity_ref a) (om_get entities) of
          None \<Rightarrow> True | Some e \<Rightarrow> em_is_sequence_scope_provider (re_model e)))"

definition validate_scope_providers :: "registry \<Rightarrow> unit res" where
  "validate_scope_providers r =
    (if list_all (\<lambda>e. list_all (scope_ok (reg_entities r)) (em_attributes (re_model e))) (om_values (reg_entities r))
     then Inr () else Inl CodScope001)"

definition registry_build ::
  "(bytes \<Rightarrow> bytes) \<Rightarrow> (string \<Rightarrow> string) \<Rightarrow> (json \<Rightarrow> string) \<Rightarrow> json option list \<Rightarrow> (registry \<times> json list) res" where
  "registry_build sha debug text files =
    (if files = [] then Inl Cod002
     else rbind (try_fold (register_model sha debug text) files
         \<lparr>bs_entities = om_empty, bs_hashes = om_empty, bs_attr_ids = sys_attr_ids, bs_rules = []\<rparr>) (\<lambda>st.
       let r = \<lparr>reg_entities = bs_entities st, reg_attr_ids = bs_attr_ids st\<rparr> in
       rbind (validate_scope_providers r) (\<lambda>_. Inr (r, bs_rules st))))"

definition get_model :: "registry \<Rightarrow> string \<Rightarrow> entity_model option" where
  "get_model r entity_type = map_option re_model (om_get (reg_entities r) entity_type)"

definition tracks_history :: "registry \<Rightarrow> string \<Rightarrow> bool" where
  "tracks_history r entity_type = unwrap_or (map_option em_track_history (get_model r entity_type)) True"

definition get_attributes :: "registry \<Rightarrow> string \<Rightarrow> attribute_descriptor list option" where
  "get_attributes r entity_type = map_option em_attributes (get_model r entity_type)"

definition get_attribute :: "registry \<Rightarrow> string \<Rightarrow> string \<Rightarrow> attribute_descriptor option" where
  "get_attribute r entity_type name =
     Option.bind (get_attributes r entity_type) (find (\<lambda>a. ad_name a = name))"

definition get_attr_name :: "registry \<Rightarrow> 16 word \<Rightarrow> string option" where
  "get_attr_name r aid = om_get (reg_attr_ids r) aid"

definition get_fingerprint :: "registry \<Rightarrow> string \<Rightarrow> string option" where
  "get_fingerprint r entity_type = map_option re_fingerprint (om_get (reg_entities r) entity_type)"

definition get_cache_fingerprint :: "registry \<Rightarrow> string \<Rightarrow> string option" where
  "get_cache_fingerprint r entity_type = map_option re_cache_fingerprint (om_get (reg_entities r) entity_type)"

definition entity_names :: "registry \<Rightarrow> string list" where
  "entity_names r = om_keys (reg_entities r)"

definition entity_count :: "registry \<Rightarrow> nat" where
  "entity_count r = om_size (reg_entities r)"

end
