(* ===== verification/CodiceValidator.thy ===== *)
theory CodiceValidator
  imports Codice
begin

text \<open>The validator of payloads (\<^verbatim>\<open>src/codice/validator.rs\<close>) and the coercion of text to scalars
  (\<^verbatim>\<open>src/codice/coercion.rs\<close>). A violation keeps its kind and its attribute, not its text. Regular
  expressions, Base64, the text of a JSON value and the parser of decimal numbers are arguments.\<close>

section \<open>Coercion\<close>

definition to_lower :: "string \<Rightarrow> string" where
  "to_lower s = map (\<lambda>c. let n = (of_char c :: nat) in if 65 \<le> n \<and> n \<le> 90 then char_of (n + 32) else c) s"

definition coerce_value :: "(string \<Rightarrow> f64 option) \<Rightarrow> json \<Rightarrow> attr_type \<Rightarrow> json option" where
  "coerce_value parse_f64 v t =
    (if t \<in> {AtEpoch, AtNumber, AtDecimal} then
       Option.bind (as_str v) (\<lambda>s. case parse_i64 s of
           Some n \<Rightarrow> Some (JInt n)
         | None \<Rightarrow> Option.bind (parse_f64 s) number_from_f64)
     else if t = AtBoolean then
       Option.bind (as_str v) (\<lambda>s. if to_lower s = ''true'' then Some (JBool True)
         else if to_lower s = ''false'' then Some (JBool False) else None)
     else None)"

section \<open>Values\<close>

definition all_some :: "'a option list \<Rightarrow> 'a list option" where
  "all_some xs = (if None \<in> set xs then None else Some (map the xs))"

definition map_to_datom_value ::
  "(string \<Rightarrow> bytes option) \<Rightarrow> (json \<Rightarrow> string) \<Rightarrow> json \<Rightarrow> attr_type \<Rightarrow> datom_value res" where
  "map_to_datom_value base64 text v t = (case t of
      AtString \<Rightarrow> ok_or Cod002 (map_option DvStr (as_str v))
    | AtEnum \<Rightarrow> ok_or Cod002 (map_option DvStr (as_str v))
    | AtNumber \<Rightarrow> ok_or Cod002 (or_else (map_option DvLong (as_i64 v))
        (map_option (\<lambda>d. DvLong (f64_to_i64 d)) (as_f64 v)))
    | AtDecimal \<Rightarrow> ok_or Cod002 (or_else (map_option DvDouble (as_f64 v))
        (map_option (\<lambda>n. DvDouble (f64_of_int n)) (as_i64 v)))
    | AtEpoch \<Rightarrow> (case as_i64 v of
        Some n \<Rightarrow> Inr (DvInstant n)
      | None \<Rightarrow> ok_or Cod002 (Option.bind (as_str v) (\<lambda>s. map_option DvInstant (parse_i64 s))))
    | AtBoolean \<Rightarrow> ok_or Cod002 (map_option DvBool (json_bool v))
    | AtArray \<Rightarrow> ok_or Cod002 (Option.bind (as_array v) (\<lambda>a. map_option DvArray (all_some (map as_str a))))
    | AtReference \<Rightarrow> (case as_array v of
        Some a \<Rightarrow> ok_or Cod002 (map_option DvArray (all_some (map as_str a)))
      | None \<Rightarrow> ok_or Cod002 (map_option DvStr (as_str v)))
    | AtUuid \<Rightarrow> ok_or Cod002 (map_option DvUuid (as_str v))
    | AtBytes \<Rightarrow> (case as_str v of
        Some s \<Rightarrow> ok_or Cod002 (map_option DvBytes (base64 s))
      | None \<Rightarrow> ok_or Cod002 (Option.bind (as_array v) (\<lambda>a.
          map_option (\<lambda>ds. DvBytes (concat (map (\<lambda>d. le_word (f64_to_f32 d)) ds))) (all_some (map as_f64 a)))))
    | AtJson \<Rightarrow> Inr (DvStr (text v))
    | AtUnknown _ \<Rightarrow> Inl Cod002)"

section \<open>Payloads\<close>

datatype violation = NotInEnum string | PatternMismatch string | WrongType string
  | NullRequired string | MissingRequired string

definition enum_violations :: "attribute_descriptor \<Rightarrow> json \<Rightarrow> violation list" where
  "enum_violations d v =
    (if ad_type d = AtEnum \<and> ad_options d \<noteq> [] then (case as_str v of
        Some s \<Rightarrow> if s \<notin> set (ad_options d) \<and> \<not> ad_enum_open d then [NotInEnum (ad_name d)] else []
      | None \<Rightarrow> []) else [])"

definition pattern_violations :: "(string \<Rightarrow> (string \<Rightarrow> bool) option) \<Rightarrow> attribute_descriptor \<Rightarrow> json \<Rightarrow> violation list" where
  "pattern_violations regex d v = (case (ad_validation_regex d, as_str v) of
      (Some p, Some s) \<Rightarrow> (case regex p of
          Some is_match \<Rightarrow> if is_match s then [] else [PatternMismatch (ad_name d)]
        | None \<Rightarrow> [])
    | _ \<Rightarrow> [])"

record validation_env =
  ve_regex :: "string \<Rightarrow> (string \<Rightarrow> bool) option"
  ve_base64 :: "string \<Rightarrow> bytes option"
  ve_text :: "json \<Rightarrow> string"

definition validate_attr ::
  "validation_env \<Rightarrow> bool \<Rightarrow> (string \<times> json) list \<Rightarrow> attribute_descriptor
    \<Rightarrow> (string, datom_value) omap \<times> violation list \<Rightarrow> (string, datom_value) omap \<times> violation list" where
  "validate_attr env is_create kvs d st = (case st of (attrs, viol) \<Rightarrow>
    (case map_of kvs (ad_name d) of
       Some v \<Rightarrow>
         if v \<noteq> JNull then
           (let viol1 = viol @ enum_violations d v @ pattern_violations (ve_regex env) d v in
            case map_to_datom_value (ve_base64 env) (ve_text env) v (ad_type d) of
              Inr dv \<Rightarrow> (om_put (ad_name d) dv attrs, viol1)
            | Inl _ \<Rightarrow> (attrs, viol1 @ [WrongType (ad_name d)]))
         else if ad_required d then (attrs, viol @ [NullRequired (ad_name d)])
         else (om_put (ad_name d) DvNull attrs, viol)
     | None \<Rightarrow>
         if is_create \<and> ad_required d \<and> ad_auto_generate_from d = []
         then (attrs, viol @ [MissingRequired (ad_name d)]) else (attrs, viol)))"

definition validate_payload ::
  "validation_env \<Rightarrow> entity_model \<Rightarrow> json \<Rightarrow> bool \<Rightarrow> (string, datom_value) omap res" where
  "validate_payload env model payload is_create =
    rbind (ok_or Cod001 (as_object payload)) (\<lambda>kvs.
      case fold (validate_attr env is_create kvs) (em_attributes model) (om_empty, []) of
        (attrs, viol) \<Rightarrow> if viol \<noteq> [] then Inl Cod001 else Inr attrs)"

section \<open>Types\<close>

text \<open>The values an attribute type admits.\<close>

definition conforms :: "attr_type \<Rightarrow> datom_value \<Rightarrow> bool" where
  "conforms t v = (case v of
      DvStr _ \<Rightarrow> t \<in> {AtString, AtEnum, AtJson, AtReference}
    | DvLong n \<Rightarrow> t = AtNumber \<and> in_s 64 n
    | DvDouble _ \<Rightarrow> t = AtDecimal
    | DvInstant n \<Rightarrow> t = AtEpoch \<and> in_s 64 n
    | DvBool _ \<Rightarrow> t = AtBoolean
    | DvArray _ \<Rightarrow> t \<in> {AtArray, AtReference}
    | DvUuid _ \<Rightarrow> t = AtUuid
    | DvBytes _ \<Rightarrow> t = AtBytes
    | _ \<Rightarrow> False)"

lemma as_i64_range: "as_i64 v = Some n \<Longrightarrow> in_s 64 n"
  by (cases v) (auto simp: as_i64_def split: if_splits)

lemma f64_to_i64_range: "in_s 64 (f64_to_i64 d)"
  by (simp add: f64_to_i64_def min_def max_def)

lemma map_to_datom_value_conforms:
  "map_to_datom_value base64 text v t = Inr dv \<Longrightarrow> conforms t dv"
  using as_i64_range [of v] f64_to_i64_range parse_i64_range
  by (cases t) (auto simp: map_to_datom_value_def conforms_def or_else_def bind_eq_Some_conv simp del: in_s_64
      split: option.splits)

text \<open>What the loop guarantees of the attributes it has gone through.\<close>

definition val_ok :: "(string \<times> json) list \<Rightarrow> attribute_descriptor \<Rightarrow> datom_value \<Rightarrow> bool" where
  "val_ok kvs d v = (if map_of kvs (ad_name d) = Some JNull then v = DvNull
     else conforms (ad_type d) v \<and> map_of kvs (ad_name d) \<noteq> None)"

definition attr_ok :: "bool \<Rightarrow> (string \<times> json) list \<Rightarrow> (string, datom_value) omap \<Rightarrow> attribute_descriptor \<Rightarrow> bool" where
  "attr_ok is_create kvs attrs d = (case map_of kvs (ad_name d) of
      None \<Rightarrow> \<not> (is_create \<and> ad_required d \<and> ad_auto_generate_from d = [])
    | Some v \<Rightarrow> om_get attrs (ad_name d) \<noteq> None \<and> (if v = JNull then \<not> ad_required d else enum_violations d v = []))"

definition checked :: "bool \<Rightarrow> (string \<times> json) list \<Rightarrow> attribute_descriptor list
    \<Rightarrow> (string, datom_value) omap \<Rightarrow> bool" where
  "checked is_create kvs ds attrs \<longleftrightarrow>
     (\<forall>n v. om_get attrs n = Some v \<longrightarrow> (\<exists>d\<in>set ds. ad_name d = n \<and> val_ok kvs d v))
     \<and> (\<forall>d\<in>set ds. attr_ok is_create kvs attrs d)"

lemma validate_attr_step:
  assumes "validate_attr env is_create kvs d (attrs, viol) = (attrs', [])"
  shows "viol = [] \<and> attr_ok is_create kvs attrs' d
    \<and> (attrs' = attrs \<or> (\<exists>v. attrs' = om_put (ad_name d) v attrs \<and> val_ok kvs d v))"
proof (cases "map_of kvs (ad_name d)")
  case (Some v)
  show ?thesis
  proof (cases "v = JNull")
    case False
    then obtain dv where m: "map_to_datom_value (ve_base64 env) (ve_text env) v (ad_type d) = Inr dv"
      using assms Some by (cases "map_to_datom_value (ve_base64 env) (ve_text env) v (ad_type d)")
        (auto simp: validate_attr_def Let_def)
    moreover from this have "conforms (ad_type d) dv" by (rule map_to_datom_value_conforms)
    ultimately show ?thesis using assms Some False by (auto simp: validate_attr_def val_ok_def attr_ok_def Let_def)
  qed (use assms Some in \<open>auto simp: validate_attr_def val_ok_def attr_ok_def split: if_splits\<close>)
qed (use assms in \<open>auto simp: validate_attr_def attr_ok_def split: if_splits\<close>)

lemma attr_ok_put: "attr_ok is_create kvs attrs d \<Longrightarrow> attr_ok is_create kvs (om_put n v attrs) d"
  by (auto simp: attr_ok_def split: option.splits)

lemma checked_step:
  assumes "checked is_create kvs ds attrs" "attr_ok is_create kvs attrs' d"
    and "attrs' = attrs \<or> (\<exists>v. attrs' = om_put (ad_name d) v attrs \<and> val_ok kvs d v)"
  shows "checked is_create kvs (ds @ [d]) attrs'"
  using assms(3)
proof
  assume "attrs' = attrs"
  then show ?thesis using assms(1,2) by (fastforce simp: checked_def)
next
  assume "\<exists>v. attrs' = om_put (ad_name d) v attrs \<and> val_ok kvs d v"
  then obtain v where v: "attrs' = om_put (ad_name d) v attrs" "val_ok kvs d v" by blast
  have "\<exists>e\<in>set (ds @ [d]). ad_name e = n \<and> val_ok kvs e w" if "om_get attrs' n = Some w" for n w
    using that v assms(1) by (cases "n = ad_name d") (auto simp: checked_def)
  moreover have "attr_ok is_create kvs attrs' e" if "e \<in> set (ds @ [d])" for e
    using that assms(1,2) attr_ok_put v(1) by (auto simp: checked_def)
  ultimately show ?thesis unfolding checked_def by blast
qed

lemma validate_fold_checked:
  assumes "fold (validate_attr env is_create kvs) ds (attrs0, viol0) = (attrs, [])"
  shows "viol0 = [] \<and> (checked is_create kvs ds0 attrs0 \<longrightarrow> checked is_create kvs (ds0 @ ds) attrs)"
  using assms
proof (induction ds arbitrary: attrs0 viol0 ds0)
  case (Cons d ds)
  obtain a v where s: "validate_attr env is_create kvs d (attrs0, viol0) = (a, v)" by fastforce
  then have f: "fold (validate_attr env is_create kvs) ds (a, v) = (attrs, [])" using Cons.prems by simp
  have v: "v = []" using Cons.IH [OF f] by blast
  note step = validate_attr_step [OF s [unfolded v]]
  have "checked is_create kvs ((ds0 @ [d]) @ ds) attrs" if "checked is_create kvs ds0 attrs0"
    using Cons.IH [OF f, of "ds0 @ [d]"] checked_step [OF that] step by blast
  then show ?case using step by simp
qed simp


definition sample_attribute :: "string \<Rightarrow> attr_type \<Rightarrow> attribute_descriptor" where
  "sample_attribute name t = (parse_attribute (JObj [(''name'', JStr name)])) \<lparr>ad_type := t\<rparr>"

definition sample_model :: entity_model where
  "sample_model = model_default\<lparr>em_entity := ''order'', em_attributes :=
     [(sample_attribute ''title'' AtString)\<lparr>ad_required := True\<rparr>, sample_attribute ''due'' AtEpoch,
      (sample_attribute ''status'' AtEnum)\<lparr>ad_options := [''OPEN'', ''DONE'']\<rparr>]\<rparr>"

definition sample_payload :: json where
  "sample_payload = JObj [(''due'', JNull), (''status'', JStr ''OPEN''), (''title'', JStr ''Pump'')]"

definition sample_env :: validation_env where
  "sample_env = \<lparr>ve_regex = \<lambda>_. None, ve_base64 = \<lambda>_. None, ve_text = \<lambda>_. []\<rparr>"


end
