(* ===== verification/EavPlan.thy ===== *)
theory EavPlan
  imports Codice MbfStoreCorrect
begin

text \<open>The planner of the write path: from a payload to the datoms of its transaction
  (\<^verbatim>\<open>src/eav/writer/datom_plan.rs\<close>), the system attributes (\<^verbatim>\<open>enricher.rs\<close>), the mirror of relations in
  the owner's partition (\<^verbatim>\<open>history_mirror.rs\<close>) and the outbox row (\<^verbatim>\<open>outbox.rs\<close>). The attributes of a
  payload are the entries of its map in the order of iteration. The requests to the full-text index
  that the planner also builds are dropped by the transaction and left out here. Functions of other
  crates, the printing of floats and the order in which a hash map iterates over its keys are the
  fields of a record; the clock is an argument.\<close>

record ext =
  x_f64_display :: "f64 \<Rightarrow> string"
  x_f64_parse :: "string \<Rightarrow> f64 option"
  x_json_text :: "json \<Rightarrow> string"
  x_json_parse :: "string \<Rightarrow> json option"
  x_base64 :: "bytes \<Rightarrow> string"
  x_embed :: "string \<Rightarrow> nat \<Rightarrow> bytes"
  x_sha :: "bytes \<Rightarrow> bytes"
  x_key_order :: "string list \<Rightarrow> string list"

datatype transact_op = OpCreate | OpUpdate | OpDelete

type_synonym payload_attrs = "(string \<times> datom_value) list"
type_synonym active_attrs = "(string, 16 word \<times> datom_value) omap"

record transact_payload =
  tp_tenant_id :: string
  tp_entity_id :: "string option"
  tp_entity_type :: string
  tp_attrs :: payload_attrs
  tp_op :: transact_op
  tp_suppress_events :: bool

section \<open>Values\<close>

text \<open>\<^verbatim>\<open>PartialEq\<close> of doubles: NaN differs from itself and the two zeros are equal.\<close>

definition f64_eq :: "f64 \<Rightarrow> f64 \<Rightarrow> bool" where
  "f64_eq a b \<longleftrightarrow> \<not> f64_nan a \<and> \<not> f64_nan b \<and> f64_rank a = f64_rank b"

definition dv_eq :: "datom_value \<Rightarrow> datom_value \<Rightarrow> bool" where
  "dv_eq u v = (case u of
      DvDouble a \<Rightarrow> (case v of DvDouble b \<Rightarrow> f64_eq a b | _ \<Rightarrow> False)
    | DvGeo a b \<Rightarrow> (case v of DvGeo c d \<Rightarrow> f64_eq a c \<and> f64_eq b d | _ \<Rightarrow> False)
    | _ \<Rightarrow> u = v)"

definition looks_like_json :: "string \<Rightarrow> bool" where
  "looks_like_json s \<longleftrightarrow> starts_with ''{'' s \<and> ends_with ''}'' s \<or> starts_with ''['' s \<and> ends_with '']'' s"

definition text_to_json :: "ext \<Rightarrow> string \<Rightarrow> json" where
  "text_to_json x s = (if looks_like_json s then unwrap_or (x_json_parse x s) (JStr s) else JStr s)"

definition datom_value_to_json :: "ext \<Rightarrow> datom_value \<Rightarrow> json" where
  "datom_value_to_json x v = (case v of
      DvNull \<Rightarrow> JNull
    | DvBool b \<Rightarrow> JBool b
    | DvLong n \<Rightarrow> JInt n
    | DvInstant n \<Rightarrow> JInt n
    | DvDouble d \<Rightarrow> unwrap_or (number_from_f64 d) JNull
    | DvStr s \<Rightarrow> text_to_json x s
    | DvUuid s \<Rightarrow> text_to_json x s
    | DvRef r \<Rightarrow> JStr (nat_str (unat r))
    | DvArray a \<Rightarrow> JArr (map (text_to_json x) a)
    | DvBytes b \<Rightarrow> JStr (x_base64 x b)
    | DvBigInt n \<Rightarrow> JStr (int_str n)
    | DvGeo lat lon \<Rightarrow> JObj (List.map_filter (\<lambda>(k, d). map_option (Pair k) (number_from_f64 d))
        [(''lat'', lat), (''lon'', lon)]))"

definition datom_map_to_json :: "ext \<Rightarrow> payload_attrs \<Rightarrow> json" where
  "datom_map_to_json x attrs = JObj (om_entries (om_of_list (map (\<lambda>(k, v). (k, datom_value_to_json x v)) attrs)))"

section \<open>Attributes\<close>

text \<open>The datoms of one attribute: the retraction of the previous value in an update, and the assertion
  unless the new value is null.\<close>

definition plan_attr ::
  "registry \<Rightarrow> string \<Rightarrow> string \<Rightarrow> string \<Rightarrow> 64 word \<Rightarrow> bool \<Rightarrow> active_attrs \<Rightarrow> string \<times> datom_value \<Rightarrow> datom list res" where
  "plan_attr reg tenant entity_type eid tx is_create active nv = (case nv of (name, v) \<Rightarrow>
     rbind (ok_or Eav004 (get_attribute reg entity_type name)) (\<lambda>d.
       Inr ((if is_create then [] else case om_get active name of
               Some (aid, old) \<Rightarrow> [datom_retract tenant eid name aid old tx] | None \<Rightarrow> [])
            @ (if v = DvNull then [] else [datom_assert tenant eid name (hash_attr_name (ad_name d)) v tx]))))"

definition plan_attrs ::
  "registry \<Rightarrow> string \<Rightarrow> string \<Rightarrow> string \<Rightarrow> 64 word \<Rightarrow> bool \<Rightarrow> active_attrs \<Rightarrow> payload_attrs \<Rightarrow> datom list res" where
  "plan_attrs reg tenant entity_type eid tx is_create active attrs =
     try_fold (\<lambda>nv ds. rbind (plan_attr reg tenant entity_type eid tx is_create active nv) (\<lambda>new. Inr (ds @ new))) attrs []"

text \<open>Vectors generated from text (\<^verbatim>\<open>auto_generate_from\<close>): the parts of the source, and whether the
  payload touches it.\<close>

definition by_name :: "string \<Rightarrow> (string \<Rightarrow> 'a option) \<Rightarrow> 'a option" where
  "by_name name look = or_else (look (last_part (CHR ''/'') name)) (look name)"

definition source_part ::
  "bool \<Rightarrow> payload_attrs \<Rightarrow> active_attrs \<Rightarrow> string \<Rightarrow> bool \<times> string list \<Rightarrow> bool \<times> string list" where
  "source_part is_create attrs active src st = (case st of (touched, parts) \<Rightarrow>
     (case by_name src (map_of attrs) of
        Some (DvStr t) \<Rightarrow> if str_trim t \<noteq> [] then (True, parts @ [str_trim t]) else st
      | _ \<Rightarrow> if is_create then st else
         (case by_name src (om_get active) of
            Some (_, DvStr t) \<Rightarrow> if str_trim t \<noteq> [] then (touched, parts @ [str_trim t]) else st
          | _ \<Rightarrow> st)))"

definition already_provided :: "payload_attrs \<Rightarrow> string \<Rightarrow> bool" where
  "already_provided attrs name = (case by_name name (map_of attrs) of
      Some v \<Rightarrow> v \<noteq> DvNull \<and> v \<noteq> DvBytes [] | None \<Rightarrow> False)"

definition embedding_datoms ::
  "ext \<Rightarrow> string \<Rightarrow> string \<Rightarrow> 64 word \<Rightarrow> bool \<Rightarrow> active_attrs \<Rightarrow> payload_attrs \<Rightarrow> attribute_descriptor \<Rightarrow> datom list" where
  "embedding_datoms x tenant eid tx is_create active attrs d =
    (if ad_auto_generate_from d = [] \<or> ad_type d \<noteq> AtBytes \<or> already_provided attrs (ad_name d) then []
     else case fold (source_part is_create attrs active) (ad_auto_generate_from d) (False, []) of (touched, parts) \<Rightarrow>
       if touched \<and> parts \<noteq> [] then
         (let target = last_part (CHR ''/'') (ad_name d);
              emb = x_embed x (join_with '' '' parts) (unwrap_or (ad_dimensions d) 1024)
          in (if is_create then [] else case by_name (ad_name d) (om_get active) of
                Some (aid, old) \<Rightarrow> [datom_retract tenant eid target aid old tx] | None \<Rightarrow> [])
             @ [datom_assert tenant eid target (hash_attr_name (ad_name d)) (DvBytes emb) tx])
       else [])"

section \<open>System attributes\<close>

text \<open>The retraction of a previous text, when it is there and satisfies the condition.\<close>

definition retract_text ::
  "string \<Rightarrow> string \<Rightarrow> 64 word \<Rightarrow> active_attrs \<Rightarrow> 16 word \<times> string \<Rightarrow> (string \<Rightarrow> bool) \<Rightarrow> datom list" where
  "retract_text tenant eid tx active sys P = (case om_get active (snd sys) of
      Some (_, DvStr old) \<Rightarrow> if P old then [datom_retract tenant eid (snd sys) (fst sys) (DvStr old) tx] else []
    | _ \<Rightarrow> [])"

definition enrich_datoms ::
  "int \<Rightarrow> string \<Rightarrow> string \<Rightarrow> string \<Rightarrow> 64 word \<Rightarrow> bool \<Rightarrow> active_attrs \<Rightarrow> string \<Rightarrow> datom list" where
  "enrich_datoms now eid entity_type tenant tx is_create active actor =
    (let set_sys = (\<lambda>sys v. [datom_assert tenant eid (snd sys) (fst sys) v tx]);
         who = str_trim actor in
     set_sys sys_ulid (DvStr eid)
     @ (if is_create then [] else retract_text tenant eid tx active sys_type (\<lambda>old. old \<noteq> entity_type))
     @ set_sys sys_type (DvStr entity_type)
     @ (if is_create then [] else retract_text tenant eid tx active sys_tenant (\<lambda>old. old \<noteq> tenant))
     @ set_sys sys_tenant (DvStr tenant)
     @ (if is_create then set_sys sys_created_at (DvInstant now) else [])
     @ (if is_create then [] else case om_get active (snd sys_updated_at) of
          Some (_, DvInstant old) \<Rightarrow>
            [datom_retract tenant eid (snd sys_updated_at) (fst sys_updated_at) (DvInstant old) tx]
        | _ \<Rightarrow> [])
     @ set_sys sys_updated_at (DvInstant now)
     @ (if who = [] then []
        else (if is_create then set_sys sys_created_by (DvStr who)
              else retract_text tenant eid tx active sys_updated_by (\<lambda>_. True))
             @ set_sys sys_updated_by (DvStr who)))"

text \<open>The clock of the transactions: one step of the compare-and-exchange loop that succeeds.\<close>

definition generate_tx_id :: "64 word \<Rightarrow> 64 word \<Rightarrow> 64 word" where
  "generate_tx_id prev now = (if now > prev then now else prev + 1)"

section \<open>The mirror of relations\<close>

definition sibling_type_attr :: "string \<Rightarrow> string option" where
  "sibling_type_attr name = (if ends_with ''_id'' name then Some (take (length name - 3) name @ ''_type'') else None)"

definition owner_id_of :: "datom_value option \<Rightarrow> string option" where
  "owner_id_of v = (case v of Some (DvStr s) \<Rightarrow> if s \<noteq> [] then Some s else None | _ \<Rightarrow> None)"

text \<open>The new owner: \<^verbatim>\<open>None\<close> when the attribute is not in the payload.\<close>

definition new_owner :: "payload_attrs \<Rightarrow> bool \<Rightarrow> string \<Rightarrow> string option option" where
  "new_owner attrs is_delete name =
    (if is_delete then Some None
     else map_option (\<lambda>v. owner_id_of (Some v)) (map_of attrs name))"

definition owner_type_known :: "payload_attrs \<Rightarrow> active_attrs \<Rightarrow> string \<Rightarrow> bool" where
  "owner_type_known attrs active name = (case sibling_type_attr name of
      None \<Rightarrow> False
    | Some sib \<Rightarrow> owner_id_of (map_of attrs sib) \<noteq> None \<or> owner_id_of (map_option snd (om_get active sib)) \<noteq> None)"

definition mirror_datoms ::
  "string \<Rightarrow> string \<Rightarrow> string \<Rightarrow> payload_attrs \<Rightarrow> active_attrs \<Rightarrow> 64 word \<Rightarrow> bool \<Rightarrow> attribute_descriptor \<Rightarrow> datom list" where
  "mirror_datoms tenant child_type child_id attrs active tx is_delete d =
    (let mirror = mirror_attr_name child_type; mid = hash_attr_name mirror;
         old = owner_id_of (map_option snd (om_get active (ad_name d))) in
     case new_owner attrs is_delete (ad_name d) of
       None \<Rightarrow> []
     | Some new \<Rightarrow>
        if old = new then []
        else (case old of Some e \<Rightarrow> [datom_retract tenant e mirror mid (DvStr child_id) tx] | None \<Rightarrow> [])
          @ (case new of
               Some e \<Rightarrow> if owner_type_known attrs active (ad_name d)
                 then [datom_assert tenant e mirror mid (DvStr child_id) tx] else []
             | None \<Rightarrow> []))"

definition plan_mirror_datoms ::
  "registry \<Rightarrow> string \<Rightarrow> string \<Rightarrow> string \<Rightarrow> payload_attrs \<Rightarrow> active_attrs \<Rightarrow> 64 word \<Rightarrow> bool \<Rightarrow> datom list" where
  "plan_mirror_datoms reg tenant child_type child_id attrs active tx is_delete =
     concat (map (mirror_datoms tenant child_type child_id attrs active tx is_delete)
       (filter ad_history_mirror (unwrap_or (get_attributes reg child_type) [])))"

section \<open>Plans\<close>

definition plan_entity_datoms ::
  "ext \<Rightarrow> registry \<Rightarrow> int \<Rightarrow> string \<Rightarrow> string \<Rightarrow> string \<Rightarrow> payload_attrs \<Rightarrow> 64 word \<Rightarrow> bool \<Rightarrow> active_attrs \<Rightarrow> string
    \<Rightarrow> datom list res" where
  "plan_entity_datoms x reg now tenant entity_type eid attrs tx is_create active actor =
     rbind (plan_attrs reg tenant entity_type eid tx is_create active attrs) (\<lambda>ds.
       Inr (ds
         @ concat (map (embedding_datoms x tenant eid tx is_create active attrs)
             (unwrap_or (get_attributes reg entity_type) []))
         @ enrich_datoms now eid entity_type tenant tx is_create active actor
         @ plan_mirror_datoms reg tenant entity_type eid attrs active tx False))"

definition build_delete_datoms :: "registry \<Rightarrow> transact_payload \<Rightarrow> string \<Rightarrow> active_attrs \<Rightarrow> 64 word \<Rightarrow> datom list" where
  "build_delete_datoms reg p eid active tx =
     map (\<lambda>(name, (aid, v)). datom_retract (tp_tenant_id p) eid name aid v tx) (om_entries active)
     @ plan_mirror_datoms reg (tp_tenant_id p) (tp_entity_type p) eid (tp_attrs p) active tx True"

type_synonym delta = "(string, json option \<times> json option) omap"

definition changed :: "active_attrs \<Rightarrow> string \<times> datom_value \<Rightarrow> bool" where
  "changed active nv = (case om_get active (fst nv) of
      None \<Rightarrow> snd nv \<noteq> DvNull | Some (_, old) \<Rightarrow> \<not> dv_eq old (snd nv))"

definition compute_transact_delta :: "ext \<Rightarrow> active_attrs \<Rightarrow> payload_attrs \<Rightarrow> delta option" where
  "compute_transact_delta x active attrs =
    (let d = om_of_list (map (\<lambda>(name, v). (name,
           (map_option (\<lambda>(_, old). datom_value_to_json x old) (om_get active name), Some (datom_value_to_json x v))))
         (filter (changed active) attrs))
     in if om_entries d = [] then None else Some d)"

record datom_plan =
  dp_datoms :: "datom list"
  dp_delta :: "delta option"
  dp_deleted_attrs :: "(string, datom_value) omap option"

definition values_of :: "active_attrs \<Rightarrow> (string, datom_value) omap" where
  "values_of active = om_of_list (map (\<lambda>(k, (_, v)). (k, v)) (om_entries active))"

definition plan_payload_datoms ::
  "ext \<Rightarrow> registry \<Rightarrow> int \<Rightarrow> transact_payload \<Rightarrow> string \<Rightarrow> 64 word \<Rightarrow> active_attrs \<Rightarrow> string \<Rightarrow> datom_plan res" where
  "plan_payload_datoms x reg now p eid tx active actor =
    (let dlt = (if tp_op p = OpUpdate then compute_transact_delta x active (tp_attrs p) else None);
         gone = (if tp_op p = OpDelete \<and> om_entries active \<noteq> [] then Some (values_of active) else None) in
     if tp_op p \<noteq> OpCreate \<and> om_entries active = [] then Inl Eav002
     else if tp_op p = OpDelete then
       Inr \<lparr>dp_datoms = build_delete_datoms reg p eid active tx, dp_delta = dlt, dp_deleted_attrs = gone\<rparr>
     else rbind (plan_entity_datoms x reg now (tp_tenant_id p) (tp_entity_type p) eid (tp_attrs p) tx
         (tp_op p = OpCreate) active actor) (\<lambda>ds.
       Inr \<lparr>dp_datoms = ds, dp_delta = dlt, dp_deleted_attrs = gone\<rparr>))"

section \<open>The outbox\<close>

definition op_str :: "transact_op \<Rightarrow> string" where
  "op_str op = (case op of OpCreate \<Rightarrow> ''create'' | OpUpdate \<Rightarrow> ''update'' | OpDelete \<Rightarrow> ''delete'')"

definition outbox_attrs :: "ext \<Rightarrow> int \<Rightarrow> string \<Rightarrow> string \<Rightarrow> transact_op \<Rightarrow> payload_attrs \<Rightarrow> payload_attrs" where
  "outbox_attrs x now entity_type eid op attrs =
    [(''status'', DvStr ''PENDING''),
     (''detail_type'', DvStr (entity_type @ ''.'' @ op_str op)),
     (''payload'', DvStr (x_json_text x (datom_map_to_json x (attrs @ [(''id'', DvStr eid)])))),
     (''retry_count'', DvLong 0),
     (''created_at'', DvInstant now)]"

definition generate_outbox_datoms ::
  "ext \<Rightarrow> registry \<Rightarrow> int \<Rightarrow> string \<Rightarrow> string \<Rightarrow> string \<Rightarrow> transact_op \<Rightarrow> payload_attrs \<Rightarrow> 64 word \<Rightarrow> string \<Rightarrow> string
    \<Rightarrow> datom list option res" where
  "generate_outbox_datoms x reg now tenant entity_type eid op attrs tx mutation_ulid actor =
    (if entity_type = ''outbox_event'' \<or> (case get_model reg entity_type of Some m \<Rightarrow> em_disable_eda m | None \<Rightarrow> False)
     then Inr None
     else rbind (plan_attrs reg tenant ''outbox_event'' mutation_ulid tx True om_empty
         (outbox_attrs x now entity_type eid op attrs)) (\<lambda>ds.
       Inr (Some (ds @ enrich_datoms now mutation_ulid ''outbox_event'' tenant tx True om_empty actor))))"

end
