(* ===== verification/EavReader.thy ===== *)
theory EavReader
  imports EavPlan
begin

text \<open>The reader of entities (\<^verbatim>\<open>src/eav/reader/pull.rs\<close>): the current state of an entity from the datoms
  of its partition, with the cache of assembled entities, the state as of a transaction, the history,
  and the warm-up of the cache from the attribute index. Instants are milliseconds of a monotonic
  clock. The refresh of the partition from the bucket that may precede a read is left out: a read
  takes the store it finds.\<close>

type_synonym entity_map = "(string, datom_value) omap"

record cache_entry =
  ce_complete :: bool
  ce_map :: entity_map
  ce_at :: int

type_synonym eav_cache = "(string, cache_entry) omap"

definition EAV_CACHE_TTL :: int where "EAV_CACHE_TTL = 60000"
definition MAX_EAV_CACHE_SIZE :: nat where "MAX_EAV_CACHE_SIZE = 10000"

definition evict_cached_entity :: "string \<Rightarrow> string \<Rightarrow> eav_cache \<Rightarrow> eav_cache" where
  "evict_cached_entity tenant eid c = om_del (entity_pk tenant eid) c"

text \<open>Room for one more entry: a full cache drops a fifth of its capacity first.\<close>

definition make_room :: "(string list \<Rightarrow> string list) \<Rightarrow> string \<Rightarrow> eav_cache \<Rightarrow> eav_cache" where
  "make_room key_order pk c =
    (if om_size c \<ge> MAX_EAV_CACHE_SIZE \<and> \<not> om_mem pk c
     then fold om_del (take (MAX_EAV_CACHE_SIZE div 5) (key_order (om_keys c))) c else c)"

definition insert_eav_cache_entry ::
  "(string list \<Rightarrow> string list) \<Rightarrow> string \<Rightarrow> cache_entry \<Rightarrow> eav_cache \<Rightarrow> eav_cache" where
  "insert_eav_cache_entry key_order pk e c = om_put pk e (make_room key_order pk c)"

section \<open>From items to values\<close>

definition parse_i128 :: "string \<Rightarrow> int option" where
  "parse_i128 s = (let r = (case s of
        [] \<Rightarrow> None
      | c # cs \<Rightarrow> if c = CHR ''-'' then map_option (\<lambda>n. - int n) (parse_nat cs)
                 else if c = CHR ''+'' then map_option int (parse_nat cs)
                 else map_option int (parse_nat s)) in
     case r of None \<Rightarrow> None | Some n \<Rightarrow> if in_s 128 n then Some n else None)"

definition number_value :: "ext \<Rightarrow> string \<Rightarrow> datom_value option" where
  "number_value x n = (case parse_i64 n of
      Some i \<Rightarrow> Some (DvLong i)
    | None \<Rightarrow>
       (case (if CHR ''.'' \<notin> set n \<and> CHR ''e'' \<notin> set n \<and> CHR ''E'' \<notin> set n then parse_i128 n else None) of
          Some b \<Rightarrow> Some (DvBigInt b)
        | None \<Rightarrow> map_option DvDouble (x_f64_parse x n)))"

definition extract_datom_value :: "ext \<Rightarrow> item \<Rightarrow> datom_value option" where
  "extract_datom_value x it = (case om_get it ''v'' of
      None \<Rightarrow> None
    | Some (AvS s) \<Rightarrow> Some (DvStr s)
    | Some (AvN n) \<Rightarrow> number_value x n
    | Some (AvBool b) \<Rightarrow> Some (DvBool b)
    | Some (AvB b) \<Rightarrow> Some (DvBytes b)
    | Some (AvNull _) \<Rightarrow> Some DvNull)"

definition item_sk :: "item \<Rightarrow> (16 word \<times> 64 word \<times> bool) option" where
  "item_sk it = Option.bind (get_bytes it ''SK'') decode_eavt_sk"

section \<open>The state of an entity\<close>

definition filter_exact_entity_partition :: "item list \<Rightarrow> string \<Rightarrow> item list" where
  "filter_exact_entity_partition its pk = filter (\<lambda>it. om_get it ''PK'' = Some (AvS pk)) its"

definition attr_label :: "registry \<Rightarrow> 16 word \<Rightarrow> string" where
  "attr_label reg aid = unwrap_or (get_attr_name reg aid) (''attr_'' @ nat_str (unat aid))"

definition attr_wanted :: "string list option \<Rightarrow> string \<Rightarrow> bool" where
  "attr_wanted flt name = (case flt of
      None \<Rightarrow> True | Some f \<Rightarrow> name \<in> set f \<or> last_part (CHR ''/'') name \<in> set f)"

type_synonym latest_map = "(string, 64 word \<times> datom_value) omap"

definition newer :: "(string, 64 word \<times> 'a) omap \<Rightarrow> string \<Rightarrow> 64 word \<Rightarrow> bool" where
  "newer m name tx = (case om_get m name of None \<Rightarrow> True | Some (prev, _) \<Rightarrow> prev < tx)"

definition assemble_step ::
  "ext \<Rightarrow> registry \<Rightarrow> string list option \<Rightarrow> item \<Rightarrow> latest_map \<Rightarrow> latest_map" where
  "assemble_step x reg flt it m = (case item_sk it of
      None \<Rightarrow> m
    | Some (aid, tx, op) \<Rightarrow>
       (let name = attr_label reg aid in
        if \<not> attr_wanted flt name \<or> \<not> newer m name tx then m
        else if op then (case extract_datom_value x it of Some v \<Rightarrow> om_put name (tx, v) m | None \<Rightarrow> m)
        else om_del name m))"

definition drop_versions :: "(string, 'a \<times> 'b) omap \<Rightarrow> (string, 'b) omap" where
  "drop_versions m = om_of_list (map (\<lambda>(k, v). (k, snd v)) (om_entries m))"

definition assemble_current_state ::
  "ext \<Rightarrow> registry \<Rightarrow> item list \<Rightarrow> string list option \<Rightarrow> entity_map" where
  "assemble_current_state x reg its flt = drop_versions (fold (assemble_step x reg flt) its om_empty)"

text \<open>The query of one partition of the primary index.\<close>

definition query_entity :: "string \<Rightarrow> partition_store \<Rightarrow> item list" where
  "query_entity pk s = query None ''#pk = :pk'' (om_put '':pk'' (AvS pk) om_empty) True None s"

definition sufficient :: "int \<Rightarrow> string list option \<Rightarrow> cache_entry \<Rightarrow> bool" where
  "sufficient now attrs e =
    (now - ce_at e \<le> EAV_CACHE_TTL \<and>
     (ce_complete e \<or> (case attrs of
        None \<Rightarrow> False
      | Some f \<Rightarrow> list_all (\<lambda>a. om_mem a (ce_map e)
          \<or> list_ex (\<lambda>k. last_part (CHR ''/'') k = a) (om_keys (ce_map e))) f)))"

definition select_attrs :: "string list option \<Rightarrow> entity_map \<Rightarrow> entity_map" where
  "select_attrs attrs m = om_filter (\<lambda>k _. attr_wanted attrs k) m"

definition cached :: "int \<Rightarrow> string list option \<Rightarrow> string \<Rightarrow> eav_cache \<Rightarrow> entity_map option" where
  "cached now attrs pk c = (case om_get c pk of
      None \<Rightarrow> None | Some e \<Rightarrow> if sufficient now attrs e then Some (select_attrs attrs (ce_map e)) else None)"

definition pull ::
  "ext \<Rightarrow> registry \<Rightarrow> int \<Rightarrow> string \<Rightarrow> string \<Rightarrow> string list option \<Rightarrow> partition_store \<Rightarrow> eav_cache
    \<Rightarrow> entity_map \<times> eav_cache" where
  "pull x reg now tenant eid attrs s c =
    (let pk = entity_pk tenant eid in
     case cached now attrs pk c of
       Some m \<Rightarrow> (m, c)
     | None \<Rightarrow>
        (let raw = filter_exact_entity_partition (query_entity pk s) pk in
         if raw = [] then (om_empty, c)
         else (let full = assemble_current_state x reg raw None in
           (select_attrs attrs full,
            insert_eav_cache_entry (x_key_order x) pk \<lparr>ce_complete = True, ce_map = full, ce_at = now\<rparr> c))))"

definition pull_as_of ::
  "ext \<Rightarrow> registry \<Rightarrow> string \<Rightarrow> string \<Rightarrow> 64 word \<Rightarrow> string list option \<Rightarrow> partition_store \<Rightarrow> entity_map" where
  "pull_as_of x reg tenant eid as_of_tx attrs s =
    (let pk = entity_pk tenant eid;
         vals = om_put '':sk_max'' (AvB (eavt_sk_as_of 0xFFFF as_of_tx)) (om_put '':pk'' (AvS pk) om_empty);
         raw = query None ''#pk = :pk AND #sk <= :sk_max'' vals True None s in
     assemble_current_state x reg (filter_exact_entity_partition raw pk) attrs)"

section \<open>History\<close>

record history_entry =
  he_attr :: string
  he_value :: "datom_value option"
  he_tx :: "64 word"
  he_op :: bool

definition history_entry_of :: "ext \<Rightarrow> registry \<Rightarrow> item \<Rightarrow> history_entry option" where
  "history_entry_of x reg it = map_option (\<lambda>(aid, tx, op).
     \<lparr>he_attr = unwrap_or (get_attr_name reg aid) ''unknown_attr'', he_value = extract_datom_value x it,
       he_tx = tx, he_op = op\<rparr>) (item_sk it)"

text \<open>\<^verbatim>\<open>max_by_key\<close>: of several entries with the greatest key, the last one.\<close>

definition newest_entry :: "history_entry list \<Rightarrow> history_entry option" where
  "newest_entry es = fold (\<lambda>e best. case best of
      None \<Rightarrow> Some e | Some b \<Rightarrow> if he_tx b \<le> he_tx e then Some e else Some b) es None"

definition history_tracking_enabled :: "registry \<Rightarrow> history_entry list \<Rightarrow> bool" where
  "history_tracking_enabled reg es =
    (case Option.bind (newest_entry (filter (\<lambda>e. he_attr e = snd sys_type) es)) he_value of
       Some (DvStr t) \<Rightarrow> if t = [] then True else tracks_history reg t
     | _ \<Rightarrow> True)"

definition history ::
  "ext \<Rightarrow> registry \<Rightarrow> string \<Rightarrow> string \<Rightarrow> string option \<Rightarrow> partition_store \<Rightarrow> history_entry list" where
  "history x reg tenant eid name s =
    (let pk = entity_pk tenant eid;
         es = List.map_filter (history_entry_of x reg) (filter_exact_entity_partition (query_entity pk s) pk) in
     if \<not> history_tracking_enabled reg es then []
     else case name of None \<Rightarrow> es | Some n \<Rightarrow> filter (\<lambda>e. he_attr e = n) es)"

section \<open>Warming the cache\<close>

record warmup_item =
  wi_entity_id :: string
  wi_tx :: "64 word"
  wi_op :: bool
  wi_value :: datom_value

definition warm_targets :: "registry \<Rightarrow> string option \<Rightarrow> string list option \<Rightarrow> string list" where
  "warm_targets reg entity_type specific = remdups
    (map snd [sys_ulid, sys_type, sys_tenant, sys_created_at, sys_updated_at, sys_created_by, sys_updated_by]
     @ (case specific of
          Some names \<Rightarrow> names
        | None \<Rightarrow> map ad_name (case entity_type of
            Some t \<Rightarrow> unwrap_or (get_attributes reg t) []
          | None \<Rightarrow> concat (map (\<lambda>t. unwrap_or (get_attributes reg t) []) (entity_names reg)))))"

definition warmup_item_of :: "ext \<Rightarrow> item \<Rightarrow> warmup_item option" where
  "warmup_item_of x it = Option.bind (get_string it ''PK'') (\<lambda>pk.
     map_option (\<lambda>(aid, tx, op). \<lparr>wi_entity_id = last_part (CHR ''#'') pk, wi_tx = tx, wi_op = op,
       wi_value = unwrap_or (extract_datom_value x it) DvNull\<rparr>) (item_sk it))"

definition warm_step ::
  "string \<Rightarrow> string \<Rightarrow> warmup_item \<Rightarrow> (string, latest_map) omap \<Rightarrow> (string, latest_map) omap" where
  "warm_step tenant name w st =
    (let pk = entity_pk tenant (wi_entity_id w); m = unwrap_or (om_get st pk) om_empty in
     om_put pk (if newer m name (wi_tx w)
       then if wi_op w then om_put name (wi_tx w, wi_value w) m else om_del name m
       else m) st)"

definition warm_attr ::
  "ext \<Rightarrow> string \<Rightarrow> partition_store \<Rightarrow> string \<Rightarrow> (string, latest_map) omap \<Rightarrow> (string, latest_map) omap" where
  "warm_attr x tenant s name st = fold (warm_step tenant name) (List.map_filter (warmup_item_of x)
     (query (Some ''GSI-AEVT'') ''#ap = :ap''
        (om_put '':ap'' (AvS (''T#'' @ tenant @ ''#A#'' @ name)) om_empty) True None s)) st"

definition warm_entry :: "ext \<Rightarrow> int \<Rightarrow> (string, latest_map) omap \<Rightarrow> string \<Rightarrow> eav_cache \<Rightarrow> eav_cache" where
  "warm_entry x now st pk c =
    (let c1 = make_room (x_key_order x) pk c;
         e = unwrap_or (om_get c1 pk) \<lparr>ce_complete = False, ce_map = om_empty, ce_at = now\<rparr> in
     om_put pk (e\<lparr>ce_map := om_union (ce_map e) (drop_versions (unwrap_or (om_get st pk) om_empty))\<rparr>) c1)"

definition warm_cache_for_tenant ::
  "ext \<Rightarrow> registry \<Rightarrow> int \<Rightarrow> string \<Rightarrow> string option \<Rightarrow> string list option \<Rightarrow> partition_store \<Rightarrow> eav_cache
    \<Rightarrow> eav_cache" where
  "warm_cache_for_tenant x reg now tenant entity_type specific s c =
    (let st = fold (warm_attr x tenant s) (warm_targets reg entity_type specific) om_empty in
     fold (warm_entry x now st) (x_key_order x (om_keys st)) c)"

end
