(* ===== verification/EavConstraints.thy ===== *)
theory EavConstraints
  imports EavReader
begin

text \<open>Declared constraints of a write (\<^verbatim>\<open>src/eav/writer/constraints/mod.rs\<close> and
  \<^verbatim>\<open>unique_claim.rs\<close>): the rules over the merged state, the conditions on a referenced entity, and
  the claims that make a key unique inside the transaction. The writer's list of planners is the
  default one, whose single member is the planner of claims. SHA-256 is a field of \<^verbatim>\<open>ext\<close>.\<close>

section \<open>Rules over the state\<close>

definition como_texto :: "datom_value option \<Rightarrow> string option" where
  "como_texto v = (case v of Some (DvStr s) \<Rightarrow> Some s | Some (DvRef r) \<Rightarrow> Some (nat_str (unat r)) | _ \<Rightarrow> None)"

text \<open>The code's \<^verbatim>\<open>presente\<close> holds of a field that is missing or null.\<close>

definition presente :: "entity_map \<Rightarrow> string \<Rightarrow> bool" where
  "presente merged campo \<longleftrightarrow> om_get merged campo = None \<or> om_get merged campo = Some DvNull"

definition como_numero :: "entity_map \<Rightarrow> string \<Rightarrow> f64 option" where
  "como_numero merged campo = (case om_get merged campo of
      Some (DvLong i) \<Rightarrow> Some (f64_of_int i)
    | Some (DvDouble d) \<Rightarrow> Some d
    | Some (DvInstant i) \<Rightarrow> Some (f64_of_int i)
    | _ \<Rightarrow> None)"

definition pairs_hold :: "entity_map \<Rightarrow> (string \<times> string) list \<Rightarrow> bool" where
  "pairs_hold m ps = list_all (\<lambda>(k, v). como_texto (om_get m k) = Some v) ps"

text \<open>Whether a written state violates one constraint.\<close>

definition violates :: "entity_map \<Rightarrow> codice_constraint \<Rightarrow> bool" where
  "violates merged c = (case c_kind c of
      RequiresWhen \<Rightarrow> pairs_hold merged (unwrap_or (c_when c) []) \<and> list_ex (presente merged) (c_attributes c)
    | AtMost \<Rightarrow> (case c_attributes c of
         [campo, techo] \<Rightarrow> (case (como_numero merged campo, como_numero merged techo) of
             (Some valor, Some maximo) \<Rightarrow> f64_less maximo valor | _ \<Rightarrow> False)
       | _ \<Rightarrow> False)
    | AtLeast \<Rightarrow> (case c_attributes c of
         [campo, piso] \<Rightarrow> (case (como_numero merged campo, como_numero merged piso) of
             (Some valor, Some minimo) \<Rightarrow> f64_less valor minimo | _ \<Rightarrow> False)
       | _ \<Rightarrow> False)
    | RequiresAny \<Rightarrow> \<not> list_ex (\<lambda>campo. \<not> presente merged campo) (c_attributes c)
    | _ \<Rightarrow> False)"

definition merge_written :: "entity_map \<Rightarrow> payload_attrs \<Rightarrow> entity_map" where
  "merge_written active written = fold (\<lambda>(k, v). om_put k v) written active"

definition check_state_constraints ::
  "entity_model \<Rightarrow> transact_op \<Rightarrow> payload_attrs \<Rightarrow> entity_map \<Rightarrow> unit res" where
  "check_state_constraints m op written active =
    (if op = OpDelete then Inr ()
     else if list_ex (violates (merge_written active written)) (em_constraints m) then Inl Cod001 else Inr ())"

definition check_ref_conditions :: "entity_map \<Rightarrow> (string \<times> string) list \<Rightarrow> unit res" where
  "check_ref_conditions ref_attrs conds = (if pairs_hold ref_attrs conds then Inr () else Inl Cod001)"

section \<open>Claims\<close>

definition bool_str :: "bool \<Rightarrow> string" where
  "bool_str b = (if b then ''true'' else ''false'')"

definition huella_valor :: "datom_value \<Rightarrow> string" where
  "huella_valor v = (case v of
      DvNull \<Rightarrow> ''n:''
    | DvBool b \<Rightarrow> ''b:'' @ bool_str b
    | DvLong i \<Rightarrow> ''i:'' @ int_str i
    | DvBigInt i \<Rightarrow> ''I:'' @ int_str i
    | DvInstant i \<Rightarrow> ''t:'' @ int_str i
    | DvRef r \<Rightarrow> ''r:'' @ nat_str (unat r)
    | DvDouble _ \<Rightarrow> ''?:double''
    | DvGeo _ _ \<Rightarrow> ''?:geo''
    | DvStr s \<Rightarrow> ''s:'' @ s
    | DvUuid s \<Rightarrow> ''u:'' @ s
    | DvArray a \<Rightarrow> ''a:'' @ join_with [CHR 0x1F] a
    | DvBytes b \<Rightarrow> ''y:'' @ hex_encode b)"

text \<open>The text that is hashed: \<^verbatim>\<open>None\<close> when an attribute of the key is missing or null.\<close>

definition key_part :: "payload_attrs \<Rightarrow> string \<Rightarrow> string option" where
  "key_part attrs name = (case map_of attrs name of
      None \<Rightarrow> None
    | Some v \<Rightarrow> if v = DvNull then None
        else Some (CHR 0x1E # name @ CHR 0x1D # huella_valor v))"

fun key_text :: "string list \<Rightarrow> payload_attrs \<Rightarrow> string option" where
  "key_text [] attrs = Some []"
| "key_text (n # ns) attrs = Option.bind (key_part attrs n) (\<lambda>p. map_option ((@) p) (key_text ns attrs))"

definition huella_clave :: "ext \<Rightarrow> string \<Rightarrow> string list \<Rightarrow> payload_attrs \<Rightarrow> string option" where
  "huella_clave x entity names attrs =
     map_option (\<lambda>t. hex_encode (x_sha x (str_bytes (entity @ t)))) (key_text names attrs)"

record constraint_context =
  cc_tenant_id :: string
  cc_entity_id :: string
  cc_model :: entity_model
  cc_attrs :: payload_attrs
  cc_op :: transact_op

definition applies_to :: "entity_model \<Rightarrow> bool" where
  "applies_to m \<longleftrightarrow> list_ex (\<lambda>c. c_kind c = Unique) (em_constraints m)
     \<or> list_ex (\<lambda>a. ad_unique a \<noteq> None) (em_attributes m)"

definition blank_text :: "payload_attrs \<Rightarrow> string \<Rightarrow> bool" where
  "blank_text attrs name = (case map_of attrs name of Some (DvStr s) \<Rightarrow> str_trim s = [] | _ \<Rightarrow> False)"

definition claim_pk :: "string \<Rightarrow> constraint_scope \<Rightarrow> string \<Rightarrow> string \<Rightarrow> string" where
  "claim_pk tenant scope entity huella =
     ''T#'' @ (case scope of ScopeTenant \<Rightarrow> tenant | ScopeGlobal \<Rightarrow> ''GLOBAL'') @ ''#U#'' @ entity @ ''#'' @ huella"

definition claim_item :: "string \<Rightarrow> string \<Rightarrow> string list \<Rightarrow> item" where
  "claim_item pk eid names =
     om_put ''attrs'' (AvS (join_with '','' names)) (om_put ''eid'' (AvS eid)
       (om_put ''SK'' (AvB (str_bytes ''#CLAIM'')) (om_put ''PK'' (AvS pk) om_empty)))"

definition claim_put :: "string \<Rightarrow> transact_op \<Rightarrow> string \<Rightarrow> item \<Rightarrow> put" where
  "claim_put table op eid it =
    \<lparr>put_table_name = table, put_item = it,
     put_condition_expression = Some (if op = OpCreate then ''attribute_not_exists(PK)''
       else ''attribute_not_exists(PK) OR eid = :self''),
     put_expression_values = (if op = OpCreate then om_empty else om_put '':self'' (AvS eid) om_empty)\<rparr>"

definition build_claim_item ::
  "ext \<Rightarrow> string \<Rightarrow> constraint_context \<Rightarrow> string list \<Rightarrow> constraint_scope \<Rightarrow> put option" where
  "build_claim_item x table ctx names scope =
    (case huella_clave x (em_entity (cc_model ctx)) names (cc_attrs ctx) of
       None \<Rightarrow> None
     | Some h \<Rightarrow> if list_ex (blank_text (cc_attrs ctx)) names then None
         else Some (claim_put table (cc_op ctx) (cc_entity_id ctx)
           (claim_item (claim_pk (cc_tenant_id ctx) scope (em_entity (cc_model ctx)) h) (cc_entity_id ctx) names)))"

definition attr_scope :: "string \<Rightarrow> constraint_scope" where
  "attr_scope kind = (if kind = ''identity'' \<or> kind = ''global'' then ScopeGlobal else ScopeTenant)"

text \<open>The keys a model declares: those of its unique constraints, then its unique attributes that no
  constraint declares alone.\<close>

definition unique_keys :: "entity_model \<Rightarrow> (string list \<times> constraint_scope) list" where
  "unique_keys m =
     map (\<lambda>c. (c_attributes c, c_scope c)) (filter (\<lambda>c. c_kind c = Unique) (em_constraints m))
     @ List.map_filter (\<lambda>a. case ad_unique a of
          None \<Rightarrow> None
        | Some kind \<Rightarrow>
            if list_ex (\<lambda>c. c_kind c = Unique \<and> c_attributes c = [ad_name a]) (em_constraints m) then None
            else Some ([ad_name a], attr_scope kind)) (em_attributes m)"

definition plan_claims :: "ext \<Rightarrow> string \<Rightarrow> constraint_context \<Rightarrow> put list" where
  "plan_claims x table ctx =
    (if cc_op ctx = OpDelete then []
     else List.map_filter (\<lambda>(names, scope). build_claim_item x table ctx names scope) (unique_keys (cc_model ctx)))"

text \<open>The claims of all entities of the transaction: the state is the claims so far and who claimed each.\<close>

definition add_claim ::
  "string \<Rightarrow> put \<Rightarrow> put list \<times> (string, string) omap \<Rightarrow> (put list \<times> (string, string) omap) res" where
  "add_claim eid p st = (case st of (its, by) \<Rightarrow>
     (case get_string (put_item p) ''PK'' of
        None \<Rightarrow> Inr (its @ [p], by)
      | Some pk \<Rightarrow> (case om_get by pk of
           Some prev \<Rightarrow> if prev \<noteq> eid then Inl Cod001 else Inr st
         | None \<Rightarrow> Inr (its @ [p], om_put pk eid by))))"

definition add_entity_claims ::
  "ext \<Rightarrow> string \<Rightarrow> constraint_context \<Rightarrow> put list \<times> (string, string) omap
    \<Rightarrow> (put list \<times> (string, string) omap) res" where
  "add_entity_claims x table ctx st =
    (if applies_to (cc_model ctx) then try_fold (add_claim (cc_entity_id ctx)) (plan_claims x table ctx) st
     else Inr st)"

definition plan_claims_para :: "ext \<Rightarrow> string \<Rightarrow> constraint_context list \<Rightarrow> put list res" where
  "plan_claims_para x table entidades =
     rbind (try_fold (add_entity_claims x table) entidades ([], om_empty)) (\<lambda>st. Inr (fst st))"

end
