(* ===== verification/EavQuery.thy ===== *)
theory EavQuery
  imports EavReader
begin

text \<open>The physical plans over the secondary indexes (\<^verbatim>\<open>src/eav/reader/query.rs\<close>): equality, ranges and
  intersections over the value index, the cut by entity type, and the cached scan of a type. The
  full-text plan is an argument of the executor. The scan cache is threaded through; results of hash
  sets are listed in the order of \<^verbatim>\<open>x_key_order\<close>.\<close>

record cached_aevt_scan =
  cs_ids :: "string list"
  cs_at :: int

type_synonym scan_cache = "(string \<times> string, cached_aevt_scan) omap"

definition MAX_AEVT_SCAN_CACHE_SIZE :: nat where "MAX_AEVT_SCAN_CACHE_SIZE = 2000"
definition AEVT_SCAN_CACHE_TTL :: int where "AEVT_SCAN_CACHE_TTL = 15000"

definition insert_aevt_scan_cache_entry ::
  "((string \<times> string) list \<Rightarrow> (string \<times> string) list) \<Rightarrow> int \<Rightarrow> string \<times> string \<Rightarrow> string list \<Rightarrow> scan_cache \<Rightarrow> scan_cache" where
  "insert_aevt_scan_cache_entry key_order now key ids c =
    om_put key \<lparr>cs_ids = ids, cs_at = now\<rparr>
      (if om_size c \<ge> MAX_AEVT_SCAN_CACHE_SIZE \<and> \<not> om_mem key c
       then fold om_del (take (MAX_AEVT_SCAN_CACHE_SIZE div 5) (key_order (om_keys c))) c else c)"

datatype native_query_plan =
    PointLookup string
  | AvetSingle string string datom_value "string option"
  | AvetIntersect string "(string \<times> datom_value) list" "string option"
  | AvetRange string string avet_bound avet_bound "(string \<times> datom_value) list" "string option"
  | FtsSearch string string
  | AevtScan string string

text \<open>What a query reads: functions of other crates, the master tenant of the configuration, the
  instant, the orders of the hash containers, and the store.\<close>

record query_env =
  qe_ext :: ext
  qe_master :: string
  qe_now :: int
  qe_scan_order :: "(string \<times> string) list \<Rightarrow> (string \<times> string) list"
  qe_store :: partition_store

section \<open>Filters over the items of an index\<close>

definition normalize_avet_attr_name :: "string \<Rightarrow> string" where
  "normalize_avet_attr_name name =
    (if starts_with ''meta/'' name \<or> starts_with ''entity/'' name \<or> starts_with ''tenant/'' name
        \<or> starts_with ''_refs/'' name
     then name else last_part (CHR ''/'') name)"

definition datom_value_to_string :: "ext \<Rightarrow> datom_value \<Rightarrow> string" where
  "datom_value_to_string x v = (case v of
      DvStr s \<Rightarrow> s
    | DvUuid s \<Rightarrow> s
    | DvRef r \<Rightarrow> nat_str (unat r)
    | DvInstant n \<Rightarrow> int_str n
    | DvLong n \<Rightarrow> int_str n
    | DvDouble d \<Rightarrow> if f64_integral d then int_str (f64_to_i64 d) else x_f64_display x d
    | DvBool b \<Rightarrow> if b then ''true'' else ''false''
    | _ \<Rightarrow> [])"

text \<open>The fourth part of the key of a partition.\<close>

definition entity_of_pk :: "item \<Rightarrow> string option" where
  "entity_of_pk it = Option.bind (get_string it ''PK'') (\<lambda>pk.
     let parts = split_char (CHR ''#'') pk in if 3 < length parts then Some (parts ! 3) else None)"

definition value_matches :: "string \<Rightarrow> item \<Rightarrow> bool" where
  "value_matches expected it = (case om_get it ''v'' of
      Some (AvS s) \<Rightarrow> s = expected
    | Some (AvN n) \<Rightarrow> n = expected
    | Some (AvBool b) \<Rightarrow> expected = (if b then ''true'' else ''false'')
    | _ \<Rightarrow> False)"

text \<open>Versions are ordered by transaction, then by operation.\<close>

definition version_ge :: "64 word \<times> bool \<Rightarrow> 64 word \<times> bool \<Rightarrow> bool" where
  "version_ge a b \<longleftrightarrow> fst b < fst a \<or> fst a = fst b \<and> (snd b \<longrightarrow> snd a)"

type_synonym versions = "string list \<times> (string, (64 word \<times> bool) \<times> bool) omap"

definition keep_latest :: "(item \<Rightarrow> bool) \<Rightarrow> item \<Rightarrow> versions \<Rightarrow> versions" where
  "keep_latest P it st = (case st of (ids, latest) \<Rightarrow>
     (case (entity_of_pk it, item_sk it) of
        (Some eid, Some (_, tx, op)) \<Rightarrow>
          (case om_get latest eid of
             Some (prev, _) \<Rightarrow> if version_ge prev (tx, op) then st
               else (ids, om_put eid ((tx, op), P it) latest)
           | None \<Rightarrow> (ids @ [eid], om_put eid ((tx, op), P it) latest))
      | _ \<Rightarrow> st))"

definition dedup_latest :: "(item \<Rightarrow> bool) \<Rightarrow> item list \<Rightarrow> string list" where
  "dedup_latest P raw = (case fold (keep_latest P) raw ([], om_empty) of (ids, latest) \<Rightarrow>
     filter (\<lambda>eid. case om_get latest eid of Some ((_, op), ok) \<Rightarrow> op \<and> ok | None \<Rightarrow> False) ids)"

definition dedup_latest_asserted_by_value :: "item list \<Rightarrow> string \<Rightarrow> string list" where
  "dedup_latest_asserted_by_value raw expected = dedup_latest (value_matches expected) raw"

definition dedup_latest_asserted_in_range :: "item list \<Rightarrow> string list" where
  "dedup_latest_asserted_in_range raw = dedup_latest (\<lambda>_. True) raw"

section \<open>Equality\<close>

definition execute_avet_single_for_tenant ::
  "query_env \<Rightarrow> string \<Rightarrow> string \<Rightarrow> datom_value \<Rightarrow> string list" where
  "execute_avet_single_for_tenant q tenant name v =
    dedup_latest_asserted_by_value
      (query (Some ''GSI-AVET'') ''#pk = :pk AND begins_with(#sk, :sk_prefix)''
        (om_put '':sk_prefix'' (AvB (avet_sk_prefix v))
          (om_put '':pk'' (AvS (avet_pk_of tenant (normalize_avet_attr_name name))) om_empty))
        True None (qe_store q))
      (datom_value_to_string (qe_ext q) v)"

definition restrict_to_entity_type ::
  "query_env \<Rightarrow> string \<Rightarrow> string list \<Rightarrow> string option \<Rightarrow> string list" where
  "restrict_to_entity_type q tenant ids entity_type = (case entity_type of
      None \<Rightarrow> ids
    | Some t \<Rightarrow> if t = [] \<or> ids = [] then ids
        else filter (\<lambda>i. i \<in> set (execute_avet_single_for_tenant q tenant (snd sys_type) (DvStr t))) ids)"

definition sibling_value :: "datom_value \<Rightarrow> datom_value option" where
  "sibling_value v = (case v of
      DvStr s \<Rightarrow> Some (DvUuid s) | DvUuid s \<Rightarrow> Some (DvStr s)
    | DvLong n \<Rightarrow> Some (DvInstant n) | DvInstant n \<Rightarrow> Some (DvLong n) | _ \<Rightarrow> None)"

definition execute_avet_single_with_type_tolerance ::
  "query_env \<Rightarrow> string \<Rightarrow> string \<Rightarrow> datom_value \<Rightarrow> string option \<Rightarrow> string list" where
  "execute_avet_single_with_type_tolerance q tenant name v entity_type =
    (let ids = execute_avet_single_for_tenant q tenant name v;
         ids2 = (if ids \<noteq> [] then ids else case sibling_value v of
             Some w \<Rightarrow> execute_avet_single_for_tenant q tenant name w | None \<Rightarrow> [])
     in restrict_to_entity_type q tenant ids2 entity_type)"

section \<open>The scan of a type\<close>

definition scan_op :: "item \<Rightarrow> bool" where
  "scan_op it = (case get_bytes it ''SK'' of
      Some b \<Rightarrow> if length b = 11 then b ! 10 \<noteq> 0 else True | None \<Rightarrow> True)"

definition scan_step ::
  "item \<Rightarrow> string list \<times> (string, bool \<times> string) omap \<Rightarrow> string list \<times> (string, bool \<times> string) omap" where
  "scan_step it st = (case st of (ids, m) \<Rightarrow>
     (case entity_of_pk it of
        None \<Rightarrow> st
      | Some eid \<Rightarrow> (if om_mem eid m then ids else ids @ [eid],
          om_put eid (scan_op it, unwrap_or (get_string it ''v'') []) m)))"

definition active_of_type :: "string \<Rightarrow> item list \<Rightarrow> string list" where
  "active_of_type entity_type raw = (case fold scan_step raw ([], om_empty) of (ids, m) \<Rightarrow>
     filter (\<lambda>eid. om_get m eid = Some (True, entity_type)) ids)"

definition scan_hit :: "query_env \<Rightarrow> string \<Rightarrow> string \<Rightarrow> scan_cache \<Rightarrow> string list option" where
  "scan_hit q tenant entity_type c = (case om_get c (tenant, entity_type) of
      Some e \<Rightarrow> if qe_now q - cs_at e < AEVT_SCAN_CACHE_TTL \<and> cs_ids e \<noteq> [] then Some (cs_ids e) else None
    | None \<Rightarrow> None)"

definition execute_aevt_scan_by_type ::
  "query_env \<Rightarrow> string \<Rightarrow> string \<Rightarrow> 64 word \<Rightarrow> scan_cache \<Rightarrow> string list \<times> scan_cache" where
  "execute_aevt_scan_by_type q tenant entity_type limit c =
    (case (if limit = 0 then scan_hit q tenant entity_type c else None) of
       Some ids \<Rightarrow> (ids, c)
     | None \<Rightarrow>
        (let raw = query (Some ''GSI-AEVT'') ''#pk = :pk''
               (om_put '':pk'' (AvS (''T#'' @ tenant @ ''#A#'' @ snd sys_type @ ''#'' @ entity_type)) om_empty)
               True (if limit = 0 then None else Some (sint (ucast limit :: 32 word))) (qe_store q);
             ids = active_of_type entity_type raw in
         (ids, if limit = 0 \<and> ids \<noteq> []
               then insert_aevt_scan_cache_entry (qe_scan_order q) (qe_now q) (tenant, entity_type) ids c else c)))"

text \<open>A query of the master tenant that finds nothing goes on to the registered tenants, and takes the
  first answer that is not empty.\<close>

definition with_tenants ::
  "query_env \<Rightarrow> string \<Rightarrow> (string \<Rightarrow> string list) \<Rightarrow> scan_cache \<Rightarrow> string list \<times> scan_cache" where
  "with_tenants q tenant run c =
    (let ids = run tenant in
     if ids \<noteq> [] \<or> tenant \<noteq> qe_master q then (ids, c)
     else case execute_aevt_scan_by_type q (qe_master q) ''tenant'' 0 c of (tenants, c2) \<Rightarrow>
       (unwrap_or (find (\<lambda>r. r \<noteq> []) (map run (filter (\<lambda>t. t \<noteq> qe_master q) tenants))) [], c2))"

definition execute_avet_single ::
  "query_env \<Rightarrow> string \<Rightarrow> string \<Rightarrow> datom_value \<Rightarrow> string option \<Rightarrow> scan_cache \<Rightarrow> string list \<times> scan_cache" where
  "execute_avet_single q tenant name v entity_type c =
    with_tenants q tenant (\<lambda>t. execute_avet_single_with_type_tolerance q t name v entity_type) c"

section \<open>Intersections and ranges\<close>

text \<open>The candidates that every filter keeps: the loop stops as soon as none is left.\<close>

fun intersect_filters ::
  "query_env \<Rightarrow> string \<Rightarrow> (string \<times> datom_value) list \<Rightarrow> string list \<Rightarrow> scan_cache \<Rightarrow> string list \<times> scan_cache" where
  "intersect_filters q tenant [] ids c = (ids, c)"
| "intersect_filters q tenant ((name, v) # fs) ids c =
    (case execute_avet_single q tenant name v None c of (found, c2) \<Rightarrow>
       let kept = filter (\<lambda>i. i \<in> set found) ids in
       if kept = [] then ([], c2) else intersect_filters q tenant fs kept c2)"

definition execute_avet_intersection ::
  "query_env \<Rightarrow> string \<Rightarrow> (string \<times> datom_value) list \<Rightarrow> string option \<Rightarrow> scan_cache \<Rightarrow> string list \<times> scan_cache" where
  "execute_avet_intersection q tenant fs entity_type c = (case fs of
      [] \<Rightarrow> ([], c)
    | (name, v) # rest \<Rightarrow>
       (case execute_avet_single q tenant name v None c of (found, c2) \<Rightarrow>
        (case intersect_filters q tenant rest (remdups found) c2 of (ids, c3) \<Rightarrow>
          (restrict_to_entity_type q tenant (x_key_order (qe_ext q) ids) entity_type, c3))))"

definition execute_avet_range_for_tenant ::
  "query_env \<Rightarrow> string \<Rightarrow> string \<Rightarrow> avet_bound \<Rightarrow> avet_bound \<Rightarrow> string list" where
  "execute_avet_range_for_tenant q tenant name lower upper = (case avet_sk_range_bounds lower upper of
      None \<Rightarrow> []
    | Some (sk_min, sk_max) \<Rightarrow>
       if sk_min > sk_max then []
       else dedup_latest_asserted_in_range
         (query (Some ''GSI-AVET'') ''#pk = :pk AND #sk BETWEEN :sk_min AND :sk_max''
           (om_put '':sk_max'' (AvB sk_max) (om_put '':sk_min'' (AvB sk_min)
             (om_put '':pk'' (AvS (avet_pk_of tenant (normalize_avet_attr_name name))) om_empty)))
           True None (qe_store q)))"

definition execute_avet_range_with_type_tolerance ::
  "query_env \<Rightarrow> string \<Rightarrow> string \<Rightarrow> avet_bound \<Rightarrow> avet_bound \<Rightarrow> string list" where
  "execute_avet_range_with_type_tolerance q tenant name lower upper =
    (let ids = execute_avet_range_for_tenant q tenant name lower upper in
     if ids \<noteq> [] then ids
     else case (with_swapped_int_tag lower, with_swapped_int_tag upper) of
       (Some lo, Some hi) \<Rightarrow>
         if lo \<noteq> lower \<or> hi \<noteq> upper then execute_avet_range_for_tenant q tenant name lo hi else ids
     | _ \<Rightarrow> ids)"

definition execute_avet_range ::
  "query_env \<Rightarrow> string \<Rightarrow> string \<Rightarrow> avet_bound \<Rightarrow> avet_bound \<Rightarrow> (string \<times> datom_value) list \<Rightarrow> string option
    \<Rightarrow> scan_cache \<Rightarrow> string list \<times> scan_cache" where
  "execute_avet_range q tenant name lower upper eqs entity_type c =
    (case with_tenants q tenant (\<lambda>t. execute_avet_range_with_type_tolerance q t name lower upper) c of (ids, c2) \<Rightarrow>
       if ids = [] then (ids, c2)
       else if eqs = [] then (restrict_to_entity_type q tenant ids entity_type, c2)
       else case intersect_filters q tenant eqs (remdups ids) c2 of (kept, c3) \<Rightarrow>
         (restrict_to_entity_type q tenant (x_key_order (qe_ext q) kept) entity_type, c3))"

definition execute_native_plan ::
  "query_env \<Rightarrow> (string \<Rightarrow> string \<Rightarrow> string list) \<Rightarrow> native_query_plan \<Rightarrow> scan_cache \<Rightarrow> string list \<times> scan_cache" where
  "execute_native_plan q fts plan c = (case plan of
      PointLookup eid \<Rightarrow> ([eid], c)
    | AvetSingle tenant name v t \<Rightarrow> execute_avet_single q tenant name v t c
    | AvetIntersect tenant fs t \<Rightarrow> execute_avet_intersection q tenant fs t c
    | AvetRange tenant name lower upper eqs t \<Rightarrow> execute_avet_range q tenant name lower upper eqs t c
    | FtsSearch tenant term \<Rightarrow> (fts tenant term, c)
    | AevtScan tenant entity_type \<Rightarrow> execute_aevt_scan_by_type q tenant entity_type 0 c)"

end
