(* ===== verification/EavWriter.thy ===== *)
theory EavWriter
  imports EavConstraints EavQuery
begin

text \<open>The write path (\<^verbatim>\<open>src/eav/writer/transact.rs\<close>, \<^verbatim>\<open>cache_policy.rs\<close> and the clock of
  \<^verbatim>\<open>enricher.rs\<close>): the items of a transaction's datoms, its registry row, the attributes that are
  active, the checks, and the transaction itself. The state is the partition, the two read caches and
  the last transaction number. The identifiers the engine draws and its clocks are arguments. The
  seam of the tests that skips the constraints and the counter of the distributed query cache are
  left out.\<close>

record eav_state =
  ev_store :: partition_store
  ev_cache :: eav_cache
  ev_scans :: scan_cache
  ev_last_tx :: "64 word"

record saga_projection =
  sp_entity_type :: string
  sp_entity_id :: string
  sp_attrs :: payload_attrs

text \<open>What a transaction takes from outside: the wall clock and the monotonic clock in milliseconds,
  the identifiers drawn, and the name of the table.\<close>

record tx_env =
  te_ext :: ext
  te_reg :: registry
  te_table :: string
  te_now :: int
  te_mono :: int
  te_entity_ulid :: string
  te_mutation_ulid :: string
  te_proj_ulid :: "nat \<Rightarrow> string"

record tx_options =
  to_projections :: "saga_projection list"
  to_actor :: "string option"
  to_forced_tx :: "64 word option"
  to_deferred :: bool

record transact_result =
  tr_entity_id :: string
  tr_tx_id :: "64 word"
  tr_datoms :: nat
  tr_outbox_count :: nat
  tr_mutation_ulid :: string
  tr_delta :: "delta option"
  tr_deleted_attrs :: "(string, datom_value) omap option"

section \<open>Items\<close>

definition same_sk :: "datom \<Rightarrow> datom \<Rightarrow> bool" where
  "same_sk d e \<longleftrightarrow> entity_id d = entity_id e \<and> attr_id d = attr_id e \<and> tx_id d = tx_id e \<and> dop d = dop e"

definition dedup_add :: "datom \<Rightarrow> datom list \<Rightarrow> datom list" where
  "dedup_add d ds = (if list_ex (same_sk d) ds then map (\<lambda>e. if same_sk d e then d else e) ds else ds @ [d])"

definition dedup_datoms_por_sk :: "datom list \<Rightarrow> datom list" where
  "dedup_datoms_por_sk ds = fold dedup_add ds []"

definition value_attr :: "ext \<Rightarrow> datom_value \<Rightarrow> attribute_value" where
  "value_attr x v = (case v of
      DvStr s \<Rightarrow> AvS s
    | DvUuid s \<Rightarrow> AvS s
    | DvLong n \<Rightarrow> AvN (int_str n)
    | DvInstant n \<Rightarrow> AvN (int_str n)
    | DvDouble d \<Rightarrow> AvN (x_f64_display x d)
    | DvBool b \<Rightarrow> AvBool b
    | DvRef e \<Rightarrow> AvN (nat_str (unat e))
    | DvArray a \<Rightarrow> AvS (x_json_text x (JArr (map JStr a)))
    | DvBytes b \<Rightarrow> AvB b
    | DvBigInt n \<Rightarrow> AvN (int_str n)
    | DvGeo lat lon \<Rightarrow> AvS (x_f64_display x lat @ '','' @ x_f64_display x lon)
    | DvNull \<Rightarrow> AvNull True)"

definition base_datom_attrs :: "ext \<Rightarrow> datom \<Rightarrow> item" where
  "base_datom_attrs x d = om_put ''v'' (value_attr x (dvalue d)) om_empty"

definition eavt_item :: "ext \<Rightarrow> datom \<Rightarrow> item" where
  "eavt_item x d =
    (let i1 = om_put ''PK'' (AvS (eavt_pk d)) (base_datom_attrs x d);
         i2 = om_put ''SK'' (AvB (build_eavt_sk (attr_id d) (tx_id d) (dop d))) i1;
         i3 = om_put ''as'' (AvB (build_aevt_sk (entity_id d) (tx_id d))) (om_put ''ap'' (AvS (aevt_pk d)) i2);
         i4 = (if is_avet_indexable (type_of_value (dvalue d))
               then om_put ''vs'' (AvB (build_avet_sk (dvalue d) (entity_id d))) (om_put ''vp'' (AvS (avet_pk d)) i3)
               else i3)
     in case vaet_pk d of
          Some rp \<Rightarrow> om_put ''rs'' (AvB (build_vaet_sk (attr_id d) (entity_id d))) (om_put ''rp'' (AvS rp) i4)
        | None \<Rightarrow> i4)"

definition append_put :: "string \<Rightarrow> item \<Rightarrow> put" where
  "append_put table it = \<lparr>put_table_name = table, put_item = it,
     put_condition_expression = Some ''attribute_not_exists(PK) AND attribute_not_exists(SK)'',
     put_expression_values = om_empty\<rparr>"

definition build_write_items :: "ext \<Rightarrow> string \<Rightarrow> datom list \<Rightarrow> put list" where
  "build_write_items x table ds = map (\<lambda>d. append_put table (eavt_item x d)) ds"

definition tx_op_str :: "transact_op \<Rightarrow> string" where
  "tx_op_str op = (case op of OpCreate \<Rightarrow> ''CREATE'' | OpUpdate \<Rightarrow> ''UPDATE'' | OpDelete \<Rightarrow> ''DELETE'')"

definition tx_registry_item :: "string \<Rightarrow> 64 word \<Rightarrow> transact_payload \<Rightarrow> string \<Rightarrow> string option \<Rightarrow> string \<Rightarrow> put" where
  "tx_registry_item tenant tx p eid actor table = append_put table
     (om_put ''op'' (AvS (tx_op_str (tp_op p)))
       (om_put ''entity_id'' (AvS eid) (om_put ''entity_type'' (AvS (tp_entity_type p))
         (om_put ''actor'' (AvS (unwrap_or actor ''system''))
           (om_put ''SK'' (AvB (be_word tx)) (om_put ''PK'' (AvS (''T#'' @ tenant @ ''#TX'')) om_empty))))))"

section \<open>Active attributes\<close>

definition active_label :: "registry \<Rightarrow> 16 word \<Rightarrow> string" where
  "active_label reg aid = unwrap_or (or_else (name_of aid) (get_attr_name reg aid)) (''attr_'' @ nat_str (unat aid))"

definition active_step ::
  "ext \<Rightarrow> registry \<Rightarrow> item \<Rightarrow> (string, 64 word \<times> (16 word \<times> datom_value)) omap
    \<Rightarrow> (string, 64 word \<times> (16 word \<times> datom_value)) omap" where
  "active_step x reg it m = (case item_sk it of
      None \<Rightarrow> m
    | Some (aid, tx, op) \<Rightarrow>
       (let name = active_label reg aid in
        if \<not> newer m name tx then m
        else if op then om_put name (tx, (aid, unwrap_or (extract_datom_value x it) DvNull)) m
        else om_del name m))"

definition get_active_attributes :: "ext \<Rightarrow> registry \<Rightarrow> string \<Rightarrow> string \<Rightarrow> partition_store \<Rightarrow> active_attrs" where
  "get_active_attributes x reg tenant eid s =
     drop_versions (fold (active_step x reg) (query_entity (entity_pk tenant eid) s) om_empty)"

section \<open>Checks\<close>

text \<open>What a constraint on a reference asks: the referenced entity and the conditions on it.\<close>

definition ref_check :: "entity_model \<Rightarrow> payload_attrs \<Rightarrow> codice_constraint \<Rightarrow> (string \<times> (string \<times> string) list) option" where
  "ref_check m attrs c = (case c_attributes c of
      [] \<Rightarrow> None
    | name # _ \<Rightarrow>
       (case map_of attrs name of
          Some (DvStr ref_id) \<Rightarrow>
            (case Option.bind (find (\<lambda>a. ad_name a = name) (em_attributes m)) ad_entity_ref of
               None \<Rightarrow> None | Some _ \<Rightarrow> map_option (Pair ref_id) (c_when c))
        | _ \<Rightarrow> None))"

definition ref_checks :: "entity_model \<Rightarrow> payload_attrs \<Rightarrow> (string \<times> (string \<times> string) list) list" where
  "ref_checks m attrs = List.map_filter (ref_check m attrs) (filter (\<lambda>c. c_kind c = RefState) (em_constraints m))"

fun check_refs_de ::
  "tx_env \<Rightarrow> bool \<Rightarrow> string \<Rightarrow> partition_store \<Rightarrow> (string \<times> (string \<times> string) list) list \<Rightarrow> eav_cache
    \<Rightarrow> unit res \<times> eav_cache" where
  "check_refs_de te use_cache tenant s [] c = (Inr (), c)"
| "check_refs_de te use_cache tenant s ((rid, conds) # rs) c =
    (case (if use_cache then pull (te_ext te) (te_reg te) (te_mono te) tenant rid None s c
           else (values_of (get_active_attributes (te_ext te) (te_reg te) tenant rid s), c)) of (m, c2) \<Rightarrow>
       (case check_ref_conditions m conds of
          Inl e \<Rightarrow> (Inl e, c2) | Inr _ \<Rightarrow> check_refs_de te use_cache tenant s rs c2))"

text \<open>The entities of the transaction that have a model, each with its previous state.\<close>

definition tx_entities ::
  "registry \<Rightarrow> transact_payload \<Rightarrow> string \<Rightarrow> active_attrs \<Rightarrow> saga_projection list \<Rightarrow> (constraint_context \<times> entity_map) list" where
  "tx_entities reg p eid active projs =
     (case get_model reg (tp_entity_type p) of
        Some m \<Rightarrow> [(\<lparr>cc_tenant_id = tp_tenant_id p, cc_entity_id = eid, cc_model = m, cc_attrs = tp_attrs p,
                    cc_op = tp_op p\<rparr>, values_of active)]
      | None \<Rightarrow> [])
     @ List.map_filter (\<lambda>j. map_option (\<lambda>m.
         (\<lparr>cc_tenant_id = tp_tenant_id p, cc_entity_id = sp_entity_id j, cc_model = m, cc_attrs = sp_attrs j,
           cc_op = OpCreate\<rparr>, om_empty)) (get_model reg (sp_entity_type j))) projs"

fun check_entities ::
  "tx_env \<Rightarrow> bool \<Rightarrow> partition_store \<Rightarrow> (constraint_context \<times> entity_map) list \<Rightarrow> eav_cache \<Rightarrow> unit res \<times> eav_cache" where
  "check_entities te use_cache s [] c = (Inr (), c)"
| "check_entities te use_cache s ((ctx, prev) # es) c =
    (case check_state_constraints (cc_model ctx) (cc_op ctx) (cc_attrs ctx) prev of
       Inl e \<Rightarrow> (Inl e, c)
     | Inr _ \<Rightarrow>
        (case check_refs_de te use_cache (cc_tenant_id ctx) s (ref_checks (cc_model ctx) (cc_attrs ctx)) c of
           (Inl e, c2) \<Rightarrow> (Inl e, c2)
         | (Inr _, c2) \<Rightarrow> check_entities te use_cache s es c2))"

section \<open>The transaction\<close>

text \<open>The rows of the outbox, none when events are suppressed.\<close>

definition outbox_rows ::
  "tx_env \<Rightarrow> bool \<Rightarrow> string \<Rightarrow> string \<Rightarrow> string \<Rightarrow> transact_op \<Rightarrow> payload_attrs \<Rightarrow> 64 word \<Rightarrow> string \<Rightarrow> string
    \<Rightarrow> (datom list \<times> nat) res" where
  "outbox_rows te suppress tenant entity_type eid op attrs tx ulid actor =
    (if suppress then Inr ([], 0)
     else rbind (generate_outbox_datoms (te_ext te) (te_reg te) (te_now te) tenant entity_type eid op attrs tx ulid actor)
       (\<lambda>r. Inr (case r of Some ds \<Rightarrow> (ds, 1) | None \<Rightarrow> ([], 0))))"

definition plan_projection ::
  "tx_env \<Rightarrow> transact_payload \<Rightarrow> 64 word \<Rightarrow> string \<Rightarrow> saga_projection \<times> string \<Rightarrow> datom list \<times> nat \<Rightarrow> (datom list \<times> nat) res" where
  "plan_projection te p tx actor ju st = (case ju of (j, ulid) \<Rightarrow>
     rbind (plan_entity_datoms (te_ext te) (te_reg te) (te_now te) (tp_tenant_id p) (sp_entity_type j) (sp_entity_id j)
         (sp_attrs j) tx True om_empty actor) (\<lambda>ds.
     rbind (outbox_rows te (tp_suppress_events p) (tp_tenant_id p) (sp_entity_type j) (sp_entity_id j) OpCreate
         (sp_attrs j) tx ulid actor) (\<lambda>(ob, n).
       Inr (fst st @ ds @ ob, snd st + n))))"

text \<open>All datoms of the transaction, with the number of rows of the outbox and the plan of the entity.\<close>

definition plan_transaction ::
  "tx_env \<Rightarrow> transact_payload \<Rightarrow> tx_options \<Rightarrow> string \<Rightarrow> 64 word \<Rightarrow> active_attrs \<Rightarrow> (datom list \<times> nat \<times> datom_plan) res" where
  "plan_transaction te p opts eid tx active =
    (let actor = unwrap_or (to_actor opts) ''system'' in
     rbind (plan_payload_datoms (te_ext te) (te_reg te) (te_now te) p eid tx active actor) (\<lambda>plan.
     rbind (outbox_rows te (tp_suppress_events p) (tp_tenant_id p) (tp_entity_type p) eid (tp_op p) (tp_attrs p) tx
         (te_mutation_ulid te) actor) (\<lambda>(ob, n).
     rbind (try_fold (plan_projection te p tx actor) 
         (zip (to_projections opts) (map (te_proj_ulid te) [0..<length (to_projections opts)])) (dp_datoms plan @ ob, n)) (\<lambda>(ds, m).
       Inr (dedup_datoms_por_sk ds, m, plan)))))"

definition tx_puts_of ::
  "tx_env \<Rightarrow> transact_payload \<Rightarrow> tx_options \<Rightarrow> string \<Rightarrow> 64 word \<Rightarrow> constraint_context list \<Rightarrow> datom list \<Rightarrow> put list res" where
  "tx_puts_of te p opts eid tx ctxs ds =
     rbind (plan_claims_para (te_ext te) (te_table te) ctxs) (\<lambda>claims.
       Inr (build_write_items (te_ext te) (te_table te) ds
         @ [tx_registry_item (tp_tenant_id p) tx p eid (to_actor opts) (te_table te)] @ claims))"

definition invalidate_entity_caches :: "string \<Rightarrow> (string \<times> string) list \<Rightarrow> eav_state \<Rightarrow> eav_state" where
  "invalidate_entity_caches tenant written st =
     st\<lparr>ev_cache := fold (\<lambda>(eid, _). om_del (entity_pk tenant eid)) written (ev_cache st),
        ev_scans := fold (\<lambda>(_, t). om_del (tenant, t)) written (ev_scans st)\<rparr>"

definition invalidate_aevt_scan :: "string \<Rightarrow> string \<Rightarrow> eav_state \<Rightarrow> eav_state" where
  "invalidate_aevt_scan tenant entity_type st = st\<lparr>ev_scans := om_del (tenant, entity_type) (ev_scans st)\<rparr>"

definition transact_commit ::
  "tx_env \<Rightarrow> transact_payload \<Rightarrow> tx_options \<Rightarrow> string \<Rightarrow> 64 word \<Rightarrow> active_attrs \<Rightarrow> constraint_context list \<Rightarrow> eav_state
    \<Rightarrow> (transact_result \<times> eav_state) res" where
  "transact_commit te p opts eid tx active ctxs st =
     rbind (plan_transaction te p opts eid tx active) (\<lambda>(ds, outbox, plan).
     rbind (tx_puts_of te p opts eid tx ctxs ds) (\<lambda>puts.
     rbind (transact_store (map Some puts) (ev_store st)) (\<lambda>s.
       let st1 = st\<lparr>ev_store := s\<rparr>;
           st2 = (if to_deferred opts then st1
                  else invalidate_entity_caches (tp_tenant_id p)
                    ((eid, tp_entity_type p) # map (\<lambda>j. (sp_entity_id j, sp_entity_type j)) (to_projections opts)) st1)
       in Inr (\<lparr>tr_entity_id = eid, tr_tx_id = tx, tr_datoms = length ds, tr_outbox_count = outbox,
                tr_mutation_ulid = te_mutation_ulid te, tr_delta = dp_delta plan,
                tr_deleted_attrs = dp_deleted_attrs plan\<rparr>, st2))))"

definition active_for :: "tx_env \<Rightarrow> transact_payload \<Rightarrow> string \<Rightarrow> partition_store \<Rightarrow> active_attrs" where
  "active_for te p eid s = (if tp_op p = OpCreate then om_empty
     else get_active_attributes (te_ext te) (te_reg te) (tp_tenant_id p) eid s)"

definition transact_inner :: "tx_env \<Rightarrow> transact_payload \<Rightarrow> tx_options \<Rightarrow> eav_state \<Rightarrow> transact_result res \<times> eav_state" where
  "transact_inner te p opts st =
    (if get_model (te_reg te) (tp_entity_type p) = None then (Inl Eav004, st)
     else
       (let next_tx = generate_tx_id (ev_last_tx st) (word_of_int (te_now te mod 2 ^ 48));
            tx = unwrap_or (to_forced_tx opts) next_tx;
            st1 = (if to_forced_tx opts = None then st\<lparr>ev_last_tx := next_tx\<rparr> else st);
            eid = unwrap_or (tp_entity_id p) (te_entity_ulid te);
            active = active_for te p eid (ev_store st1);
            es = tx_entities (te_reg te) p eid active (to_projections opts)
        in case check_entities te (to_deferred opts) (ev_store st1) es (ev_cache st1) of (checked, c) \<Rightarrow>
          (let st2 = st1\<lparr>ev_cache := c\<rparr> in
           case rbind checked (\<lambda>_. transact_commit te p opts eid tx active (map fst es) st2) of
             Inl e \<Rightarrow> (Inl e, st2) | Inr (r, st3) \<Rightarrow> (Inr r, st3))))"

definition no_options :: tx_options where
  "no_options = \<lparr>to_projections = [], to_actor = None, to_forced_tx = None, to_deferred = False\<rparr>"

definition transact_with_projections ::
  "tx_env \<Rightarrow> transact_payload \<Rightarrow> saga_projection list \<Rightarrow> string option \<Rightarrow> eav_state \<Rightarrow> transact_result res \<times> eav_state" where
  "transact_with_projections te p projs actor st =
     transact_inner te p (no_options\<lparr>to_projections := projs, to_actor := actor\<rparr>) st"

definition transact :: "tx_env \<Rightarrow> transact_payload \<Rightarrow> eav_state \<Rightarrow> transact_result res \<times> eav_state" where
  "transact te p st = transact_with_projections te p [] None st"

definition transact_with_tx ::
  "tx_env \<Rightarrow> transact_payload \<Rightarrow> saga_projection list \<Rightarrow> string option \<Rightarrow> 64 word \<Rightarrow> eav_state
    \<Rightarrow> transact_result res \<times> eav_state" where
  "transact_with_tx te p projs actor forced st =
     transact_inner te p (no_options\<lparr>to_projections := projs, to_actor := actor, to_forced_tx := Some forced\<rparr>) st"

definition transact_bulk_deferred ::
  "tx_env \<Rightarrow> transact_payload \<Rightarrow> string option \<Rightarrow> eav_state \<Rightarrow> transact_result res \<times> eav_state" where
  "transact_bulk_deferred te p actor st =
     transact_inner te p (no_options\<lparr>to_actor := actor, to_deferred := True\<rparr>) st"

end
