(* ===== verification/EavLog.thy ===== *)
theory EavLog
  imports EavWriter
begin

text \<open>The partition of an entity is a log of versions: what the fold of the reader and the fold of
  the writer compute from it. Both are instances of one interface, a fold that keeps the newest
  version under each label, and both yield the last assertion of each attribute that no later
  version follows.\<close>

section \<open>The interface\<close>

text \<open>The versions of one attribute among the items of a partition.\<close>

definition version_of :: "16 word \<Rightarrow> item \<Rightarrow> ((64 word \<times> bool) \<times> item) option" where
  "version_of a it = (case item_sk it of
      Some (a', t, b) \<Rightarrow> if a' = a then Some ((t, b), it) else None | None \<Rightarrow> None)"

lemma version_of_Some [simp]:
  "version_of a it = Some (k, it') \<longleftrightarrow> it' = it \<and> item_sk it = Some (a, fst k, snd k)"
  by (cases k) (auto simp: version_of_def split: option.splits)

definition versions :: "16 word \<Rightarrow> item list \<Rightarrow> ((64 word \<times> bool) \<times> item) list" where
  "versions a its = List.map_filter (version_of a) its"

definition last_asserted :: "((64 word \<times> bool) \<times> item) list \<Rightarrow> (64 word \<times> item) option" where
  "last_asserted vs = (if vs = [] \<or> \<not> snd (fst (last vs)) then None else Some (fst (fst (last vs)), snd (last vs)))"

locale version_fold =
  fixes label :: "16 word \<Rightarrow> string"
    and keep :: "string \<Rightarrow> bool"
    and val :: "16 word \<Rightarrow> item \<Rightarrow> 'v option"
    and step :: "item \<Rightarrow> (string, 64 word \<times> 'v) omap \<Rightarrow> (string, 64 word \<times> 'v) omap"
  assumes step_skip: "item_sk it = None \<Longrightarrow> step it m = m"
    and step_row: "item_sk it = Some (a, t, b) \<Longrightarrow> step it m =
      (if \<not> keep (label a) \<or> \<not> newer m (label a) t then m
       else if b then (case val a it of Some v \<Rightarrow> om_put (label a) (t, v) m | None \<Rightarrow> m)
       else om_del (label a) m)"
begin

lemma step_other: "item_sk it = Some (a, t, b) \<Longrightarrow> label a \<noteq> n \<Longrightarrow> om_get (step it m) n = om_get m n"
  by (auto simp: step_row split: option.splits)

lemma fold_unkept: "\<not> keep n \<Longrightarrow> om_get (fold step its m) n = om_get m n"
proof (induction its arbitrary: m)
  case (Cons it its)
  have "om_get (step it m) n = om_get m n"
    using Cons.prems by (cases "item_sk it") (auto simp: step_skip step_row split: option.splits)
  then show ?case using Cons by simp
qed simp

lemma fold_unlabelled:
  "(\<And>it a t b. it \<in> set its \<Longrightarrow> item_sk it = Some (a, t, b) \<Longrightarrow> label a \<noteq> n) \<Longrightarrow> om_get (fold step its m) n = om_get m n"
proof (induction its arbitrary: m)
  case (Cons it its)
  have "om_get (step it m) n = om_get m n"
    using Cons.prems [of it] step_other by (cases "item_sk it") (auto simp: step_skip)
  moreover have "om_get (fold step its (step it m)) n = om_get (step it m) n"
    using Cons.prems by (intro Cons.IH) auto
  ultimately show ?case by simp
qed simp

lemma fold_latest:
  assumes "keep (label a)"
    and "\<And>it a' t b. it \<in> set its \<Longrightarrow> item_sk it = Some (a', t, b) \<Longrightarrow> label a' = label a \<Longrightarrow> a' = a"
    and "\<And>it t. it \<in> set its \<Longrightarrow> item_sk it = Some (a, t, True) \<Longrightarrow> val a it \<noteq> None"
    and "sorted_wrt (<) (map fst (versions a its))"
  shows "om_get (fold step its om_empty) (label a)
    = map_option (\<lambda>(t, it). (t, the (val a it))) (last_asserted (versions a its))"
  using assms(2-)
proof (induction its rule: rev_induct)
  case Nil
  show ?case by (simp add: versions_def last_asserted_def List.map_filter_def)
next
  case (snoc it its)
  let ?m = "fold step its om_empty"
  have vs: "versions a (its @ [it]) = versions a its @ (case version_of a it of Some v \<Rightarrow> [v] | None \<Rightarrow> [])"
    by (simp add: versions_def List.map_filter_def del: version_of_Some split: option.split)
  have srt: "sorted_wrt (<) (map fst (versions a its))"
    using snoc.prems(3) by (simp add: vs sorted_wrt_append)
  have IH: "om_get ?m (label a) = map_option (\<lambda>(t, it). (t, the (val a it))) (last_asserted (versions a its))"
    using snoc.prems(1,2) srt by (intro snoc.IH) auto
  show ?case
  proof (cases "item_sk it")
    case None
    then show ?thesis using IH vs by (simp add: step_skip version_of_def)
  next
    case (Some r)
    obtain a' t b where r: "item_sk it = Some (a', t, b)" using Some by (metis prod_cases3)
    show ?thesis
    proof (cases "a' = a")
      case False
      then have "label a' \<noteq> label a" using snoc.prems(1) [of it] r by auto
      then show ?thesis using IH vs r False by (simp add: step_other version_of_def)
    next
      case True
      then have vs': "versions a (its @ [it]) = versions a its @ [((t, b), it)]" using vs r by (simp add: version_of_def)
      have "newer ?m (label a) t"
      proof (cases "last_asserted (versions a its)")
        case None
        then show ?thesis using IH by (simp add: newer_def)
      next
        case (Some q)
        then have ne: "versions a its \<noteq> []" and q: "q = (fst (fst (last (versions a its))), snd (last (versions a its)))"
          and up: "snd (fst (last (versions a its)))" by (auto simp: last_asserted_def split: if_splits)
        have "fst (last (versions a its)) < (t, b)"
          using snoc.prems(3) ne unfolding vs' by (simp add: sorted_wrt_append)
        then have "fst q < t" using up q by (cases "fst (last (versions a its))") auto
        then show ?thesis using IH Some by (cases q) (simp add: newer_def)
      qed
      moreover have "b \<Longrightarrow> val a it \<noteq> None" using snoc.prems(2) [of it t] r True by simp
      ultimately show ?thesis
        using r True assms(1) by (auto simp: step_row vs' last_asserted_def)
    qed
  qed
qed

end

interpretation reader: version_fold "attr_label reg" "attr_wanted flt" "\<lambda>_. extract_datom_value x" "assemble_step x reg flt"
  by unfold_locales (auto simp: assemble_step_def Let_def)

interpretation writer: version_fold "active_label reg" "\<lambda>_. True" "\<lambda>a it. Some (a, unwrap_or (extract_datom_value x it) DvNull)"
  "active_step x reg"
  by unfold_locales (auto simp: active_step_def Let_def)

lemma om_get_drop_versions: "om_get (drop_versions m) k = map_option snd (om_get m k)"
proof -
  have "om_get (drop_versions m) k = map_of (rev (map (\<lambda>(k, v). (k, snd v)) (om_entries m))) k"
    by (simp add: drop_versions_def om_get_of_list)
  also have "\<dots> = map_of (map (\<lambda>(k, v). (k, snd v)) (om_entries m)) k"
    using om.entries_distinct by (intro fun_cong [OF map_of_rev_distinct]) (simp add: comp_def case_prod_unfold)
  also have "\<dots> = map_option snd (map_of (om_entries m) k)" by (simp add: map_of_map)
  finally show ?thesis by (simp add: om.entries_get)
qed

section \<open>The log of a partition\<close>

definition log_wf :: "string \<Rightarrow> partition_store \<Rightarrow> bool" where
  "log_wf pk s \<longleftrightarrow> (\<forall>sk it. om_get (items s) (pk, sk) = Some it \<longrightarrow>
     om_get it ''PK'' = Some (AvS pk) \<and> om_get it ''SK'' = Some (AvB sk) \<and> (\<exists>a t b. sk = build_eavt_sk a t b))"

definition current_row :: "string \<Rightarrow> 16 word \<Rightarrow> partition_store \<Rightarrow> (64 word \<times> item) option" where
  "current_row pk a s = last_asserted (versions a (query_entity pk s))"

definition entity_value :: "ext \<Rightarrow> string \<Rightarrow> 16 word \<Rightarrow> partition_store \<Rightarrow> datom_value option" where
  "entity_value x pk a s = Option.bind (current_row pk a s) (\<lambda>(t, it). extract_datom_value x it)"

definition partition_rows :: "string \<Rightarrow> partition_store \<Rightarrow> (primary_key \<times> item) list" where
  "partition_rows pk s = filter (\<lambda>((p, _), _). p = pk) (om_entries (items s))"

lemma query_entity_rows: "query_entity pk s = map snd (partition_rows pk s)"
proof -
  let ?vals = "om_put '':pk'' (AvS pk) om_empty :: item"
  let ?r = "key_range_of ''#pk = :pk'' ?vals"
  have c: "\<not> str_contains ''BETWEEN'' ''#pk = :pk''" "\<not> str_contains ''<='' ''#pk = :pk''"
    "\<not> str_contains ''begins_with'' ''#pk = :pk''" by code_simp+
  then have r: "?r = \<lparr>kr_lte = False, kr_prefix = False, kr_min = None, kr_max = None, kr_pfx = None\<rparr>"
    by (simp add: key_range_of_def get_bytes_def)
  have "target_pk ?vals = pk" by (simp add: target_pk_def or_else_def unwrap_or_def)
  then have "query_entity pk s = query_primary pk ?r s"
    by (simp add: query_entity_def query_def page_def from_index_name_def)
  also have "\<dots> = map snd (filter (\<lambda>((p, sk), _). p = pk \<and> initial_sk ?r \<le> sk \<and> sk_continues ?r sk) (om_entries (items s)))"
    by (rule query_primary_scan) (simp add: r range_wf_def)
  finally show ?thesis by (simp add: r initial_sk_def sk_continues_def partition_rows_def)
qed

lemma in_partition_rows: "(k, it) \<in> set (partition_rows pk s) \<longleftrightarrow> fst k = pk \<and> om_get (items s) k = Some it"
  by (auto simp: partition_rows_def om.in_entries_iff)

lemma in_map_filter: "y \<in> set (List.map_filter f xs) \<longleftrightarrow> (\<exists>x\<in>set xs. f x = Some y)"
  by (force simp: List.map_filter_def)

lemma sorted_wrt_map_filter:
  assumes "sorted_wrt R xs" "\<And>x y u v. x \<in> set xs \<Longrightarrow> y \<in> set xs \<Longrightarrow> R x y \<Longrightarrow> f x = Some u \<Longrightarrow> f y = Some v \<Longrightarrow> Q u v"
  shows "sorted_wrt Q (List.map_filter f xs)"
  using assms
proof (induction xs)
  case (Cons x xs)
  have "sorted_wrt Q (List.map_filter f xs)" using Cons.prems by (intro Cons.IH) auto
  moreover have "Q u v" if "f x = Some u" "v \<in> set (List.map_filter f xs)" for u v
  proof -
    note h = that
    obtain y where "y \<in> set xs" "f y = Some v" using h(2) by (auto simp: in_map_filter)
    then show ?thesis using Cons.prems(1) h(1) by (intro Cons.prems(2) [of x y]) auto
  qed
  ultimately show ?case by (cases "f x") (auto simp: List.map_filter_simps)
qed (simp add: List.map_filter_simps)

lemma row_sk:
  assumes "log_wf pk s" "((p, sk), it) \<in> set (partition_rows pk s)"
  obtains a t b where "sk = build_eavt_sk a t b" "item_sk it = Some (a, t, b)" "p = pk" "om_get it ''PK'' = Some (AvS pk)"
proof -
  have "p = pk" "om_get (items s) (pk, sk) = Some it" using assms(2) by (auto simp: in_partition_rows)
  then obtain a t b where "sk = build_eavt_sk a t b" "om_get it ''SK'' = Some (AvB sk)" "om_get it ''PK'' = Some (AvS pk)"
    using assms(1) unfolding log_wf_def by blast
  then show ?thesis using that \<open>p = pk\<close> by (simp add: item_sk_def get_bytes_def)
qed

lemma item_of_row: "log_wf pk s \<Longrightarrow> om_get (items s) (pk, build_eavt_sk a t b) = Some it \<Longrightarrow> item_sk it = Some (a, t, b)"
  unfolding log_wf_def by (auto simp: item_sk_def get_bytes_def)

lemma row_of_version:
  assumes "log_wf pk s" "r \<in> set (partition_rows pk s)" "version_of a (snd r) = Some u"
  shows "fst r = (pk, build_eavt_sk a (fst (fst u)) (snd (fst u)))"
proof -
  obtain p sk it where r: "r = ((p, sk), it)" by (metis prod.collapse)
  obtain a' t b where "sk = build_eavt_sk a' t b" "item_sk it = Some (a', t, b)" "p = pk"
    by (rule row_sk [OF assms(1) assms(2) [unfolded r]])
  then show ?thesis using assms(3) by (cases u) (auto simp: r)
qed

lemma versions_rows:
  assumes "log_wf pk s"
  shows "((t, b), it) \<in> set (versions a (query_entity pk s)) \<longleftrightarrow> om_get (items s) (pk, build_eavt_sk a t b) = Some it"
    and "sorted_wrt (<) (map fst (versions a (query_entity pk s)))"
proof -
  have vs: "versions a (query_entity pk s) = List.map_filter (\<lambda>r. version_of a (snd r)) (partition_rows pk s)"
    by (simp add: versions_def query_entity_rows List.map_filter_def comp_def filter_map)
  show "((t, b), it) \<in> set (versions a (query_entity pk s)) \<longleftrightarrow> om_get (items s) (pk, build_eavt_sk a t b) = Some it"
  proof
    assume "((t, b), it) \<in> set (versions a (query_entity pk s))"
    then obtain k where k: "(k, it) \<in> set (partition_rows pk s)" "item_sk it = Some (a, t, b)"
      unfolding vs in_map_filter by auto
    then show "om_get (items s) (pk, build_eavt_sk a t b) = Some it"
      using row_of_version [OF assms, of "(k, it)" a "((t, b), it)"] by (simp add: in_partition_rows)
  next
    assume g: "om_get (items s) (pk, build_eavt_sk a t b) = Some it"
    then have "((pk, build_eavt_sk a t b), it) \<in> set (partition_rows pk s)" by (simp add: in_partition_rows)
    moreover have "item_sk it = Some (a, t, b)" by (rule item_of_row [OF assms g])
    ultimately show "((t, b), it) \<in> set (versions a (query_entity pk s))"
      unfolding vs in_map_filter by force
  qed
  have "sorted_wrt (\<lambda>u v. fst u < fst v) (partition_rows pk s)"
    using om.entries_sorted [of "items s"] by (simp add: partition_rows_def sorted_wrt_map sorted_wrt_filter)
  then have "sorted_wrt (\<lambda>u v. fst u < fst v) (versions a (query_entity pk s))"
    unfolding vs
  proof (rule sorted_wrt_map_filter)
    fix r q u v
    assume r: "r \<in> set (partition_rows pk s)" "q \<in> set (partition_rows pk s)" and less: "fst r < fst q"
      and v: "version_of a (snd r) = Some u" "version_of a (snd q) = Some v"
    have "build_eavt_sk a (fst (fst u)) (snd (fst u)) < build_eavt_sk a (fst (fst v)) (snd (fst v))"
      using less unfolding row_of_version [OF assms r(1) v(1)] row_of_version [OF assms r(2) v(2)] by simp
    then show "fst u < fst v" unfolding build_eavt_sk_less by (cases "fst u"; cases "fst v") auto
  qed
  then show "sorted_wrt (<) (map fst (versions a (query_entity pk s)))" by (simp add: sorted_wrt_map)
qed

lemma sorted_last_iff:
  assumes "sorted_wrt (<) (map fst vs)"
  shows "vs \<noteq> [] \<and> last vs = (k, v) \<longleftrightarrow> (k, v) \<in> set vs \<and> (\<forall>j w. (j, w) \<in> set vs \<longrightarrow> j \<le> (k :: 'a::linorder))"
  using assms
proof (induction vs rule: rev_induct)
  case (snoc x vs)
  then have "\<And>j w. (j, w) \<in> set vs \<Longrightarrow> j < fst x" by (force simp: sorted_wrt_append)
  then show ?case by (cases x) (fastforce dest: leD)
qed simp

text \<open>The current row of an attribute is the assertion that every version of the attribute precedes.\<close>

lemma current_row_iff:
  assumes "log_wf pk s"
  shows "current_row pk a s = Some (t, it) \<longleftrightarrow> om_get (items s) (pk, build_eavt_sk a t True) = Some it
    \<and> (\<forall>t' b. om_mem (pk, build_eavt_sk a t' b) (items s) \<longrightarrow> t' \<le> t)"
proof -
  let ?vs = "versions a (query_entity pk s)"
  have "current_row pk a s = Some (t, it) \<longleftrightarrow> ?vs \<noteq> [] \<and> last ?vs = ((t, True), it)"
    by (cases "last ?vs") (auto simp: current_row_def last_asserted_def)
  also have "\<dots> \<longleftrightarrow> ((t, True), it) \<in> set ?vs \<and> (\<forall>j w. (j, w) \<in> set ?vs \<longrightarrow> j \<le> (t, True))"
    by (rule sorted_last_iff [OF versions_rows(2) [OF assms]])
  also have "\<dots> \<longleftrightarrow> om_get (items s) (pk, build_eavt_sk a t True) = Some it
      \<and> (\<forall>t' b. om_mem (pk, build_eavt_sk a t' b) (items s) \<longrightarrow> t' \<le> t)"
    using versions_rows(1) [OF assms] by (force simp: om_mem_def)
  finally show ?thesis .
qed

end
