(* ===== verification/EavCorrect.thy ===== *)
theory EavCorrect
  imports EavLog
begin

text \<open>What a read of an entity returns: the last assertion of every attribute; what a cut by
  transaction does to it; and what becomes of a value between its write and its read.\<close>

section \<open>Reading the current state\<close>

definition labels_ok :: "(16 word \<Rightarrow> string) \<Rightarrow> string \<Rightarrow> partition_store \<Rightarrow> bool" where
  "labels_ok lab pk s \<longleftrightarrow> (\<forall>a a' t b t' b'. om_mem (pk, build_eavt_sk a t b) (items s)
     \<longrightarrow> om_mem (pk, build_eavt_sk a' t' b') (items s) \<longrightarrow> lab a = lab a' \<longrightarrow> a = a')"

definition readable :: "ext \<Rightarrow> string \<Rightarrow> partition_store \<Rightarrow> bool" where
  "readable x pk s \<longleftrightarrow> (\<forall>a t it. om_get (items s) (pk, build_eavt_sk a t True) = Some it
     \<longrightarrow> extract_datom_value x it \<noteq> None)"

lemma filter_exact_rows:
  assumes "log_wf pk s"
  shows "filter_exact_entity_partition (query_entity pk s) pk = query_entity pk s"
proof -
  have "om_get it ''PK'' = Some (AvS pk)" if "it \<in> set (query_entity pk s)" for it
    using that assms by (auto simp: query_entity_rows in_partition_rows log_wf_def)
  then show ?thesis by (simp add: filter_exact_entity_partition_def)
qed

lemma query_entity_item:
  assumes "log_wf pk s" "it \<in> set (query_entity pk s)"
  obtains a t b where "om_get (items s) (pk, build_eavt_sk a t b) = Some it" "item_sk it = Some (a, t, b)"
proof -
  obtain k where k: "fst k = pk" "om_get (items s) k = Some it"
    using assms(2) by (auto simp: query_entity_rows in_partition_rows)
  then obtain a t b where "snd k = build_eavt_sk a t b" using assms(1) unfolding log_wf_def by (metis prod.collapse)
  then have "om_get (items s) (pk, build_eavt_sk a t b) = Some it" using k by (cases k) simp
  then show ?thesis using that item_of_row [OF assms(1)] by blast
qed

lemma assembled_value:
  assumes "log_wf pk s" "labels_ok (attr_label reg) pk s" "readable x pk s" "om_mem (pk, build_eavt_sk a t0 b0) (items s)"
  shows "om_get (assemble_current_state x reg (query_entity pk s) None) (attr_label reg a) = entity_value x pk a s"
proof -
  have "om_get (fold (assemble_step x reg None) (query_entity pk s) om_empty) (attr_label reg a)
      = map_option (\<lambda>(t, it). (t, the (extract_datom_value x it))) (current_row pk a s)"
    unfolding current_row_def
  proof (rule reader.fold_latest)
    show "attr_wanted None (attr_label reg a)" by (simp add: attr_wanted_def)
    fix it a' t b assume it: "it \<in> set (query_entity pk s)" "item_sk it = Some (a', t, b)" "attr_label reg a' = attr_label reg a"
    then have "om_mem (pk, build_eavt_sk a' t b) (items s)"
      using query_entity_item [OF assms(1) it(1)] by (metis om_mem_def option.sel option.simps(3) prod.inject)
    then show "a' = a" using assms(2,4) it(3) unfolding labels_ok_def by blast
  next
    fix it t assume it: "it \<in> set (query_entity pk s)" "item_sk it = Some (a, t, True)"
    then show "extract_datom_value x it \<noteq> None"
      using query_entity_item [OF assms(1) it(1)] assms(3) unfolding readable_def by (metis option.sel prod.inject)
  next
    show "sorted_wrt (<) (map fst (versions a (query_entity pk s)))" by (rule versions_rows(2) [OF assms(1)])
  qed
  moreover have "extract_datom_value x it \<noteq> None" if "current_row pk a s = Some (t, it)" for t it
    using that assms(3) by (auto simp: current_row_iff [OF assms(1)] readable_def)
  ultimately show ?thesis
    by (cases "current_row pk a s") (auto simp: assemble_current_state_def om_get_drop_versions entity_value_def)
qed

lemma assembled_unlabelled:
  assumes "log_wf pk s" "\<And>a t b. om_mem (pk, build_eavt_sk a t b) (items s) \<Longrightarrow> attr_label reg a \<noteq> n"
  shows "om_get (assemble_current_state x reg (query_entity pk s) flt) n = None"
proof -
  have "om_get (fold (assemble_step x reg flt) (query_entity pk s) om_empty) n = om_get om_empty n"
  proof (rule reader.fold_unlabelled)
    fix it a t b assume "it \<in> set (query_entity pk s)" "item_sk it = Some (a, t, b)"
    then show "attr_label reg a \<noteq> n"
      using query_entity_item [OF assms(1)] assms(2) by (metis om_mem_def option.sel option.simps(3) prod.inject)
  qed
  then show ?thesis by (simp add: assemble_current_state_def om_get_drop_versions)
qed

lemma assemble_filter_step:
  assumes "om_get m n = om_get m' n" "attr_wanted flt n"
  shows "om_get (assemble_step x reg flt it m) n = om_get (assemble_step x reg None it m') n"
  using assms by (auto simp: assemble_step_def newer_def attr_wanted_def [of None] Let_def split: option.splits)

lemma assemble_filter:
  "attr_wanted flt n \<Longrightarrow> om_get m n = om_get m' n \<Longrightarrow>
     om_get (fold (assemble_step x reg flt) its m) n = om_get (fold (assemble_step x reg None) its m') n"
proof (induction its arbitrary: m m')
  case (Cons it its)
  then show ?case using assemble_filter_step [of m n m' flt x reg it] by simp
qed simp

text \<open>Filtering while assembling is filtering the assembled state.\<close>

lemma assemble_select:
  "assemble_current_state x reg its flt = select_attrs flt (assemble_current_state x reg its None)"
proof (rule om_eqI)
  fix n
  show "om_get (assemble_current_state x reg its flt) n = om_get (select_attrs flt (assemble_current_state x reg its None)) n"
    using assemble_filter [of flt n om_empty om_empty x reg its] reader.fold_unkept [of flt n x reg its om_empty]
    by (cases "attr_wanted flt n")
       (auto simp: assemble_current_state_def om_get_drop_versions select_attrs_def split: option.split)
qed

lemma pull_uncached:
  assumes "log_wf (entity_pk tenant eid) s" "cached now attrs (entity_pk tenant eid) c = None"
  shows "fst (pull x reg now tenant eid attrs s c) = assemble_current_state x reg (query_entity (entity_pk tenant eid) s) attrs"
proof -
  have "assemble_current_state x reg [] flt = om_empty" for flt
    by (rule om_eqI) (simp add: assemble_current_state_def om_get_drop_versions)
  then show ?thesis
    using assms(2) by (simp add: pull_def Let_def filter_exact_rows [OF assms(1)] assemble_select [symmetric])
qed

text \<open>C12: A read returns the current state of the entity. When the partition is a log whose attribute
  numbers have distinct labels and whose assertions are readable, and the cache does not answer, the
  value of an attribute is that of its assertion that no version with a greater transaction follows,
  if the caller wants the attribute; an attribute without such an assertion, or without any
  version, is absent.\<close>

theorem pull_latest:
  assumes "log_wf (entity_pk tenant eid) s" "labels_ok (attr_label reg) (entity_pk tenant eid) s"
    and "readable x (entity_pk tenant eid) s" "cached now attrs (entity_pk tenant eid) c = None"
  shows "(\<forall>a t0 b0. om_mem (entity_pk tenant eid, build_eavt_sk a t0 b0) (items s) \<longrightarrow>
      (om_get (fst (pull x reg now tenant eid attrs s c)) (attr_label reg a) = Some v \<longleftrightarrow>
        attr_wanted attrs (attr_label reg a)
        \<and> (\<exists>t it. om_get (items s) (entity_pk tenant eid, build_eavt_sk a t True) = Some it
          \<and> extract_datom_value x it = Some v
          \<and> (\<forall>t' b. om_mem (entity_pk tenant eid, build_eavt_sk a t' b) (items s) \<longrightarrow> t' \<le> t))))
    \<and> (\<forall>n. (\<forall>a t b. om_mem (entity_pk tenant eid, build_eavt_sk a t b) (items s) \<longrightarrow> attr_label reg a \<noteq> n) \<longrightarrow>
      om_get (fst (pull x reg now tenant eid attrs s c)) n = None)"
proof (intro conjI allI impI)
  fix a t0 b0 assume m: "om_mem (entity_pk tenant eid, build_eavt_sk a t0 b0) (items s)"
  have "om_get (fst (pull x reg now tenant eid attrs s c)) (attr_label reg a) = Some v \<longleftrightarrow>
      attr_wanted attrs (attr_label reg a) \<and> entity_value x (entity_pk tenant eid) a s = Some v"
    using assembled_value [OF assms(1-3) m]
    by (auto simp: pull_uncached [OF assms(1,4)] assemble_select [of _ _ _ attrs] select_attrs_def split: option.splits if_splits)
  then show "om_get (fst (pull x reg now tenant eid attrs s c)) (attr_label reg a) = Some v \<longleftrightarrow>
      attr_wanted attrs (attr_label reg a)
      \<and> (\<exists>t it. om_get (items s) (entity_pk tenant eid, build_eavt_sk a t True) = Some it
        \<and> extract_datom_value x it = Some v
        \<and> (\<forall>t' b. om_mem (entity_pk tenant eid, build_eavt_sk a t' b) (items s) \<longrightarrow> t' \<le> t))"
    by (auto simp: entity_value_def bind_eq_Some_conv current_row_iff [OF assms(1)])
next
  fix n assume "\<forall>a t b. om_mem (entity_pk tenant eid, build_eavt_sk a t b) (items s) \<longrightarrow> attr_label reg a \<noteq> n"
  then show "om_get (fst (pull x reg now tenant eid attrs s c)) n = None"
    unfolding pull_uncached [OF assms(1,4)] by (intro assembled_unlabelled [OF assms(1)]) blast
qed

definition plain_ext :: ext where
  "plain_ext = \<lparr>x_f64_display = (\<lambda>_. ''0.5''), x_f64_parse = (\<lambda>_. Some 0x3FE0000000000000),
     x_json_text = (\<lambda>_. ''[]''), x_json_parse = (\<lambda>_. None), x_base64 = (\<lambda>_. []), x_embed = (\<lambda>_ _. []),
     x_sha = (\<lambda>b. b), x_key_order = (\<lambda>ks. ks)\<rparr>"

definition plain_registry :: registry where
  "plain_registry = \<lparr>reg_entities = om_empty, reg_attr_ids = om_empty\<rparr>"

definition datom_row :: "datom \<Rightarrow> primary_key \<times> item" where
  "datom_row d = ((eavt_pk d, build_eavt_sk (attr_id d) (tx_id d) (dop d)), eavt_item plain_ext d)"

definition store_of_datoms :: "datom list \<Rightarrow> partition_store" where
  "store_of_datoms ds = fold (\<lambda>d. insert_indexed (fst (datom_row d)) (snd (datom_row d))) ds store_default"

definition sample_log :: "datom list" where
  "sample_log = [datom_assert ''t'' ''E'' ''x'' 18 (DvStr ''old'') 5, datom_retract ''t'' ''E'' ''x'' 18 (DvStr ''old'') 9,
     datom_assert ''t'' ''E'' ''x'' 18 (DvStr ''new'') 9]"

lemma eavt_item_get [simp]:
  "om_get (eavt_item x d) ''PK'' = Some (AvS (eavt_pk d))"
  "om_get (eavt_item x d) ''SK'' = Some (AvB (build_eavt_sk (attr_id d) (tx_id d) (dop d)))"
  "om_get (eavt_item x d) ''v'' = Some (value_attr x (dvalue d))"
  by (simp_all add: eavt_item_def base_datom_attrs_def Let_def split: option.split)

lemma items_store_of_datoms: "om_get (items (store_of_datoms ds)) k = map_of (rev (map datom_row ds)) k"
proof -
  have "items (fold (\<lambda>d. insert_indexed (fst (datom_row d)) (snd (datom_row d))) ds s)
      = fold (\<lambda>(k, it). om_put k it) (map datom_row ds) (items s)" for s
    by (induction ds arbitrary: s) (auto simp: case_prod_unfold)
  then show ?thesis by (simp add: store_of_datoms_def om.put_fold_get store_default_def split: option.split)
qed

lemma log_wf_store_of_datoms: "log_wf pk (store_of_datoms ds)"
proof -
  have "\<exists>d\<in>set ds. datom_row d = (k, it)" if "om_get (items (store_of_datoms ds)) k = Some it" for k it
    using that map_of_SomeD [of "rev (map datom_row ds)" k it] by (auto simp: items_store_of_datoms)
  then show ?thesis unfolding log_wf_def by (fastforce simp: datom_row_def)
qed

lemma mem_store_of_datoms: "om_mem k (items (store_of_datoms ds)) \<longleftrightarrow> k \<in> fst ` datom_row ` set ds"
proof -
  have "om_get (items (store_of_datoms ds)) k = None \<longleftrightarrow> k \<notin> fst ` set (rev (map datom_row ds))"
    unfolding items_store_of_datoms by (rule map_of_eq_None_iff)
  then show ?thesis by (simp add: om_mem_def)
qed

lemma sample_rows:
  "om_mem (entity_pk ''t'' ''E'', build_eavt_sk a t b) (items (store_of_datoms sample_log))
     \<longleftrightarrow> a = 18 \<and> (t = 5 \<and> b \<or> t = 9)"
  by (auto simp: mem_store_of_datoms sample_log_def datom_row_def datom_assert_def datom_retract_def eavt_pk_def)

lemma sample_label: "attr_label plain_registry 18 = ''attr_18''"
  by (simp add: attr_label_def get_attr_name_def plain_registry_def) code_simp

theorem pull_latest_witness:
  "om_get (fst (pull plain_ext plain_registry 0 ''t'' ''E'' None (store_of_datoms sample_log) om_empty)) ''attr_18''
     = Some (DvStr ''new'')"
proof -
  let ?s = "store_of_datoms sample_log" and ?pk = "entity_pk ''t'' ''E''"
  have get: "om_get (items ?s) (?pk, build_eavt_sk 18 9 True) = Some (eavt_item plain_ext (sample_log ! 2))"
    by (simp add: items_store_of_datoms sample_log_def datom_row_def datom_assert_def datom_retract_def eavt_pk_def)
  have "readable plain_ext ?pk ?s"
    by (auto simp: readable_def items_store_of_datoms sample_log_def datom_row_def datom_assert_def datom_retract_def
        extract_datom_value_def value_attr_def eavt_pk_def split: if_splits)
  moreover have "labels_ok (attr_label plain_registry) ?pk ?s" by (auto simp: labels_ok_def sample_rows)
  moreover have "cached 0 None ?pk om_empty = None" by (simp add: cached_def)
  ultimately have "om_get (fst (pull plain_ext plain_registry 0 ''t'' ''E'' None ?s om_empty)) (attr_label plain_registry 18)
      = Some (DvStr ''new'') \<longleftrightarrow> attr_wanted None (attr_label plain_registry 18)
        \<and> (\<exists>t it. om_get (items ?s) (?pk, build_eavt_sk 18 t True) = Some it
          \<and> extract_datom_value plain_ext it = Some (DvStr ''new'')
          \<and> (\<forall>t' b. om_mem (?pk, build_eavt_sk 18 t' b) (items ?s) \<longrightarrow> t' \<le> t))"
    using pull_latest [where tenant = "''t''" and eid = "''E''" and s = ?s
        and x = plain_ext and reg = plain_registry and now = 0 and attrs = None and c = om_empty and v = "DvStr ''new''"]
      log_wf_store_of_datoms [of ?pk sample_log] sample_rows [of 18 5 True] by blast
  moreover have "extract_datom_value plain_ext (eavt_item plain_ext (sample_log ! 2)) = Some (DvStr ''new'')"
    by (simp add: extract_datom_value_def sample_log_def datom_assert_def value_attr_def)
  moreover have "\<forall>t' b. om_mem (?pk, build_eavt_sk 18 t' b) (items ?s) \<longrightarrow> t' \<le> 9" by (auto simp: sample_rows)
  ultimately show ?thesis using get by (auto simp: sample_label attr_wanted_def)
qed

section \<open>Time travel\<close>

lemma query_cut_rows:
  "query None ''#pk = :pk AND #sk <= :sk_max'' (om_put '':sk_max'' (AvB m) (om_put '':pk'' (AvS pk) om_empty)) True None s
     = map snd (filter (\<lambda>((_, sk), _). sk \<le> m) (partition_rows pk s))"
proof -
  let ?vals = "om_put '':sk_max'' (AvB m) (om_put '':pk'' (AvS pk) om_empty) :: item"
  let ?c = "''#pk = :pk AND #sk <= :sk_max''"
  have c: "\<not> str_contains ''BETWEEN'' ?c" "str_contains ''<='' ?c" "\<not> str_contains ''begins_with'' ?c" by code_simp+
  then have r: "key_range_of ?c ?vals = \<lparr>kr_lte = True, kr_prefix = False, kr_min = None, kr_max = Some m, kr_pfx = None\<rparr>"
    by (simp add: key_range_of_def get_bytes_def)
  have "target_pk ?vals = pk" by (simp add: target_pk_def or_else_def unwrap_or_def)
  then have "query None ?c ?vals True None s = query_primary pk (key_range_of ?c ?vals) s"
    by (simp add: query_def page_def from_index_name_def)
  also have "\<dots> = map snd (filter (\<lambda>((p, sk), _). p = pk \<and> initial_sk (key_range_of ?c ?vals) \<le> sk
      \<and> sk_continues (key_range_of ?c ?vals) sk) (om_entries (items s)))"
    by (rule query_primary_scan) (simp add: r range_wf_def)
  also have "\<dots> = map snd (filter (\<lambda>((_, sk), _). sk \<le> m) (partition_rows pk s))"
    by (simp add: r initial_sk_def sk_continues_def partition_rows_def not_less case_prod_unfold conj_commute)
  finally show ?thesis .
qed

text \<open>C22: Reading an entity as of a transaction ignores the transaction. The upper bound of the sort keys
  is built with the greatest attribute number, which orders before the transaction, so the bound
  excludes no version of an attribute with a smaller number: as long as the entity has no attribute
  numbered 65535, every cut returns what an uncached read of the current state returns.\<close>

theorem pull_as_of_is_current:
  assumes "log_wf (entity_pk tenant eid) s" "\<forall>t b. \<not> om_mem (entity_pk tenant eid, build_eavt_sk 0xFFFF t b) (items s)"
  shows "pull_as_of x reg tenant eid as_of_tx attrs s = fst (pull x reg now tenant eid attrs s om_empty)"
proof -
  let ?pk = "entity_pk tenant eid" and ?m = "eavt_sk_as_of 0xFFFF as_of_tx"
  have "sk \<le> ?m" if r: "((p, sk), it) \<in> set (partition_rows ?pk s)" for p sk it
  proof -
    obtain a t b where sk: "sk = build_eavt_sk a t b" "p = ?pk" by (rule row_sk [OF assms(1) r])
    then have "om_mem (?pk, build_eavt_sk a t b) (items s)" using r by (simp add: in_partition_rows om_mem_def)
    then have "a \<noteq> 0xFFFF" using assms(2) by auto
    moreover have "unat a < 2 ^ LENGTH(16)" by (rule unsigned_less)
    moreover from this have "a \<le> 0xFFFF" by (simp add: word_le_nat_alt)
    ultimately have "a < 0xFFFF" by simp
    then show ?thesis using sk by (simp add: eavt_sk_as_of_def build_eavt_sk_less less_imp_le)
  qed
  then have "filter (\<lambda>((_, sk), _). sk \<le> ?m) (partition_rows ?pk s) = partition_rows ?pk s"
    by (intro filter_True) auto
  then show ?thesis
    using filter_exact_rows [OF assms(1)]
    by (simp add: pull_as_of_def Let_def query_cut_rows query_entity_rows [symmetric]
        pull_uncached [OF assms(1)] cached_def)
qed

text \<open>The sample's first value was replaced by transaction 9: a read as of transaction 5 returns the
  new value.\<close>

theorem pull_as_of_is_current_witness:
  "pull_as_of plain_ext plain_registry ''t'' ''E'' 5 None (store_of_datoms sample_log)
     = fst (pull plain_ext plain_registry 0 ''t'' ''E'' None (store_of_datoms sample_log) om_empty)"
  by (rule pull_as_of_is_current [OF log_wf_store_of_datoms]) (simp add: sample_rows)

section \<open>Values between write and read\<close>

text \<open>What the reader makes of a written value.\<close>

definition read_back :: "ext \<Rightarrow> datom_value \<Rightarrow> datom_value" where
  "read_back x v = (case v of
      DvInstant n \<Rightarrow> DvLong n
    | DvUuid s \<Rightarrow> DvStr s
    | DvRef r \<Rightarrow> if unat r < 2 ^ 63 then DvLong (int (unat r)) else DvBigInt (int (unat r))
    | DvBigInt n \<Rightarrow> if in_s 64 n then DvLong n else DvBigInt n
    | DvDouble d \<Rightarrow> unwrap_or (number_value x (x_f64_display x d)) DvNull
    | DvArray a \<Rightarrow> DvStr (x_json_text x (JArr (map JStr a)))
    | DvGeo lat lon \<Rightarrow> DvStr (x_f64_display x lat @ '','' @ x_f64_display x lon)
    | _ \<Rightarrow> v)"

definition value_in_range :: "ext \<Rightarrow> datom_value \<Rightarrow> bool" where
  "value_in_range x v = (case v of
      DvLong n \<Rightarrow> in_s 64 n
    | DvInstant n \<Rightarrow> in_s 64 n
    | DvBigInt n \<Rightarrow> in_s 128 n
    | DvDouble d \<Rightarrow> number_value x (x_f64_display x d) \<noteq> None
    | _ \<Rightarrow> True)"

lemma parse_signed_int_str:
  "(case int_str n of [] \<Rightarrow> None
     | c # cs \<Rightarrow> if c = CHR ''-'' then map_option (\<lambda>k. - int k) (parse_nat cs)
       else if c = CHR ''+'' then map_option int (parse_nat cs) else map_option int (parse_nat (int_str n))) = Some n"
proof -
  obtain d r where d: "nat_str (nat n) = digit_char d # r" "d < 10" using hd_nat_str by blast
  have "parse_nat (digit_char d # r) = Some (nat n)" using d(1) parse_nat_nat_str by metis
  with d show ?thesis by (auto simp: int_str_def)
qed

lemma parse_i128_int_str: "parse_i128 (int_str n) = (if in_s 128 n then Some n else None)"
  unfolding parse_i128_def Let_def parse_signed_int_str by simp

lemma parse_i64_int_str_iff: "parse_i64 (int_str n) = (if in_s 64 n then Some n else None)"
  unfolding parse_i64_def Let_def parse_signed_int_str by simp

lemma set_nat_str: "set (nat_str n) \<subseteq> digit_char ` {..<10}"
  by (induction n rule: nat_str.induct) (auto simp: nat_str.simps split: if_splits)

lemma set_int_str: "set (int_str n) \<subseteq> insert (CHR ''-'') (digit_char ` {..<10})"
  using set_nat_str by (auto simp: int_str_def split: if_splits)

lemma digit_val_none: "digit_val c = None \<Longrightarrow> c \<noteq> CHR ''-'' \<Longrightarrow> c \<notin> set (int_str n)"
  using set_int_str [of n] by auto

lemma number_value_int_str: "in_s 128 n \<Longrightarrow> number_value x (int_str n) = Some (if in_s 64 n then DvLong n else DvBigInt n)"
proof -
  have "c \<notin> set (int_str n)" if "c \<in> {CHR ''.'', CHR ''e'', CHR ''E''}" for c
    using that by (intro digit_val_none) (auto simp: digit_val_def)
  then show "in_s 128 n \<Longrightarrow> ?thesis"
    by (auto simp: number_value_def parse_i64_int_str_iff parse_i128_int_str split: option.split)
qed

lemma in_s_128_of_64: "in_s 64 n \<Longrightarrow> in_s 128 n"
  by (simp add: in_s_def)

lemma number_value_nat_str:
  "n < 2 ^ 127 \<Longrightarrow> number_value x (nat_str n) = Some (if n < 2 ^ 63 then DvLong (int n) else DvBigInt (int n))"
  using number_value_int_str [of "int n" x] by (simp add: int_str_def in_s_def)

lemma written_value_readback_aux:
  assumes "value_in_range x (dvalue d)"
  shows "extract_datom_value x (eavt_item x d) = Some (read_back x (dvalue d))"
proof (cases "dvalue d")
  case (DvLong n)
  then show ?thesis using assms in_s_128_of_64
    by (simp add: extract_datom_value_def value_attr_def read_back_def value_in_range_def number_value_def)
next
  case (DvInstant n)
  then show ?thesis using assms in_s_128_of_64
    by (simp add: extract_datom_value_def value_attr_def read_back_def value_in_range_def number_value_def)
next
  case (DvBigInt n)
  then show ?thesis using assms
    by (simp add: extract_datom_value_def value_attr_def read_back_def value_in_range_def number_value_int_str)
next
  case (DvRef r)
  have "unat r < 2 ^ LENGTH(64)" by (rule unsigned_less)
  then have "number_value x (nat_str (unat r))
      = Some (if unat r < 2 ^ 63 then DvLong (int (unat r)) else DvBigInt (int (unat r)))"
    by (intro number_value_nat_str) simp
  then show ?thesis using DvRef by (simp add: extract_datom_value_def value_attr_def read_back_def)
next
  case (DvDouble w)
  then show ?thesis using assms
    by (auto simp: extract_datom_value_def value_attr_def read_back_def value_in_range_def unwrap_or_def)
qed (simp_all add: extract_datom_value_def value_attr_def read_back_def)

text \<open>C23: What is read of a written value. Null, booleans, integers of 64 bits, texts and bytes come back as
  they were; an instant comes back as an integer and an identifier as a text; a reference and a big
  integer come back as an integer of 64 bits when they fit and as a big integer otherwise; arrays,
  coordinates and doubles come back as their printed forms are read. No value in the range of its
  type becomes unreadable.\<close>

theorem written_value_readback:
  assumes "value_in_range x (dvalue d)"
  shows "extract_datom_value x (eavt_item x d) = Some (read_back x (dvalue d))"
  by (rule written_value_readback_aux [OF assms])

theorem written_value_readback_witness:
  "extract_datom_value plain_ext (eavt_item plain_ext (datom_assert ''t'' ''E'' ''due'' 7 (DvInstant 1700000000000) 5))
     = Some (DvLong 1700000000000)"
  using written_value_readback [of plain_ext "datom_assert ''t'' ''E'' ''due'' 7 (DvInstant 1700000000000) 5"]
  by (simp add: value_in_range_def datom_assert_def read_back_def)

end
