(* ===== verification/JanusSaga.thy ===== *)
theory JanusSaga
  imports EavCorrect CodiceValidator
begin

text \<open>The projection of a mother entity onto its scheduled jobs and their reconciliation
  (\<^verbatim>\<open>src/janus_router/saga.rs\<close>). The parser of RFC 3339 instants and the identifiers drawn are
  arguments, the store a job reads is fixed during a projection, and the read cache is threaded.\<close>

record live_saga_job =
  lj_job_id :: string
  lj_idempotency_hash :: "string option"
  lj_status :: string

record saga_reconciliation =
  sr_to_create :: "saga_projection list"
  sr_to_delete :: "string list"
  sr_to_restatus :: "(string \<times> string) list"

text \<open>What a projection takes from outside.\<close>

record saga_env =
  sg_tx :: tx_env
  sg_val :: validation_env
  sg_rfc3339 :: "string \<Rightarrow> int option"
  sg_store :: partition_store

section \<open>Triggers\<close>

definition non_empty :: "string option \<Rightarrow> string option" where
  "non_empty s = Option.bind s (\<lambda>t. if t = [] then None else Some t)"

definition iso_to_epoch_secs :: "(string \<Rightarrow> int option) \<Rightarrow> string \<Rightarrow> int res" where
  "iso_to_epoch_secs rfc3339 text = ok_or Jns001 (rfc3339 text)"

definition resolve_trigger :: "(string \<Rightarrow> int option) \<Rightarrow> (string \<times> json) list \<Rightarrow> json \<Rightarrow> int res" where
  "resolve_trigger rfc3339 mapping payload =
     rbind (ok_or Jns001 (non_empty (Option.bind (map_of mapping ''trigger_source'') as_str))) (\<lambda>source.
     rbind (ok_or Jns001 (non_empty (Option.bind (json_get payload source) as_str))) (\<lambda>text.
       iso_to_epoch_secs rfc3339 text))"

definition notice_list :: "json list \<Rightarrow> int list" where
  "notice_list a = sorted_list_of_set (set (filter (\<lambda>n. n > 0) (List.map_filter as_i64 a)))"

definition prenotify_offsets :: "json \<Rightarrow> int list" where
  "prenotify_offsets payload =
    (case Option.bind (json_get payload ''prenotify_before_minutes'') as_array of
       Some a \<Rightarrow> notice_list a
     | None \<Rightarrow> (case Option.bind (json_get payload ''prenotify_minutes_array'') as_array of
         Some a \<Rightarrow> notice_list a | None \<Rightarrow> []))"

definition sha256_hex :: "(bytes \<Rightarrow> bytes) \<Rightarrow> string list \<Rightarrow> string" where
  "sha256_hex sha parts = hex_encode (sha (concat (map (\<lambda>p. str_bytes (p @ ''|'')) parts)))"

section \<open>Paths\<close>

fun assoc_path_inner :: "(string, json) omap \<Rightarrow> string list \<Rightarrow> json \<Rightarrow> (string, json) omap" where
  "assoc_path_inner m [] v = m"
| "assoc_path_inner m [p] v = om_put p v m"
| "assoc_path_inner m (p # ps) v =
    om_put p (JObj (om_entries (assoc_path_inner
      (om_of_list (unwrap_or (Option.bind (om_get m p) as_object) [])) ps v))) m"

definition assoc_path :: "(string, json) omap \<Rightarrow> string \<Rightarrow> json \<Rightarrow> (string, json) omap" where
  "assoc_path m dest v = assoc_path_inner m (split_char (CHR ''.'') dest) v"

definition non_null :: "json option \<Rightarrow> json option" where
  "non_null v = (if v = Some JNull then None else v)"

text \<open>The source of a mapped attribute: a constant, the mother, a field of the payload, or an attribute
  of the entity a field refers to, which is read.\<close>

definition resolve_source ::
  "saga_env \<Rightarrow> string \<Rightarrow> json \<Rightarrow> string \<Rightarrow> json list \<Rightarrow> eav_cache \<Rightarrow> json option \<times> eav_cache" where
  "resolve_source sg tenant payload parent src c = (case src of
      [] \<Rightarrow> (None, c)
    | [a] \<Rightarrow> (Option.bind (as_str a) (\<lambda>s. case strip_prefix ''__const:'' s of
          Some k \<Rightarrow> Some (JStr k)
        | None \<Rightarrow> if s = ''__self'' then Some (JStr parent) else non_null (json_get payload s)), c)
    | a # b # _ \<Rightarrow>
       (case (as_str a, as_str b) of
          (Some ref_field, Some target) \<Rightarrow>
            (case Option.bind (json_get payload ref_field) as_str of
               None \<Rightarrow> (None, c)
             | Some ref_id \<Rightarrow>
                (case pull (te_ext (sg_tx sg)) (te_reg (sg_tx sg)) (te_mono (sg_tx sg)) tenant ref_id (Some [target])
                   (sg_store sg) c of
                   (m, c1) \<Rightarrow> (non_null (json_get (datom_map_to_json (te_ext (sg_tx sg)) (om_entries m)) target), c1)))
        | _ \<Rightarrow> (None, c)))"

definition map_dest ::
  "saga_env \<Rightarrow> string \<Rightarrow> json \<Rightarrow> string \<Rightarrow> string \<times> json \<Rightarrow> (string, json) omap \<times> eav_cache
    \<Rightarrow> (string, json) omap \<times> eav_cache" where
  "map_dest sg tenant payload parent kv st = (case kv of (dest, src) \<Rightarrow> case st of (obj, c) \<Rightarrow>
     (case as_array src of
        None \<Rightarrow> st
      | Some a \<Rightarrow> (case resolve_source sg tenant payload parent a c of
          (Some v, c1) \<Rightarrow> (assoc_path obj dest v, c1) | (None, c1) \<Rightarrow> (obj, c1))))"

section \<open>Projections\<close>

definition base_job :: "string \<Rightarrow> json \<Rightarrow> string \<Rightarrow> string \<Rightarrow> string \<Rightarrow> int \<Rightarrow> (string, json) omap" where
  "base_job entity payload parent created_by expr offset = om_of_list
    [(''action_payload'', JObj [(''content'', JObj []), (''offset_minutes'', JInt offset),
        (''source_entity'', JStr entity), (''source_id'', JStr parent)]),
     (''action_type'', JStr ''DISPATCH_NOTIFICATION''), (''created_by'', JStr created_by),
     (''iana_timezone'', JStr (unwrap_or (Option.bind (json_get payload ''iana_timezone'') as_str) ''UTC'')),
     (''parent_entity_ref'', JStr parent), (''run_count'', JInt 0), (''status'', JStr ''ACTIVE''),
     (''trigger_expression'', JStr expr), (''trigger_type'', JStr ''EXACT_TIME'')]"

definition trigger_expr :: "int \<Rightarrow> int \<Rightarrow> string" where
  "trigger_expr base_epoch offset = int_str (i64 (base_epoch - i64 (offset * 60)))"

definition job_hash :: "ext \<Rightarrow> string \<Rightarrow> string \<Rightarrow> int \<Rightarrow> (string, json) omap \<Rightarrow> string" where
  "job_hash x parent expr offset obj = sha256_hex (x_sha x)
     [parent, expr, int_str offset, (case om_get obj ''action_payload'' of Some v \<Rightarrow> x_json_text x v | None \<Rightarrow> [])]"

definition project_job ::
  "saga_env \<Rightarrow> string \<Rightarrow> entity_model \<Rightarrow> entity_model \<Rightarrow> (string \<times> json) list \<Rightarrow> json \<Rightarrow> string \<Rightarrow> string \<Rightarrow> int
    \<Rightarrow> int \<times> string \<Rightarrow> eav_cache \<Rightarrow> saga_projection res \<times> eav_cache" where
  "project_job sg tenant m job_model mapping payload parent created_by base_epoch ju c = (case ju of (offset, job_id) \<Rightarrow>
     let expr = trigger_expr base_epoch offset in
     case fold (map_dest sg tenant payload parent) mapping
         (base_job (em_entity m) payload parent created_by expr offset, c) of (obj, c1) \<Rightarrow>
       (let obj1 = om_put ''idempotency_hash'' (JStr (job_hash (te_ext (sg_tx sg)) parent expr offset obj)) obj in
        case validate_payload (sg_val sg) job_model (JObj (om_entries obj1)) True of
          Inl _ \<Rightarrow> (Inl Jns001, c1)
        | Inr attrs \<Rightarrow> (Inr \<lparr>sp_entity_type = ''scheduled_job'', sp_entity_id = job_id, sp_attrs = om_entries attrs\<rparr>, c1)))"

fun project_jobs ::
  "(int \<times> string \<Rightarrow> eav_cache \<Rightarrow> saga_projection res \<times> eav_cache) \<Rightarrow> (int \<times> string) list \<Rightarrow> eav_cache
    \<Rightarrow> saga_projection list res \<times> eav_cache" where
  "project_jobs f [] c = (Inr [], c)"
| "project_jobs f (j # js) c = (case f j c of
      (Inl e, c1) \<Rightarrow> (Inl e, c1)
    | (Inr p, c1) \<Rightarrow> (case project_jobs f js c1 of
        (Inl e, c2) \<Rightarrow> (Inl e, c2) | (Inr ps, c2) \<Rightarrow> (Inr (p # ps), c2)))"

text \<open>One job for each notice and one for the trigger itself; the identifiers of the jobs are drawn.\<close>

definition build_saga_projections ::
  "saga_env \<Rightarrow> (nat \<Rightarrow> string) \<Rightarrow> string \<Rightarrow> entity_model \<Rightarrow> json \<Rightarrow> string \<Rightarrow> string \<Rightarrow> eav_cache
    \<Rightarrow> saga_projection list res \<times> eav_cache" where
  "build_saga_projections sg ulids tenant m payload parent created_by c =
    (case Option.bind (em_shadow_sagas_mapping m) as_object of
       None \<Rightarrow> (Inr [], c)
     | Some [] \<Rightarrow> (Inr [], c)
     | Some mapping \<Rightarrow>
        (case rbind (ok_or Jns001 (get_model (te_reg (sg_tx sg)) ''scheduled_job'')) (\<lambda>jm.
              rbind (resolve_trigger (sg_rfc3339 sg) mapping payload) (\<lambda>b. Inr (jm, b))) of
           Inl e \<Rightarrow> (Inl e, c)
         | Inr (jm, b) \<Rightarrow>
            (let offsets = prenotify_offsets payload @ [0] in
             project_jobs (project_job sg tenant m jm mapping payload parent created_by b)
               (zip offsets (map ulids [0..<length offsets])) c)))"

section \<open>Reconciliation\<close>

definition desired_job_status :: "string option \<Rightarrow> string" where
  "desired_job_status s = (if s = None \<or> s = Some ''ACTIVE'' then ''ACTIVE'' else ''SUSPENDED'')"

definition projection_hash :: "saga_projection \<Rightarrow> string option" where
  "projection_hash p = (case map_of (sp_attrs p) ''idempotency_hash'' of Some (DvStr h) \<Rightarrow> Some h | _ \<Rightarrow> None)"

text \<open>The loop over the live jobs: the hashes left, the orphans and the changes of status.\<close>

fun diff_live ::
  "string \<Rightarrow> live_saga_job list \<Rightarrow> string set \<Rightarrow> string set \<times> string list \<times> (string \<times> string) list" where
  "diff_live d [] pending = (pending, [], [])"
| "diff_live d (j # js) pending = (case lj_idempotency_hash j of
      None \<Rightarrow> diff_live d js pending
    | Some h \<Rightarrow>
        if h \<in> pending then (case diff_live d js (pending - {h}) of (p, dels, res) \<Rightarrow>
          (p, dels, if lj_status j \<in> {''ACTIVE'', ''SUSPENDED'', ''PENDING''} \<and> lj_status j \<noteq> d
                    then (lj_job_id j, d) # res else res))
        else (case diff_live d js pending of (p, dels, res) \<Rightarrow> (p, lj_job_id j # dels, res)))"

definition diff_sagas :: "saga_projection list \<Rightarrow> live_saga_job list \<Rightarrow> string \<Rightarrow> saga_reconciliation" where
  "diff_sagas desired live d =
    (case diff_live d live (set (List.map_filter projection_hash desired)) of (pending, dels, res) \<Rightarrow>
       \<lparr>sr_to_create = filter (\<lambda>p. case projection_hash p of Some h \<Rightarrow> h \<in> pending | None \<Rightarrow> False) desired,
        sr_to_delete = dels, sr_to_restatus = res\<rparr>)"

section \<open>Convergence\<close>

text \<open>The live jobs after a reconciliation was carried out.\<close>

definition job_after :: "(string \<times> string) list \<Rightarrow> live_saga_job \<Rightarrow> live_saga_job" where
  "job_after res j = (case map_of res (lj_job_id j) of Some t \<Rightarrow> j\<lparr>lj_status := t\<rparr> | None \<Rightarrow> j)"

definition created_job :: "saga_projection \<Rightarrow> live_saga_job" where
  "created_job p = \<lparr>lj_job_id = sp_entity_id p, lj_idempotency_hash = projection_hash p,
     lj_status = (case map_of (sp_attrs p) ''status'' of Some (DvStr t) \<Rightarrow> t | _ \<Rightarrow> [])\<rparr>"

definition reconciled :: "saga_reconciliation \<Rightarrow> live_saga_job list \<Rightarrow> live_saga_job list" where
  "reconciled r live = map (job_after (sr_to_restatus r)) (filter (\<lambda>j. lj_job_id j \<notin> set (sr_to_delete r)) live)
     @ map created_job (sr_to_create r)"

lemma job_after_fields [simp]:
  "lj_idempotency_hash (job_after res j) = lj_idempotency_hash j" "lj_job_id (job_after res j) = lj_job_id j"
  by (simp_all add: job_after_def split: option.split)

lemma diff_live_ids:
  "diff_live d js P = (Q, dels, res) \<Longrightarrow> set dels \<union> fst ` set res \<subseteq> lj_job_id ` set js"
proof (induction js arbitrary: P Q dels res)
  case (Cons j js)
  show ?case
  proof (cases "lj_idempotency_hash j")
    case None
    then have "diff_live d js P = (Q, dels, res)" using Cons.prems by simp
    from Cons.IH [OF this] show ?thesis by auto
  next
    case (Some h)
    obtain R a b where r: "diff_live d js (if h \<in> P then P - {h} else P) = (R, a, b)" using prod_cases3 by blast
    note ih = Cons.IH [OF r, unfolded Un_subset_iff]
    have "set dels \<subseteq> insert (lj_job_id j) (set a)" "set res \<subseteq> insert (lj_job_id j, d) (set b)"
      using Cons.prems Some r by (auto split: if_splits)
    then have "set dels \<subseteq> insert (lj_job_id j) (set a)" "fst ` set res \<subseteq> insert (lj_job_id j) (fst ` set b)"
      by (auto dest!: subsetD)
    then show ?thesis unfolding Un_subset_iff list.set image_insert
      using ih subset_trans [OF _ insert_mono] by metis
  qed
qed simp

lemma diff_live_append:
  "diff_live d (xs @ ys) P = (case diff_live d xs P of (Q, a, b) \<Rightarrow> case diff_live d ys Q of (R, a', b') \<Rightarrow> (R, a @ a', b @ b'))"
  by (induction xs arbitrary: P) (auto split: option.split prod.splits)

lemma map_after_skip:
  assumes "i \<notin> lj_job_id ` set js"
  shows "map (job_after ((i, d) # res)) (filter P js) = map (job_after res) (filter P js)"
    and "filter (\<lambda>j. lj_job_id j \<noteq> i \<and> lj_job_id j \<notin> D) js = filter (\<lambda>j. lj_job_id j \<notin> D) js"
  using assms by (auto simp: job_after_def intro: filter_cong split: option.split)

text \<open>A second pass over the jobs that stayed finds nothing to do.\<close>

lemma diff_live_again:
  assumes "distinct (map lj_job_id js)" "diff_live d js P = (Q, dels, res)"
  shows "diff_live d (map (job_after res) (filter (\<lambda>j. lj_job_id j \<notin> set dels) js)) P = (Q, [], [])"
  using assms
proof (induction js arbitrary: P Q dels res)
  case (Cons j js)
  have new: "lj_job_id j \<notin> lj_job_id ` set js" using Cons.prems(1) by simp
  show ?case
  proof (cases "lj_idempotency_hash j")
    case None
    then have d: "diff_live d js P = (Q, dels, res)" using Cons.prems(2) by simp
    have "lj_job_id j \<notin> set dels" using diff_live_ids [OF d] new by blast
    then show ?thesis using Cons.IH [OF _ d] Cons.prems(1) None by simp
  next
    case (Some h)
    show ?thesis
    proof (cases "h \<in> P")
      case True
      obtain dels' res' where d: "diff_live d js (P - {h}) = (Q, dels', res')"
        and r: "dels = dels'" "res = (if lj_status j \<in> {''ACTIVE'', ''SUSPENDED'', ''PENDING''} \<and> lj_status j \<noteq> d
          then (lj_job_id j, d) # res' else res')"
        using Cons.prems(2) Some True by (auto split: prod.splits)
      have n: "lj_job_id j \<notin> set dels" "lj_job_id j \<notin> fst ` set res'" using diff_live_ids [OF d] new r(1) by blast+
      have same: "map (job_after res) (filter (\<lambda>j. lj_job_id j \<notin> set dels) js)
          = map (job_after res') (filter (\<lambda>j. lj_job_id j \<notin> set dels) js)"
        using map_after_skip(1) [OF new] r(2) by auto
      have keep: "lj_status (job_after res j) \<in> {''ACTIVE'', ''SUSPENDED'', ''PENDING''} \<longrightarrow> lj_status (job_after res j) = d"
      proof -
        have "map_of res' (lj_job_id j) = None" using n(2) by (simp add: map_of_eq_None_iff)
        then show ?thesis using r(2) by (auto simp: job_after_def)
      qed
      show ?thesis using Cons.IH [OF _ d] Cons.prems(1) n(1) r(1) True Some keep unfolding same [unfolded r(1)]
        by (auto simp: same [unfolded r(1)])
    next
      case False
      obtain dels' where d: "diff_live d js P = (Q, dels', res)" and r: "dels = lj_job_id j # dels'"
        using Cons.prems(2) Some False by (auto split: prod.splits)
      show ?thesis using Cons.IH [OF _ d] Cons.prems(1) map_after_skip(2) [OF new] r by simp
    qed
  qed
qed simp

lemma diff_live_created:
  assumes "distinct (map projection_hash ps)" "\<forall>p\<in>set ps. \<exists>h\<in>Q. projection_hash p = Some h"
    and "\<forall>p\<in>set ps. lj_status (created_job p) = d"
  shows "diff_live d (map created_job ps) Q = (Q - set (List.map_filter projection_hash ps), [], [])"
  using assms
proof (induction ps arbitrary: Q)
  case (Cons p ps)
  obtain h where h: "h \<in> Q" "projection_hash p = Some h" using Cons.prems(2) by auto
  have "\<exists>k\<in>Q - {h}. projection_hash q = Some k" if "q \<in> set ps" for q
    using that Cons.prems(1,2) h(2) by (fastforce simp: image_iff)
  then have "diff_live d (map created_job ps) (Q - {h}) = (Q - {h} - set (List.map_filter projection_hash ps), [], [])"
    using Cons by auto
  moreover have "lj_idempotency_hash (created_job p) = Some h" "lj_status (created_job p) = d"
    using h(2) Cons.prems(3) by (simp_all add: created_job_def)
  ultimately show ?case using h by (auto simp: List.map_filter_simps)
qed (simp add: List.map_filter_simps)

lemma diff_live_hashes:
  assumes "diff_live d js P = (Q, [], res)"
  shows "distinct (List.map_filter lj_idempotency_hash js) \<and> Q = P - set (List.map_filter lj_idempotency_hash js)
    \<and> set (List.map_filter lj_idempotency_hash js) \<subseteq> P"
  using assms
proof (induction js arbitrary: P Q res)
  case (Cons j js)
  then show ?case
    by (cases "lj_idempotency_hash j") (fastforce simp: List.map_filter_simps split: if_splits prod.splits)+
qed (simp add: List.map_filter_simps)

lemma diff_sagas_converges:
  assumes "distinct (map projection_hash desired)" "\<forall>p\<in>set desired. projection_hash p \<noteq> None"
    and "\<forall>p\<in>set desired. lj_status (created_job p) = d" "distinct (map lj_job_id live)"
  shows "diff_sagas desired (reconciled (diff_sagas desired live d) live) d
      = \<lparr>sr_to_create = [], sr_to_delete = [], sr_to_restatus = []\<rparr>
    \<and> distinct (List.map_filter lj_idempotency_hash (reconciled (diff_sagas desired live d) live))
    \<and> set (List.map_filter lj_idempotency_hash (reconciled (diff_sagas desired live d) live))
      = set (List.map_filter projection_hash desired)"
proof -
  let ?P = "set (List.map_filter projection_hash desired)"
  obtain Q dels res where one: "diff_live d live ?P = (Q, dels, res)" using prod_cases3 by blast
  define cs where "cs = filter (\<lambda>p. case projection_hash p of Some h \<Rightarrow> h \<in> Q | None \<Rightarrow> False) desired"
  define live' where "live' = reconciled (diff_sagas desired live d) live"
  have live': "live' = map (job_after res) (filter (\<lambda>j. lj_job_id j \<notin> set dels) live) @ map created_job cs"
    by (simp add: live'_def reconciled_def diff_sagas_def one cs_def)
  note again = diff_live_again [OF assms(4) one]
  have Q: "Q \<subseteq> ?P" using diff_live_hashes [OF again] by blast
  have cs: "distinct (map projection_hash cs)" "\<forall>p\<in>set cs. \<exists>h\<in>Q. projection_hash p = Some h"
    "\<forall>p\<in>set cs. lj_status (created_job p) = d"
    using assms(1,3) by (auto simp: cs_def distinct_map inj_on_def split: option.splits)
  have all: "Q - set (List.map_filter projection_hash cs) = {}"
  proof -
    have "\<exists>p\<in>set cs. projection_hash p = Some h" if "h \<in> Q" for h
    proof -
      obtain p where "p \<in> set desired" "projection_hash p = Some h" using Q \<open>h \<in> Q\<close> by (auto simp: List.map_filter_def)
      then show ?thesis using \<open>h \<in> Q\<close> by (auto simp: cs_def)
    qed
    then show ?thesis by (force simp: List.map_filter_def)
  qed
  have two: "diff_live d live' ?P = ({}, [], [])"
    using again diff_live_created [OF cs] all by (simp add: live' diff_live_append)
  then have "diff_sagas desired live' d = \<lparr>sr_to_create = [], sr_to_delete = [], sr_to_restatus = []\<rparr>"
    by (simp add: diff_sagas_def filter_empty_conv split: option.split)
  then show ?thesis using diff_live_hashes [OF two] unfolding live'_def by blast
qed

section \<open>Hashes\<close>

lemma hex_digit_inject: "hex_digit a = hex_digit b \<longleftrightarrow> unat a mod 16 = unat b mod 16"
proof -
  have "distinct ''0123456789abcdef''" by simp
  then show ?thesis unfolding hex_digit_def by (subst nth_eq_iff_index_eq) simp_all
qed

lemma hex_encode_inject: "hex_encode a = hex_encode b \<longleftrightarrow> a = b"
proof (induction a arbitrary: b)
  case Nil
  then show ?case by (cases b) (simp_all add: hex_encode_def)
next
  case (Cons x xs)
  have same: "x = y" if "unat x mod 16 = unat y mod 16" "unat (drop_bit 4 x) mod 16 = unat (drop_bit 4 y) mod 16" for y :: byte
  proof -
    have d: "unat (drop_bit 4 z) = unat z div 16" for z :: byte
      unfolding unat_drop_bit_eq by (simp add: drop_bit_eq_div)
    have "unat x < 256" "unat y < 256" using unsigned_less [of x, where ?'a = nat] unsigned_less [of y, where ?'a = nat] by simp_all
    then have "unat x div 16 = unat y div 16" using that(2) unfolding d by simp
    then have "unat x = unat y" using that(1) by (metis div_mult_mod_eq)
    then show ?thesis by (rule unsigned_word_eqI)
  qed
  show ?case
  proof (cases b)
    case (Cons y ys)
    then show ?thesis using Cons.IH [of ys] same by (auto simp: hex_encode_def hex_digit_inject)
  qed (simp add: hex_encode_def)
qed

lemma split_bar: "CHR ''|'' \<notin> set a \<Longrightarrow> CHR ''|'' \<notin> set b \<Longrightarrow> a @ ''|'' @ r = b @ ''|'' @ t \<longleftrightarrow> a = b \<and> r = t"
proof (induction a arbitrary: b)
  case Nil
  then show ?case by (cases b) auto
next
  case (Cons c a)
  then show ?case by (cases b) auto
qed

lemma int_str_no_bar: "CHR ''|'' \<notin> set (int_str n)"
  by (rule digit_val_none) (simp_all add: digit_val_def)

lemma int_str_inject: "int_str m = int_str n \<longleftrightarrow> m = n"
proof
  assume e: "int_str m = int_str n"
  show "m = n" using parse_signed_int_str [of m] parse_signed_int_str [of n] unfolding e by simp
qed simp

lemma job_hash_offset:
  assumes "inj (x_sha x)" "job_hash x parent (trigger_expr b o1) o1 obj1 = job_hash x parent (trigger_expr b o2) o2 obj2"
  shows "o1 = o2"
proof -
  have bytes: "concat (map (\<lambda>p. str_bytes (p @ ''|'')) [p, e, o', f]) = str_bytes (p @ ''|'' @ e @ ''|'' @ o' @ ''|'' @ f @ ''|'')"
    for p e o' f by (simp only: str_bytes_append list.map concat.simps append_assoc append_Nil2)
  define pay where "pay = (\<lambda>obj. case om_get obj ''action_payload'' of Some v \<Rightarrow> x_json_text x v | None \<Rightarrow> [])"
  have "str_bytes (parent @ ''|'' @ trigger_expr b o1 @ ''|'' @ int_str o1 @ ''|'' @ pay obj1 @ ''|'')
      = str_bytes (parent @ ''|'' @ trigger_expr b o2 @ ''|'' @ int_str o2 @ ''|'' @ pay obj2 @ ''|'')"
    using assms(2) injD [OF assms(1)] unfolding job_hash_def sha256_hex_def hex_encode_inject bytes pay_def by blast
  then have "trigger_expr b o1 @ ''|'' @ int_str o1 @ ''|'' @ pay obj1 @ ''|''
      = trigger_expr b o2 @ ''|'' @ int_str o2 @ ''|'' @ pay obj2 @ ''|''"
    unfolding str_bytes_inject same_append_eq .
  then show ?thesis
    unfolding trigger_expr_def split_bar [OF int_str_no_bar int_str_no_bar] int_str_inject by blast
qed

text \<open>A text attribute of a validated payload has the text of the payload.\<close>

lemma validate_fold_text:
  assumes "map_of kvs n = Some (JStr s)" "\<forall>d\<in>set ds. ad_name d = n \<longrightarrow> ad_type d = AtString"
    and "om_get m n = None \<or> om_get m n = Some (DvStr s)"
  shows "om_get (fst (fold (validate_attr env is_create kvs) ds (m, viol))) n \<in> {None, Some (DvStr s)}"
  using assms(2,3)
proof (induction ds arbitrary: m viol)
  case (Cons d ds)
  obtain m1 v1 where st: "validate_attr env is_create kvs d (m, viol) = (m1, v1)" by fastforce
  have "om_get m1 n = None \<or> om_get m1 n = Some (DvStr s)"
  proof (cases "ad_name d = n")
    case True
    then have "validate_attr env is_create kvs d (m, viol) = (om_put n (DvStr s) m, v1)"
      using Cons.prems(1) st assms(1)
      by (auto simp: validate_attr_def map_to_datom_value_def as_str_def ok_or_def Let_def)
    then show ?thesis using st by simp
  next
    case False
    then show ?thesis using st Cons.prems(2)
      by (auto simp: validate_attr_def Let_def split: option.splits if_splits sum.splits)
  qed
  then show ?case using Cons st by simp
qed auto

lemma validate_text:
  assumes "validate_payload env m (JObj kvs) is_create = Inr attrs" "map_of kvs n = Some (JStr s)"
    and "\<forall>d\<in>set (em_attributes m). ad_name d = n \<longrightarrow> ad_type d = AtString" "n \<in> ad_name ` set (em_attributes m)"
  shows "om_get attrs n = Some (DvStr s)"
proof -
  have f: "fold (validate_attr env is_create kvs) (em_attributes m) (om_empty, []) = (attrs, [])"
    using assms(1) by (auto simp: validate_payload_def as_object_def ok_or_def split: prod.splits if_splits)
  have "checked is_create kvs (em_attributes m) attrs"
    using validate_fold_checked [OF f, of "[]"] by (simp add: checked_def)
  then have "om_get attrs n \<noteq> None" using assms(2,4) by (fastforce simp: checked_def attr_ok_def)
  then show ?thesis using validate_fold_text [OF assms(2,3), of om_empty env is_create "[]"] f by auto
qed

lemma project_job_hash:
  assumes "project_job sg tenant m jm mapping payload parent actor b (offset, i) c = (Inr p, c')"
    and "\<forall>d\<in>set (em_attributes jm). ad_name d = ''idempotency_hash'' \<longrightarrow> ad_type d = AtString"
    and "''idempotency_hash'' \<in> ad_name ` set (em_attributes jm)"
  shows "\<exists>obj. projection_hash p = Some (job_hash (te_ext (sg_tx sg)) parent (trigger_expr b offset) offset obj)"
proof -
  obtain obj c1 where f: "fold (map_dest sg tenant payload parent) mapping
      (base_job (em_entity m) payload parent actor (trigger_expr b offset) offset, c) = (obj, c1)" by fastforce
  define h where "h = job_hash (te_ext (sg_tx sg)) parent (trigger_expr b offset) offset obj"
  obtain attrs where v: "validate_payload (sg_val sg) jm (JObj (om_entries (om_put ''idempotency_hash'' (JStr h) obj))) True = Inr attrs"
    and p: "p = \<lparr>sp_entity_type = ''scheduled_job'', sp_entity_id = i, sp_attrs = om_entries attrs\<rparr>"
    using assms(1) f by (auto simp: project_job_def Let_def h_def split: sum.splits)
  have "om_get attrs ''idempotency_hash'' = Some (DvStr h)"
    by (rule validate_text [OF v _ assms(2,3)]) (simp add: om_get.rep_eq [symmetric] om_entries.rep_eq)
  then show ?thesis unfolding h_def by (auto simp: projection_hash_def p om_get.rep_eq om_entries.rep_eq)
qed

lemma project_jobs_all:
  assumes "project_jobs f js c = (Inr ps, c')"
  shows "list_all2 (\<lambda>j p. \<exists>c1 c2. f j c1 = (Inr p, c2)) js ps"
  using assms
proof (induction js arbitrary: c ps c')
  case (Cons j js)
  obtain r c1 where f: "f j c = (r, c1)" by fastforce
  obtain p where r: "r = Inr p" using Cons.prems f by (cases r) auto
  obtain q c2 where rest: "project_jobs f js c1 = (q, c2)" by fastforce
  then obtain qs where "q = Inr qs" "ps = p # qs" using Cons.prems f r by (cases q) auto
  then show ?case using Cons.IH rest f r by auto
qed simp

lemma list_all2_partner: "list_all2 P xs ys \<Longrightarrow> y \<in> set ys \<Longrightarrow> \<exists>x\<in>set xs. P x y"
  by (induction rule: list_all2_induct) auto

lemma prenotify_offsets_distinct: "distinct (prenotify_offsets payload @ [0])"
proof -
  have "0 \<notin> set (notice_list a) \<and> distinct (notice_list a)" for a by (simp add: notice_list_def)
  then show ?thesis by (auto simp: prenotify_offsets_def split: option.split)
qed

text \<open>The hashes of the jobs a mother projects are pairwise distinct.\<close>

lemma projections_distinct:
  assumes b: "build_saga_projections sg ulids tenant m payload parent actor c = (Inr ps, c')"
    and sha: "inj (x_sha (te_ext (sg_tx sg)))"
    and jm: "get_model (te_reg (sg_tx sg)) ''scheduled_job'' = Some jm"
      "\<forall>d\<in>set (em_attributes jm). ad_name d = ''idempotency_hash'' \<longrightarrow> ad_type d = AtString"
      "''idempotency_hash'' \<in> ad_name ` set (em_attributes jm)"
  shows "distinct (map projection_hash ps) \<and> (\<forall>p\<in>set ps. projection_hash p \<noteq> None)"
proof (cases "Option.bind (em_shadow_sagas_mapping m) as_object")
  case (Some mapping)
  let ?x = "te_ext (sg_tx sg)"
  define offsets where "offsets = prenotify_offsets payload @ [0]"
  show ?thesis
  proof (cases mapping)
    case Nil
    then show ?thesis using b Some by (simp add: build_saga_projections_def)
  next
    case (Cons kv kvs)
    then obtain e where "project_jobs (project_job sg tenant m jm mapping payload parent actor e)
        (zip offsets (map ulids [0..<length offsets])) c = (Inr ps, c')"
      using b Some jm(1) by (auto simp: build_saga_projections_def offsets_def Let_def split: sum.splits)
    from project_jobs_all [OF this]
    have "list_all2 (\<lambda>j p. \<exists>obj. projection_hash p = Some (job_hash ?x parent (trigger_expr e (fst j)) (fst j) obj))
        (zip offsets (map ulids [0..<length offsets])) ps"
      using project_job_hash [OF _ jm(2,3)] by (elim list.rel_mono_strong) fastforce
    then have "list_all2 (\<lambda>k p. \<exists>obj. projection_hash p = Some (job_hash ?x parent (trigger_expr e k) k obj)) offsets ps"
      by (auto simp: list_all2_conv_all_nth)
    moreover have "distinct (map projection_hash ps) \<and> (\<forall>p\<in>set ps. projection_hash p \<noteq> None)"
      if "list_all2 (\<lambda>k p. \<exists>obj. projection_hash p = Some (job_hash ?x parent (trigger_expr e k) k obj)) os ps" "distinct os" for os
      using that
    proof (induction rule: list_all2_induct)
      case (Cons o1 os p ps)
      obtain obj where p: "projection_hash p = Some (job_hash ?x parent (trigger_expr e o1) o1 obj)" using Cons.hyps(1) by blast
      have "projection_hash q \<noteq> projection_hash p" if q: "q \<in> set ps" for q
      proof -
        obtain o2 where o2: "o2 \<in> set os" "\<exists>obj. projection_hash q = Some (job_hash ?x parent (trigger_expr e o2) o2 obj)"
          using list_all2_partner [OF Cons.hyps(2) q] by blast
        then show ?thesis using p job_hash_offset [OF sha] Cons.prems by fastforce
      qed
      then show ?case using Cons p by auto
    qed simp
    ultimately show ?thesis using prenotify_offsets_distinct unfolding offsets_def by blast
  qed
qed (use b in \<open>simp add: build_saga_projections_def\<close>)

section \<open>Notices\<close>

lemma validate_fold_converts:
  assumes "fold (validate_attr env is_create kvs) ds (m, viol) = (attrs, [])" "d \<in> set ds"
    and "map_of kvs (ad_name d) = Some j" "j \<noteq> JNull"
  shows "is_ok (map_to_datom_value (ve_base64 env) (ve_text env) j (ad_type d))"
  using assms(1,2)
proof (induction ds arbitrary: m viol)
  case (Cons e ds)
  obtain m1 v1 where e: "validate_attr env is_create kvs e (m, viol) = (m1, v1)" by fastforce
  then have f: "fold (validate_attr env is_create kvs) ds (m1, v1) = (attrs, [])" using Cons.prems(1) by simp
  show ?case
  proof (cases "d = e")
    case True
    have "v1 = []" using validate_fold_checked [OF f] by blast
    then show ?thesis using e True assms(3,4)
      by (cases "map_to_datom_value (ve_base64 env) (ve_text env) j (ad_type d)") (auto simp: validate_attr_def Let_def)
  next
    case False
    then show ?thesis using Cons.IH [OF f] Cons.prems(2) by simp
  qed
qed simp

text \<open>An attribute declared as an array holds texts, and a notice is read as a number: of a payload that
  was validated no notice is ever scheduled.\<close>

lemma array_notices_lost:
  assumes "validate_payload env m payload is_create = Inr attrs"
    and "d \<in> set (em_attributes m)" "ad_name d = ''prenotify_minutes_array''" "ad_type d = AtArray"
    and "json_get payload ''prenotify_before_minutes'' = None"
  shows "prenotify_offsets payload = []"
proof (cases "Option.bind (json_get payload ''prenotify_minutes_array'') as_array")
  case (Some a)
  obtain kvs where kvs: "payload = JObj kvs" using assms(1) by (cases payload) (auto simp: validate_payload_def as_object_def ok_or_def)
  have f: "fold (validate_attr env is_create kvs) (em_attributes m) (om_empty, []) = (attrs, [])"
    using assms(1) by (auto simp: validate_payload_def kvs as_object_def ok_or_def split: prod.splits if_splits)
  obtain j where j: "map_of kvs ''prenotify_minutes_array'' = Some j" "as_array j = Some a"
    using Some by (auto simp: kvs json_get_def bind_eq_Some_conv)
  have "j = JArr a" using j(2) by (cases j) (auto simp: as_array_def)
  then have "is_ok (map_to_datom_value (ve_base64 env) (ve_text env) (JArr a) AtArray)"
    using validate_fold_converts [OF f assms(2), of j] j(1) assms(3,4) by simp
  then have texts: "\<forall>x\<in>set a. None \<noteq> as_str x"
    by (auto simp: map_to_datom_value_def as_array_def ok_or_def all_some_def is_ok_def image_iff split: option.splits if_splits)
  have "as_i64 x = None" if "x \<in> set a" for x
    using bspec [OF texts that] by (cases x) (auto simp: as_str_def as_i64_def)
  then have "List.map_filter as_i64 a = []" by (auto simp: List.map_filter_def filter_empty_conv)
  then show ?thesis using Some assms(5) by (simp add: prenotify_offsets_def notice_list_def)
qed (use assms(5) in \<open>simp add: prenotify_offsets_def\<close>)

end
