(* ===== verification/CodiceSequence.thy ===== *)
theory CodiceSequence
  imports Codice MbfStoreCorrect
begin

text \<open>Business sequences (\<^verbatim>\<open>src/codice/sequence.rs\<close>), random codes (\<^verbatim>\<open>src/codice/base36.rs\<close>) and the
  injection of generated attributes (\<^verbatim>\<open>src/codice/generator.rs\<close>) over the partition of the sequence
  table. The drawn alphabet positions and the clock are arguments.\<close>

section \<open>Configuration\<close>

datatype scope_resolution = Exact | NearestRegistered

definition scope_resolution_from :: "string \<Rightarrow> scope_resolution" where
  "scope_resolution_from s = (if s = ''nearest_registered'' then NearestRegistered else Exact)"

definition scope_resolution_str :: "scope_resolution \<Rightarrow> string" where
  "scope_resolution_str r = (case r of Exact \<Rightarrow> ''exact'' | NearestRegistered \<Rightarrow> ''nearest_registered'')"

record seq_attr_config =
  sc_name :: string
  sc_prefix :: string
  sc_padding :: nat
  sc_scope_resolution :: scope_resolution

record sequence_policy =
  sp_prefix :: "string option"
  sp_padding :: "nat option"
  sp_scope_resolution :: "scope_resolution option"

definition policy_default :: sequence_policy where
  "policy_default = \<lparr>sp_prefix = None, sp_padding = None, sp_scope_resolution = None\<rparr>"

definition from_auto_generate :: "string \<Rightarrow> json \<Rightarrow> seq_attr_config option" where
  "from_auto_generate name auto =
    (if Option.bind (json_get auto ''strategy'') as_str \<noteq> Some ''sequential'' then None
     else Some \<lparr>sc_name = name,
       sc_prefix = unwrap_or (Option.bind (json_get auto ''prefix'') as_str) [],
       sc_padding = unwrap_or (Option.bind (json_get auto ''padding'') as_u64) 4,
       sc_scope_resolution = scope_resolution_from
         (unwrap_or (Option.bind (json_get auto ''scope_resolution'') as_str) ''exact'')\<rparr>)"

definition apply_policy :: "sequence_policy \<Rightarrow> seq_attr_config \<Rightarrow> seq_attr_config" where
  "apply_policy p c = c\<lparr>sc_prefix := unwrap_or (sp_prefix p) (sc_prefix c),
     sc_padding := unwrap_or (sp_padding p) (sc_padding c),
     sc_scope_resolution := unwrap_or (sp_scope_resolution p) (sc_scope_resolution c)\<rparr>"

definition parse_seq_defaults :: "entity_model \<Rightarrow> string \<Rightarrow> seq_attr_config option" where
  "parse_seq_defaults m field = Option.bind (find (\<lambda>a. ad_name a = field) (em_attributes m))
     (\<lambda>a. Option.bind (ad_auto_generate a) (from_auto_generate (ad_name a)))"

section \<open>Counters\<close>

definition build_sequence_code :: "string \<Rightarrow> string \<Rightarrow> string option \<Rightarrow> string" where
  "build_sequence_code tenant field scope_tag = (case scope_tag of
      Some loc \<Rightarrow> if loc \<noteq> [] then tenant @ '':'' @ field @ '':'' @ loc @ ''_seq''
                  else tenant @ '':'' @ field @ ''_seq''
    | None \<Rightarrow> tenant @ '':'' @ field @ ''_seq'')"

definition global_sequence_code :: "string \<Rightarrow> string \<Rightarrow> string" where
  "global_sequence_code tenant field = build_sequence_code tenant field None"

definition scoped_sequence_code :: "string \<Rightarrow> string \<Rightarrow> string \<Rightarrow> string" where
  "scoped_sequence_code tenant field loc = build_sequence_code tenant field (Some loc)"

definition strip_suffix :: "string \<Rightarrow> string \<Rightarrow> string option" where
  "strip_suffix p s = (if ends_with p s then Some (take (length s - length p) s) else None)"

definition scope_tag_from_pk :: "string \<Rightarrow> string \<Rightarrow> string \<Rightarrow> string option" where
  "scope_tag_from_pk pk tenant field =
     Option.bind (strip_prefix (tenant @ '':'' @ field @ '':'') pk) (\<lambda>r.
     Option.bind (strip_suffix ''_seq'' r) (\<lambda>loc. if loc = [] then None else Some loc))"

definition pad_zeros :: "nat \<Rightarrow> nat \<Rightarrow> string" where
  "pad_zeros width n = replicate (width - length (nat_str n)) (CHR ''0'') @ nat_str n"

definition format_code :: "string \<Rightarrow> string option \<Rightarrow> nat \<Rightarrow> nat \<Rightarrow> string" where
  "format_code prefix segment padding n = (case segment of
      Some seg \<Rightarrow> if seg \<noteq> [] then prefix @ seg @ ''-'' @ pad_zeros padding n else prefix @ pad_zeros padding n
    | None \<Rightarrow> prefix @ pad_zeros padding n)"

definition policy_from_item :: "item \<Rightarrow> sequence_policy" where
  "policy_from_item it = \<lparr>sp_prefix = get_string it ''prefix'',
     sp_padding = Option.bind (get_number it ''padding'') parse_nat,
     sp_scope_resolution = map_option scope_resolution_from (get_string it ''scope_resolution'')\<rparr>"

definition read_global_policy :: "partition_store \<Rightarrow> string \<Rightarrow> string \<Rightarrow> sequence_policy" where
  "read_global_policy s tenant field = (case get_item (global_sequence_code tenant field) None s of
      Some it \<Rightarrow> policy_from_item it | None \<Rightarrow> policy_default)"

definition parse_counter_item :: "item \<Rightarrow> sequence_policy \<times> int option" where
  "parse_counter_item it = (policy_from_item it, current_value it)"

text \<open>\<^verbatim>\<open>n.parse::<u64>()\<close> of the stored number.\<close>

definition parse_u64 :: "string \<Rightarrow> nat option" where
  "parse_u64 t = Option.bind (case t of [] \<Rightarrow> None | c # cs \<Rightarrow> if c = CHR ''+'' then parse_nat cs else parse_nat t)
     (\<lambda>n. if n < 2 ^ 64 then Some n else None)"

definition read_sequence :: "partition_store \<Rightarrow> string \<Rightarrow> nat option" where
  "read_sequence s code = Option.bind (get_item code None s)
     (\<lambda>it. Option.bind (get_number it ''current_value'') parse_u64)"

text \<open>The counter a code is taken from: the first candidate with activity, else the global one.\<close>

definition candidate_codes :: "seq_attr_config \<Rightarrow> string option \<Rightarrow> string \<Rightarrow> string list \<Rightarrow> string list" where
  "candidate_codes c scope_tag tenant ancestors =
     (if scope_tag \<noteq> None then [build_sequence_code tenant (sc_name c) scope_tag] else [])
     @ map (\<lambda>a. build_sequence_code tenant (sc_name c) (Some a)) ancestors"

definition chosen_counter :: "partition_store \<Rightarrow> seq_attr_config \<Rightarrow> string option \<Rightarrow> string \<Rightarrow> string list \<Rightarrow> string" where
  "chosen_counter s c scope_tag tenant ancestors =
     unwrap_or (find (\<lambda>code. read_sequence s code \<noteq> None) (candidate_codes c scope_tag tenant ancestors))
       (build_sequence_code tenant (sc_name c) None)"

definition next_code ::
  "int \<Rightarrow> seq_attr_config \<Rightarrow> string option \<Rightarrow> string \<Rightarrow> string list \<Rightarrow> string option \<Rightarrow> partition_store
    \<Rightarrow> partition_store \<times> string" where
  "next_code now c scope_tag tenant ancestors segment s =
    (let (s1, v) = sequence_increment now (chosen_counter s c scope_tag tenant ancestors) tenant s
     in (s1, format_code (sc_prefix c) segment (sc_padding c) (nat (v mod 2 ^ 64))))"

section \<open>Generated attributes\<close>

definition ALPHABET :: string where
  "ALPHABET = ''0123456789ABCDEFGHIJKLMNOPQRSTUVWXYZ''"

text \<open>The generator draws positions of the alphabet, one per character.\<close>

definition base36_generate :: "string \<Rightarrow> nat list \<Rightarrow> string" where
  "base36_generate prefix drawn = prefix @ map (\<lambda>i. ALPHABET ! (i mod 36)) drawn"

datatype auto_gen_strategy = StochasticBase36 string nat | Sequential seq_attr_config

definition auto_strategy :: "attribute_descriptor \<Rightarrow> auto_gen_strategy option" where
  "auto_strategy a =
    (let fallback = (if ad_is_sequence_scope_via a then Some (Sequential
           \<lparr>sc_name = ad_name a, sc_prefix = [], sc_padding = 4, sc_scope_resolution = Exact\<rparr>) else None) in
     case ad_auto_generate a of
       None \<Rightarrow> fallback
     | Some auto \<Rightarrow>
         if Option.bind (json_get auto ''strategy'') as_str = Some ''stochastic_base36''
         then Some (StochasticBase36 (unwrap_or (Option.bind (json_get auto ''prefix'') as_str) [])
           (unwrap_or (Option.bind (json_get auto ''length'') as_u64) 7))
         else case from_auto_generate (ad_name a) auto of Some c \<Rightarrow> Some (Sequential c) | None \<Rightarrow> fallback)"

definition auto_generate_attrs :: "entity_model \<Rightarrow> (string \<times> auto_gen_strategy) list" where
  "auto_generate_attrs m = List.map_filter (\<lambda>a. map_option (Pair (ad_name a)) (auto_strategy a)) (em_attributes m)"

definition find_scope_field :: "entity_model \<Rightarrow> string option" where
  "find_scope_field m = map_option ad_name
     (find (\<lambda>a. ad_is_sequence_scope a \<or> ad_is_sequence_scope_via a) (em_attributes m))"

record scope_context =
  sx_segment :: "string option"
  sx_ancestors :: "string list"

type_synonym json_payload = "(string, json) omap"

definition inject_one ::
  "int \<Rightarrow> (string \<Rightarrow> nat list) \<Rightarrow> string option \<Rightarrow> string \<Rightarrow> scope_context option \<Rightarrow> string \<times> auto_gen_strategy
    \<Rightarrow> partition_store \<times> json_payload \<Rightarrow> partition_store \<times> json_payload" where
  "inject_one now draw scope_field tenant scope g st = (case g of (name, strategy) \<Rightarrow> case st of (s, payload) \<Rightarrow>
     if om_mem name payload then (s, payload)
     else case strategy of
       StochasticBase36 prefix n \<Rightarrow> (s, om_put name (JStr (base36_generate prefix (take n (draw name)))) payload)
     | Sequential c \<Rightarrow>
         (let eff = apply_policy (read_global_policy s tenant (sc_name c)) c;
              loc = Option.bind (Option.bind scope_field (om_get payload)) as_str;
              nearest = (sc_scope_resolution eff = NearestRegistered \<and> loc \<noteq> None);
              ancestors = (case scope of Some x \<Rightarrow> if nearest then sx_ancestors x else [] | None \<Rightarrow> []);
              segment = (case scope of Some x \<Rightarrow> if nearest then sx_segment x else None | None \<Rightarrow> None);
              (s1, code) = next_code now eff loc tenant ancestors segment s
          in (s1, om_put name (JStr code) payload)))"

definition inject ::
  "int \<Rightarrow> (string \<Rightarrow> nat list) \<Rightarrow> entity_model \<Rightarrow> string \<Rightarrow> json_payload \<Rightarrow> scope_context option \<Rightarrow> partition_store
    \<Rightarrow> partition_store \<times> json_payload" where
  "inject now draw m tenant payload scope s =
     fold (inject_one now draw (find_scope_field m) tenant scope) (auto_generate_attrs m) (s, payload)"

section \<open>Formats\<close>

lemma scope_tag_roundtrip: "loc \<noteq> [] \<Longrightarrow> scope_tag_from_pk (scoped_sequence_code tenant field loc) tenant field = Some loc"
proof -
  assume t: "loc \<noteq> []"
  have a: "strip_prefix (tenant @ '':'' @ field @ '':'') (scoped_sequence_code tenant field loc) = Some (loc @ ''_seq'')"
    unfolding strip_prefix_Some_iff using t by (simp add: scoped_sequence_code_def build_sequence_code_def)
  have b: "strip_suffix ''_seq'' (loc @ ''_seq'') = Some loc"
    by (simp add: strip_suffix_def ends_with_def)
  show ?thesis unfolding scope_tag_from_pk_def a using b t by simp
qed

lemma parse_digits_zeros: "parse_digits 0 (replicate k (CHR ''0'') @ xs) = parse_digits 0 xs"
  by (induction k) (simp_all add: digit_val_def)

lemma pad_zeros_inject: "pad_zeros w m = pad_zeros w n \<longleftrightarrow> m = n"
proof
  assume "pad_zeros w m = pad_zeros w n"
  then have "parse_digits 0 (pad_zeros w m) = parse_digits 0 (pad_zeros w n)" by (rule arg_cong)
  then show "m = n" by (simp add: pad_zeros_def parse_digits_zeros parse_digits_nat_str)
qed simp

lemma format_code_inject: "format_code p seg w m = format_code p seg w n \<longleftrightarrow> m = n"
  by (cases seg) (simp_all add: format_code_def pad_zeros_inject)

section \<open>Codes\<close>

lemma parse_u64_pos:
  assumes "parse_i64 t = Some v" "0 < v"
  shows "parse_u64 t = Some (nat v)"
proof (cases t)
  case (Cons c cs)
  have "v < 2 ^ 63" using parse_i64_range [OF assms(1)] by simp
  then show ?thesis using assms Cons
    by (auto simp: parse_i64_def parse_u64_def Let_def split: option.splits if_splits)
qed (use assms(1) in \<open>simp add: parse_i64_def parse_nat_def\<close>)

lemma read_sequence_stored: "stored_value s code = Some v \<Longrightarrow> 0 < v \<Longrightarrow> read_sequence s code = Some (nat v)"
  using parse_u64_pos by (auto simp: stored_value_def current_value_def read_sequence_def get_item_def
      unwrap_or_def bind_eq_Some_conv)

lemma get_increment_other:
  "code' \<noteq> code \<Longrightarrow> om_get (items (fst (sequence_increment now code tenant s))) (code', sk) = om_get (items s) (code', sk)"
  by (simp add: sequence_increment_def Let_def)

lemma read_sequence_other:
  "code' \<noteq> code \<Longrightarrow> read_sequence (fst (sequence_increment now code tenant s)) code' = read_sequence s code'"
  by (simp add: read_sequence_def get_item_def unwrap_or_def get_increment_other)

text \<open>Taking a number does not change which counter the next number is taken from.\<close>

lemma chosen_counter_stable:
  assumes "stored_value (fst (sequence_increment now (chosen_counter s c loc tenant anc) tenant s))
      (chosen_counter s c loc tenant anc) = Some v" "0 < v"
  shows "chosen_counter (fst (sequence_increment now (chosen_counter s c loc tenant anc) tenant s)) c loc tenant anc
    = chosen_counter s c loc tenant anc"
proof -
  let ?k = "chosen_counter s c loc tenant anc" and ?g = "build_sequence_code tenant (sc_name c) None"
  let ?s = "fst (sequence_increment now ?k tenant s)"
  have act: "read_sequence ?s ?k \<noteq> None" using read_sequence_stored [OF assms] by simp
  have same: "read_sequence ?s code = read_sequence s code" if "code \<noteq> ?k" for code
    using read_sequence_other that by blast
  have "unwrap_or (find (\<lambda>code. read_sequence ?s code \<noteq> None) cs) ?g = ?k"
    if "unwrap_or (find (\<lambda>code. read_sequence s code \<noteq> None) cs) ?g = ?k" for cs
    using that
  proof (induction cs)
    case (Cons code cs)
    show ?case
    proof (cases "code = ?k")
      case True
      then show ?thesis using act by (simp add: unwrap_or_def)
    next
      case False
      then have "read_sequence s code = None" using Cons.prems by (auto simp: unwrap_or_def split: if_splits)
      then show ?thesis using Cons same [OF False] by simp
    qed
  qed simp
  then show ?thesis by (simp only: chosen_counter_def)
qed

fun take_codes ::
  "int \<Rightarrow> seq_attr_config \<Rightarrow> string option \<Rightarrow> string \<Rightarrow> string list \<Rightarrow> string option \<Rightarrow> nat \<Rightarrow> partition_store
    \<Rightarrow> partition_store \<times> string list" where
  "take_codes now c loc tenant anc seg 0 s = (s, [])"
| "take_codes now c loc tenant anc seg (Suc n) s =
    (let (s1, code) = next_code now c loc tenant anc seg s;
         (s2, codes) = take_codes now c loc tenant anc seg n s1 in (s2, code # codes))"

text \<open>C20: Codes of one scope never repeat. As long as the counter stays in the 64-bit range, n codes taken
  one after the other are the formatted numbers after the stored one, on the counter chosen by the
  first of them (the scope's own, the nearest ancestor with activity, else the global one), and all
  are different whatever prefix, segment and padding.\<close>

theorem sequence_codes_distinct:
  assumes "v = unwrap_or (stored_value s (chosen_counter s c loc tenant anc)) 0" "0 \<le> v" "v + int n < 2 ^ 63"
  shows "snd (take_codes now c loc tenant anc seg n s)
      = map (\<lambda>i. format_code (sc_prefix c) seg (sc_padding c) (nat v + 1 + i)) [0..<n]
    \<and> distinct (snd (take_codes now c loc tenant anc seg n s))"
proof -
  let ?f = "format_code (sc_prefix c) seg (sc_padding c)"
  have "snd (take_codes now c loc tenant anc seg n s) = map (\<lambda>i. ?f (nat v + 1 + i)) [0..<n]"
    using assms
  proof (induction n arbitrary: s v)
    case (Suc n)
    let ?k = "chosen_counter s c loc tenant anc"
    let ?s = "fst (sequence_increment now ?k tenant s)"
    have inc: "snd (sequence_increment now ?k tenant s) = v + 1" "stored_value ?s ?k = Some (v + 1)"
      using sequence_increment_value [OF Suc.prems(1), of now tenant] Suc.prems(2,3) by simp_all
    then have k: "chosen_counter ?s c loc tenant anc = ?k"
      using chosen_counter_stable [OF inc(2)] Suc.prems(2) by simp
    have "(v + 1) mod 2 ^ 64 = v + 1" using Suc.prems by (intro mod_pos_pos_trivial) simp_all
    then have n: "next_code now c loc tenant anc seg s = (?s, ?f (nat v + 1))"
      using Suc.prems(2) by (simp add: next_code_def case_prod_unfold Let_def inc(1) nat_add_distrib)
    have IH: "snd (take_codes now c loc tenant anc seg n ?s) = map (\<lambda>i. ?f (nat (v + 1) + 1 + i)) [0..<n]"
      by (rule Suc.IH) (use inc(2) k Suc.prems in \<open>simp_all add: unwrap_or_def\<close>)
    have "map (\<lambda>i. ?f (nat v + 1 + i)) [0..<Suc n] = ?f (nat v + 1) # map (\<lambda>i. ?f (nat (v + 1) + 1 + i)) [0..<n]"
      using Suc.prems(2)
      by (simp only: upt_conv_Cons zero_less_Suc map_Suc_upt [symmetric]) (simp add: comp_def nat_add_distrib)
    then show ?case using IH by (simp add: n case_prod_unfold Let_def)
  qed simp
  moreover have "distinct (map (\<lambda>i. ?f (nat v + 1 + i)) [0..<n])"
    by (simp add: distinct_map inj_on_def format_code_inject)
  ultimately show ?thesis by simp
qed

definition sample_config :: seq_attr_config where
  "sample_config = \<lparr>sc_name = ''code'', sc_prefix = ''WO-'', sc_padding = 4, sc_scope_resolution = Exact\<rparr>"

theorem sequence_codes_distinct_witness:
  "snd (take_codes 0 sample_config None ''t'' [] None 2 store_default) = [''WO-0001'', ''WO-0002'']"
proof -
  have k: "chosen_counter store_default sample_config None ''t'' [] = ''t:code_seq''"
    by (simp add: chosen_counter_def candidate_codes_def unwrap_or_def build_sequence_code_def sample_config_def)
  have "snd (take_codes 0 sample_config None ''t'' [] None 2 store_default)
      = map (\<lambda>i. format_code ''WO-'' None 4 (nat 0 + 1 + i)) [0..<2]"
    using sequence_codes_distinct [of 0 store_default sample_config None "''t''" "[]" 2 0 None]
    by (simp add: k stored_value_def store_default_def unwrap_or_def sample_config_def)
  also have "\<dots> = [''WO-0001'', ''WO-0002'']"
    by code_simp
  finally show ?thesis .
qed

text \<open>Codes of different scopes do repeat. With the exact resolution each location has a counter of its
  own but the code shows no location: when two locations have reached the same number, the next
  record of each gets the same code.\<close>

theorem exact_scopes_repeat_code:
  assumes "sc_scope_resolution (apply_policy (read_global_policy s tenant (sc_name c)) c) = Exact"
    and "loc1 \<noteq> []" "loc2 \<noteq> []" "loc1 \<noteq> loc2" "0 < v" "v + 1 < 2 ^ 63"
    and "stored_value s (scoped_sequence_code tenant (sc_name c) loc1) = Some v"
    and "stored_value s (scoped_sequence_code tenant (sc_name c) loc2) = Some v"
    and "om_get p1 name = None" "om_get p2 name = None"
    and "om_get p1 field = Some (JStr loc1)" "om_get p2 field = Some (JStr loc2)"
    and "(s1, q1) = inject_one now draw (Some field) tenant scope (name, Sequential c) (s, p1)"
    and "(s2, q2) = inject_one now draw (Some field) tenant scope (name, Sequential c) (s1, p2)"
  shows "om_get q2 name = om_get q1 name \<and> om_get q1 name \<noteq> None"
proof -
  let ?k = "\<lambda>loc. scoped_sequence_code tenant (sc_name c) loc"
  let ?eff = "apply_policy (read_global_policy s tenant (sc_name c)) c"
  have k: "chosen_counter t e (Some loc) tenant [] = ?k loc"
    if "stored_value t (?k loc) = Some v" "sc_name e = sc_name c" for t loc and e :: seq_attr_config
    using read_sequence_stored [OF that(1) assms(5)] that(2)
    by (simp add: chosen_counter_def candidate_codes_def scoped_sequence_code_def unwrap_or_def)
  have name: "sc_name ?eff = sc_name c" by (simp add: apply_policy_def)
  have ne: "?k loc1 \<noteq> ?k loc2" "?k loc1 \<noteq> global_sequence_code tenant (sc_name c)"
    using assms(2-4) by (auto simp: scoped_sequence_code_def global_sequence_code_def build_sequence_code_def)
  let ?s1 = "fst (sequence_increment now (?k loc1) tenant s)"
  have inj1: "(s1, q1) = (?s1, om_put name (JStr (format_code (sc_prefix ?eff) None (sc_padding ?eff)
      (nat ((v + 1) mod 2 ^ 64)))) p1)"
    using assms(13) assms(1,9,11) k [OF assms(7) name] sequence_increment_value [of v s "?k loc1" now tenant] assms(5-7)
    by (simp add: inject_one_def om_mem_def as_str_def next_code_def Let_def case_prod_unfold unwrap_or_def
        split: option.splits)
  have items: "om_get (items ?s1) (code, []) = om_get (items s) (code, [])" if "code \<noteq> ?k loc1" for code
    using that by (rule get_increment_other)
  have pol: "read_global_policy ?s1 tenant (sc_name c) = read_global_policy s tenant (sc_name c)"
    using items ne(2) by (simp add: read_global_policy_def get_item_def unwrap_or_def)
  have st2: "stored_value ?s1 (?k loc2) = Some v" using items ne(1) assms(8) by (simp add: stored_value_def)
  have "q2 = om_put name (JStr (format_code (sc_prefix ?eff) None (sc_padding ?eff) (nat ((v + 1) mod 2 ^ 64)))) p2"
    using assms(14) assms(1,10,12) k [OF st2 name] sequence_increment_value [of v ?s1 "?k loc2" now tenant] assms(5,6) st2 pol inj1
    by (simp add: inject_one_def om_mem_def as_str_def next_code_def Let_def case_prod_unfold unwrap_or_def
        split: option.splits)
  then show ?thesis using inj1 by simp
qed

definition two_locations :: partition_store where
  "two_locations = fst (sequence_increment 0 ''t:code:B_seq'' ''t''
     (fst (sequence_increment 0 ''t:code:A_seq'' ''t'' store_default)))"

lemma two_locations_counters:
  "stored_value two_locations ''t:code:A_seq'' = Some 1" "stored_value two_locations ''t:code:B_seq'' = Some 1"
  "read_global_policy two_locations ''t'' ''code'' = policy_default"
proof -
  let ?a = "fst (sequence_increment 0 ''t:code:A_seq'' ''t'' store_default)"
  have get: "om_get (items two_locations) (code, []) = om_get (items ?a) (code, [])" if "code \<noteq> ''t:code:B_seq''" for code
    unfolding two_locations_def using that by (rule get_increment_other)
  have get0: "om_get (items ?a) (code, []) = None" if "code \<noteq> ''t:code:A_seq''" for code
    unfolding get_increment_other [OF that] by (simp add: store_default_def)
  have n: "stored_value store_default ''t:code:A_seq'' = None" by (simp add: stored_value_def store_default_def)
  have nb: "stored_value ?a ''t:code:B_seq'' = None" using get0 [of "''t:code:B_seq''"] by (simp add: stored_value_def)
  have a: "stored_value ?a ''t:code:A_seq'' = Some 1"
    using sequence_increment_value [of 0 store_default "''t:code:A_seq''" 0 "''t''"] n by (simp add: unwrap_or_def)
  then show "stored_value two_locations ''t:code:A_seq'' = Some 1"
    using get [of "''t:code:A_seq''"] by (simp add: stored_value_def)
  show "stored_value two_locations ''t:code:B_seq'' = Some 1"
    using sequence_increment_value [of 0 ?a "''t:code:B_seq''" 0 "''t''"] nb by (simp add: unwrap_or_def two_locations_def)
  show "read_global_policy two_locations ''t'' ''code'' = policy_default"
    using get [of "''t:code_seq''"] get0 [of "''t:code_seq''"]
    by (simp add: read_global_policy_def get_item_def unwrap_or_def global_sequence_code_def build_sequence_code_def)
qed

theorem exact_scopes_repeat_code_witness:
  "\<exists>s1 q1 s2 q2 x.
     (s1, q1) = inject_one 0 (\<lambda>_. []) (Some ''location'') ''t'' None (''code'', Sequential sample_config)
       (two_locations, om_put ''location'' (JStr ''A'') om_empty)
   \<and> (s2, q2) = inject_one 0 (\<lambda>_. []) (Some ''location'') ''t'' None (''code'', Sequential sample_config)
       (s1, om_put ''location'' (JStr ''B'') om_empty)
   \<and> om_get q1 ''code'' = Some x \<and> om_get q2 ''code'' = Some x"
proof -
  let ?in = "inject_one 0 (\<lambda>_. []) (Some ''location'') ''t'' None (''code'', Sequential sample_config)"
  obtain s1 q1 where "?in (two_locations, om_put ''location'' (JStr ''A'') om_empty) = (s1, q1)" by (rule prod.exhaust)
  then have r1: "(s1, q1) = ?in (two_locations, om_put ''location'' (JStr ''A'') om_empty)" by (rule sym)
  obtain s2 q2 where "?in (s1, om_put ''location'' (JStr ''B'') om_empty) = (s2, q2)" by (rule prod.exhaust)
  then have r2: "(s2, q2) = ?in (s1, om_put ''location'' (JStr ''B'') om_empty)" by (rule sym)
  have n: "sc_name sample_config = ''code''" "sc_scope_resolution sample_config = Exact" by (simp_all add: sample_config_def)
  have c: "scoped_sequence_code ''t'' ''code'' ''A'' = ''t:code:A_seq''" "scoped_sequence_code ''t'' ''code'' ''B'' = ''t:code:B_seq''"
    by (simp_all add: scoped_sequence_code_def build_sequence_code_def)
  have e: "sc_scope_resolution (apply_policy policy_default sample_config) = Exact"
    by (simp add: apply_policy_def policy_default_def unwrap_or_def n)
  have "om_get q2 ''code'' = om_get q1 ''code'' \<and> om_get q1 ''code'' \<noteq> None"
    by (rule exact_scopes_repeat_code [where v = 1 and ?loc1.0 = "''A''" and ?loc2.0 = "''B''", OF _ _ _ _ _ _ _ _ _ _ _ _ r1 r2])
      (simp_all add: n c e two_locations_counters)
  then obtain x where "om_get q1 ''code'' = Some x" "om_get q2 ''code'' = Some x" by force
  then show ?thesis using r1 r2 by (intro exI conjI)
qed

end
