(* ===== verification/IopPipeline.thy ===== *)
theory IopPipeline
  imports QuotaResolver
begin

text \<open>The request pipeline (\<^verbatim>\<open>src/iop/core.rs\<close>, \<^verbatim>\<open>pipeline.rs\<close>), its quota step
  (\<^verbatim>\<open>quota_step.rs\<close>) and the last step (\<^verbatim>\<open>janus_step.rs\<close>), over a state that the steps share, and the
  rules on system entities (\<^verbatim>\<open>src/cedar/rules.rs\<close>). A step is a pair of functions; the router the
  last step calls is an argument, and so is the master tenant of the configuration.\<close>

section \<open>Rules on system entities\<close>

definition MASTER_ONLY_ENTITIES :: "string list" where
  "MASTER_ONLY_ENTITIES = [''tenant'', ''domain_quota'', ''quota'', ''domain_plugin'', ''tenant_plugin'']"

definition is_master_tenant :: "string \<Rightarrow> string \<Rightarrow> bool" where
  "is_master_tenant master tenant \<longleftrightarrow> tenant = ''system'' \<or> tenant = ''tnt_master'' \<or> tenant = master"

definition is_master_only_entity :: "string \<Rightarrow> bool" where
  "is_master_only_entity entity_type \<longleftrightarrow> entity_type \<in> set MASTER_ONLY_ENTITIES"

definition is_self_service_row :: "string \<Rightarrow> string \<Rightarrow> string \<Rightarrow> bool" where
  "is_self_service_row entity_type row_tenant caller \<longleftrightarrow> entity_type = ''tenant_plugin'' \<and> row_tenant = caller"

definition is_self_service_read :: "string \<Rightarrow> string \<Rightarrow> string \<Rightarrow> bool" where
  "is_self_service_read entity_type row_tenant caller \<longleftrightarrow>
     (entity_type = ''tenant_plugin'' \<or> entity_type = ''domain_quota'') \<and> row_tenant = caller"

definition check_crud_authorization :: "string \<Rightarrow> string \<Rightarrow> string \<Rightarrow> string \<Rightarrow> unit res" where
  "check_crud_authorization master entity_type tenant user =
    (if is_master_only_entity entity_type \<and> \<not> is_master_tenant master tenant \<and> user \<noteq> ''usr_system_bff''
     then Inl Auth403 else Inr ())"

definition check_tenant_isolation :: "string \<Rightarrow> string \<Rightarrow> string \<Rightarrow> string \<Rightarrow> unit res" where
  "check_tenant_isolation master target caller user =
    (if target \<noteq> caller \<and> \<not> is_master_tenant master caller \<and> user \<noteq> ''usr_system_bff''
     then Inl Auth403 else Inr ())"

definition is_quota_exempt :: "string \<Rightarrow> bool" where
  "is_quota_exempt entity_type \<longleftrightarrow> entity_type \<in> set MASTER_ONLY_ENTITIES"

record time_restriction =
  tr_days_of_week :: "int list"
  tr_start_minute :: nat
  tr_end_minute :: nat

text \<open>The window of hours: the day of the week (Monday is 1) and the minute of the day are given.\<close>

definition step3b_validate_time_window :: "time_restriction list \<Rightarrow> int \<Rightarrow> nat \<Rightarrow> unit res" where
  "step3b_validate_time_window rs day minute =
    (if rs = [] then Inr ()
     else if list_ex (\<lambda>r. day \<in> set (tr_days_of_week r) \<and> tr_start_minute r \<le> minute \<and> minute \<le> tr_end_minute r) rs
     then Inr () else Inl Auth403)"

datatype authentication_policy = Production | DevBypass

definition is_bypass :: "authentication_policy \<Rightarrow> bool" where
  "is_bypass p \<longleftrightarrow> p = DevBypass"

definition policy_from_bool :: "bool \<Rightarrow> authentication_policy" where
  "policy_from_bool bypass = (if bypass then DevBypass else Production)"

section \<open>The context and the steps\<close>

record iop_context =
  ic_tenant_id :: string
  ic_user_id :: string
  ic_request :: "(string, json) omap"
  ic_entity_type :: string
  ic_operation :: string
  ic_schema :: "json option"
  ic_model :: "json option"
  ic_roles :: "string list"
  ic_granted_action_keys :: "string list"
  ic_is_super_master :: bool
  ic_cross_tenant_scope :: string
  ic_domain_boundaries :: json
  ic_quota_reservation :: "json option"

definition context_new :: "string \<Rightarrow> string \<Rightarrow> string \<Rightarrow> string \<Rightarrow> (string, json) omap \<Rightarrow> iop_context" where
  "context_new tenant user entity_type operation request =
    \<lparr>ic_tenant_id = tenant, ic_user_id = user, ic_request = request, ic_entity_type = entity_type,
     ic_operation = operation, ic_schema = None, ic_model = None, ic_roles = [], ic_granted_action_keys = [],
     ic_is_super_master = False, ic_cross_tenant_scope = ''NONE'', ic_domain_boundaries = JObj [],
     ic_quota_reservation = None\<rparr>"

definition has_reversible_effects :: "iop_context \<Rightarrow> bool" where
  "has_reversible_effects ctx \<longleftrightarrow> ic_quota_reservation ctx \<noteq> None"

record 's iop_step =
  st_execute :: "iop_context \<Rightarrow> ('s, iop_context) call"
  st_compensate :: "iop_context \<Rightarrow> 's \<Rightarrow> 's"

definition no_compensation :: "iop_context \<Rightarrow> 's \<Rightarrow> 's" where
  "no_compensation ctx s = s"

section \<open>The orchestrator\<close>

text \<open>The steps in order: \<^verbatim>\<open>executed\<close> holds those completed, the last one first, and \<^verbatim>\<open>undo\<close> the context
  taken before the latest step that already had an effect to undo.\<close>

fun run_steps ::
  "'s iop_step list \<Rightarrow> 's iop_step list \<Rightarrow> iop_context option \<Rightarrow> iop_context \<Rightarrow> ('s, iop_context) call" where
  "run_steps [] executed undo ctx s = (s, Inr ctx)"
| "run_steps (st # steps) executed undo ctx s =
    (let undo1 = (if has_reversible_effects ctx then Some ctx else undo) in
     case st_execute st ctx s of
       (s1, Inr next) \<Rightarrow> run_steps steps (st # executed) undo1 next s1
     | (s1, Inl e) \<Rightarrow>
         ((case undo1 of Some u \<Rightarrow> fold (\<lambda>d. st_compensate d u) executed s1 | None \<Rightarrow> s1), Inl e))"

text \<open>The reduction of \<^verbatim>\<open>pipeline.rs\<close>: the first error is returned and no later step runs.\<close>

definition pipeline_run :: "('c \<Rightarrow> 'c res) list \<Rightarrow> 'c \<Rightarrow> 'c res" where
  "pipeline_run steps ctx = fold (\<lambda>step acc. case acc of Inr c \<Rightarrow> step c | Inl e \<Rightarrow> Inl e) steps (Inr ctx)"

fun run_async :: "('c \<Rightarrow> ('s, 'c) call) list \<Rightarrow> 'c \<Rightarrow> ('s, 'c) call" where
  "run_async [] ctx s = (s, Inr ctx)"
| "run_async (step # steps) ctx s = (case step ctx s of
      (s1, Inr c) \<Rightarrow> run_async steps c s1 | (s1, Inl e) \<Rightarrow> (s1, Inl e))"

section \<open>The quota step\<close>

record 's quota_step =
  qe_debit :: "string \<Rightarrow> string \<Rightarrow> int \<Rightarrow> int \<Rightarrow> int \<Rightarrow> ('s, debit_outcome) call"
  qe_release :: "string \<Rightarrow> string \<Rightarrow> int \<Rightarrow> ('s, unit) call"
  qe_active :: "string \<Rightarrow> string \<Rightarrow> string \<Rightarrow> ('s, quota_spec option) call"

definition quota_bypass :: "iop_context \<Rightarrow> bool" where
  "quota_bypass ctx \<longleftrightarrow> ic_is_super_master ctx \<or> ic_user_id ctx = ''usr_system_bff''
     \<or> ic_user_id ctx = ''usr_master'' \<or> is_quota_exempt (ic_entity_type ctx)"

definition limit_type_of :: "string \<Rightarrow> string option" where
  "limit_type_of op = (if op = ''CREATE'' then Some ''WRITE_COUNT'' else if op = ''GET'' then Some ''READ_COUNT'' else None)"

text \<open>One unit per record of the request's \<^verbatim>\<open>data\<close>, at least one.\<close>

definition debit_units :: "iop_context \<Rightarrow> int" where
  "debit_units ctx = (case Option.bind (om_get (ic_request ctx) ''data'') as_array of
      Some a \<Rightarrow> if a = [] then 1 else int (length a) | None \<Rightarrow> 1)"

definition reservation_json :: "quota_spec \<Rightarrow> int \<Rightarrow> string \<Rightarrow> int \<Rightarrow> json" where
  "reservation_json q units domain new_usage = JObj
    [(''debit'', JInt units), (''domain'', JStr domain), (''id'', JStr (qs_counter_id q)),
     (''new_usage'', JInt new_usage), (''period_key'', JStr (qs_period_key q)), (''quota_id'', JStr (qs_id q)),
     (''status'', JStr ''pending'')]"

definition quota_execute :: "'s quota_step \<Rightarrow> iop_context \<Rightarrow> ('s, iop_context) call" where
  "quota_execute E ctx s =
    (if quota_bypass ctx then (s, Inr ctx)
     else case limit_type_of (to_uppercase (ic_operation ctx)) of
       None \<Rightarrow> (s, Inr ctx)
     | Some limit_type \<Rightarrow>
        (case qe_active E (ic_tenant_id ctx) (ic_entity_type ctx) limit_type s of
           (s1, Inl e) \<Rightarrow> (s1, Inl e)
         | (s1, Inr None) \<Rightarrow> (s1, Inl Quota001)
         | (s1, Inr (Some q)) \<Rightarrow>
            (case qe_debit E (ic_tenant_id ctx) (qs_counter_id q) (debit_units ctx) (qs_max_limit q) (qs_seed_usage q) s1 of
               (s2, Inl e) \<Rightarrow> (s2, Inl e)
             | (s2, Inr (Exhausted _ _)) \<Rightarrow> (s2, Inl Quota001)
             | (s2, Inr (Debited new_usage)) \<Rightarrow>
                (s2, Inr (ctx\<lparr>ic_quota_reservation :=
                   Some (reservation_json q (debit_units ctx) (ic_entity_type ctx) new_usage)\<rparr>)))))"

definition reserved_units :: "json \<Rightarrow> int" where
  "reserved_units r = (case Option.bind (json_get r ''debit'') as_i64 of Some n \<Rightarrow> if n > 0 then n else 1 | None \<Rightarrow> 1)"

definition quota_compensate :: "'s quota_step \<Rightarrow> iop_context \<Rightarrow> 's \<Rightarrow> 's" where
  "quota_compensate E ctx s = (case ic_quota_reservation ctx of
      None \<Rightarrow> s
    | Some r \<Rightarrow> (case Option.bind (json_get r ''id'') as_str of
        None \<Rightarrow> s
      | Some i \<Rightarrow> fst (qe_release E (ic_tenant_id ctx) i (reserved_units r) s)))"

definition quota_guard_step :: "'s quota_step \<Rightarrow> 's iop_step" where
  "quota_guard_step E = \<lparr>st_execute = quota_execute E, st_compensate = quota_compensate E\<rparr>"

section \<open>The write step\<close>

definition merge_result :: "json \<Rightarrow> json \<Rightarrow> json" where
  "merge_result old new = (case (old, new) of
      (JObj a, JObj b) \<Rightarrow> JObj (om_entries (fold (\<lambda>(k, v). om_put k v) b (om_of_list a))) | _ \<Rightarrow> old)"

definition janus_execute :: "(iop_context \<Rightarrow> ('s, json) call) \<Rightarrow> iop_context \<Rightarrow> ('s, iop_context) call" where
  "janus_execute route ctx s = (case route ctx s of
      (s1, Inl e) \<Rightarrow> (s1, Inl e)
    | (s1, Inr result) \<Rightarrow>
        (let merged = (case om_get (ic_request ctx) ''result'' of Some old \<Rightarrow> merge_result old result | None \<Rightarrow> result)
         in (s1, Inr (ctx\<lparr>ic_request := om_put ''result'' merged (ic_request ctx)\<rparr>))))"

definition janus_router_step :: "(iop_context \<Rightarrow> ('s, json) call) \<Rightarrow> 's iop_step" where
  "janus_router_step route = \<lparr>st_execute = janus_execute route, st_compensate = no_compensation\<rparr>"

section \<open>The quota step over a ledger\<close>

text \<open>The production instance: the counter of a partition store, and a resolver with its cache.\<close>

record guard_state =
  gs_store :: partition_store
  gs_cache :: quota_cache

definition ledger_guard ::
  "'d calendar \<Rightarrow> (string \<Rightarrow> json \<Rightarrow> json res) \<Rightarrow> nat \<Rightarrow> int \<Rightarrow> 'd \<Rightarrow> guard_state quota_step" where
  "ledger_guard cal run ttl now today =
    \<lparr>qe_debit = (\<lambda>t q a l z g. case ledger_try_debit t q a l z (gs_store g) of (s, r) \<Rightarrow> (g\<lparr>gs_store := s\<rparr>, r)),
     qe_release = (\<lambda>t q a g. case ledger_release t q a (gs_store g) of (s, r) \<Rightarrow> (g\<lparr>gs_store := s\<rparr>, r)),
     qe_active = (\<lambda>t d l g. case active_quota cal run ttl now today t d l (gs_cache g) of (r, c) \<Rightarrow> (g\<lparr>gs_cache := c\<rparr>, r))\<rparr>"

section \<open>Compensation\<close>

abbreviation counters :: "guard_state \<Rightarrow> (string \<times> string, int) omap" where
  "counters g \<equiv> quota_counters (gs_store g)"

lemma wrap_s_mod: "wrap_s w x mod 2 ^ w = x mod 2 ^ w"
  unfolding wrap_s_def by (simp add: mod_diff_left_eq)

lemma i64_cancel: "i64 (i64 (v + n) + i64 (- n)) = i64 v"
proof -
  have "(i64 (v + n) + i64 (- n)) mod 2 ^ 64 = ((v + n) mod 2 ^ 64 + (- n) mod 2 ^ 64) mod 2 ^ 64"
    by (metis mod_add_eq wrap_s_mod)
  also have "\<dots> = v mod 2 ^ 64" by (simp add: mod_add_eq)
  finally show ?thesis by (simp only: wrap_s_cong)
qed

text \<open>The quota a state resolves for a limit.\<close>

definition resolves :: "'s quota_step \<Rightarrow> string \<Rightarrow> quota_spec \<Rightarrow> bool" where
  "resolves E tenant q \<longleftrightarrow> (\<exists>d l s s'. qe_active E tenant d l s = (s', Inr (Some q)))"

text \<open>The counters after a debit that was given back: those that existed are as they were, and a counter
  the debit created holds the seed of its quota.\<close>

definition restored :: "guard_state quota_step \<Rightarrow> guard_state \<Rightarrow> guard_state \<Rightarrow> bool" where
  "restored E g g' \<longleftrightarrow> (\<forall>k. om_get (counters g') k = om_get (counters g) k
     \<or> om_get (counters g) k = None \<and> (\<exists>q. resolves E (fst k) q \<and> qs_counter_id q = snd k
          \<and> om_get (counters g') k = Some (max (i64 (qs_seed_usage q)) 0)))"

definition sane_counters :: "guard_state \<Rightarrow> bool" where
  "sane_counters g \<longleftrightarrow> (\<forall>k v. om_get (counters g) k = Some v \<longrightarrow> 0 \<le> v \<and> v < 2 ^ 63)"

lemma try_debit_cases:
  "ledger_try_debit t i n z d s = (s', r) \<Longrightarrow>
    (\<exists>c. r = Inr (Exhausted c z)) \<and> s' = s
    \<or> (\<exists>u. r = Inr (Debited u)) \<and> quota_counters s' = om_put (t, i) (i64 (counter_of s t i d + n)) (quota_counters s)"
  by (auto simp: ledger_try_debit_def quota_try_debit_def Let_def split: if_splits)

lemma quota_execute_cases:
  assumes "quota_execute (ledger_guard cal run ttl now today) ctx g = (g', r)"
  shows "counters g' = counters g \<and> (\<forall>c. r = Inr c \<longrightarrow> ic_quota_reservation c = ic_quota_reservation ctx)
    \<or> (\<exists>q u. resolves (ledger_guard cal run ttl now today) (ic_tenant_id ctx) q
        \<and> r = Inr (ctx\<lparr>ic_quota_reservation := Some (reservation_json q (debit_units ctx) (ic_entity_type ctx) u)\<rparr>)
        \<and> counters g' = om_put (ic_tenant_id ctx, qs_counter_id q)
            (i64 (counter_of (gs_store g) (ic_tenant_id ctx) (qs_counter_id q) (qs_seed_usage q) + debit_units ctx)) (counters g))"
proof -
  let ?E = "ledger_guard cal run ttl now today"
  have act: "counters (fst (qe_active ?E t d l h)) = counters h" "gs_store (fst (qe_active ?E t d l h)) = gs_store h" for t d l h
    by (simp_all add: ledger_guard_def case_prod_unfold)
  show ?thesis
  proof (cases "quota_bypass ctx \<or> limit_type_of (to_uppercase (ic_operation ctx)) = None")
    case True
    then show ?thesis using assms by (auto simp: quota_execute_def split: if_splits option.splits)
  next
    case False
    then obtain l where l: "\<not> quota_bypass ctx" "limit_type_of (to_uppercase (ic_operation ctx)) = Some l" by auto
    obtain g1 a where a: "qe_active ?E (ic_tenant_id ctx) (ic_entity_type ctx) l g = (g1, a)" by fastforce
    have g1: "gs_store g1 = gs_store g" using act(2) [of "ic_tenant_id ctx" "ic_entity_type ctx" l g] a by simp
    consider "\<forall>c. r \<noteq> Inr c" "g' = g1" | q where "a = Inr (Some q)"
      using assms l a by (cases a; cases "projr a") (auto simp: quota_execute_def)
    then show ?thesis
    proof cases
      case 1
      then show ?thesis by (simp add: g1)
    next
      case 2
      let ?t = "ic_tenant_id ctx" and ?i = "qs_counter_id q" and ?n = "debit_units ctx"
      have res: "resolves ?E ?t q" unfolding resolves_def using a 2 by blast
      obtain s2 d where d: "ledger_try_debit ?t ?i ?n (qs_max_limit q) (qs_seed_usage q) (gs_store g) = (s2, d)" by fastforce
      have "qe_debit ?E ?t ?i ?n (qs_max_limit q) (qs_seed_usage q) g1 = (g1\<lparr>gs_store := s2\<rparr>, d)"
        using d by (simp add: ledger_guard_def g1)
      then have run: "(case d of Inl e \<Rightarrow> (g1\<lparr>gs_store := s2\<rparr>, Inl e) | Inr (Exhausted _ _) \<Rightarrow> (g1\<lparr>gs_store := s2\<rparr>, Inl Quota001)
          | Inr (Debited u) \<Rightarrow> (g1\<lparr>gs_store := s2\<rparr>, Inr (ctx\<lparr>ic_quota_reservation :=
              Some (reservation_json q ?n (ic_entity_type ctx) u)\<rparr>))) = (g', r)"
        using assms l a 2 by (simp add: quota_execute_def split: sum.splits debit_outcome.splits)
      from try_debit_cases [OF d] show ?thesis
      proof (elim disjE conjE exE)
        fix c assume "d = Inr (Exhausted c (qs_max_limit q))" "s2 = gs_store g"
        then show ?thesis using run by auto
      next
        fix u assume "d = Inr (Debited u)" "quota_counters s2 = om_put (?t, ?i) (i64 (counter_of (gs_store g) ?t ?i (qs_seed_usage q) + ?n)) (counters g)"
        then show ?thesis using run res by auto
      qed
    qed
  qed
qed

lemma reservation_fields:
  "json_get (reservation_json q n d u) ''id'' = Some (JStr (qs_counter_id q))"
  "json_get (reservation_json q n d u) ''debit'' = Some (JInt n)"
  by (simp_all add: reservation_json_def json_get_def)

lemma debit_units_pos: "0 < debit_units ctx"
  by (auto simp: debit_units_def split: option.split)

lemma release_restores:
  assumes "sane_counters g" "resolves (ledger_guard cal run ttl now today) (ic_tenant_id ctx) q"
    and "counters g1 = om_put (ic_tenant_id ctx, qs_counter_id q)
      (i64 (counter_of (gs_store g) (ic_tenant_id ctx) (qs_counter_id q) (qs_seed_usage q) + debit_units ctx)) (counters g)"
    and "debit_units ctx < 2 ^ 63"
  shows "restored (ledger_guard cal run ttl now today) g (quota_compensate (ledger_guard cal run ttl now today)
    (ctx\<lparr>ic_quota_reservation := Some (reservation_json q (debit_units ctx) d u)\<rparr>) g1)"
proof -
  let ?k = "(ic_tenant_id ctx, qs_counter_id q)" and ?n = "debit_units ctx"
  let ?v = "counter_of (gs_store g) (ic_tenant_id ctx) (qs_counter_id q) (qs_seed_usage q)"
  have units: "reserved_units (reservation_json q ?n d u) = ?n"
    using debit_units_pos [of ctx] assms(4) by (simp add: reserved_units_def reservation_fields as_i64_def)
  have now: "counter_of (gs_store g1) (ic_tenant_id ctx) (qs_counter_id q) 0 = i64 (?v + ?n)"
    by (simp add: counter_of_def assms(3) unwrap_or_def)
  have after: "counters (quota_compensate (ledger_guard cal run ttl now today)
      (ctx\<lparr>ic_quota_reservation := Some (reservation_json q ?n d u)\<rparr>) g1)
    = om_put ?k (max (i64 ?v) 0) (counters g1)"
    by (simp add: quota_compensate_def reservation_fields as_str_def units ledger_guard_def ledger_release_def
        ledger_settle_def quota_settle_def now i64_cancel Let_def case_prod_unfold)
  show ?thesis
    unfolding restored_def after
  proof (intro allI)
    fix k
    show "om_get (om_put ?k (max (i64 ?v) 0) (counters g1)) k = om_get (counters g) k \<or> om_get (counters g) k = None
      \<and> (\<exists>q'. resolves (ledger_guard cal run ttl now today) (fst k) q' \<and> qs_counter_id q' = snd k
          \<and> om_get (om_put ?k (max (i64 ?v) 0) (counters g1)) k = Some (max (i64 (qs_seed_usage q')) 0))"
    proof (cases "k = ?k")
      case False
      then show ?thesis by (simp add: assms(3))
    next
      case True
      show ?thesis
      proof (cases "om_get (counters g) ?k")
        case None
        then show ?thesis using assms(2) True by (auto simp: counter_of_def unwrap_or_def)
      next
        case (Some v)
        then have "0 \<le> v" "v < 9223372036854775808" using assms(1) unfolding sane_counters_def by fastforce+
        then show ?thesis using Some True by (simp add: counter_of_def unwrap_or_def)
      qed
    qed
  qed
qed

text \<open>C31: A request that fails leaves no debit behind. Whatever step of the pipeline refuses it, the counters
  of the tenant are afterwards what they were, but for a counter that the request created, which holds
  the seed its quota starts from; as long as the other steps leave the counters alone.\<close>

theorem failed_request_refunds:
  assumes "run_steps [auth, quota_guard_step (ledger_guard cal run ttl now today), janus_router_step route] [] None ctx g = (g', Inl e)"
    and "ic_quota_reservation ctx = None" "sane_counters g" "st_compensate auth = no_compensation"
    and auth: "\<And>h h' r. st_execute auth ctx h = (h', r) \<Longrightarrow> counters h' = counters h
      \<and> (\<forall>c. r = Inr c \<longrightarrow> ic_quota_reservation c = None \<and> debit_units c < 2 ^ 63)"
    and route: "\<And>c h h' r. route c h = (h', r) \<Longrightarrow> counters h' = counters h"
  shows "restored (ledger_guard cal run ttl now today) g g'"
proof -
  let ?E = "ledger_guard cal run ttl now today"
  have refl: "counters h = counters g \<Longrightarrow> restored ?E g h" for h by (simp add: restored_def)
  obtain g1 r1 where a: "st_execute auth ctx g = (g1, r1)" by fastforce
  note a1 = auth [OF a]
  show ?thesis
  proof (cases r1)
    case (Inl e1)
    then have "g' = g1" using assms(1) a assms(2) by (simp add: has_reversible_effects_def)
    then show ?thesis using refl a1 by simp
  next
    case r1: (Inr c1)
    then have c1: "ic_quota_reservation c1 = None" "debit_units c1 < 2 ^ 63" using a1 by auto
    obtain g2 r2 where q: "quota_execute ?E c1 g1 = (g2, r2)" by fastforce
    show ?thesis
    proof (cases r2)
      case (Inl e2)
      then have "g' = g2" using assms(1) a r1 q assms(2) c1(1) by (simp add: has_reversible_effects_def quota_guard_step_def)
      moreover have "counters g2 = counters g1" using quota_execute_cases [OF q] Inl by auto
      ultimately show ?thesis using refl a1 by simp
    next
      case (Inr c2)
      then have run: "run_steps [janus_router_step route] [quota_guard_step ?E, auth] None c2 g2 = (g', Inl e)"
        using assms(1) a r1 q assms(2) c1(1) by (simp add: has_reversible_effects_def quota_guard_step_def del: run_steps.simps(2))
          (simp add: has_reversible_effects_def quota_guard_step_def)
      obtain g3 r3 where j: "janus_execute route c2 g2 = (g3, r3)" by fastforce
      have g3: "counters g3 = counters g2"
      proof -
        obtain h rr where "route c2 g2 = (h, rr)" by fastforce
        then show ?thesis using j route by (auto simp: janus_execute_def Let_def split: sum.splits)
      qed
      obtain e3 where r3: "r3 = Inl e3" using run j by (cases r3) (auto simp: janus_router_step_def)
      have g': "g' = (if has_reversible_effects c2 then quota_compensate ?E c2 g3 else g3)"
        using run j r3 assms(4) by (auto simp: janus_router_step_def quota_guard_step_def no_compensation_def split: if_splits)
      consider "counters g2 = counters g1" "ic_quota_reservation c2 = None"
        | q u where "resolves ?E (ic_tenant_id c1) q"
          "c2 = c1\<lparr>ic_quota_reservation := Some (reservation_json q (debit_units c1) (ic_entity_type c1) u)\<rparr>"
          "counters g2 = om_put (ic_tenant_id c1, qs_counter_id q)
            (i64 (counter_of (gs_store g1) (ic_tenant_id c1) (qs_counter_id q) (qs_seed_usage q) + debit_units c1)) (counters g1)"
        using quota_execute_cases [OF q] Inr c1(1) by auto
      then show ?thesis
      proof cases
        case 1
        then show ?thesis using g' g3 a1 refl by (simp add: has_reversible_effects_def)
      next
        case 2
        have "counter_of (gs_store g1) t i z = counter_of (gs_store g) t i z" for t i z using a1 by (simp add: counter_of_def)
        then have "counters g3 = om_put (ic_tenant_id c1, qs_counter_id q)
            (i64 (counter_of (gs_store g) (ic_tenant_id c1) (qs_counter_id q) (qs_seed_usage q) + debit_units c1)) (counters g)"
          using 2(3) g3 a1 by simp
        from release_restores [OF assms(3) 2(1) this c1(2)] show ?thesis using g' by (simp add: 2(2) has_reversible_effects_def)
      qed
    qed
  qed
qed

text \<open>A creation whose write is refused: the quota of one row, seeded with three units.\<close>

definition lifetime_row :: json where
  "lifetime_row = JObj [(''current_usage'', JInt 3), (''id'', JStr ''q1''), (''max_limit'', JInt 50), (''period_key'', JStr ''LIFETIME'')]"

definition sample_guard :: "guard_state quota_step" where
  "sample_guard = ledger_guard month_calendar (\<lambda>t q. Inr (JArr [lifetime_row])) 0 0 3"

definition sample_request :: iop_context where
  "sample_request = context_new ''t'' ''u'' ''note'' ''CREATE'' om_empty"

definition empty_guard :: guard_state where
  "empty_guard = \<lparr>gs_store = store_default, gs_cache = om_empty\<rparr>"

definition admit_all :: "guard_state iop_step" where
  "admit_all = \<lparr>st_execute = (\<lambda>c s. (s, Inr c)), st_compensate = no_compensation\<rparr>"

definition refuse_all :: "iop_context \<Rightarrow> (guard_state, json) call" where
  "refuse_all c s = (s, Inl Infra001)"

lemma sample_refused:
  "case run_steps [admit_all, quota_guard_step sample_guard, janus_router_step refuse_all] [] None sample_request empty_guard of
     (g, r) \<Rightarrow> r = Inl Infra001 \<and> om_get (counters g) (''t'', ''q1'') = Some 3
       \<and> om_get (counters (fst (quota_execute sample_guard sample_request empty_guard))) (''t'', ''q1'') = Some 4"
  by code_simp

theorem failed_request_refunds_witness:
  "\<exists>g. run_steps [admit_all, quota_guard_step sample_guard, janus_router_step refuse_all] [] None sample_request empty_guard
        = (g, Inl Infra001)
     \<and> restored sample_guard empty_guard g \<and> om_get (counters g) (''t'', ''q1'') = Some 3"
proof -
  obtain g where g: "run_steps [admit_all, quota_guard_step sample_guard, janus_router_step refuse_all] [] None sample_request
      empty_guard = (g, Inl Infra001)" "om_get (counters g) (''t'', ''q1'') = Some 3"
    using sample_refused by (auto split: prod.splits)
  have u: "debit_units sample_request = 1" by code_simp
  have "restored sample_guard empty_guard g"
    unfolding sample_guard_def
    by (rule failed_request_refunds [OF g(1) [unfolded sample_guard_def]])
      (auto simp: u sane_counters_def empty_guard_def store_default_def admit_all_def refuse_all_def sample_request_def context_new_def
        u [unfolded sample_request_def context_new_def])
  then show ?thesis using g by blast
qed

end
