(* ===== verification/EavCommit.thy ===== *)
theory EavCommit
  imports EavCorrect
begin

text \<open>What a transaction does to the entities: every datom of the plan carries the tenant and the
  number of the transaction, a committed transaction is one simultaneous update of the attributes
  of all entities it writes, and the entity reads back what was written.\<close>

section \<open>The plan's datoms carry the transaction\<close>

definition stamped :: "string \<Rightarrow> 64 word \<Rightarrow> datom list \<Rightarrow> bool" where
  "stamped tenant tx ds \<longleftrightarrow> list_all (\<lambda>d. tenant_id d = tenant \<and> tx_id d = tx) ds"

lemma stamped_simps [simp]:
  "stamped tenant tx []"
  "stamped tenant tx (datom_assert tenant e n a v tx # ds) = stamped tenant tx ds"
  "stamped tenant tx (datom_retract tenant e n a v tx # ds) = stamped tenant tx ds"
  "stamped tenant tx (ds @ es) \<longleftrightarrow> stamped tenant tx ds \<and> stamped tenant tx es"
  by (simp_all add: stamped_def datom_assert_def datom_retract_def)

lemma stamped_concat: "(\<And>x. x \<in> set xs \<Longrightarrow> stamped tenant tx (f x)) \<Longrightarrow> stamped tenant tx (concat (map f xs))"
  by (induction xs) auto

lemma stamped_plan_attr: "plan_attr reg tenant ty eid tx cr active nv = Inr ds \<Longrightarrow> stamped tenant tx ds"
  by (auto simp: plan_attr_def split: prod.splits option.splits if_splits)

lemma stamped_plan_attrs:
  assumes "plan_attrs reg tenant ty eid tx cr active attrs = Inr ds"
  shows "stamped tenant tx ds"
  using assms unfolding plan_attrs_def
  by (rule try_fold_invariant) (auto dest: stamped_plan_attr)

lemma stamped_embedding [simp]: "stamped tenant tx (embedding_datoms x tenant eid tx cr active attrs d)"
  by (auto simp: embedding_datoms_def Let_def split: prod.split option.split)

lemma stamped_retract_text [simp]: "stamped tenant tx (retract_text tenant eid tx active sys P)"
  by (auto simp: retract_text_def split: option.split datom_value.split)

lemma stamped_enrich [simp]: "stamped tenant tx (enrich_datoms now eid ty tenant tx cr active actor)"
  by (auto simp: enrich_datoms_def Let_def split: option.split datom_value.split)

lemma stamped_mirror [simp]: "stamped tenant tx (plan_mirror_datoms reg tenant ty eid attrs active tx del)"
  unfolding plan_mirror_datoms_def
  by (rule stamped_concat) (auto simp: mirror_datoms_def Let_def split: option.split)

lemma stamped_entity:
  "plan_entity_datoms x reg now tenant ty eid attrs tx cr active actor = Inr ds \<Longrightarrow> stamped tenant tx ds"
  by (auto simp: plan_entity_datoms_def dest: stamped_plan_attrs intro!: stamped_concat)

lemma stamped_outbox:
  "generate_outbox_datoms x reg now tenant ty eid op attrs tx ulid actor = Inr (Some ds) \<Longrightarrow> stamped tenant tx ds"
  by (auto simp: generate_outbox_datoms_def dest: stamped_plan_attrs split: if_splits)

lemma stamped_delete: "stamped (tp_tenant_id p) tx (build_delete_datoms reg p eid active tx)"
proof -
  have "stamped (tp_tenant_id p) tx (map (\<lambda>(name, (aid, v)). datom_retract (tp_tenant_id p) eid name aid v tx) xs)" for xs
    by (induction xs) (auto simp: stamped_def datom_retract_def)
  then show ?thesis by (simp add: build_delete_datoms_def)
qed

lemma stamped_payload:
  "plan_payload_datoms x reg now p eid tx active actor = Inr plan \<Longrightarrow> stamped (tp_tenant_id p) tx (dp_datoms plan)"
  by (auto simp: plan_payload_datoms_def Let_def stamped_delete dest: stamped_entity split: if_splits)

lemma stamped_outbox_rows:
  "outbox_rows te mute tenant ty eid op attrs tx ulid actor = Inr (ds, n) \<Longrightarrow> stamped tenant tx ds"
  by (auto simp: outbox_rows_def dest: stamped_outbox split: if_splits option.splits)

lemma stamped_projection:
  "plan_projection te p tx actor ju st = Inr st' \<Longrightarrow> stamped (tp_tenant_id p) tx (fst st)
     \<Longrightarrow> stamped (tp_tenant_id p) tx (fst st')"
  by (auto simp: plan_projection_def split: prod.splits dest: stamped_entity stamped_outbox_rows)

section \<open>Deduplication\<close>

lemma in_dedup_add: "e \<in> set (dedup_add d ds) \<Longrightarrow> e = d \<or> e \<in> set ds"
  by (auto simp: dedup_add_def split: if_splits)

lemma in_dedup: "e \<in> set (dedup_datoms_por_sk ds) \<Longrightarrow> e \<in> set ds"
proof -
  have "e \<in> set (fold dedup_add ds acc) \<Longrightarrow> e \<in> set ds \<union> set acc" for acc
    by (induction ds arbitrary: acc) (auto dest: in_dedup_add)
  from this [of "[]"] show "e \<in> set (dedup_datoms_por_sk ds) \<Longrightarrow> e \<in> set ds" by (simp add: dedup_datoms_por_sk_def)
qed

lemma stamped_dedup: "stamped tenant tx ds \<Longrightarrow> stamped tenant tx (dedup_datoms_por_sk ds)"
  by (auto simp: stamped_def list_all_iff dest: in_dedup)

lemma stamped_transaction:
  assumes "plan_transaction te p opts eid tx active = Inr (ds, n, plan)"
  shows "stamped (tp_tenant_id p) tx ds"
proof -
  let ?actor = "unwrap_or (to_actor opts) ''system''"
  obtain ob m ds0 where a: "plan_payload_datoms (te_ext te) (te_reg te) (te_now te) p eid tx active ?actor = Inr plan"
    "outbox_rows te (tp_suppress_events p) (tp_tenant_id p) (tp_entity_type p) eid (tp_op p) (tp_attrs p) tx
       (te_mutation_ulid te) ?actor = Inr (ob, m)"
    "try_fold (plan_projection te p tx ?actor)
       (zip (to_projections opts) (map (te_proj_ulid te) [0..<length (to_projections opts)])) (dp_datoms plan @ ob, m)
       = Inr (ds0, n)"
    and ds: "ds = dedup_datoms_por_sk ds0"
    using assms by (auto simp: plan_transaction_def Let_def split: prod.splits)
  have "stamped (tp_tenant_id p) tx (fst (ds0, n))"
    using a(3) by (rule try_fold_invariant)
      (use stamped_payload [OF a(1)] stamped_outbox_rows [OF a(2)] in \<open>auto intro: stamped_projection\<close>)
  then show ?thesis unfolding ds by (intro stamped_dedup) simp
qed

section \<open>What a committed transaction stores\<close>

lemma hash_split:
  "CHR ''#'' \<notin> set a \<Longrightarrow> CHR ''#'' \<notin> set b \<Longrightarrow> a @ CHR ''#'' # r = b @ CHR ''#'' # r' \<longleftrightarrow> a = b \<and> r = r'"
proof (induction a arbitrary: b)
  case Nil
  then show ?case by (cases b) auto
next
  case (Cons c a)
  then show ?case by (cases b) auto
qed

lemma tx_puts_map_Some [simp]: "tx_puts (map Some ps) = ps"
  by (induction ps) auto

lemma transact_store_get:
  assumes "transact_store (map Some ps) s = Inr t"
  shows "om_get (items t) k = (case find (\<lambda>p. put_key p = Some k) ps of
      Some p \<Rightarrow> Some (put_item p) | None \<Rightarrow> om_get (items s) k)"
    and "tx_admissible s ps"
proof -
  show adm: "tx_admissible s ps" using transact_store_is_ok [of "map Some ps" s] assms by simp
  then have "map_of (rev (stage_rows ps)) k = map_option put_item (find (\<lambda>p. put_key p = Some k) ps)"
    by (intro map_of_stage_rows) (auto simp: tx_admissible_def)
  then show "om_get (items t) k = (case find (\<lambda>p. put_key p = Some k) ps of
      Some p \<Rightarrow> Some (put_item p) | None \<Rightarrow> om_get (items s) k)"
    using transact_store_ok [OF assms] by (auto simp: om.put_fold_get split: option.splits)
qed

definition datom_key :: "datom \<Rightarrow> primary_key" where
  "datom_key d = (eavt_pk d, build_eavt_sk (attr_id d) (tx_id d) (dop d))"

lemma put_key_datom [simp]: "put_key (append_put table (eavt_item x d)) = Some (datom_key d)"
  by (simp add: put_key_def append_put_def extract_pk_sk_def get_string_def sort_bytes_def datom_key_def)

lemma append_condition: "condition_parse (Some ''attribute_not_exists(PK) AND attribute_not_exists(SK)'') = AppendOnlyLogUnique"
  by code_simp

lemma check_append: "check_condition s (append_put table it) k = Inr () \<longleftrightarrow> \<not> om_mem k (items s)"
  by (simp add: check_condition_def append_put_def append_condition)

lemma put_key_registry [simp]:
  "put_key (tx_registry_item tenant tx p eid actor table) = Some (''T#'' @ tenant @ ''#TX'', be_word tx)"
  by (simp add: tx_registry_item_def append_put_def put_key_def extract_pk_sk_def get_string_def sort_bytes_def)

definition is_claim_of :: "string \<Rightarrow> put \<Rightarrow> bool" where
  "is_claim_of tenant p \<longleftrightarrow> (\<exists>scope entity h. put_key p = Some (claim_pk tenant scope entity h, str_bytes ''#CLAIM''))"

lemma put_key_claim: "put_key (claim_put table op eid (claim_item pk e names)) = Some (pk, str_bytes ''#CLAIM'')"
  by (simp add: claim_put_def claim_item_def put_key_def extract_pk_sk_def get_string_def sort_bytes_def)

lemma plan_claims_claim: "p \<in> set (plan_claims x table ctx) \<Longrightarrow> is_claim_of (cc_tenant_id ctx) p"
  by (auto simp: plan_claims_def in_map_filter build_claim_item_def is_claim_of_def put_key_claim split: if_splits option.splits) blast

lemma plan_claims_para_claims:
  assumes "plan_claims_para x table ctxs = Inr claims" "p \<in> set claims" "\<And>c. c \<in> set ctxs \<Longrightarrow> cc_tenant_id c = tenant"
  shows "is_claim_of tenant p"
proof -
  have one: "\<forall>p\<in>set (fst st'). is_claim_of tenant p"
    if "add_entity_claims x table ctx st = Inr st'" "ctx \<in> set ctxs" "\<forall>p\<in>set (fst st). is_claim_of tenant p" for ctx st st'
  proof (cases "applies_to (cc_model ctx)")
    case True
    then have "try_fold (add_claim (cc_entity_id ctx)) (plan_claims x table ctx) st = Inr st'"
      using that(1) by (simp add: add_entity_claims_def)
    then show ?thesis
      using that(3) by (rule try_fold_invariant)
        (use plan_claims_claim assms(3) [OF that(2)] in \<open>fastforce simp: add_claim_def split: prod.splits option.splits if_splits\<close>)
  qed (use that in \<open>simp add: add_entity_claims_def\<close>)
  obtain st where st: "try_fold (add_entity_claims x table) ctxs ([], om_empty) = Inr st" "claims = fst st"
    using assms(1) by (auto simp: plan_claims_para_def)
  have "\<forall>p\<in>set (fst st). is_claim_of tenant p"
    using st(1) by (rule try_fold_invariant) (use one in auto)
  then show ?thesis using assms(2) st(2) by simp
qed

lemma tx_entities_tenant: "e \<in> set (tx_entities reg p eid active projs) \<Longrightarrow> cc_tenant_id (fst e) = tp_tenant_id p"
  by (auto simp: tx_entities_def in_map_filter split: option.splits)

text \<open>No registry row and no claim lies in the partition of an entity.\<close>

lemma foreign_keys:
  assumes "CHR ''#'' \<notin> set tn" "CHR ''#'' \<notin> set tenant"
  shows "''T#'' @ tenant @ ''#TX'' \<noteq> entity_pk tn e" "is_claim_of tenant q \<Longrightarrow> put_key q \<noteq> Some (entity_pk tn e, sk)"
proof -
  show "''T#'' @ tenant @ ''#TX'' \<noteq> entity_pk tn e"
    using hash_split [OF assms(2,1), of "''TX''" "''E#'' @ e"] by (simp add: entity_pk_def)
  have "claim_pk tenant scope entity h \<noteq> entity_pk tn e" for scope entity h
    using hash_split [OF assms(2,1), of "''U#'' @ entity @ ''#'' @ h" "''E#'' @ e"]
      hash_split [OF _ assms(1), of "''GLOBAL''" "''U#'' @ entity @ ''#'' @ h" "''E#'' @ e"]
    by (cases scope) (auto simp: claim_pk_def entity_pk_def)
  then show "is_claim_of tenant q \<Longrightarrow> put_key q \<noteq> Some (entity_pk tn e, sk)"
    unfolding is_claim_of_def by (metis option.inject prod.inject)
qed

section \<open>A transaction is one update of the entities\<close>

text \<open>The effect of a list of datoms of one transaction on the attributes of a partition: an assertion
  gives the value that is read back, a retraction alone removes the attribute.\<close>

definition datom_effect ::
  "ext \<Rightarrow> datom list \<Rightarrow> string \<Rightarrow> (16 word \<Rightarrow> datom_value option) \<Rightarrow> 16 word \<Rightarrow> datom_value option" where
  "datom_effect x ds pk old a =
    (case find (\<lambda>d. eavt_pk d = pk \<and> attr_id d = a \<and> dop d) ds of
       Some d \<Rightarrow> Some (read_back x (dvalue d))
     | None \<Rightarrow> if list_ex (\<lambda>d. eavt_pk d = pk \<and> attr_id d = a) ds then None else old a)"

text \<open>A commit of the datoms of one transaction, seen from a partition that only they write.\<close>

definition committed ::
  "ext \<Rightarrow> string \<Rightarrow> datom list \<Rightarrow> put list \<Rightarrow> partition_store \<Rightarrow> partition_store \<Rightarrow> string \<Rightarrow> 64 word \<Rightarrow> bool" where
  "committed x table ds rest s t pk tx \<longleftrightarrow>
     transact_store (map Some (build_write_items x table ds @ rest)) s = Inr t
     \<and> (\<forall>q\<in>set rest. \<forall>sk. put_key q \<noteq> Some (pk, sk)) \<and> (\<forall>d\<in>set ds. tx_id d = tx)"

lemma find_datom:
  assumes "\<forall>q\<in>set rest. \<forall>sk. put_key q \<noteq> Some (pk, sk)"
  shows "find (\<lambda>p. put_key p = Some (pk, sk)) (build_write_items x table ds @ rest)
     = map_option (\<lambda>d. append_put table (eavt_item x d)) (find (\<lambda>d. datom_key d = (pk, sk)) ds)"
proof -
  have rest: "find (\<lambda>p. put_key p = Some (pk, sk)) rest = None" using assms by (auto simp: find_None_iff)
  show ?thesis by (induction ds) (use rest in \<open>auto simp: build_write_items_def\<close>)
qed

lemma committed_items:
  assumes "committed x table ds rest s t pk tx"
  shows "om_get (items t) (pk, sk) = (case find (\<lambda>d. datom_key d = (pk, sk)) ds of
     Some d \<Rightarrow> Some (eavt_item x d) | None \<Rightarrow> om_get (items s) (pk, sk))"
  using assms transact_store_get(1) [of "build_write_items x table ds @ rest" s t "(pk, sk)"] find_datom [of rest pk sk x table ds]
  unfolding committed_def by (auto simp: append_put_def split: option.splits)

lemma committed_unique:
  assumes "committed x table ds rest s t pk tx" "d \<in> set ds" "d' \<in> set ds" "datom_key d = datom_key d'"
  shows "d = d'"
proof -
  have "distinct (map put_key (build_write_items x table ds @ rest))"
    using assms(1) transact_store_get(2) unfolding committed_def tx_admissible_def by blast
  then have "distinct (map datom_key ds)" by (auto simp: build_write_items_def comp_def distinct_map inj_on_def)
  then show ?thesis using assms(2-) by (auto simp: distinct_map dest: inj_onD)
qed

lemma committed_key: "committed x table ds rest s t pk tx \<Longrightarrow> d \<in> set ds \<Longrightarrow>
    datom_key d = (pk', build_eavt_sk a tx' b) \<longleftrightarrow> eavt_pk d = pk' \<and> attr_id d = a \<and> tx' = tx \<and> dop d = b"
  by (auto simp: committed_def datom_key_def)

lemma committed_get:
  assumes c: "committed x table ds rest s t pk tx" and d: "d \<in> set ds" "eavt_pk d = pk"
  shows "om_get (items t) (pk, build_eavt_sk (attr_id d) tx (dop d)) = Some (eavt_item x d)"
proof -
  have k: "datom_key d = (pk, build_eavt_sk (attr_id d) tx (dop d))" using d committed_key [OF c d(1)] by simp
  show ?thesis
  proof (cases "find (\<lambda>d'. datom_key d' = datom_key d) ds")
    case None
    then show ?thesis using d by (auto simp: find_None_iff)
  next
    case (Some d')
    then have "d' \<in> set ds" "datom_key d' = datom_key d" by (auto simp: find_Some_iff)
    then have "d' = d" using committed_unique [OF c _ d(1)] by blast
    then show ?thesis using committed_items [OF c, of "build_eavt_sk (attr_id d) tx (dop d)"] Some k by simp
  qed
qed

lemma committed_other:
  assumes c: "committed x table ds rest s t pk tx"
    and "\<And>d. d \<in> set ds \<Longrightarrow> eavt_pk d = pk \<Longrightarrow> attr_id d = a \<Longrightarrow> dop d = b \<Longrightarrow> tx' \<noteq> tx"
  shows "om_get (items t) (pk, build_eavt_sk a tx' b) = om_get (items s) (pk, build_eavt_sk a tx' b)"
proof -
  have "find (\<lambda>d. datom_key d = (pk, build_eavt_sk a tx' b)) ds = None"
    using assms(2) committed_key [OF c] by (auto simp: find_None_iff)
  then show ?thesis by (simp add: committed_items [OF c])
qed

lemma committed_log_wf:
  assumes c: "committed x table ds rest s t pk tx" and wf: "log_wf pk s"
  shows "log_wf pk t"
proof -
  have "om_get it ''PK'' = Some (AvS pk) \<and> om_get it ''SK'' = Some (AvB sk) \<and> (\<exists>a t b. sk = build_eavt_sk a t b)"
    if "om_get (items t) (pk, sk) = Some it" for sk it
  proof (cases "find (\<lambda>d. datom_key d = (pk, sk)) ds")
    case None
    then show ?thesis using that wf unfolding committed_items [OF c] log_wf_def by auto
  next
    case (Some d)
    then have "datom_key d = (pk, sk)" by (auto simp: find_Some_iff)
    then show ?thesis using that Some unfolding committed_items [OF c] by (auto simp: datom_key_def)
  qed
  then show ?thesis by (simp add: log_wf_def)
qed

lemma committed_mem:
  assumes c: "committed x table ds rest s t pk tx"
  shows "om_mem (pk, build_eavt_sk a tx' b) (items t) \<longleftrightarrow> om_mem (pk, build_eavt_sk a tx' b) (items s)
    \<or> tx' = tx \<and> (\<exists>d\<in>set ds. eavt_pk d = pk \<and> attr_id d = a \<and> dop d = b)"
proof (cases "tx' = tx \<and> (\<exists>d\<in>set ds. eavt_pk d = pk \<and> attr_id d = a \<and> dop d = b)")
  case True
  then show ?thesis using committed_get [OF c] by (auto simp: om_mem_def)
next
  case False
  then have "om_get (items t) (pk, build_eavt_sk a tx' b) = om_get (items s) (pk, build_eavt_sk a tx' b)"
    by (intro committed_other [OF c]) auto
  then show ?thesis using False by (auto simp: om_mem_def)
qed

definition older :: "string \<Rightarrow> 64 word \<Rightarrow> partition_store \<Rightarrow> bool" where
  "older pk tx s \<longleftrightarrow> (\<forall>a t b. om_mem (pk, build_eavt_sk a t b) (items s) \<longrightarrow> t < tx)"

lemma committed_value:
  assumes c: "committed x table ds rest s t pk tx" and wf: "log_wf pk s" and old: "older pk tx s"
    and range: "\<forall>d\<in>set ds. value_in_range x (dvalue d)"
  shows "entity_value x pk a t = datom_effect x ds pk (\<lambda>a. entity_value x pk a s) a"
proof -
  note row_t = current_row_iff [OF committed_log_wf [OF c wf]] and row_s = current_row_iff [OF wf]
  have le: "t' \<le> tx" if "om_mem (pk, build_eavt_sk a t' b) (items t)" for t' b
    using that old unfolding committed_mem [OF c] older_def by (auto intro: less_imp_le)
  show ?thesis
  proof (cases "find (\<lambda>d. eavt_pk d = pk \<and> attr_id d = a \<and> dop d) ds")
    case (Some d)
    then have d: "d \<in> set ds" "eavt_pk d = pk" "attr_id d = a" "dop d" by (auto simp: find_Some_iff)
    then have "current_row pk a t = Some (tx, eavt_item x d)"
      using committed_get [OF c d(1,2)] le by (simp add: row_t)
    then show ?thesis using Some d range written_value_readback_aux [of x d]
      by (simp add: entity_value_def datom_effect_def)
  next
    case none: None
    show ?thesis
    proof (cases "list_ex (\<lambda>d. eavt_pk d = pk \<and> attr_id d = a) ds")
      case True
      then obtain d where d: "d \<in> set ds" "eavt_pk d = pk" "attr_id d = a" "\<not> dop d"
        using none by (auto simp: list_ex_iff find_None_iff)
      have "current_row pk a t \<noteq> Some (t', it)" for t' it
      proof
        assume r: "current_row pk a t = Some (t', it)"
        have "om_mem (pk, build_eavt_sk a tx False) (items t)" using committed_get [OF c d(1,2)] d by (simp add: om_mem_def)
        then have "t' = tx" using r le [of t' True] unfolding row_t by (fastforce simp: om_mem_def)
        moreover have "om_mem (pk, build_eavt_sk a t' True) (items t)" using r by (simp add: row_t om_mem_def)
        ultimately show False using none old unfolding committed_mem [OF c] older_def by (fastforce simp: find_None_iff)
      qed
      then show ?thesis using none True by (cases "current_row pk a t") (auto simp: entity_value_def datom_effect_def)
    next
      case False
      then have "om_get (items t) (pk, build_eavt_sk a t' b) = om_get (items s) (pk, build_eavt_sk a t' b)" for t' b
        by (intro committed_other [OF c]) (auto simp: list_ex_iff)
      then have "current_row pk a t = Some r \<longleftrightarrow> current_row pk a s = Some r" for r
        by (cases r) (simp add: row_t row_s om_mem_def)
      then have "current_row pk a t = current_row pk a s" by (metis not_None_eq)
      then show ?thesis using none False by (simp add: entity_value_def datom_effect_def)
    qed
  qed
qed

section \<open>The transaction of the writer\<close>

definition planned_datoms :: "tx_env \<Rightarrow> transact_payload \<Rightarrow> tx_options \<Rightarrow> transact_result \<Rightarrow> partition_store \<Rightarrow> datom list" where
  "planned_datoms te p opts r s =
    (case plan_transaction te p opts (tr_entity_id r) (tr_tx_id r) (active_for te p (tr_entity_id r) s) of
       Inr (ds, _) \<Rightarrow> ds | Inl _ \<Rightarrow> [])"

text \<open>The entities of a transaction as the constraints see them; the previous state plays no role there.\<close>

definition tx_contexts :: "tx_env \<Rightarrow> transact_payload \<Rightarrow> tx_options \<Rightarrow> string \<Rightarrow> constraint_context list" where
  "tx_contexts te p opts eid = map fst (tx_entities (te_reg te) p eid om_empty (to_projections opts))"

lemma tx_entities_contexts: "map fst (tx_entities reg p eid active projs) = map fst (tx_entities reg p eid om_empty projs)"
  by (simp add: tx_entities_def split: option.split)

text \<open>The entities whose cache entries a transaction drops.\<close>

definition written_entities :: "transact_payload \<Rightarrow> tx_options \<Rightarrow> transact_result \<Rightarrow> string list" where
  "written_entities p opts r = tr_entity_id r # map sp_entity_id (to_projections opts)"

lemma transact_inner_ok:
  assumes "transact_inner te p opts st = (Inr r, st')"
  obtains claims where
    "transact_store (map Some (build_write_items (te_ext te) (te_table te) (planned_datoms te p opts r (ev_store st))
       @ [tx_registry_item (tp_tenant_id p) (tr_tx_id r) p (tr_entity_id r) (to_actor opts) (te_table te)] @ claims))
       (ev_store st) = Inr (ev_store st')"
    "\<And>q. q \<in> set claims \<Longrightarrow> is_claim_of (tp_tenant_id p) q"
    "plan_claims_para (te_ext te) (te_table te) (tx_contexts te p opts (tr_entity_id r)) = Inr claims"
    "stamped (tp_tenant_id p) (tr_tx_id r) (planned_datoms te p opts r (ev_store st))"
    "tr_datoms r = length (planned_datoms te p opts r (ev_store st))"
    "\<not> to_deferred opts \<Longrightarrow> e \<in> set (written_entities p opts r) \<Longrightarrow> om_get (ev_cache st') (entity_pk (tp_tenant_id p) e) = None"
proof -
  define eid where "eid = unwrap_or (tp_entity_id p) (te_entity_ulid te)"
  define tx where "tx = unwrap_or (to_forced_tx opts) (generate_tx_id (ev_last_tx st) (word_of_int (te_now te mod 2 ^ 48)))"
  define st1 where "st1 = (if to_forced_tx opts = None then st\<lparr>ev_last_tx := tx\<rparr> else st)"
  define active where "active = active_for te p eid (ev_store st)"
  define es where "es = tx_entities (te_reg te) p eid active (to_projections opts)"
  have s1: "ev_store st1 = ev_store st" by (simp add: st1_def)
  have st1': "(if to_forced_tx opts = None then st\<lparr>ev_last_tx := generate_tx_id (ev_last_tx st) (word_of_int (te_now te mod 2 ^ 48))\<rparr> else st) = st1"
    by (cases "to_forced_tx opts") (simp_all add: st1_def tx_def unwrap_or_def)
  obtain checked c where ck: "check_entities te (to_deferred opts) (ev_store st) es (ev_cache st1) = (checked, c)" by fastforce
  have "transact_commit te p opts eid tx active (map fst es) (st1\<lparr>ev_cache := c\<rparr>) = Inr (r, st')"
    using assms ck unfolding transact_inner_def Let_def st1' eid_def [symmetric] tx_def [symmetric] s1 active_def [symmetric] es_def [symmetric]
    by (auto split: if_splits sum.splits prod.splits)
  then obtain ds n plan puts s where pl: "plan_transaction te p opts eid tx active = Inr (ds, n, plan)"
    and pu: "tx_puts_of te p opts eid tx (map fst es) ds = Inr puts"
    and ts: "transact_store (map Some puts) (ev_store st) = Inr s"
    and r: "tr_entity_id r = eid" "tr_tx_id r = tx" "tr_datoms r = length ds"
    and st': "st' = (if to_deferred opts then st1\<lparr>ev_cache := c, ev_store := s\<rparr> else invalidate_entity_caches (tp_tenant_id p)
         ((eid, tp_entity_type p) # map (\<lambda>j. (sp_entity_id j, sp_entity_type j)) (to_projections opts)) (st1\<lparr>ev_cache := c, ev_store := s\<rparr>))"
    by (auto simp: transact_commit_def Let_def s1 split: prod.splits)
  have ds: "planned_datoms te p opts r (ev_store st) = ds" using pl by (simp add: planned_datoms_def r active_def)
  obtain claims where cl: "plan_claims_para (te_ext te) (te_table te) (map fst es) = Inr claims"
    and puts: "puts = build_write_items (te_ext te) (te_table te) ds
       @ [tx_registry_item (tp_tenant_id p) tx p eid (to_actor opts) (te_table te)] @ claims"
    using pu by (auto simp: tx_puts_of_def)
  have store: "ev_store st' = s" by (simp add: st' invalidate_entity_caches_def)
  show ?thesis
  proof (rule that [of claims])
    show "is_claim_of (tp_tenant_id p) q" if "q \<in> set claims" for q
      by (rule plan_claims_para_claims [OF cl that]) (auto simp: es_def dest: tx_entities_tenant)
    show "plan_claims_para (te_ext te) (te_table te) (tx_contexts te p opts (tr_entity_id r)) = Inr claims"
      using cl unfolding tx_contexts_def r(1) es_def tx_entities_contexts [of "te_reg te" p eid active] .
    show "stamped (tp_tenant_id p) (tr_tx_id r) (planned_datoms te p opts r (ev_store st))"
      using stamped_transaction [OF pl] by (simp add: ds r)
    have gone: "om_get (fold (\<lambda>(eid, _). om_del (entity_pk tenant eid)) ws m) (entity_pk tenant e) = None"
      if "(\<exists>w\<in>set ws. e = fst w) \<or> om_get m (entity_pk tenant e) = None" for tenant m and ws :: "(string \<times> string) list"
      using that by (induction ws arbitrary: m) auto
    show "om_get (ev_cache st') (entity_pk (tp_tenant_id p) e) = None"
      if "\<not> to_deferred opts" "e \<in> set (written_entities p opts r)"
      using that by (auto simp: st' invalidate_entity_caches_def written_entities_def r image_iff intro!: gone)
  qed (use ts store in \<open>simp_all add: puts ds r\<close>)
qed

lemma transact_committed:
  assumes t: "transact_inner te p opts st = (Inr r, st')" and "CHR ''#'' \<notin> set (tp_tenant_id p)" "CHR ''#'' \<notin> set tn"
  shows "\<exists>rest. committed (te_ext te) (te_table te) (planned_datoms te p opts r (ev_store st)) rest (ev_store st) (ev_store st')
     (entity_pk tn e) (tr_tx_id r)"
proof (rule transact_inner_ok [OF t])
  fix claims
  let ?ds = "planned_datoms te p opts r (ev_store st)"
  let ?reg = "tx_registry_item (tp_tenant_id p) (tr_tx_id r) p (tr_entity_id r) (to_actor opts) (te_table te)"
  assume s: "transact_store (map Some (build_write_items (te_ext te) (te_table te) ?ds @ [?reg] @ claims)) (ev_store st) = Inr (ev_store st')"
    and cl: "\<And>q. q \<in> set claims \<Longrightarrow> is_claim_of (tp_tenant_id p) q" and stamp: "stamped (tp_tenant_id p) (tr_tx_id r) ?ds"
  have "\<forall>q\<in>set ([?reg] @ claims). \<forall>sk. put_key q \<noteq> Some (entity_pk tn e, sk)"
    using foreign_keys [OF assms(3,2)] cl by auto
  then have "committed (te_ext te) (te_table te) ?ds ([?reg] @ claims) (ev_store st) (ev_store st') (entity_pk tn e) (tr_tx_id r)"
    using s stamp by (simp add: committed_def stamped_def list_all_iff)
  then show ?thesis by blast
qed


lemma committed_readable:
  assumes c: "committed x table ds rest s t pk tx" and "readable x pk s" "\<forall>d\<in>set ds. value_in_range x (dvalue d)"
  shows "readable x pk t"
  unfolding readable_def
proof (intro allI impI)
  fix a tx' it assume g: "om_get (items t) (pk, build_eavt_sk a tx' True) = Some it"
  show "extract_datom_value x it \<noteq> None"
  proof (cases "find (\<lambda>d. datom_key d = (pk, build_eavt_sk a tx' True)) ds")
    case None
    then show ?thesis using g assms(2) by (simp add: committed_items [OF c] readable_def)
  next
    case (Some d)
    moreover from this have "d \<in> set ds" by (auto simp: find_Some_iff)
    ultimately have "d \<in> set ds" "it = eavt_item x d" using g by (simp_all add: committed_items [OF c])
    then show ?thesis using assms(3) written_value_readback_aux [of x d] by simp
  qed
qed

text \<open>C7: An entity reads back what was written. After a transaction that drops the caches at once, a read
  of the entity, or of a projected entity of the same transaction, returns for every attribute the
  effect of the transaction on the value before, provided that the labels of the entity's attributes
  are distinct.\<close>

theorem read_after_write:
  assumes "transact_inner te p opts st = (Inr r, st')" "CHR ''#'' \<notin> set (tp_tenant_id p)" "\<not> to_deferred opts"
    and "e \<in> set (written_entities p opts r)"
    and "log_wf (entity_pk (tp_tenant_id p) e) (ev_store st)" "older (entity_pk (tp_tenant_id p) e) (tr_tx_id r) (ev_store st)"
    and "readable (te_ext te) (entity_pk (tp_tenant_id p) e) (ev_store st)"
    and "\<forall>d\<in>set (planned_datoms te p opts r (ev_store st)). value_in_range (te_ext te) (dvalue d)"
    and "labels_ok (attr_label (te_reg te)) (entity_pk (tp_tenant_id p) e) (ev_store st')"
    and "om_mem (entity_pk (tp_tenant_id p) e, build_eavt_sk a t0 b0) (items (ev_store st'))"
  shows "om_get (fst (pull (te_ext te) (te_reg te) now (tp_tenant_id p) e None (ev_store st') (ev_cache st')))
      (attr_label (te_reg te) a)
    = datom_effect (te_ext te) (planned_datoms te p opts r (ev_store st)) (entity_pk (tp_tenant_id p) e)
        (\<lambda>a. entity_value (te_ext te) (entity_pk (tp_tenant_id p) e) a (ev_store st)) a"
proof -
  let ?pk = "entity_pk (tp_tenant_id p) e"
  obtain rest where c: "committed (te_ext te) (te_table te) (planned_datoms te p opts r (ev_store st)) rest
      (ev_store st) (ev_store st') ?pk (tr_tx_id r)"
    using transact_committed [OF assms(1,2,2)] by blast
  have wf: "log_wf ?pk (ev_store st')" by (rule committed_log_wf [OF c assms(5)])
  have "om_get (ev_cache st') ?pk = None" by (rule transact_inner_ok [OF assms(1)]) (use assms(3,4) in blast)
  then have "cached now None ?pk (ev_cache st') = None" by (simp add: cached_def)
  then show ?thesis
    using assembled_value [OF wf assms(9) committed_readable [OF c assms(7,8)] assms(10)]
      committed_value [OF c assms(5,6,8)] pull_uncached [OF wf] by simp
qed

section \<open>A sample transaction\<close>

definition note_model :: entity_model where
  "note_model = model_default\<lparr>em_entity := ''note'', em_disable_eda := True,
     em_attributes := [parse_attribute (JObj [(''name'', JStr ''title''), (''unique'', JStr ''tenant'')])]\<rparr>"

definition note_registry :: registry where
  "note_registry = \<lparr>reg_entities = om_of_list [(''note'', \<lparr>re_model = note_model, re_fingerprint = [], re_cache_fingerprint = []\<rparr>)],
     reg_attr_ids = register_attr ''title'' sys_attr_ids\<rparr>"

definition sample_te :: tx_env where
  "sample_te = \<lparr>te_ext = plain_ext, te_reg = note_registry, te_table = ''metri'', te_now = 1700000000000, te_mono = 0,
     te_entity_ulid = ''N1'', te_mutation_ulid = ''M1'', te_proj_ulid = (\<lambda>_. ''M2'')\<rparr>"

definition sample_create :: transact_payload where
  "sample_create = \<lparr>tp_tenant_id = ''acme'', tp_entity_id = None, tp_entity_type = ''note'',
     tp_attrs = [(''title'', DvStr ''hi'')], tp_op = OpCreate, tp_suppress_events = False\<rparr>"

definition empty_state :: eav_state where
  "empty_state = \<lparr>ev_store = store_default, ev_cache = om_empty, ev_scans = om_empty, ev_last_tx = 0\<rparr>"

definition sample_plan :: "(datom list \<times> nat \<times> datom_plan) res" where
  "sample_plan = plan_transaction sample_te sample_create no_options ''N1'' 1700000000000 om_empty"

lemma sample_plan_ok: "is_ok sample_plan"
  by code_simp

definition sample_datoms :: "datom list" where
  "sample_datoms = (case sample_plan of Inr (ds, _) \<Rightarrow> ds | Inl _ \<Rightarrow> [])"

lemma sample_datoms_eq:
  "sample_datoms = map (\<lambda>(n, a, v). datom_assert ''acme'' ''N1'' n a v 1700000000000)
     [(''title'', 47690, DvStr ''hi''), (''entity/ulid'', 0, DvStr ''N1''), (''entity/type'', 1, DvStr ''note''),
      (''tenant/id'', 2, DvStr ''acme''), (''meta/created_at'', 3, DvInstant 1700000000000),
      (''meta/updated_at'', 4, DvInstant 1700000000000), (''meta/created_by'', 5, DvStr ''system''),
      (''meta/updated_by'', 6, DvStr ''system'')]"
  by code_simp

lemma hash_title: "hash_attr_name ''title'' = 47690"
  by code_simp

lemma sample_datoms_facts:
  "map (\<lambda>d. (entity_id d, attr_id d, dop d)) sample_datoms =
     [(''N1'', hash_attr_name ''title'', True), (''N1'', 0, True), (''N1'', 1, True), (''N1'', 2, True), (''N1'', 3, True),
      (''N1'', 4, True), (''N1'', 5, True), (''N1'', 6, True)]"
  by (simp add: sample_datoms_eq hash_title datom_assert_def)

lemma sample_effect:
  "datom_effect plain_ext sample_datoms (entity_pk ''acme'' ''N1'') (\<lambda>_. None) (hash_attr_name ''title'') = Some (DvStr ''hi'')"
  by (simp add: sample_datoms_eq hash_title datom_effect_def datom_assert_def eavt_pk_def read_back_def)

definition sample_claim :: put where
  "sample_claim = claim_put ''metri'' OpCreate ''N1'' (claim_item (claim_pk ''acme'' ScopeTenant ''note''
     (hex_encode (str_bytes (''note'' @ CHR 0x1E # ''title'' @ CHR 0x1D # ''s:hi'')))) ''N1'' [''title''])"

lemma sample_claims:
  "plan_claims_para plain_ext ''metri'' (map fst (tx_entities note_registry sample_create ''N1'' om_empty [])) = Inr [sample_claim]"
  by code_simp

lemma sample_claim_of: "is_claim_of ''acme'' sample_claim"
  by (auto simp: sample_claim_def is_claim_of_def put_key_claim)

lemma sample_checks: "check_entities sample_te False store_default (tx_entities note_registry sample_create ''N1'' om_empty []) om_empty = (Inr (), om_empty)"
  by code_simp

lemma sample_plan_eq: "\<exists>n plan. sample_plan = Inr (sample_datoms, n, plan)"
proof -
  have "is_ok r \<Longrightarrow> \<exists>n plan. r = Inr (case r of Inr (ds, _) \<Rightarrow> ds | Inl _ \<Rightarrow> [], n, plan)"
    for r :: "(datom list \<times> nat \<times> datom_plan) res"
    by (cases r) auto
  from this [OF sample_plan_ok] show ?thesis unfolding sample_datoms_def .
qed

lemma sample_stamped: "stamped ''acme'' 1700000000000 sample_datoms"
proof -
  obtain n plan where "sample_plan = Inr (sample_datoms, n, plan)" using sample_plan_eq by blast
  then have "stamped (tp_tenant_id sample_create) 1700000000000 sample_datoms"
    unfolding sample_plan_def by (rule stamped_transaction)
  then show ?thesis by (simp add: sample_create_def)
qed

lemma distinct_keys:
  assumes "stamped tenant tx ds" "distinct (map (\<lambda>d. (entity_id d, attr_id d, dop d)) ds)"
  shows "distinct (map datom_key ds)"
  using assms by (auto simp: stamped_def list_all_iff distinct_map inj_on_def datom_key_def eavt_pk_def entity_pk_def)

lemma check_fresh: "(\<And>k. \<not> om_mem k (items s)) \<Longrightarrow> check_condition s q k = Inr ()"
  by (auto simp: check_condition_def om_mem_def split: write_condition.split)

lemma admissible_fresh:
  assumes "\<And>k. \<not> om_mem k (items s)" "distinct (map datom_key ds)" "stamped tenant tx ds" "CHR ''#'' \<notin> set tenant"
    and claims: "\<And>q. q \<in> set claims \<Longrightarrow> is_claim_of tenant q" "distinct (map put_key claims)"
  shows "tx_admissible s (build_write_items x table ds @ [tx_registry_item tenant tx p eid actor table] @ claims)"
proof -
  let ?reg = "tx_registry_item tenant tx p eid actor table" and ?ds = "build_write_items x table ds"
  have rows: "put_key q \<noteq> put_key ?reg \<and> put_key q \<noteq> None \<and> put_key q \<notin> put_key ` set claims" if q: "q \<in> set ?ds" for q
  proof -
    obtain d where d: "d \<in> set ds" "put_key q = Some (datom_key d)" using q by (auto simp: build_write_items_def)
    then have "datom_key d = (entity_pk tenant (entity_id d), build_eavt_sk (attr_id d) (tx_id d) (dop d))"
      using assms(3) by (auto simp: stamped_def list_all_iff datom_key_def eavt_pk_def)
    then show ?thesis
      using foreign_keys(1) [OF assms(4,4), of "entity_id d"] foreign_keys(2) [OF assms(4,4) claims(1), of _ "entity_id d"]
      by (simp add: d(2) image_iff) metis
  qed
  have cl: "put_key q \<noteq> None \<and> put_key q \<noteq> put_key ?reg" if "q \<in> set claims" for q
  proof -
    have "length (str_bytes ''#CLAIM'') \<noteq> length (be_word tx)" by (simp add: str_bytes_def)
    then have "str_bytes ''#CLAIM'' \<noteq> be_word tx" by metis
    then show ?thesis using claims(1) [OF that] by (auto simp: is_claim_of_def)
  qed
  have "distinct (map put_key ?ds)"
    using assms(2) by (simp add: build_write_items_def comp_def distinct_map inj_on_def)
  then have "distinct (map put_key (?ds @ [?reg] @ claims))"
    using rows cl claims(2) by (simp del: put_key_registry) (fastforce simp del: put_key_registry)
  moreover have "put_key q \<noteq> None" if "q \<in> set (?ds @ [?reg] @ claims)" for q
    using that rows cl by auto
  ultimately show ?thesis using check_fresh [OF assms(1)] unfolding tx_admissible_def by simp
qed

lemma sample_run:
  obtains r st' where "transact_inner sample_te sample_create no_options empty_state = (Inr r, st')"
    "tr_entity_id r = ''N1''" "tr_tx_id r = 1700000000000"
    "planned_datoms sample_te sample_create no_options r (ev_store empty_state) = sample_datoms"
proof -
  let ?tx = "1700000000000 :: 64 word"
  have f: "get_model note_registry ''note'' = Some note_model" by code_simp
  have g: "generate_tx_id 0 1700000000000 = ?tx" by code_simp
  have act: "active_for sample_te sample_create e s = om_empty" for e s by (simp add: active_for_def sample_create_def)
  obtain n plan where pl: "plan_transaction sample_te sample_create no_options ''N1'' ?tx om_empty = Inr (sample_datoms, n, plan)"
    using sample_plan_eq unfolding sample_plan_def by blast
  let ?puts = "build_write_items plain_ext ''metri'' sample_datoms
      @ [tx_registry_item ''acme'' ?tx sample_create ''N1'' None ''metri'', sample_claim]"
  have "distinct (map datom_key sample_datoms)"
    by (rule distinct_keys [OF sample_stamped]) (simp add: sample_datoms_facts hash_title)
  then have "tx_admissible store_default (build_write_items plain_ext ''metri'' sample_datoms
      @ [tx_registry_item ''acme'' ?tx sample_create ''N1'' None ''metri''] @ [sample_claim])"
    by (intro admissible_fresh [OF _ _ sample_stamped]) (simp_all add: store_default_def sample_claim_of)
  then have "tx_admissible store_default ?puts" by simp
  then have "is_ok (transact_store (map Some ?puts) store_default)"
    unfolding transact_store_is_ok tx_puts_map_Some .
  then obtain s where s: "transact_store (map Some ?puts) store_default = Inr s"
    by (cases "transact_store (map Some ?puts) store_default") auto
  have te: "te_reg sample_te = note_registry" "te_ext sample_te = plain_ext" "te_table sample_te = ''metri''"
    "te_now sample_te = 1700000000000" "te_entity_ulid sample_te = ''N1''" by (simp_all add: sample_te_def)
  have p: "tp_entity_type sample_create = ''note''" "tp_entity_id sample_create = None" "tp_tenant_id sample_create = ''acme''"
    by (simp_all add: sample_create_def)
  have o: "to_projections no_options = []" "to_actor no_options = None" "to_forced_tx no_options = None" "\<not> to_deferred no_options"
    by (simp_all add: no_options_def)
  have pu: "tx_puts_of sample_te sample_create no_options ''N1'' ?tx
      (map fst (tx_entities note_registry sample_create ''N1'' om_empty [])) sample_datoms = Inr ?puts"
    by (simp add: tx_puts_of_def te p o sample_claims)
  have "\<exists>r st'. transact_inner sample_te sample_create no_options empty_state = (Inr r, st') \<and> tr_entity_id r = ''N1'' \<and> tr_tx_id r = ?tx"
    by (simp add: transact_inner_def empty_state_def te p o f g act sample_checks transact_commit_def pl pu s Let_def
        unwrap_or_def del: map_append)
  then obtain r st' where r: "transact_inner sample_te sample_create no_options empty_state = (Inr r, st')"
    "tr_entity_id r = ''N1''" "tr_tx_id r = ?tx" by blast
  moreover have "planned_datoms sample_te sample_create no_options r (ev_store empty_state) = sample_datoms"
    by (simp add: planned_datoms_def r act pl)
  ultimately show ?thesis using that by blast
qed

lemma sample_values: "\<forall>d\<in>set sample_datoms. value_in_range plain_ext (dvalue d)"
proof -
  show ?thesis by (simp add: sample_datoms_eq datom_assert_def value_in_range_def)
qed

lemma empty_log: "log_wf pk (ev_store empty_state)" "older pk tx (ev_store empty_state)" "readable x pk (ev_store empty_state)"
  "entity_value x pk a (ev_store empty_state) = None" "\<not> om_mem k (items (ev_store empty_state))"
proof -
  show wf: "log_wf pk (ev_store empty_state)" "older pk tx (ev_store empty_state)" "readable x pk (ev_store empty_state)"
    "\<not> om_mem k (items (ev_store empty_state))"
    by (simp_all add: log_wf_def older_def readable_def empty_state_def store_default_def)
  have "current_row pk a (ev_store empty_state) = None"
    using current_row_iff [OF wf(1)] by (cases "current_row pk a (ev_store empty_state)") (auto simp: empty_state_def store_default_def)
  then show "entity_value x pk a (ev_store empty_state) = None" by (simp add: entity_value_def)
qed


theorem read_after_write_witness:
  "\<exists>r st'. transact_inner sample_te sample_create no_options empty_state = (Inr r, st')
    \<and> om_get (fst (pull plain_ext note_registry 0 ''acme'' ''N1'' None (ev_store st') (ev_cache st'))) ''title'' = Some (DvStr ''hi'')"
proof (rule sample_run)
  fix r st' assume r: "transact_inner sample_te sample_create no_options empty_state = (Inr r, st')" "tr_entity_id r = ''N1''"
    and ds: "planned_datoms sample_te sample_create no_options r (ev_store empty_state) = sample_datoms"
  let ?pk = "entity_pk ''acme'' ''N1''" and ?a = "hash_attr_name ''title''"
  have te: "te_ext sample_te = plain_ext" "te_reg sample_te = note_registry" "tp_tenant_id sample_create = ''acme''"
    by (simp_all add: sample_te_def sample_create_def)
  obtain rest where c: "committed plain_ext (te_table sample_te) sample_datoms rest (ev_store empty_state) (ev_store st') ?pk (tr_tx_id r)"
    using transact_committed [OF r(1), of "''acme''" "''N1''"] unfolding ds te by auto
  have ids: "attr_id d \<in> set [?a, 0, 1, 2, 3, 4, 5, 6]" if "d \<in> set sample_datoms" for d
  proof -
    have "(entity_id d, attr_id d, dop d) \<in> set (map (\<lambda>d. (entity_id d, attr_id d, dop d)) sample_datoms)" using that by force
    then show ?thesis unfolding sample_datoms_facts by auto
  qed
  have "map (attr_label note_registry) [?a, 0, 1, 2, 3, 4, 5, 6] = ''title'' # map snd [sys_ulid, sys_type, sys_tenant,
      sys_created_at, sys_updated_at, sys_created_by, sys_updated_by]" by code_simp
  moreover have "distinct (''title'' # map snd [sys_ulid, sys_type, sys_tenant, sys_created_at, sys_updated_at,
      sys_created_by, sys_updated_by])" by code_simp
  ultimately have "distinct (map (attr_label note_registry) [?a, 0, 1, 2, 3, 4, 5, 6])" by (simp only:)
  then have inj: "inj_on (attr_label note_registry) (set [?a, 0, 1, 2, 3, 4, 5, 6])" unfolding distinct_map by (rule conjunct2)
  have mem: "om_mem (?pk, build_eavt_sk a t b) (items (ev_store st')) \<longleftrightarrow> t = tr_tx_id r
      \<and> (\<exists>d\<in>set sample_datoms. eavt_pk d = ?pk \<and> attr_id d = a \<and> dop d = b)" for a t b
    using committed_mem [OF c, of a t b] empty_log(5) by blast
  have "labels_ok (attr_label note_registry) ?pk (ev_store st')"
    using ids inj_onD [OF inj] by (simp only: labels_ok_def mem) metis
  moreover have "\<exists>t b. om_mem (?pk, build_eavt_sk ?a t b) (items (ev_store st'))"
  proof -
    have "(''N1'', ?a, True) \<in> set (map (\<lambda>d. (entity_id d, attr_id d, dop d)) sample_datoms)" unfolding sample_datoms_facts by simp
    then obtain d where d: "d \<in> set sample_datoms" "entity_id d = ''N1''" "attr_id d = ?a" by auto
    then have "eavt_pk d = ?pk" using sample_stamped by (simp add: stamped_def list_all_iff eavt_pk_def)
    then show ?thesis unfolding mem using d by blast
  qed
  moreover have "attr_label note_registry ?a = ''title''" by code_simp
  moreover have "\<not> to_deferred no_options" "''N1'' \<in> set (written_entities sample_create no_options r)"
    by (simp_all add: no_options_def written_entities_def r(2))
  ultimately have "om_get (fst (pull plain_ext note_registry 0 ''acme'' ''N1'' None (ev_store st') (ev_cache st'))) ''title'' = Some (DvStr ''hi'')"
    using read_after_write [OF r(1), of "''N1''" ?a] sample_values sample_effect empty_log(1-3)
    unfolding ds te empty_log(4) by auto
  then show ?thesis using r(1) by blast
qed

end
