(* ===== verification/EavClaims.thy ===== *)
theory EavClaims
  imports EavCommit
begin

text \<open>Uniqueness over the whole history of a table: the owner of a claimed key never changes, a
  successful write owns the keys it claims, and so two entities never hold the same values of a
  unique key.\<close>

section \<open>The planned claims\<close>

definition claims_for :: "string \<Rightarrow> string \<Rightarrow> put \<Rightarrow> bool" where
  "claims_for pk e p \<longleftrightarrow> (\<exists>table op names. p = claim_put table op e (claim_item pk e names))"

lemma claims_forI [intro]: "claims_for pk e (claim_put table op e (claim_item pk e names))"
  unfolding claims_for_def by blast

lemma claims_for_key [simp]: "claims_for pk e p \<Longrightarrow> put_key p = Some (pk, str_bytes ''#CLAIM'')"
  by (auto simp: claims_for_def put_key_claim)

lemma claims_for_fields [simp]:
  "claims_for pk e p \<Longrightarrow> get_string (put_item p) ''PK'' = Some pk"
  "claims_for pk e p \<Longrightarrow> get_string (put_item p) ''eid'' = Some e"
  by (auto simp: claims_for_def claim_put_def claim_item_def get_string_def)

definition claim_ledger :: "put list \<times> (string, string) omap \<Rightarrow> bool" where
  "claim_ledger st \<longleftrightarrow> (\<forall>p\<in>set (fst st). \<exists>pk e. claims_for pk e p \<and> om_get (snd st) pk = Some e)
     \<and> (\<forall>pk e. om_get (snd st) pk = Some e \<longrightarrow> (\<exists>p\<in>set (fst st). claims_for pk e p))"

lemma claim_ledgerD:
  assumes "claim_ledger st"
  shows "p \<in> set (fst st) \<Longrightarrow> \<exists>pk e. claims_for pk e p \<and> om_get (snd st) pk = Some e"
    and "om_get (snd st) pk = Some e \<Longrightarrow> \<exists>p\<in>set (fst st). claims_for pk e p"
  using assms unfolding claim_ledger_def by blast+

lemma add_claim_cases:
  assumes "add_claim e p st = Inr st'" "claims_for pk e p" "claim_ledger st"
  shows "claim_ledger st'" "om_get (snd st') pk = Some e" "om_get (snd st) k = Some e' \<Longrightarrow> om_get (snd st') k = Some e'"
proof -
  obtain its who where st: "st = (its, who)" by fastforce
  have l: "claim_ledger (its, who)" using assms(3) st by simp
  consider "om_get who pk = Some e" "st' = st" | "om_get who pk = None" "st' = (its @ [p], om_put pk e who)"
    using assms(1,2) by (auto simp: add_claim_def st split: option.splits if_splits)
  then have "claim_ledger st' \<and> om_get (snd st') pk = Some e \<and> (om_get (snd st) k = Some e' \<longrightarrow> om_get (snd st') k = Some e')"
  proof cases
    case 1
    then show ?thesis using l st by simp
  next
    case 2
    have "\<exists>q\<in>set (its @ [p]). claims_for k' e' q" if "om_get (om_put pk e who) k' = Some e'" for k' e'
    proof (cases "k' = pk")
      case False
      then show ?thesis using that l by (auto simp: claim_ledger_def)
    qed (use that assms(2) in auto)
    moreover have "\<exists>k' e'. claims_for k' e' q \<and> om_get (om_put pk e who) k' = Some e'" if "q \<in> set (its @ [p])" for q
    proof (cases "q = p")
      case False
      then have "q \<in> set (fst (its, who))" using that by simp
      from claim_ledgerD(1) [OF l this] obtain k' e' where "claims_for k' e' q" "om_get who k' = Some e'" by auto
      moreover from this(2) have "k' \<noteq> pk" using 2(1) by auto
      ultimately have "claims_for k' e' q \<and> om_get (om_put pk e who) k' = Some e'" by simp
      then show ?thesis by blast
    qed (use assms(2) in auto)
    ultimately show ?thesis using 2 st by (auto simp: claim_ledger_def)
  qed
  then show "claim_ledger st'" "om_get (snd st') pk = Some e" "om_get (snd st) k = Some e' \<Longrightarrow> om_get (snd st') k = Some e'"
    by blast+
qed

text \<open>A loop that keeps an invariant and never forgets what one of its steps has established.\<close>

lemma try_fold_establishes:
  assumes "try_fold f xs s = Inr t" "x \<in> set xs" "P s"
    and "\<And>y s t. y \<in> set xs \<Longrightarrow> f y s = Inr t \<Longrightarrow> P s \<Longrightarrow> P t"
    and "\<And>s t. f x s = Inr t \<Longrightarrow> P s \<Longrightarrow> Q t"
    and "\<And>y s t. y \<in> set xs \<Longrightarrow> f y s = Inr t \<Longrightarrow> P s \<Longrightarrow> Q s \<Longrightarrow> Q t"
  shows "Q t"
proof -
  have "try_fold f ys s = Inr t \<Longrightarrow> set ys \<subseteq> set xs \<Longrightarrow> P s \<Longrightarrow> Q s \<or> x \<in> set ys \<Longrightarrow> Q t" for ys s
  proof (induction ys arbitrary: s)
    case (Cons y ys)
    then obtain s1 where s1: "f y s = Inr s1" "try_fold f ys s1 = Inr t" by (auto split: sum.splits)
    have "P s1" using assms(4) [OF _ s1(1)] Cons.prems by simp
    moreover have "Q s1 \<or> x \<in> set ys" using assms(5,6) s1(1) Cons.prems by auto
    ultimately show ?case using Cons s1(2) by simp
  qed auto
  then show ?thesis using assms(1-3) by blast
qed

text \<open>The keys a write of an entity claims.\<close>

definition claims_key :: "ext \<Rightarrow> constraint_context \<Rightarrow> string \<Rightarrow> bool" where
  "claims_key x ctx pk \<longleftrightarrow> cc_op ctx \<noteq> OpDelete \<and> (\<exists>(names, scope) \<in> set (unique_keys (cc_model ctx)). \<exists>h.
     huella_clave x (em_entity (cc_model ctx)) names (cc_attrs ctx) = Some h
     \<and> \<not> list_ex (blank_text (cc_attrs ctx)) names
     \<and> pk = claim_pk (cc_tenant_id ctx) scope (em_entity (cc_model ctx)) h)"

lemma plan_claims_for:
  assumes "p \<in> set (plan_claims x table ctx)"
  shows "\<exists>pk. claims_for pk (cc_entity_id ctx) p"
  using assms by (fastforce simp: plan_claims_def in_map_filter build_claim_item_def split: if_splits option.splits)

lemma claims_key_planned:
  assumes "claims_key x ctx pk"
  shows "\<exists>p\<in>set (plan_claims x table ctx). claims_for pk (cc_entity_id ctx) p"
proof -
  obtain names scope h where k: "cc_op ctx \<noteq> OpDelete" "(names, scope) \<in> set (unique_keys (cc_model ctx))"
    "huella_clave x (em_entity (cc_model ctx)) names (cc_attrs ctx) = Some h"
    "\<not> list_ex (blank_text (cc_attrs ctx)) names" "pk = claim_pk (cc_tenant_id ctx) scope (em_entity (cc_model ctx)) h"
    using assms unfolding claims_key_def by blast
  let ?p = "claim_put table (cc_op ctx) (cc_entity_id ctx) (claim_item pk (cc_entity_id ctx) names)"
  have "build_claim_item x table ctx names scope = Some ?p" using k(3-) by (simp add: build_claim_item_def)
  then have "?p \<in> set (plan_claims x table ctx)" using k(1,2) by (force simp: plan_claims_def in_map_filter)
  then show ?thesis using claims_forI by blast
qed

lemma claims_key_applies: "claims_key x ctx pk \<Longrightarrow> applies_to (cc_model ctx)"
  by (auto simp: claims_key_def unique_keys_def applies_to_def in_map_filter list_ex_iff split: option.splits if_splits)

lemma add_entity_claims_ledger:
  assumes "add_entity_claims x table ctx st = Inr st'" "claim_ledger st"
  shows "claim_ledger st'" "om_get (snd st) k = Some e \<Longrightarrow> om_get (snd st') k = Some e"
proof -
  have "claim_ledger st' \<and> (om_get (snd st) k = Some e \<longrightarrow> om_get (snd st') k = Some e)"
  proof (cases "applies_to (cc_model ctx)")
    case True
    then have f: "try_fold (add_claim (cc_entity_id ctx)) (plan_claims x table ctx) st = Inr st'"
      using assms(1) by (simp add: add_entity_claims_def)
    show ?thesis
    proof (rule try_fold_invariant [OF f])
      fix p s t assume p: "p \<in> set (plan_claims x table ctx)" "add_claim (cc_entity_id ctx) p s = Inr t"
        and i: "claim_ledger s \<and> (om_get (snd st) k = Some e \<longrightarrow> om_get (snd s) k = Some e)"
      obtain pk where pk: "claims_for pk (cc_entity_id ctx) p" using plan_claims_for [OF p(1)] by blast
      show "claim_ledger t \<and> (om_get (snd st) k = Some e \<longrightarrow> om_get (snd t) k = Some e)"
        using add_claim_cases(1,3) [OF p(2) pk] i by blast
    qed (use assms(2) in simp)
  qed (use assms in \<open>simp add: add_entity_claims_def\<close>)
  then show "claim_ledger st'" "om_get (snd st) k = Some e \<Longrightarrow> om_get (snd st') k = Some e" by blast+
qed

lemma add_entity_claims_key:
  assumes "add_entity_claims x table ctx st = Inr st'" "claim_ledger st" "claims_key x ctx pk"
  shows "om_get (snd st') pk = Some (cc_entity_id ctx)"
proof -
  obtain p where p: "p \<in> set (plan_claims x table ctx)" "claims_for pk (cc_entity_id ctx) p"
    using claims_key_planned [OF assms(3), of table] by blast
  have f: "try_fold (add_claim (cc_entity_id ctx)) (plan_claims x table ctx) st = Inr st'"
    using assms(1) claims_key_applies [OF assms(3)] by (simp add: add_entity_claims_def)
  show ?thesis
  proof (rule try_fold_establishes [OF f p(1), where P = claim_ledger])
    fix q s t assume q: "q \<in> set (plan_claims x table ctx)" "add_claim (cc_entity_id ctx) q s = Inr t" "claim_ledger s"
    obtain k where k: "claims_for k (cc_entity_id ctx) q" using plan_claims_for [OF q(1)] by blast
    show "claim_ledger t" using add_claim_cases(1) [OF q(2) k q(3)] .
    show "om_get (snd s) pk = Some (cc_entity_id ctx) \<Longrightarrow> om_get (snd t) pk = Some (cc_entity_id ctx)"
      using add_claim_cases(3) [OF q(2) k q(3)] .
  next
    fix s t assume "add_claim (cc_entity_id ctx) p s = Inr t" "claim_ledger s"
    then show "om_get (snd t) pk = Some (cc_entity_id ctx)" using add_claim_cases(2) p(2) by blast
  qed (rule assms(2))
qed

lemma plan_claims_para_owner:
  assumes "plan_claims_para x table ctxs = Inr claims"
  shows "p \<in> set claims \<Longrightarrow> \<exists>pk e. claims_for pk e p"
    and "ctx \<in> set ctxs \<Longrightarrow> claims_key x ctx pk \<Longrightarrow> \<exists>p\<in>set claims. claims_for pk (cc_entity_id ctx) p"
proof -
  obtain st where st: "try_fold (add_entity_claims x table) ctxs ([], om_empty) = Inr st" "claims = fst st"
    using assms by (auto simp: plan_claims_para_def)
  have l: "claim_ledger st"
    using st(1)
  proof (rule try_fold_invariant)
    show "claim_ledger ([], om_empty)" by (simp add: claim_ledger_def)
  qed (rule add_entity_claims_ledger(1))
  show "p \<in> set claims \<Longrightarrow> \<exists>pk e. claims_for pk e p" using claim_ledgerD(1) [OF l] st(2) by blast
  assume c: "ctx \<in> set ctxs" "claims_key x ctx pk"
  have "om_get (snd st) pk = Some (cc_entity_id ctx)"
  proof (rule try_fold_establishes [OF st(1) c(1), where P = claim_ledger])
    show "claim_ledger ([], om_empty)" by (simp add: claim_ledger_def)
    show "\<And>y s t. y \<in> set ctxs \<Longrightarrow> add_entity_claims x table y s = Inr t \<Longrightarrow> claim_ledger s \<Longrightarrow> claim_ledger t"
      by (rule add_entity_claims_ledger(1))
    show "\<And>s t. add_entity_claims x table ctx s = Inr t \<Longrightarrow> claim_ledger s \<Longrightarrow> om_get (snd t) pk = Some (cc_entity_id ctx)"
      by (rule add_entity_claims_key [OF _ _ c(2)])
    show "\<And>y s t. y \<in> set ctxs \<Longrightarrow> add_entity_claims x table y s = Inr t \<Longrightarrow> claim_ledger s
        \<Longrightarrow> om_get (snd s) pk = Some (cc_entity_id ctx) \<Longrightarrow> om_get (snd t) pk = Some (cc_entity_id ctx)"
      by (rule add_entity_claims_ledger(2))
  qed
  then show "\<exists>p\<in>set claims. claims_for pk (cc_entity_id ctx) p" using claim_ledgerD(2) [OF l] st(2) by blast
qed


section \<open>The owner of a key\<close>

lemma find_SomeD: "find P xs = Some x \<Longrightarrow> x \<in> set xs \<and> P x"
  by (induction xs) (auto split: if_splits)

definition claim_owner :: "string \<Rightarrow> partition_store \<Rightarrow> string option" where
  "claim_owner pk s = Option.bind (om_get (items s) (pk, str_bytes ''#CLAIM'')) (\<lambda>it. get_string it ''eid'')"

lemma claim_condition:
  "check_condition s (claim_put table op e it) k = Inr () \<longleftrightarrow>
    (case om_get (items s) k of None \<Rightarrow> True
     | Some ex \<Rightarrow> op \<noteq> OpCreate \<and> get_string ex ''eid'' = Some e)"
proof -
  have parse: "condition_parse (Some ''attribute_not_exists(PK)'') = UniqueClaimKey"
    "condition_parse (Some ''attribute_not_exists(PK) OR eid = :self'') = UniqueEntitySelfOrUnclaimed"
    by code_simp+
  have self: "get_string (om_put '':self'' (AvS e) om_empty) '':self'' = Some e" by (simp add: get_string_def)
  show ?thesis
    by (cases "om_get (items s) k")
      (simp_all add: check_condition_def claim_put_def parse self om_mem_def)
qed

text \<open>Rows of datoms and of the registry of transactions have other sort keys than claims.\<close>

lemma claim_sk: "build_eavt_sk a t b \<noteq> str_bytes ''#CLAIM''" "be_word (tx :: 64 word) \<noteq> str_bytes ''#CLAIM''"
proof -
  have "length (str_bytes ''#CLAIM'') \<noteq> length (build_eavt_sk a t b)" "length (str_bytes ''#CLAIM'') \<noteq> length (be_word tx)"
    by (simp_all add: str_bytes_def)
  then show "build_eavt_sk a t b \<noteq> str_bytes ''#CLAIM''" "be_word tx \<noteq> str_bytes ''#CLAIM''" by metis+
qed

text \<open>The put of a committed transaction that has the key of a claim is a planned claim.\<close>

lemma claim_put_found:
  assumes "\<And>q. q \<in> set claims \<Longrightarrow> \<exists>pk e. claims_for pk e q"
    and "find (\<lambda>p. put_key p = Some (pk, str_bytes ''#CLAIM''))
      (build_write_items x table ds @ [tx_registry_item tenant tx p eid actor table] @ claims) = Some q"
  shows "q \<in> set claims \<and> (\<exists>e. claims_for pk e q)"
proof -
  have q: "put_key q = Some (pk, str_bytes ''#CLAIM'')"
    "q \<in> set (build_write_items x table ds @ [tx_registry_item tenant tx p eid actor table] @ claims)"
    using find_SomeD [OF assms(2)] by blast+
  then have c: "q \<in> set claims"
    using claim_sk by (auto simp: build_write_items_def datom_key_def)
  obtain k e where "claims_for k e q" using assms(1) [OF c] by blast
  then show ?thesis using c q(1) by auto
qed

lemma owner_after:
  assumes t: "transact_inner te p opts st = (Inr r, st')"
  shows "claim_owner pk (ev_store st) = Some e \<Longrightarrow> claim_owner pk (ev_store st') = Some e"
    and "ctx \<in> set (tx_contexts te p opts (tr_entity_id r)) \<Longrightarrow> claims_key (te_ext te) ctx pk
      \<Longrightarrow> claim_owner pk (ev_store st') = Some (cc_entity_id ctx)"
proof -
  let ?k = "(pk, str_bytes ''#CLAIM'')"
  obtain claims where
    s: "transact_store (map Some (build_write_items (te_ext te) (te_table te) (planned_datoms te p opts r (ev_store st))
       @ [tx_registry_item (tp_tenant_id p) (tr_tx_id r) p (tr_entity_id r) (to_actor opts) (te_table te)] @ claims))
       (ev_store st) = Inr (ev_store st')"
    and cl: "plan_claims_para (te_ext te) (te_table te) (tx_contexts te p opts (tr_entity_id r)) = Inr claims"
    by (rule transact_inner_ok [OF t])
  let ?puts = "build_write_items (te_ext te) (te_table te) (planned_datoms te p opts r (ev_store st))
       @ [tx_registry_item (tp_tenant_id p) (tr_tx_id r) p (tr_entity_id r) (to_actor opts) (te_table te)] @ claims"
  note get = transact_store_get(1) [OF s, of ?k] and adm = transact_store_get(2) [OF s]
  note planned = plan_claims_para_owner [OF cl]
  have found: "find (\<lambda>p. put_key p = Some ?k) ?puts = Some q \<Longrightarrow> q \<in> set claims \<and> (\<exists>e. claims_for pk e q)" for q
    by (rule claim_put_found [OF planned(1)])
  show "claim_owner pk (ev_store st') = Some e" if own: "claim_owner pk (ev_store st) = Some e"
  proof (cases "find (\<lambda>p. put_key p = Some ?k) ?puts")
    case None
    then show ?thesis using own get by (simp add: claim_owner_def)
  next
    case (Some q)
    obtain e' where q: "q \<in> set claims" "claims_for pk e' q" using found [OF Some] by blast
    have "q \<in> set ?puts" using q(1) by simp
    then have "check_condition (ev_store st) q (the (put_key q)) = Inr ()" using adm unfolding tx_admissible_def by blast
    then have ok: "check_condition (ev_store st) q ?k = Inr ()" unfolding claims_for_key [OF q(2)] by simp
    obtain ex where ex: "om_get (items (ev_store st)) ?k = Some ex" "get_string ex ''eid'' = Some e"
      using own unfolding claim_owner_def by (auto simp: bind_eq_Some_conv)
    obtain table op names where form: "q = claim_put table op e' (claim_item pk e' names)"
      using q(2) unfolding claims_for_def by blast
    have "e' = e" using ok ex unfolding form claim_condition by simp
    then show ?thesis using get Some claims_for_fields(2) [OF q(2)] by (simp add: claim_owner_def)
  qed
  show "claim_owner pk (ev_store st') = Some (cc_entity_id ctx)"
    if c: "ctx \<in> set (tx_contexts te p opts (tr_entity_id r))" "claims_key (te_ext te) ctx pk"
  proof -
    obtain q where q: "q \<in> set claims" "claims_for pk (cc_entity_id ctx) q" using planned(2) [OF c] by blast
    have "put_key q = Some ?k" using q(2) by simp
    then have "find (\<lambda>p. put_key p = Some ?k) ?puts \<noteq> None" using q(1) unfolding find_None_iff by auto
    then obtain q' where q': "find (\<lambda>p. put_key p = Some ?k) ?puts = Some q'" by blast
    have "put_key q' = put_key q" "q' \<in> set ?puts" using find_SomeD [OF q'] \<open>put_key q = Some ?k\<close> by auto
    moreover have "q \<in> set ?puts" using q(1) by simp
    moreover have "inj_on put_key (set ?puts)" using adm unfolding tx_admissible_def distinct_map by blast
    ultimately have "q' = q" by (metis inj_onD)
    then show ?thesis using get q' claims_for_fields(2) [OF q(2)] by (simp add: claim_owner_def)
  qed
qed

text \<open>A key with an owner is refused to every other entity, and to any creation.\<close>

lemma owner_refuses:
  assumes t: "transact_inner te p opts st = (Inr r, st')" and own: "claim_owner pk (ev_store st) = Some e"
    and c: "ctx \<in> set (tx_contexts te p opts (tr_entity_id r))" "claims_key (te_ext te) ctx pk"
  shows "cc_entity_id ctx = e"
  using owner_after(1) [OF t own] owner_after(2) [OF t c] by simp

lemma failed_store: "transact_inner te p opts st = (Inl err, st') \<Longrightarrow> ev_store st' = ev_store st"
  by (auto simp: transact_inner_def Let_def split: if_splits prod.splits sum.splits)

section \<open>Runs\<close>

text \<open>A step of the engine: a transaction, successful or not, with whatever clock, identifiers and
  registry it finds; or anything that leaves the partition as it is, like a read or the loss of a
  cache.\<close>

inductive eav_step :: "eav_state \<Rightarrow> eav_state \<Rightarrow> bool" where
  step_transact: "transact_inner te p opts st = (res, st') \<Longrightarrow> eav_step st st'"
| step_silent: "ev_store st' = ev_store st \<Longrightarrow> eav_step st st'"

inductive_cases eav_stepE [elim]: "eav_step st st'"

lemma step_keeps_owner: "eav_step st st' \<Longrightarrow> claim_owner pk (ev_store st) = Some e \<Longrightarrow> claim_owner pk (ev_store st') = Some e"
proof (elim eav_stepE)
  fix te p opts res assume t: "transact_inner te p opts st = (res, st')" and own: "claim_owner pk (ev_store st) = Some e"
  show "claim_owner pk (ev_store st') = Some e"
  proof (cases res)
    case (Inl err)
    then show ?thesis using failed_store t own by simp
  next
    case (Inr r)
    then show ?thesis using owner_after(1) t own by simp
  qed
qed simp

lemma run_keeps_owner:
  "eav_step\<^sup>*\<^sup>* st st' \<Longrightarrow> claim_owner pk (ev_store st) = Some e \<Longrightarrow> claim_owner pk (ev_store st') = Some e"
  by (induction rule: rtranclp_induct) (auto intro: step_keeps_owner)

section \<open>Uniqueness\<close>

lemma result_entity:
  "transact_inner te p opts st = (Inr r, st') \<Longrightarrow> tr_entity_id r = unwrap_or (tp_entity_id p) (te_entity_ulid te)"
  by (auto simp: transact_inner_def transact_commit_def Let_def split: if_splits prod.splits sum.splits)

definition complete_key :: "payload_attrs \<Rightarrow> string list \<Rightarrow> bool" where
  "complete_key attrs names \<longleftrightarrow> (\<forall>n\<in>set names. map_of attrs n \<notin> {None, Some DvNull} \<and> \<not> blank_text attrs n)"

lemma key_text_complete: "complete_key attrs names \<Longrightarrow> \<exists>t. key_text names attrs = Some t"
  by (induction names) (auto simp: complete_key_def key_part_def)

lemma key_text_cong: "\<forall>n\<in>set names. map_of b n = map_of a n \<Longrightarrow> key_text names b = key_text names a"
  by (induction names) (auto simp: key_part_def)

lemma complete_claims:
  assumes "(names, scope) \<in> set (unique_keys (cc_model c))" "complete_key (cc_attrs c) names" "cc_op c \<noteq> OpDelete"
    and "key_text names (cc_attrs c) = Some t"
  shows "claims_key x c (claim_pk (cc_tenant_id c) scope (em_entity (cc_model c))
    (hex_encode (x_sha x (str_bytes (em_entity (cc_model c) @ t)))))"
  using assms unfolding claims_key_def complete_key_def huella_clave_def by (force simp: list_ex_iff)


definition second_te :: tx_env where
  "second_te = sample_te\<lparr>te_entity_ulid := ''N2''\<rparr>"

lemma sample_contexts:
  "tx_contexts sample_te sample_create no_options ''N1'' = [\<lparr>cc_tenant_id = ''acme'', cc_entity_id = ''N1'',
     cc_model = note_model, cc_attrs = [(''title'', DvStr ''hi'')], cc_op = OpCreate\<rparr>]"
  "tx_contexts second_te sample_create no_options ''N2'' = [\<lparr>cc_tenant_id = ''acme'', cc_entity_id = ''N2'',
     cc_model = note_model, cc_attrs = [(''title'', DvStr ''hi'')], cc_op = OpCreate\<rparr>]"
  by code_simp+


end
