(* ===== verification/OltpChannel.thy ===== *)
theory OltpChannel
  imports JanusSaga CodiceSequence IopPipeline EavClaims "HOL-Library.AList"
begin

text \<open>The router of writes (\<^verbatim>\<open>src/janus_router/router.rs\<close>) and its transactional channel
  (\<^verbatim>\<open>src/janus_router/oltp_channel.rs\<close>): the preparation and validation of a payload, single writes
  with the jobs of their sagas, and bulk ingestion. The clocks, the identifiers drawn and the positions
  of random codes are functions of counters in the state. A write of a scheduled job enters the channel
  again; the depth of these calls is bounded by fuel, and \<^verbatim>\<open>None\<close> stands for a call that runs out of
  it. The rows of a chunk run in their order, the scope of a bulk flush and the generation of the query
  cache are left out, and so are the envelopes of scheduled jobs.\<close>

record chan_env =
  ce_tx :: tx_env
  ce_now :: "nat \<Rightarrow> int"
  ce_mono :: "nat \<Rightarrow> int"
  ce_ulid :: "nat \<Rightarrow> string"
  ce_draw :: "nat \<Rightarrow> string \<Rightarrow> nat list"
  ce_val :: validation_env
  ce_rfc3339 :: "string \<Rightarrow> int option"
  ce_master :: string
  ce_scan_order :: "(string \<times> string) list \<Rightarrow> (string \<times> string) list"
  ce_schema :: "entity_model \<Rightarrow> json"

record chan_state =
  cs_eav :: eav_state
  cs_tx :: nat
  cs_ids :: nat
  cs_events :: "(string \<times> json) list"

abbreviation cs_store :: "chan_state \<Rightarrow> partition_store" where
  "cs_store s \<equiv> ev_store (cs_eav s)"

text \<open>The environment of the next transaction, and of the next query.\<close>

definition tx_at :: "chan_env \<Rightarrow> chan_state \<Rightarrow> tx_env" where
  "tx_at ce s = (ce_tx ce)\<lparr>te_now := ce_now ce (cs_tx s), te_mono := ce_mono ce (cs_tx s),
     te_mutation_ulid := ce_ulid ce (cs_ids s), te_proj_ulid := (\<lambda>i. ce_ulid ce (cs_ids s + 1 + i))\<rparr>"

definition query_at :: "chan_env \<Rightarrow> chan_state \<Rightarrow> query_env" where
  "query_at ce s = \<lparr>qe_ext = te_ext (ce_tx ce), qe_master = ce_master ce, qe_now = ce_mono ce (cs_tx s),
     qe_scan_order = ce_scan_order ce, qe_store = cs_store s\<rparr>"

definition draw_ulid :: "chan_env \<Rightarrow> chan_state \<Rightarrow> string \<times> chan_state" where
  "draw_ulid ce s = (ce_ulid ce (cs_ids s), s\<lparr>cs_ids := cs_ids s + 1\<rparr>)"

definition CROCKFORD :: string where
  "CROCKFORD = ''0123456789ABCDEFGHJKMNPQRSTVWXYZ''"

definition is_ulid :: "string \<Rightarrow> bool" where
  "is_ulid s \<longleftrightarrow> length s = 26 \<and> set (to_uppercase s) \<subseteq> set CROCKFORD"

section \<open>Payloads\<close>

definition parse_op :: "string \<Rightarrow> transact_op res" where
  "parse_op op = (let u = to_uppercase op in
     if u \<in> {''CREATE'', ''BULK_CREATE'', ''UPSERT''} then Inr OpCreate
     else if u = ''UPDATE'' then Inr OpUpdate else if u = ''DELETE'' then Inr OpDelete else Inl JanusVal001)"

definition extract_entity_id :: "json \<Rightarrow> string option" where
  "extract_entity_id payload = find_some (\<lambda>k. Option.bind (json_get payload k) as_str) [''entity_id'', ''id'', ''ulid'']"

definition coerce_attr :: "(string \<Rightarrow> f64 option) \<Rightarrow> attribute_descriptor \<Rightarrow> (string, json) omap \<Rightarrow> (string, json) omap" where
  "coerce_attr parse_f64 a m = (case om_get m (ad_name a) of
      None \<Rightarrow> m
    | Some v \<Rightarrow> (case coerce_value parse_f64 v (ad_type a) of Some w \<Rightarrow> om_put (ad_name a) w m | None \<Rightarrow> m))"

definition coerce_payload :: "(string \<Rightarrow> f64 option) \<Rightarrow> json \<Rightarrow> entity_model \<Rightarrow> json" where
  "coerce_payload parse_f64 r m = (case as_object r of
      None \<Rightarrow> r
    | Some kvs \<Rightarrow> JObj (om_entries (fold (coerce_attr parse_f64) (em_attributes m) (om_of_list kvs))))"

definition default_attr :: "attribute_descriptor \<Rightarrow> (string, json) omap \<Rightarrow> (string, json) omap" where
  "default_attr a m = (case ad_default_value a of
      None \<Rightarrow> m
    | Some d \<Rightarrow> if ad_type a \<in> {AtEnum, AtString} \<and> non_null (om_get m (ad_name a)) = None
        then om_put (ad_name a) (JStr d) m else m)"

definition apply_declared_defaults :: "json \<Rightarrow> entity_model \<Rightarrow> json" where
  "apply_declared_defaults r m = (case as_object r of
      None \<Rightarrow> r | Some kvs \<Rightarrow> JObj (om_entries (fold default_attr (em_attributes m) (om_of_list kvs))))"

section \<open>The scope of a sequence\<close>

definition text_value :: "active_attrs \<Rightarrow> string \<Rightarrow> string option" where
  "text_value m name = (case om_get m name of Some (_, DvStr s) \<Rightarrow> Some s | _ \<Rightarrow> None)"

text \<open>From a location towards the root, at most sixteen steps and never a location twice.\<close>

fun scope_walk ::
  "(string \<Rightarrow> active_attrs) \<Rightarrow> nat \<Rightarrow> string \<Rightarrow> string list \<Rightarrow> string option \<Rightarrow> string list \<Rightarrow> scope_context" where
  "scope_walk rd 0 cursor visited segment ancestors = \<lparr>sx_segment = segment, sx_ancestors = ancestors\<rparr>"
| "scope_walk rd (Suc n) cursor visited segment ancestors =
    (if cursor \<in> set visited then \<lparr>sx_segment = segment, sx_ancestors = ancestors\<rparr>
     else let attrs = rd cursor;
              segment1 = or_else segment (text_value attrs ''tag'') in
       case non_empty (text_value attrs ''parent_location_id'') of
         Some p \<Rightarrow> if p \<in> set (cursor # visited) then \<lparr>sx_segment = segment1, sx_ancestors = ancestors\<rparr>
           else scope_walk rd n p (cursor # visited) segment1 (ancestors @ [p])
       | None \<Rightarrow> \<lparr>sx_segment = segment1, sx_ancestors = ancestors\<rparr>)"

definition resolve_scope_context ::
  "(string \<Rightarrow> active_attrs) \<Rightarrow> entity_model \<Rightarrow> json \<Rightarrow> scope_context option" where
  "resolve_scope_context rd m payload = Option.bind (find_scope_field m) (\<lambda>scope_field.
     let own = unwrap_or (Option.bind (json_get payload scope_field) as_str) [];
         via = map_option ad_name (find ad_is_sequence_scope_via (em_attributes m));
         asset = (case via of Some v \<Rightarrow> unwrap_or (Option.bind (json_get payload v) as_str) [] | None \<Rightarrow> []);
         root = (if own = [] \<and> asset \<noteq> [] then unwrap_or (text_value (rd asset) scope_field) [] else own)
     in if root = [] then None else Some (scope_walk rd 16 root [] None []))"

section \<open>Preparation\<close>

text \<open>The look-up for other holders of a unique attribute's value; an identity is looked up under a
  tenant of its own.\<close>

definition unique_attr_taken ::
  "chan_env \<Rightarrow> chan_state \<Rightarrow> string \<Rightarrow> string \<Rightarrow> bool \<Rightarrow> json \<Rightarrow> attribute_descriptor \<Rightarrow> scan_cache \<Rightarrow> bool \<times> scan_cache" where
  "unique_attr_taken ce s tenant eid is_create coerced a c =
    (case (ad_unique a, non_null (json_get coerced (ad_name a))) of
       (Some u, Some v) \<Rightarrow>
         if u \<in> {''tenant'', ''identity'', ''value'', ''tenant_scoped''} then
           (case map_to_datom_value (ve_base64 (ce_val ce)) (ve_text (ce_val ce)) v (ad_type a) of
              Inl _ \<Rightarrow> (False, c)
            | Inr dv \<Rightarrow>
               (case execute_native_plan (query_at ce s) (\<lambda>_ _. [])
                   (AvetSingle (if u = ''identity'' then ''GLOBAL_SYSTEM'' else tenant) (ad_name a) dv None) c of
                  (ids, c1) \<Rightarrow> (if is_create then ids \<noteq> [] else \<exists>i\<in>set ids. i \<noteq> eid, c1)))
         else (False, c)
     | _ \<Rightarrow> (False, c))"

fun check_unique ::
  "(attribute_descriptor \<Rightarrow> scan_cache \<Rightarrow> bool \<times> scan_cache) \<Rightarrow> attribute_descriptor list \<Rightarrow> scan_cache
    \<Rightarrow> unit res \<times> scan_cache" where
  "check_unique taken [] c = (Inr (), c)"
| "check_unique taken (a # as) c = (case taken a c of
      (True, c1) \<Rightarrow> (Inl JnsConflict001, c1) | (False, c1) \<Rightarrow> check_unique taken as c1)"

text \<open>The generated attributes and the defaults of a new entity.\<close>

definition complete_new ::
  "chan_env \<Rightarrow> entity_model \<Rightarrow> string \<Rightarrow> json \<Rightarrow> chan_state \<Rightarrow> json \<times> chan_state" where
  "complete_new ce m tenant coerced s = (case as_object coerced of
      None \<Rightarrow> (apply_declared_defaults coerced m, s)
    | Some kvs \<Rightarrow>
       (let rd = (\<lambda>eid. get_active_attributes (te_ext (ce_tx ce)) (te_reg (ce_tx ce)) tenant eid (cs_store s)) in
        case inject (ce_now ce (cs_tx s)) (ce_draw ce (cs_ids s)) m tenant (om_of_list kvs)
            (resolve_scope_context rd m coerced) (cs_store s) of
          (s1, injected) \<Rightarrow> (apply_declared_defaults (JObj (om_entries injected)) m,
            s\<lparr>cs_eav := (cs_eav s)\<lparr>ev_store := s1\<rparr>, cs_ids := cs_ids s + 1\<rparr>)))"

definition prepare_payload ::
  "chan_env \<Rightarrow> entity_model \<Rightarrow> string \<Rightarrow> bool \<Rightarrow> bool \<Rightarrow> json \<Rightarrow> chan_state \<Rightarrow> payload_attrs res \<times> chan_state" where
  "prepare_payload ce m tenant is_create skip_unique payload s =
    (let coerced = coerce_payload (x_f64_parse (te_ext (ce_tx ce))) payload m in
     case (if is_create then complete_new ce m tenant coerced s else (coerced, s)) of (full, s1) \<Rightarrow>
       (case (if skip_unique then (Inr (), ev_scans (cs_eav s1))
              else check_unique (unique_attr_taken ce s1 tenant (unwrap_or (extract_entity_id payload) []) is_create full)
                (em_attributes m) (ev_scans (cs_eav s1))) of (unique, c) \<Rightarrow>
          (rbind unique (\<lambda>_. rbind (validate_payload (ce_val ce) m full is_create) (\<lambda>attrs. Inr (om_entries attrs))),
           s1\<lparr>cs_eav := (cs_eav s1)\<lparr>ev_scans := c\<rparr>\<rparr>)))"

definition resolve_entity_id ::
  "chan_env \<Rightarrow> entity_model \<Rightarrow> transact_op \<Rightarrow> json \<Rightarrow> chan_state \<Rightarrow> string res \<times> chan_state" where
  "resolve_entity_id ce m op payload s = (case op of
      OpCreate \<Rightarrow>
        (case extract_entity_id payload of
           Some i \<Rightarrow> if em_is_system m then (Inr i, s) else (Inl JanusVal001, s)
         | None \<Rightarrow> (case draw_ulid ce s of (i, s1) \<Rightarrow> (Inr i, s1)))
    | _ \<Rightarrow> (ok_or JanusVal001 (extract_entity_id payload), s))"

section \<open>Transactions\<close>

definition run_tx ::
  "chan_env \<Rightarrow> (tx_env \<Rightarrow> eav_state \<Rightarrow> transact_result res \<times> eav_state) \<Rightarrow> nat \<Rightarrow> chan_state
    \<Rightarrow> transact_result res \<times> chan_state" where
  "run_tx ce f projs s = (case f (tx_at ce s) (cs_eav s) of (r, e) \<Rightarrow>
     (r, s\<lparr>cs_eav := e, cs_tx := cs_tx s + 1, cs_ids := cs_ids s + 1 + projs\<rparr>))"

text \<open>A collision of transaction numbers is tried again, twice at most.\<close>

fun transact_retry ::
  "chan_env \<Rightarrow> transact_payload \<Rightarrow> saga_projection list \<Rightarrow> string \<Rightarrow> nat \<Rightarrow> chan_state \<Rightarrow> transact_result res \<times> chan_state" where
  "transact_retry ce p projs actor 0 s =
     run_tx ce (\<lambda>te. transact_with_projections te p projs (Some actor)) (length projs) s"
| "transact_retry ce p projs actor (Suc n) s =
    (case run_tx ce (\<lambda>te. transact_with_projections te p projs (Some actor)) (length projs) s of (r, s1) \<Rightarrow>
       if r = Inl EavTx004 then transact_retry ce p projs actor n s1 else (r, s1))"

section \<open>Sagas\<close>

definition saga_at :: "chan_env \<Rightarrow> chan_state \<Rightarrow> saga_env" where
  "saga_at ce s = \<lparr>sg_tx = tx_at ce s, sg_val = ce_val ce, sg_rfc3339 = ce_rfc3339 ce, sg_store = cs_store s\<rparr>"

definition build_at ::
  "chan_env \<Rightarrow> string \<Rightarrow> entity_model \<Rightarrow> json \<Rightarrow> string \<Rightarrow> string \<Rightarrow> chan_state \<Rightarrow> saga_projection list res \<times> chan_state" where
  "build_at ce tenant m payload parent actor s =
    (case build_saga_projections (saga_at ce s) (\<lambda>i. ce_ulid ce (cs_ids s + i)) tenant m payload parent actor
        (ev_cache (cs_eav s)) of
       (r, c) \<Rightarrow> (r, s\<lparr>cs_eav := (cs_eav s)\<lparr>ev_cache := c\<rparr>,
         cs_ids := cs_ids s + (case r of Inr ps \<Rightarrow> length ps | Inl _ \<Rightarrow> 0)\<rparr>))"

definition live_job :: "string \<Rightarrow> entity_map \<Rightarrow> live_saga_job" where
  "live_job i m = \<lparr>lj_job_id = i,
     lj_idempotency_hash = (case om_get m ''idempotency_hash'' of Some (DvStr h) \<Rightarrow> Some h | _ \<Rightarrow> None),
     lj_status = (case om_get m ''status'' of Some (DvStr t) \<Rightarrow> t | _ \<Rightarrow> [])\<rparr>"

fun pull_jobs :: "(string \<Rightarrow> eav_cache \<Rightarrow> entity_map \<times> eav_cache) \<Rightarrow> string list \<Rightarrow> eav_cache \<Rightarrow> live_saga_job list \<times> eav_cache" where
  "pull_jobs rd [] c = ([], c)"
| "pull_jobs rd (i # is) c = (case rd i c of (m, c1) \<Rightarrow> case pull_jobs rd is c1 of (js, c2) \<Rightarrow>
     (if om_entries m = [] then js else live_job i m # js, c2))"

text \<open>The jobs of a mother: those found by their reference to it that still have attributes.\<close>

definition list_saga_jobs :: "chan_env \<Rightarrow> string \<Rightarrow> string \<Rightarrow> chan_state \<Rightarrow> live_saga_job list \<times> chan_state" where
  "list_saga_jobs ce tenant parent s =
    (case execute_native_plan (query_at ce s) (\<lambda>_ _. []) (AvetSingle tenant ''parent_entity_ref'' (DvUuid parent) None)
        (ev_scans (cs_eav s)) of (ids, sc) \<Rightarrow>
     case pull_jobs (\<lambda>i. pull (te_ext (ce_tx ce)) (te_reg (ce_tx ce)) (ce_mono ce (cs_tx s)) tenant i
         (Some [''idempotency_hash'', ''status'']) (cs_store s)) ids (ev_cache (cs_eav s)) of (js, c) \<Rightarrow>
       (js, s\<lparr>cs_eav := (cs_eav s)\<lparr>ev_scans := sc, ev_cache := c\<rparr>\<rparr>))"

definition merge_delta :: "json \<Rightarrow> json \<Rightarrow> json" where
  "merge_delta old delta = (case (as_object old, as_object delta) of
      (Some a, Some b) \<Rightarrow> JObj (om_entries (fold (\<lambda>(k, v). if v = JNull then id else om_put k v) b (om_of_list a)))
    | _ \<Rightarrow> old)"

definition set_status :: "string \<Rightarrow> saga_projection \<Rightarrow> saga_projection" where
  "set_status t p = p\<lparr>sp_attrs := AList.update ''status'' (DvStr t) (sp_attrs p)\<rparr>"

definition plan_saga_reconciliation ::
  "chan_env \<Rightarrow> string \<Rightarrow> entity_model \<Rightarrow> json \<Rightarrow> string \<Rightarrow> string \<Rightarrow> chan_state \<Rightarrow> saga_reconciliation res \<times> chan_state" where
  "plan_saga_reconciliation ce tenant m delta eid actor s =
    (case pull (te_ext (ce_tx ce)) (te_reg (ce_tx ce)) (ce_mono ce (cs_tx s)) tenant eid None (cs_store s)
        (ev_cache (cs_eav s)) of (current, c) \<Rightarrow>
     let s1 = s\<lparr>cs_eav := (cs_eav s)\<lparr>ev_cache := c\<rparr>\<rparr>;
         merged = merge_delta (datom_map_to_json (te_ext (ce_tx ce)) (om_entries current)) delta;
         d = desired_job_status (Option.bind (json_get merged ''status'') as_str) in
     case build_at ce tenant m merged eid actor s1 of
       (Inl e, s2) \<Rightarrow> (Inl e, s2)
     | (Inr desired, s2) \<Rightarrow> (case list_saga_jobs ce tenant eid s2 of (live, s3) \<Rightarrow>
         (Inr (diff_sagas (map (set_status d) desired) live d), s3)))"

text \<open>Writes of jobs, one after the other, until one fails.\<close>

fun run_jobs ::
  "(string \<times> json \<Rightarrow> chan_state \<Rightarrow> (unit res \<times> chan_state) option) \<Rightarrow> (string \<times> json) list \<Rightarrow> chan_state
    \<Rightarrow> (unit res \<times> chan_state) option" where
  "run_jobs f [] s = Some (Inr (), s)"
| "run_jobs f (j # js) s = (case f j s of
      Some (Inr _, s1) \<Rightarrow> run_jobs f js s1 | r \<Rightarrow> r)"

definition delete_job :: "string \<Rightarrow> string \<times> json" where
  "delete_job i = (''DELETE'', JObj [(''id'', JStr i)])"

definition restatus_job :: "string \<times> string \<Rightarrow> string \<times> json" where
  "restatus_job it = (''UPDATE'', JObj [(''id'', JStr (fst it)), (''status'', JStr (snd it))])"

definition reconciliation_jobs :: "saga_reconciliation \<Rightarrow> (string \<times> json) list" where
  "reconciliation_jobs r = map restatus_job (sr_to_restatus r) @ map delete_job (sr_to_delete r)"

section \<open>A single write\<close>

definition plan_sagas ::
  "chan_env \<Rightarrow> (string \<times> json \<Rightarrow> chan_state \<Rightarrow> (unit res \<times> chan_state) option) \<Rightarrow> string \<Rightarrow> entity_model \<Rightarrow> transact_op
    \<Rightarrow> json \<Rightarrow> string \<Rightarrow> string \<Rightarrow> chan_state \<Rightarrow> ((saga_projection list \<times> saga_reconciliation option) res \<times> chan_state) option" where
  "plan_sagas ce job tenant m op payload eid actor s =
    (if em_shadow_sagas_mapping m = None then Some (Inr ([], None), s)
     else case op of
       OpCreate \<Rightarrow> (case build_at ce tenant m payload eid actor s of
           (Inl e, s1) \<Rightarrow> Some (Inl e, s1) | (Inr ps, s1) \<Rightarrow> Some (Inr (ps, None), s1))
     | OpUpdate \<Rightarrow> (case plan_saga_reconciliation ce tenant m payload eid actor s of
           (Inl e, s1) \<Rightarrow> Some (Inl e, s1) | (Inr r, s1) \<Rightarrow> Some (Inr (sr_to_create r, Some r), s1))
     | OpDelete \<Rightarrow> (case list_saga_jobs ce tenant eid s of (live, s1) \<Rightarrow>
         (case run_jobs job (map (\<lambda>j. delete_job (lj_job_id j)) live) s1 of
            None \<Rightarrow> None | Some (Inl e, s2) \<Rightarrow> Some (Inl e, s2) | Some (Inr _, s2) \<Rightarrow> Some (Inr ([], None), s2))))"

definition domain_event :: "iop_context \<Rightarrow> transact_op \<Rightarrow> json \<Rightarrow> transact_result \<Rightarrow> string \<times> json" where
  "domain_event ctx op payload r =
    (let new_tenant = (ic_entity_type ctx = ''tenant'' \<and> op = OpCreate);
         base = om_of_list [(''entity_id'', JStr (tr_entity_id r)), (''entity_type'', JStr (ic_entity_type ctx)),
           (''op'', JStr (ic_operation ctx)),
           (''tenant_id'', JStr (if new_tenant then tr_entity_id r else ic_tenant_id ctx))]
     in (if new_tenant then ''system.tenant.created'' else ic_entity_type ctx @ ''.'' @ to_lower (ic_operation ctx),
         JObj (om_entries (case as_object payload of
           Some kvs \<Rightarrow> fold (\<lambda>(k, v). om_put k v) kvs base | None \<Rightarrow> base))))"

definition write_response :: "iop_context \<Rightarrow> transact_result \<Rightarrow> json" where
  "write_response ctx r = JObj
    [(''channel'', JStr ''oltp''), (''datoms'', JInt (int (tr_datoms r))), (''entity_id'', JStr (tr_entity_id r)),
     (''entity_type'', JStr (ic_entity_type ctx)), (''outbox_count'', JInt (int (tr_outbox_count r))),
     (''tenant_id'', JStr (ic_tenant_id ctx)), (''tx_id'', JInt (int (unat (tr_tx_id r))))]"

definition flag :: "iop_context \<Rightarrow> string \<Rightarrow> bool \<Rightarrow> bool" where
  "flag ctx name d = unwrap_or (Option.bind (om_get (ic_request ctx) name) json_bool) d"

text \<open>The commit and what follows it: the event, the cached scan of the type, the reconciliation.\<close>

definition commit_single ::
  "chan_env \<Rightarrow> (string \<times> json \<Rightarrow> chan_state \<Rightarrow> (unit res \<times> chan_state) option) \<Rightarrow> iop_context \<Rightarrow> transact_op \<Rightarrow> json
    \<Rightarrow> transact_payload \<Rightarrow> saga_projection list \<Rightarrow> saga_reconciliation option \<Rightarrow> chan_state \<Rightarrow> (json res \<times> chan_state) option" where
  "commit_single ce job ctx op payload p projs recon s =
    (case transact_retry ce p projs (ic_user_id ctx) 2 s of
       (Inl e, s1) \<Rightarrow> Some (Inl e, s1)
     | (Inr r, s1) \<Rightarrow>
        (let s2 = s1\<lparr>cs_events := (if tp_suppress_events p then cs_events s1 else cs_events s1 @ [domain_event ctx op payload r]),
               cs_eav := invalidate_aevt_scan (ic_tenant_id ctx) (ic_entity_type ctx) (cs_eav s1)\<rparr> in
         case (case recon of None \<Rightarrow> Some (Inr (), s2) | Some rc \<Rightarrow> run_jobs job (reconciliation_jobs rc) s2) of
           None \<Rightarrow> None
         | Some (Inl e, s3) \<Rightarrow> Some (Inl e, s3)
         | Some (Inr _, s3) \<Rightarrow> Some (Inr (write_response ctx r), s3)))"

definition route_body ::
  "chan_env \<Rightarrow> (string \<times> json \<Rightarrow> chan_state \<Rightarrow> (unit res \<times> chan_state) option) \<Rightarrow> iop_context \<Rightarrow> entity_model
    \<Rightarrow> transact_op \<Rightarrow> chan_state \<Rightarrow> (json res \<times> chan_state) option" where
  "route_body ce job ctx m op s =
    (let payload = unwrap_or (om_get (ic_request ctx) ''payload'') (JObj []) in
     case (if op = OpDelete then (Inr [], s)
           else prepare_payload ce m (ic_tenant_id ctx) (op = OpCreate) False payload s) of
       (Inl e, s1) \<Rightarrow> Some (Inl e, s1)
     | (Inr attrs, s1) \<Rightarrow>
        (case resolve_entity_id ce m op payload s1 of
           (Inl e, s2) \<Rightarrow> Some (Inl e, s2)
         | (Inr eid, s2) \<Rightarrow>
            (case plan_sagas ce job (ic_tenant_id ctx) m op payload eid (ic_user_id ctx) s2 of
               None \<Rightarrow> None
             | Some (Inl e, s3) \<Rightarrow> Some (Inl e, s3)
             | Some (Inr (projs, recon), s3) \<Rightarrow>
                commit_single ce job ctx op payload
                  \<lparr>tp_tenant_id = ic_tenant_id ctx, tp_entity_id = Some eid, tp_entity_type = ic_entity_type ctx,
                   tp_attrs = attrs, tp_op = op, tp_suppress_events = flag ctx ''suppress_events'' False\<rparr>
                  projs recon s3)))"

definition job_context :: "string \<Rightarrow> string \<Rightarrow> string \<times> json \<Rightarrow> iop_context" where
  "job_context tenant actor j = context_new tenant actor ''scheduled_job'' (fst j) (om_put ''payload'' (snd j) om_empty)"

text \<open>The synthetic write of a scheduled job, given the channel it enters.\<close>

definition transact_scheduled_job ::
  "chan_env \<Rightarrow> (iop_context \<Rightarrow> entity_model \<Rightarrow> transact_op \<Rightarrow> chan_state \<Rightarrow> (json res \<times> chan_state) option)
    \<Rightarrow> string \<Rightarrow> string \<Rightarrow> string \<times> json \<Rightarrow> chan_state \<Rightarrow> (unit res \<times> chan_state) option" where
  "transact_scheduled_job ce route tenant actor j s =
    (case rbind (ok_or Jns001 (get_model (te_reg (ce_tx ce)) ''scheduled_job'')) (\<lambda>m.
          rbind (parse_op (fst j)) (\<lambda>op. Inr (m, op))) of
       Inl e \<Rightarrow> Some (Inl e, s)
     | Inr (m, op) \<Rightarrow> map_option (\<lambda>(r, s1). (rbind r (\<lambda>_. Inr ()), s1)) (route (job_context tenant actor j) m op s))"

fun route_single ::
  "nat \<Rightarrow> chan_env \<Rightarrow> iop_context \<Rightarrow> entity_model \<Rightarrow> transact_op \<Rightarrow> chan_state \<Rightarrow> (json res \<times> chan_state) option" where
  "route_single 0 ce ctx m op s = None"
| "route_single (Suc n) ce ctx m op s =
     route_body ce (transact_scheduled_job ce (route_single n ce) (ic_tenant_id ctx) (ic_user_id ctx)) ctx m op s"

section \<open>Bulk ingestion\<close>

definition bulk_row ::
  "chan_env \<Rightarrow> iop_context \<Rightarrow> entity_model \<Rightarrow> json \<Rightarrow> chan_state \<Rightarrow> transact_result res \<times> chan_state" where
  "bulk_row ce ctx m raw s =
    (case prepare_payload ce m (ic_tenant_id ctx) True True raw s of
       (Inl e, s1) \<Rightarrow> (Inl e, s1)
     | (Inr attrs, s1) \<Rightarrow>
        (case resolve_entity_id ce m OpCreate raw s1 of
           (Inl e, s2) \<Rightarrow> (Inl e, s2)
         | (Inr eid, s2) \<Rightarrow> run_tx ce (\<lambda>te. transact_bulk_deferred te
              \<lparr>tp_tenant_id = ic_tenant_id ctx, tp_entity_id = Some eid, tp_entity_type = ic_entity_type ctx,
               tp_attrs = attrs, tp_op = OpCreate, tp_suppress_events = flag ctx ''suppress_events'' True\<rparr>
              (Some (ic_user_id ctx))) 0 s2))"

text \<open>All rows of a chunk run, whatever becomes of the others; then their results are looked at in order.\<close>

fun run_rows :: "(json \<Rightarrow> chan_state \<Rightarrow> transact_result res \<times> chan_state) \<Rightarrow> json list \<Rightarrow> chan_state
    \<Rightarrow> transact_result res list \<times> chan_state" where
  "run_rows f [] s = ([], s)"
| "run_rows f (r # rs) s = (case f r s of (x, s1) \<Rightarrow> case run_rows f rs s1 of (xs, s2) \<Rightarrow> (x # xs, s2))"

fun count_results :: "transact_result res list \<Rightarrow> nat \<times> nat \<Rightarrow> (nat \<times> nat) res" where
  "count_results [] acc = Inr acc"
| "count_results (Inl e # rs) acc = Inl e"
| "count_results (Inr r # rs) (n, ob) = count_results rs (n + 1, ob + tr_outbox_count r)"

function chunks :: "nat \<Rightarrow> 'a list \<Rightarrow> 'a list list" where
  "chunks k xs = (if xs = [] then [] else take (Suc k) xs # chunks k (drop (Suc k) xs))"
  by auto
termination by (relation "measure (\<lambda>(k, xs). length xs)") auto

declare chunks.simps [simp del]

fun run_chunks ::
  "(json \<Rightarrow> chan_state \<Rightarrow> transact_result res \<times> chan_state) \<Rightarrow> json list list \<Rightarrow> nat \<times> nat \<Rightarrow> chan_state
    \<Rightarrow> (nat \<times> nat) res \<times> chan_state" where
  "run_chunks f [] acc s = (Inr acc, s)"
| "run_chunks f (ch # chs) acc s = (case run_rows f ch s of (rs, s1) \<Rightarrow>
     (case count_results rs acc of Inl e \<Rightarrow> (Inl e, s1) | Inr acc1 \<Rightarrow> run_chunks f chs acc1 s1))"

definition route_bulk :: "chan_env \<Rightarrow> iop_context \<Rightarrow> entity_model \<Rightarrow> chan_state \<Rightarrow> json res \<times> chan_state" where
  "route_bulk ce ctx m s =
    (let records = unwrap_or (Option.bind (om_get (ic_request ctx) ''data'') as_array) [] in
     case run_chunks (bulk_row ce ctx m) (chunks 99 records) (0, 0) s of
       (Inl e, s1) \<Rightarrow> (Inl e, s1)
     | (Inr (n, ob), s1) \<Rightarrow>
        (Inr (JObj [(''channel'', JStr ''oltp''), (''entity_type'', JStr (ic_entity_type ctx)),
            (''ingested_count'', JInt (int n)), (''outbox_count'', JInt (int ob)), (''tenant_id'', JStr (ic_tenant_id ctx))]),
         s1\<lparr>cs_eav := invalidate_aevt_scan (ic_tenant_id ctx) (ic_entity_type ctx) (cs_eav s1)\<rparr>))"

definition oltp_route :: "nat \<Rightarrow> chan_env \<Rightarrow> iop_context \<Rightarrow> chan_state \<Rightarrow> (json res \<times> chan_state) option" where
  "oltp_route fuel ce ctx s =
    (case rbind (ok_or Jns001 (get_model (te_reg (ce_tx ce)) (ic_entity_type ctx))) (\<lambda>m.
          rbind (parse_op (ic_operation ctx)) (\<lambda>op. Inr (m, op))) of
       Inl e \<Rightarrow> Some (Inl e, s)
     | Inr (m, op) \<Rightarrow> if om_mem ''data'' (ic_request ctx) then Some (route_bulk ce ctx m s)
         else route_single fuel ce ctx m op s)"

section \<open>The router\<close>

definition validate_entity_type :: "string \<Rightarrow> unit res" where
  "validate_entity_type entity_type = (if entity_type = [] then Inl JanusVal001 else Inr ())"

definition json_flag :: "json \<Rightarrow> string \<Rightarrow> bool" where
  "json_flag j name = unwrap_or (Option.bind (json_get j name) json_bool) False"

definition validate_and_check_locks :: "string \<Rightarrow> json \<Rightarrow> bool \<Rightarrow> unit res" where
  "validate_and_check_locks entity_type schema is_bulk =
     rbind (if is_bulk then Inr () else validate_entity_type entity_type) (\<lambda>_.
       if \<not> is_bulk \<and> json_flag schema ''write_path_locked'' then Inl JnsLock001
       else if json_flag schema ''is_system_seeded'' then Inl JnsSeed001 else Inr ())"

definition with_tenant :: "string \<Rightarrow> json \<Rightarrow> json" where
  "with_tenant tenant j = (case as_object j of
      Some kvs \<Rightarrow> JObj (om_entries (om_put ''tenant_id'' (JStr tenant) (om_of_list kvs))) | None \<Rightarrow> j)"

definition enrich_context_metadata :: "json \<Rightarrow> iop_context \<Rightarrow> iop_context" where
  "enrich_context_metadata schema ctx =
    (let r1 = (case om_get (ic_request ctx) ''payload'' of
            Some p \<Rightarrow> om_put ''payload'' (with_tenant (ic_tenant_id ctx) p) (ic_request ctx) | None \<Rightarrow> ic_request ctx);
         r2 = (case Option.bind (om_get r1 ''data'') as_array of
            Some rows \<Rightarrow> om_put ''data'' (JArr (map (with_tenant (ic_tenant_id ctx)) rows)) r1 | None \<Rightarrow> r1)
     in ctx\<lparr>ic_schema := Some schema, ic_request := r2\<rparr>)"

text \<open>The channels of the registry, of which there is one kind; it may be missing.\<close>

definition janus_route ::
  "chan_env \<Rightarrow> (iop_context \<Rightarrow> chan_state \<Rightarrow> (json res \<times> chan_state) option) option \<Rightarrow> iop_context \<Rightarrow> chan_state
    \<Rightarrow> (json res \<times> chan_state) option" where
  "janus_route ce channel ctx s =
    (case get_model (te_reg (ce_tx ce)) (ic_entity_type ctx) of
       None \<Rightarrow> Some (Inl Jns001, s)
     | Some m \<Rightarrow>
        (case validate_and_check_locks (ic_entity_type ctx) (ce_schema ce m) (om_mem ''data'' (ic_request ctx)) of
           Inl e \<Rightarrow> Some (Inl e, s)
         | Inr _ \<Rightarrow> (case channel of
             None \<Rightarrow> Some (Inl Jns001, s)
           | Some ch \<Rightarrow> ch (enrich_context_metadata (ce_schema ce m) ctx) s)))"

section \<open>Tenants\<close>

definition of_tenant :: "string \<Rightarrow> primary_key \<Rightarrow> bool" where
  "of_tenant t k \<longleftrightarrow> starts_with (''T#'' @ t @ ''#'') (fst k)"

definition untouched :: "string \<Rightarrow> partition_store \<Rightarrow> partition_store \<Rightarrow> bool" where
  "untouched t s s' \<longleftrightarrow> (\<forall>k. of_tenant t k \<longrightarrow> om_get (items s') k = om_get (items s) k)"

text \<open>Two tenants whose partitions cannot be confused.\<close>

definition apart :: "string \<Rightarrow> string \<Rightarrow> bool" where
  "apart t u \<longleftrightarrow> t \<noteq> u \<and> u \<noteq> ''GLOBAL'' \<and> CHR ''#'' \<notin> set t \<and> CHR ''#'' \<notin> set u"

lemma untouched_refl [simp]: "untouched t s s"
  by (simp add: untouched_def)

lemma untouched_trans: "untouched t s s' \<Longrightarrow> untouched t s' s'' \<Longrightarrow> untouched t s s''"
  by (simp add: untouched_def)

lemma starts_with_split: "starts_with p xs \<longleftrightarrow> (\<exists>r. xs = p @ r)"
  unfolding starts_with_def by (metis append_take_drop_id append_eq_conv_conj)

lemma not_of_tenant: "apart t u \<Longrightarrow> fst k = ''T#'' @ t @ ''#'' @ r \<Longrightarrow> \<not> of_tenant u k"
  using hash_split [of t u r] by (auto simp: of_tenant_def starts_with_split apart_def)

lemma sequence_not_of_tenant: "apart t u \<Longrightarrow> fst k = t @ CHR '':'' # r \<Longrightarrow> \<not> of_tenant u k"
  by (cases t; cases "tl t") (auto simp: of_tenant_def starts_with_split apart_def)

lemma tx_untouched:
  assumes "transact_inner te p opts st = (r, st')" "apart (tp_tenant_id p) u"
  shows "untouched u (ev_store st) (ev_store st')"
proof (cases r)
  case (Inl e)
  then show ?thesis using failed_store assms(1) by simp
next
  case (Inr res)
  obtain claims where
    st': "transact_store (map Some (build_write_items (te_ext te) (te_table te) (planned_datoms te p opts res (ev_store st))
       @ [tx_registry_item (tp_tenant_id p) (tr_tx_id res) p (tr_entity_id res) (to_actor opts) (te_table te)] @ claims))
       (ev_store st) = Inr (ev_store st')"
    and cl: "\<And>q. q \<in> set claims \<Longrightarrow> is_claim_of (tp_tenant_id p) q"
    and ds: "stamped (tp_tenant_id p) (tr_tx_id res) (planned_datoms te p opts res (ev_store st))"
    using transact_inner_ok [OF assms(1) [unfolded Inr]] by metis
  note own = not_of_tenant [OF assms(2)]
  have glob: "\<not> of_tenant u k" if "fst k = ''T#GLOBAL#'' @ x" for k x
    using that not_of_tenant [of "''GLOBAL''" u k x] assms(2) by (auto simp: apart_def)
  have "put_key q \<noteq> Some k" if k: "of_tenant u k" and q: "q \<in> set (build_write_items (te_ext te) (te_table te)
      (planned_datoms te p opts res (ev_store st))
       @ [tx_registry_item (tp_tenant_id p) (tr_tx_id res) p (tr_entity_id res) (to_actor opts) (te_table te)] @ claims)" for k q
  proof
    assume pk: "put_key q = Some k"
    have claim: "fst k \<noteq> claim_pk (tp_tenant_id p) scope entity h" for scope entity h
      using own [of k] glob [of k] k by (cases scope) (auto simp: claim_pk_def)
    have "q \<notin> set claims"
    proof
      assume "q \<in> set claims"
      from cl [OF this] obtain scope entity h where "put_key q = Some (claim_pk (tp_tenant_id p) scope entity h, str_bytes ''#CLAIM'')"
        unfolding is_claim_of_def by blast
      then show False using pk claim [of scope entity h] by simp
    qed
    then show False
      using q pk ds own [of k] k
      by (auto simp: build_write_items_def datom_key_def eavt_pk_def entity_pk_def stamped_def list_all_iff)
  qed
  then show ?thesis
    unfolding untouched_def transact_store_get(1) [OF st'] by (auto split: option.split dest: find_SomeD)
qed

lemma inject_untouched:
  assumes "apart t u"
  shows "untouched u s (fst (inject now draw m t payload scope s))"
proof -
  have code: "untouched u s (fst (next_code now c loc t ancestors segment s))" for c loc ancestors segment s
  proof -
    have cand: "\<exists>r. b = t @ CHR '':'' # r" if "b \<in> insert (build_sequence_code t (sc_name c) None) (set (candidate_codes c loc t ancestors))" for b
      using that by (auto simp: candidate_codes_def build_sequence_code_def split: option.splits if_splits)
    have "chosen_counter s c loc t ancestors \<in> insert (build_sequence_code t (sc_name c) None) (set (candidate_codes c loc t ancestors))"
      by (auto simp: chosen_counter_def unwrap_or_def split: option.split dest: find_SomeD)
    then obtain r where "chosen_counter s c loc t ancestors = t @ CHR '':'' # r" using cand by blast
    then have "\<not> of_tenant u (chosen_counter s c loc t ancestors, [])" using sequence_not_of_tenant [OF assms] by simp
    then show ?thesis by (auto simp: next_code_def sequence_increment_def Let_def untouched_def)
  qed
  have one: "untouched u s (fst (inject_one now draw f t scope g (s, payload)))" for f g s payload
    using code by (auto simp: inject_one_def Let_def case_prod_unfold split: auto_gen_strategy.split)
  have "untouched u s (fst (fold (inject_one now draw f t scope) gs (s, payload)))" for f gs s payload
  proof (induction gs arbitrary: s payload)
    case (Cons g gs)
    obtain s1 p1 where "inject_one now draw f t scope g (s, payload) = (s1, p1)" by fastforce
    then show ?case using Cons one [of s f g payload] untouched_trans by fastforce
  qed simp
  then show ?thesis by (simp add: inject_def)
qed

lemma complete_untouched: "apart t u \<Longrightarrow> complete_new ce m t j s = (j', s') \<Longrightarrow> untouched u (cs_store s) (cs_store s')"
  using inject_untouched [of t u]
  by (auto simp: complete_new_def Let_def split: option.splits prod.splits) (metis fst_conv)

lemma prepare_untouched:
  assumes "apart t u" "prepare_payload ce m t cr skip j s = (r, s')"
  shows "untouched u (cs_store s) (cs_store s')"
proof -
  define coerced where "coerced = coerce_payload (x_f64_parse (te_ext (ce_tx ce))) j m"
  obtain full s1 where c: "(if cr then complete_new ce m t coerced s else (coerced, s)) = (full, s1)" by fastforce
  have "untouched u (cs_store s) (cs_store s1)" using c complete_untouched [OF assms(1)] by (auto split: if_splits)
  moreover have "cs_store s' = cs_store s1"
    using assms(2) unfolding prepare_payload_def Let_def coerced_def [symmetric] c prod.case by (auto split: prod.splits)
  ultimately show ?thesis by simp
qed

lemma resolve_id_store: "resolve_entity_id ce m op j s = (r, s') \<Longrightarrow> cs_eav s' = cs_eav s"
  by (auto simp: resolve_entity_id_def draw_ulid_def split: transact_op.splits option.splits if_splits)

lemma run_tx_untouched:
  assumes "\<And>te st r st'. f te st = (r, st') \<Longrightarrow> untouched u (ev_store st) (ev_store st')" "run_tx ce f n s = (r, s')"
  shows "untouched u (cs_store s) (cs_store s')"
  using assms(2) assms(1) [of "tx_at ce s" "cs_eav s"] by (auto simp: run_tx_def split: prod.splits)

lemma retry_untouched:
  assumes "apart (tp_tenant_id p) u"
  shows "transact_retry ce p projs actor n s = (r, s') \<Longrightarrow> untouched u (cs_store s) (cs_store s')"
proof (induction n arbitrary: s r s')
  case 0
  then show ?case
    by (simp del: run_tx_def) (erule run_tx_untouched [rotated], simp add: transact_with_projections_def tx_untouched [OF _ assms])
next
  case (Suc n)
  obtain r1 s1 where one: "run_tx ce (\<lambda>te. transact_with_projections te p projs (Some actor)) (length projs) s = (r1, s1)" by fastforce
  have "untouched u (cs_store s) (cs_store s1)"
    using one by (rule run_tx_untouched [rotated]) (simp add: transact_with_projections_def tx_untouched [OF _ assms])
  then show ?case using Suc one by (auto split: if_splits intro: untouched_trans)
qed

lemma build_at_store: "build_at ce t m payload parent actor s = (r, s') \<Longrightarrow> cs_store s' = cs_store s"
  by (auto simp: build_at_def split: prod.splits)

lemma list_jobs_store: "list_saga_jobs ce t parent s = (r, s') \<Longrightarrow> cs_store s' = cs_store s"
  by (auto simp: list_saga_jobs_def split: prod.splits)

lemma plan_reconciliation_store: "plan_saga_reconciliation ce t m delta eid actor s = (r, s') \<Longrightarrow> cs_store s' = cs_store s"
  by (auto simp: plan_saga_reconciliation_def Let_def split: prod.splits sum.splits dest!: build_at_store list_jobs_store)

text \<open>A write of a job that leaves another tenant alone.\<close>

definition harmless :: "string \<Rightarrow> (string \<times> json \<Rightarrow> chan_state \<Rightarrow> (unit res \<times> chan_state) option) \<Rightarrow> bool" where
  "harmless u job \<longleftrightarrow> (\<forall>j s r s'. job j s = Some (r, s') \<longrightarrow> untouched u (cs_store s) (cs_store s'))"

lemma run_jobs_untouched:
  "harmless u job \<Longrightarrow> run_jobs job js s = Some (r, s') \<Longrightarrow> untouched u (cs_store s) (cs_store s')"
proof (induction js arbitrary: s)
  case (Cons j js)
  obtain r1 s1 where one: "job j s = Some (r1, s1)" using Cons.prems(2) by (auto split: option.splits)
  then have "untouched u (cs_store s) (cs_store s1)" using Cons.prems(1) unfolding harmless_def by blast
  then show ?case using Cons one by (cases r1) (auto intro: untouched_trans)
qed simp

lemma plan_sagas_untouched:
  assumes "harmless u job" "plan_sagas ce job t m op payload eid actor s = Some (r, s')"
  shows "untouched u (cs_store s) (cs_store s')"
proof (cases "em_shadow_sagas_mapping m")
  case (Some j)
  show ?thesis
  proof (cases op)
    case OpDelete
    obtain live s1 where l: "list_saga_jobs ce t eid s = (live, s1)" by fastforce
    then obtain r2 where "run_jobs job (map (\<lambda>j. delete_job (lj_job_id j)) live) s1 = Some (r2, s')"
      using assms(2) Some OpDelete by (auto simp: plan_sagas_def split: option.splits sum.splits)
    then show ?thesis using run_jobs_untouched [OF assms(1)] list_jobs_store [OF l] by fastforce
  qed (use assms(2) Some in \<open>auto simp: plan_sagas_def split: prod.splits sum.splits
      dest!: build_at_store plan_reconciliation_store\<close>)
qed (use assms(2) in \<open>simp add: plan_sagas_def\<close>)

lemma commit_untouched:
  assumes "harmless u job" "apart (tp_tenant_id p) u" "commit_single ce job ctx op payload p projs recon s = Some (r, s')"
  shows "untouched u (cs_store s) (cs_store s')"
proof -
  obtain r1 s1 where tx: "transact_retry ce p projs (ic_user_id ctx) 2 s = (r1, s1)" by fastforce
  note one = retry_untouched [OF assms(2) tx]
  show ?thesis
  proof (cases r1)
    case (Inl e)
    then show ?thesis using assms(3) tx one by (simp add: commit_single_def)
  next
    case (Inr res)
    define s2 where "s2 = s1\<lparr>cs_events := (if tp_suppress_events p then cs_events s1 else cs_events s1 @ [domain_event ctx op payload res]),
               cs_eav := invalidate_aevt_scan (ic_tenant_id ctx) (ic_entity_type ctx) (cs_eav s1)\<rparr>"
    have s2: "cs_store s2 = cs_store s1" by (simp add: s2_def invalidate_aevt_scan_def)
    have "(case (case recon of None \<Rightarrow> Some (Inr (), s2) | Some rc \<Rightarrow> run_jobs job (reconciliation_jobs rc) s2) of
           None \<Rightarrow> None
         | Some (Inl e, s3) \<Rightarrow> Some (Inl e, s3)
         | Some (Inr _, s3) \<Rightarrow> Some (Inr (write_response ctx res), s3)) = Some (r, s')"
      unfolding s2_def using assms(3) tx Inr by (simp add: commit_single_def Let_def)
    then have "s' = s2 \<or> (\<exists>rc q. run_jobs job (reconciliation_jobs rc) s2 = Some (q, s'))"
      by (cases recon) (auto split: option.splits sum.splits)
    then have "untouched u (cs_store s2) (cs_store s')" using run_jobs_untouched [OF assms(1)] by auto
    then show ?thesis using one s2 untouched_trans by simp
  qed
qed

lemma route_body_untouched:
  assumes "harmless u job" "apart (ic_tenant_id ctx) u" "route_body ce job ctx m op s = Some (r, s')"
  shows "untouched u (cs_store s) (cs_store s')"
proof -
  define payload where "payload = unwrap_or (om_get (ic_request ctx) ''payload'') (JObj [])"
  obtain a s1 where p: "(if op = OpDelete then (Inr [], s)
      else prepare_payload ce m (ic_tenant_id ctx) (op = OpCreate) False payload s) = (a, s1)" by fastforce
  have one: "untouched u (cs_store s) (cs_store s1)" using p prepare_untouched [OF assms(2)] by (auto split: if_splits)
  show ?thesis
  proof (cases a)
    case (Inl e)
    then show ?thesis using assms(3) p one by (simp add: route_body_def payload_def [symmetric] Let_def)
  next
    case attrs: (Inr attrs)
    obtain i s2 where i: "resolve_entity_id ce m op payload s1 = (i, s2)" by fastforce
    have two: "cs_store s2 = cs_store s1" using resolve_id_store [OF i] by simp
    show ?thesis
    proof (cases i)
      case (Inl e)
      then show ?thesis using assms(3) p one attrs i two by (simp add: route_body_def payload_def [symmetric] Let_def)
    next
      case (Inr eid)
      have rest: "(case plan_sagas ce job (ic_tenant_id ctx) m op payload eid (ic_user_id ctx) s2 of
               None \<Rightarrow> None
             | Some (Inl e, s3) \<Rightarrow> Some (Inl e, s3)
             | Some (Inr (projs, recon), s3) \<Rightarrow>
                commit_single ce job ctx op payload
                  \<lparr>tp_tenant_id = ic_tenant_id ctx, tp_entity_id = Some eid, tp_entity_type = ic_entity_type ctx,
                   tp_attrs = attrs, tp_op = op, tp_suppress_events = flag ctx ''suppress_events'' False\<rparr>
                  projs recon s3) = Some (r, s')"
        using assms(3) p attrs i Inr by (simp add: route_body_def payload_def [symmetric] Let_def)
      then obtain q s3 where q: "plan_sagas ce job (ic_tenant_id ctx) m op payload eid (ic_user_id ctx) s2 = Some (q, s3)"
        by (auto split: option.splits)
      note three = plan_sagas_untouched [OF assms(1) q]
      have "s' = s3 \<or> untouched u (cs_store s3) (cs_store s')"
      proof (cases q)
        case (Inr pr)
        then obtain projs recon where "pr = (projs, recon)" by fastforce
        then have "commit_single ce job ctx op payload
                  \<lparr>tp_tenant_id = ic_tenant_id ctx, tp_entity_id = Some eid, tp_entity_type = ic_entity_type ctx,
                   tp_attrs = attrs, tp_op = op, tp_suppress_events = flag ctx ''suppress_events'' False\<rparr>
                  projs recon s3 = Some (r, s')"
          using rest q Inr by simp
        from commit_untouched [OF assms(1) _ this] assms(2) show ?thesis by simp
      qed (use rest q in simp)
      then show ?thesis using one two three untouched_trans by metis
    qed
  qed
qed

lemma transact_job_harmless:
  assumes "\<And>ctx m op s r s'. ic_tenant_id ctx = t \<Longrightarrow> route ctx m op s = Some (r, s') \<Longrightarrow> untouched u (cs_store s) (cs_store s')"
  shows "harmless u (transact_scheduled_job ce route t actor)"
  unfolding harmless_def
proof (intro allI impI)
  fix j s r s' assume a: "transact_scheduled_job ce route t actor j s = Some (r, s')"
  have "s' = s \<or> (\<exists>m op q. route (job_context t actor j) m op s = Some (q, s'))"
    using a by (auto simp: transact_scheduled_job_def split: sum.splits)
  moreover have "ic_tenant_id (job_context t actor j) = t" by (simp add: job_context_def context_new_def)
  ultimately show "untouched u (cs_store s) (cs_store s')" using assms by auto
qed

lemma route_single_untouched:
  "apart (ic_tenant_id ctx) u \<Longrightarrow> route_single n ce ctx m op s = Some (r, s') \<Longrightarrow> untouched u (cs_store s) (cs_store s')"
proof (induction n arbitrary: ctx m op s r s')
  case (Suc n)
  have "harmless u (transact_scheduled_job ce (route_single n ce) (ic_tenant_id ctx) (ic_user_id ctx))"
  proof (rule transact_job_harmless)
    fix c m' op' s1 r1 s1'
    assume "ic_tenant_id c = ic_tenant_id ctx" "route_single n ce c m' op' s1 = Some (r1, s1')"
    then show "untouched u (cs_store s1) (cs_store s1')"
      using Suc.IH [of c m' op' s1 r1 s1'] Suc.prems(1) by simp
  qed
  then show ?case using route_body_untouched Suc.prems by simp
qed simp

lemma bulk_row_untouched:
  assumes "apart (ic_tenant_id ctx) u" "bulk_row ce ctx m raw s = (r, s')"
  shows "untouched u (cs_store s) (cs_store s')"
proof -
  obtain a s1 where p: "prepare_payload ce m (ic_tenant_id ctx) True True raw s = (a, s1)" by fastforce
  note one = prepare_untouched [OF assms(1) p]
  show ?thesis
  proof (cases a)
    case (Inr attrs)
    obtain i s2 where i: "resolve_entity_id ce m OpCreate raw s1 = (i, s2)" by fastforce
    have two: "cs_store s2 = cs_store s1" using resolve_id_store [OF i] by simp
    show ?thesis
    proof (cases i)
      case id: (Inr eid)
      let ?p = "\<lparr>tp_tenant_id = ic_tenant_id ctx, tp_entity_id = Some eid, tp_entity_type = ic_entity_type ctx,
               tp_attrs = attrs, tp_op = OpCreate, tp_suppress_events = flag ctx ''suppress_events'' True\<rparr>"
      have ap: "apart (tp_tenant_id ?p) u" using assms(1) by simp
      have "run_tx ce (\<lambda>te. transact_bulk_deferred te ?p (Some (ic_user_id ctx))) 0 s2 = (r, s')"
        using assms(2) p Inr i id by (simp add: bulk_row_def)
      then have "untouched u (cs_store s2) (cs_store s')"
        by (rule run_tx_untouched [rotated]) (use tx_untouched [OF _ ap] in \<open>auto simp: transact_bulk_deferred_def\<close>)
      then show ?thesis using one two untouched_trans by simp
    qed (use assms(2) p Inr i one two in \<open>simp add: bulk_row_def\<close>)
  qed (use assms(2) p one in \<open>simp add: bulk_row_def\<close>)
qed

lemma run_rows_untouched:
  assumes "\<And>raw s r s'. f raw s = (r, s') \<Longrightarrow> untouched u (cs_store s) (cs_store s')"
  shows "run_rows f rs s = (xs, s') \<Longrightarrow> untouched u (cs_store s) (cs_store s')"
proof (induction rs arbitrary: s xs)
  case (Cons r rs)
  obtain x s1 where one: "f r s = (x, s1)" by fastforce
  obtain ys where "run_rows f rs s1 = (ys, s')" using Cons.prems one by (auto split: prod.splits)
  then show ?case using Cons.IH assms [OF one] untouched_trans by blast
qed simp

lemma run_chunks_untouched:
  assumes "\<And>raw s r s'. f raw s = (r, s') \<Longrightarrow> untouched u (cs_store s) (cs_store s')"
  shows "run_chunks f chs acc s = (r, s') \<Longrightarrow> untouched u (cs_store s) (cs_store s')"
proof (induction chs arbitrary: acc s)
  case (Cons ch chs)
  obtain xs s1 where one: "run_rows f ch s = (xs, s1)" by fastforce
  have "untouched u (cs_store s) (cs_store s1)" using run_rows_untouched [OF assms one] .
  then show ?case using Cons one by (cases "count_results xs acc") (auto intro: untouched_trans)
qed simp

lemma route_bulk_untouched:
  assumes "apart (ic_tenant_id ctx) u" "route_bulk ce ctx m s = (r, s')"
  shows "untouched u (cs_store s) (cs_store s')"
proof -
  obtain q s1 where q: "run_chunks (bulk_row ce ctx m)
      (chunks 99 (unwrap_or (Option.bind (om_get (ic_request ctx) ''data'') as_array) [])) (0, 0) s = (q, s1)" by fastforce
  have "untouched u (cs_store s) (cs_store s1)"
    using run_chunks_untouched [OF bulk_row_untouched [OF assms(1)] q] .
  moreover have "cs_store s' = cs_store s1"
    using assms(2) q by (auto simp: route_bulk_def invalidate_aevt_scan_def split: sum.splits)
  ultimately show ?thesis by simp
qed

lemma oltp_route_untouched:
  assumes "apart (ic_tenant_id ctx) u" "oltp_route fuel ce ctx s = Some (r, s')"
  shows "untouched u (cs_store s) (cs_store s')"
  using assms(2) route_bulk_untouched [OF assms(1)] route_single_untouched [OF assms(1)]
  by (auto simp: oltp_route_def split: sum.splits if_splits)

text \<open>C4: Tenants are isolated. Whatever a write request contains, a single one or a bulk, with the jobs
  of its sagas, whether it succeeds or fails, no record in the partitions of another tenant changes;
  as long as neither tenant's name contains the separator of keys and the other is not called GLOBAL,
  the name under which global unique keys are claimed.\<close>

theorem writes_stay_in_tenant:
  assumes "janus_route ce (Some (oltp_route fuel ce)) ctx s = Some (r, s')" "apart (ic_tenant_id ctx) other"
  shows "untouched other (cs_store s) (cs_store s')"
proof -
  have "ic_tenant_id (enrich_context_metadata j ctx) = ic_tenant_id ctx" for j
    by (simp add: enrich_context_metadata_def Let_def)
  then have "untouched other (cs_store s) (cs_store s1)"
    if "oltp_route fuel ce (enrich_context_metadata j ctx) s = Some (q, s1)" for j q s1
    using oltp_route_untouched [OF _ that] assms(2) by simp
  then show ?thesis using assms(1) by (auto simp: janus_route_def split: option.splits sum.splits)
qed

section \<open>The depth of the calls\<close>

definition total_job :: "(string \<times> json \<Rightarrow> chan_state \<Rightarrow> (unit res \<times> chan_state) option) \<Rightarrow> bool" where
  "total_job job \<longleftrightarrow> (\<forall>j s. job j s \<noteq> None)"

lemma run_jobs_total: "total_job job \<Longrightarrow> run_jobs job js s \<noteq> None"
proof (induction js arbitrary: s)
  case (Cons j js)
  obtain r s1 where "job j s = Some (r, s1)" using Cons.prems unfolding total_job_def by (metis option.exhaust surj_pair)
  then show ?case using Cons by (cases r) auto
qed simp

lemma plan_sagas_total:
  assumes "total_job job"
  shows "plan_sagas ce job t m op payload eid actor s \<noteq> None"
proof -
  define g where "g = (\<lambda>js s. the (run_jobs job js s))"
  have "run_jobs job js s = Some (g js s)" for js s using run_jobs_total [OF assms, of js s] by (simp add: g_def)
  then show ?thesis by (auto simp: plan_sagas_def split: transact_op.splits prod.splits sum.splits)
qed

lemma commit_total:
  assumes "total_job job"
  shows "commit_single ce job ctx op payload p projs recon s \<noteq> None"
proof -
  define g where "g = (\<lambda>js s. the (run_jobs job js s))"
  have "run_jobs job js s = Some (g js s)" for js s using run_jobs_total [OF assms, of js s] by (simp add: g_def)
  then show ?thesis by (cases recon) (auto simp: commit_single_def Let_def split: prod.splits sum.splits)
qed

lemma route_body_total:
  assumes "total_job job"
  shows "route_body ce job ctx m op s \<noteq> None"
proof -
  define g where "g = (\<lambda>t m op payload eid actor s. the (plan_sagas ce job t m op payload eid actor s))"
  have "plan_sagas ce job t m op payload eid actor s = Some (g t m op payload eid actor s)" for t m op payload eid actor s
    using plan_sagas_total [OF assms, of ce t m op payload eid actor s] by (simp add: g_def)
  then show ?thesis
    using commit_total [OF assms] by (auto simp: route_body_def Let_def split: prod.splits sum.splits)
qed

text \<open>A model without sagas writes no job.\<close>

lemma plan_sagas_none: "em_shadow_sagas_mapping m = None \<Longrightarrow> plan_sagas ce job t m op payload eid actor s = Some (Inr ([], None), s)"
  by (simp add: plan_sagas_def)

lemma commit_plain: "commit_single ce job ctx op payload p projs None s = commit_single ce job' ctx op payload p projs None s"
  by (simp add: commit_single_def Let_def split: prod.split sum.split)

lemma commit_plain_total: "commit_single ce job ctx op payload p projs None s \<noteq> None"
  by (auto simp: commit_single_def Let_def split: prod.splits sum.splits)

lemma route_body_plain:
  assumes "em_shadow_sagas_mapping m = None"
  shows "route_body ce job ctx m op s = route_body ce job' ctx m op s" "route_body ce job ctx m op s \<noteq> None"
  using commit_plain_total [of ce job ctx]
  by (auto simp: route_body_def plan_sagas_none [OF assms] commit_plain [of ce job ctx _ _ _ _ _ job'] Let_def
      split: prod.splits sum.splits)

lemma job_route_fuel:
  assumes "\<And>jm. get_model (te_reg (ce_tx ce)) ''scheduled_job'' = Some jm \<Longrightarrow> em_shadow_sagas_mapping jm = None"
  shows "transact_scheduled_job ce (route_single (Suc n) ce) t actor = transact_scheduled_job ce (route_single 1 ce) t actor"
    and "total_job (transact_scheduled_job ce (route_single (Suc n) ce) t actor)"
proof -
  have same: "route_single (Suc n) ce ctx jm op s = route_single 1 ce ctx jm op s" "route_single (Suc n) ce ctx jm op s \<noteq> None"
    if "get_model (te_reg (ce_tx ce)) ''scheduled_job'' = Some jm" for ctx jm op s
  proof -
    note plain = route_body_plain [OF assms [OF that]]
    show "route_single (Suc n) ce ctx jm op s = route_single 1 ce ctx jm op s"
      unfolding One_nat_def route_single.simps by (rule plain(1))
    show "route_single (Suc n) ce ctx jm op s \<noteq> None" unfolding route_single.simps by (rule plain(2))
  qed
  show "transact_scheduled_job ce (route_single (Suc n) ce) t actor = transact_scheduled_job ce (route_single 1 ce) t actor"
  proof (intro ext)
    fix j s
    show "transact_scheduled_job ce (route_single (Suc n) ce) t actor j s = transact_scheduled_job ce (route_single 1 ce) t actor j s"
    proof (cases "get_model (te_reg (ce_tx ce)) ''scheduled_job''")
      case (Some jm)
      then show ?thesis using same(1) [OF Some] unfolding transact_scheduled_job_def by (simp split: sum.splits)
    qed (simp add: transact_scheduled_job_def)
  qed
  show "total_job (transact_scheduled_job ce (route_single (Suc n) ce) t actor)"
    unfolding total_job_def
  proof (intro allI)
    fix j s
    show "transact_scheduled_job ce (route_single (Suc n) ce) t actor j s \<noteq> None"
    proof (cases "get_model (te_reg (ce_tx ce)) ''scheduled_job''")
      case (Some jm)
      then show ?thesis using same(2) [OF Some] unfolding transact_scheduled_job_def
        by (auto simp del: route_single.simps split: sum.splits) blast
    qed (simp add: transact_scheduled_job_def)
  qed
qed

lemma janus_route_total:
  assumes "\<And>jm. get_model (te_reg (ce_tx ce)) ''scheduled_job'' = Some jm \<Longrightarrow> em_shadow_sagas_mapping jm = None"
  shows "janus_route ce (Some (oltp_route 2 ce)) ctx s \<noteq> None"
proof -
  have "route_single 2 ce c m op s1 \<noteq> None" for c m op s1
    unfolding numeral_2_eq_2 route_single.simps(2) [of "Suc 0"]
    using job_route_fuel(2) [OF assms, where n = 0] by (intro route_body_total) simp
  then have "oltp_route 2 ce c s1 \<noteq> None" for c s1 by (auto simp: oltp_route_def split: sum.splits)
  then show ?thesis by (auto simp: janus_route_def split: option.splits sum.splits)
qed

text \<open>C6: Every write returns. When the model of scheduled jobs declares no sagas of its own, a request
  enters the channel at most twice, one call inside the other: two levels give a result, for every
  request in every state, and any more give the same.\<close>

theorem write_terminates:
  assumes "\<And>jm. get_model (te_reg (ce_tx ce)) ''scheduled_job'' = Some jm \<Longrightarrow> em_shadow_sagas_mapping jm = None"
  shows "\<exists>res. \<forall>n\<ge>2. janus_route ce (Some (oltp_route n ce)) ctx s = Some res"
proof -
  have two: "route_single (Suc (Suc k)) ce c m op s1 = route_single 2 ce c m op s1" for k c m op s1
    unfolding numeral_2_eq_2 route_single.simps(2) [of "Suc k"] route_single.simps(2) [of "Suc 0"]
    using job_route_fuel(1) [OF assms, where n = k and t = "ic_tenant_id c" and actor = "ic_user_id c"] by simp
  have same: "oltp_route n ce = oltp_route 2 ce" if "n \<ge> 2" for n
  proof -
    obtain k where k: "n = Suc (Suc k)" using \<open>n \<ge> 2\<close> by (metis Suc_le_D numeral_2_eq_2 Suc_le_mono)
    show ?thesis unfolding k oltp_route_def two ..
  qed
  then show ?thesis using janus_route_total [OF assms, where ctx = ctx and s = s] by (metis option.exhaust)
qed

section \<open>Sagas\<close>

lemma set_status_fields [simp]:
  "projection_hash (set_status d p) = projection_hash p" "lj_status (created_job (set_status d p)) = d"
  by (simp_all add: projection_hash_def set_status_def created_job_def update_conv)


text \<open>A reminder with two notices, a job of an older version and one without a hash.\<close>

definition job_model :: entity_model where
  "job_model = model_default\<lparr>em_entity := ''scheduled_job'',
     em_attributes := [sample_attribute ''idempotency_hash'' AtString, sample_attribute ''status'' AtEnum]\<rparr>"

definition reminder_model :: entity_model where
  "reminder_model = model_default\<lparr>em_entity := ''reminder'',
     em_shadow_sagas_mapping := Some (JObj [(''trigger_source'', JStr ''at'')])\<rparr>"

definition job_registry :: registry where
  "job_registry = \<lparr>reg_entities = om_of_list
     [(''reminder'', \<lparr>re_model = reminder_model, re_fingerprint = [], re_cache_fingerprint = []\<rparr>),
      (''scheduled_job'', \<lparr>re_model = job_model, re_fingerprint = [], re_cache_fingerprint = []\<rparr>)],
     reg_attr_ids = sys_attr_ids\<rparr>"

definition sample_saga :: saga_env where
  "sample_saga = \<lparr>sg_tx = sample_te\<lparr>te_reg := job_registry\<rparr>, sg_val = sample_env, sg_rfc3339 = (\<lambda>_. Some 10000),
     sg_store = store_default\<rparr>"

definition sample_reminder :: json where
  "sample_reminder = JObj [(''at'', JStr ''2026-01-01T00:00:00Z''), (''prenotify_before_minutes'', JArr [JInt 30, JInt 5])]"

definition sample_live :: "live_saga_job list" where
  "sample_live = [\<lparr>lj_job_id = ''J1'', lj_idempotency_hash = Some ''old'', lj_status = ''COMPLETED''\<rparr>,
     \<lparr>lj_job_id = ''J2'', lj_idempotency_hash = None, lj_status = ''ACTIVE''\<rparr>]"

definition sample_projections :: "saga_projection list res \<times> eav_cache" where
  "sample_projections = build_saga_projections sample_saga (\<lambda>_. ''N'') ''acme'' reminder_model sample_reminder ''R1'' ''u'' om_empty"

lemma sample_projections_ok:
  "case sample_projections of (Inr ps, _) \<Rightarrow> length ps = 3
      \<and> sr_to_delete (diff_sagas (map (set_status ''ACTIVE'') ps) sample_live ''ACTIVE'') = [''J1''] | _ \<Rightarrow> False"
  by code_simp


text \<open>A finished job whose hash the mother no longer projects is deleted like any other.\<close>

lemma diff_deletes_orphans:
  assumes "j \<in> set live" "lj_idempotency_hash j = Some h" "h \<notin> set (List.map_filter projection_hash desired)"
  shows "lj_job_id j \<in> set (sr_to_delete (diff_sagas desired live d))"
proof -
  have "lj_job_id j \<in> set dels" if "diff_live d js P = (Q, dels, res)" "j \<in> set js" "h \<notin> P" for js P Q dels res
    using that
  proof (induction js arbitrary: P Q dels res)
    case (Cons k js)
    obtain R a b where r: "diff_live d js (case lj_idempotency_hash k of Some g \<Rightarrow> P - {g} | None \<Rightarrow> P) = (R, a, b)"
      using prod_cases3 by blast
    have "h \<notin> (case lj_idempotency_hash k of Some g \<Rightarrow> P - {g} | None \<Rightarrow> P)" using Cons.prems(3) by (simp split: option.split)
    then have "j \<in> set js \<Longrightarrow> lj_job_id j \<in> set a" using Cons.IH [OF r] by blast
    then show ?case using Cons.prems r assms(2) by (auto split: option.splits if_splits prod.splits)
  qed simp
  then show ?thesis using assms(1,3) by (auto simp: diff_sagas_def split: prod.splits)
qed

section \<open>Bulk errors\<close>

lemma count_results_error:
  "i < length rs \<Longrightarrow> rs ! i = Inl e \<Longrightarrow> \<forall>j<i. is_ok (rs ! j) \<Longrightarrow> count_results rs acc = Inl e"
proof (induction rs acc arbitrary: i rule: count_results.induct)
  case (2 e' rs acc)
  then show ?case by (cases i) (auto simp: is_ok_def)
next
  case (3 r rs n ob)
  then obtain k where k: "i = Suc k" by (cases i) auto
  then have "\<forall>j<k. is_ok (rs ! j)" using 3(4) by fastforce
  then show ?case using 3 k by simp
qed simp

lemma run_rows_length: "run_rows f rs s = (xs, s') \<Longrightarrow> length xs = length rs"
  by (induction rs arbitrary: s xs) (auto split: prod.splits)


lemma route_bulk_operation: "route_bulk ce (ctx\<lparr>ic_operation := op\<rparr>) m s = route_bulk ce ctx m s"
proof -
  have "flag (ctx\<lparr>ic_operation := op\<rparr>) = flag ctx" by (intro ext) (simp add: flag_def)
  then have "bulk_row ce (ctx\<lparr>ic_operation := op\<rparr>) m = bulk_row ce ctx m" 
    by (intro ext) (simp add: bulk_row_def split: prod.split sum.split)
  then show ?thesis by (simp add: route_bulk_def split: prod.split sum.split)
qed


section \<open>Examples\<close>

definition sample_channel :: "registry \<Rightarrow> chan_env" where
  "sample_channel reg = \<lparr>ce_tx = sample_te\<lparr>te_reg := reg\<rparr>, ce_now = (\<lambda>n. 1700000000000 + int n), ce_mono = (\<lambda>_. 0),
     ce_ulid = (\<lambda>n. ''N'' @ nat_str n), ce_draw = (\<lambda>_ _. []), ce_val = sample_env, ce_rfc3339 = (\<lambda>_. None),
     ce_master = ''tnt_master'', ce_scan_order = (\<lambda>ks. ks), ce_schema = (\<lambda>_. JObj [])\<rparr>"

definition idle_channel :: chan_state where
  "idle_channel = \<lparr>cs_eav = empty_state, cs_tx = 0, cs_ids = 0, cs_events = []\<rparr>"

definition sample_write :: "string \<Rightarrow> string \<Rightarrow> json \<Rightarrow> iop_context" where
  "sample_write entity_type op payload =
     context_new ''acme'' ''u'' entity_type op (om_put ''payload'' payload om_empty)"

theorem writes_stay_in_tenant_witness:
  "\<exists>r s'. janus_route (sample_channel note_registry) (Some (oltp_route 2 (sample_channel note_registry)))
      (sample_write ''note'' ''CREATE'' (JObj [(''title'', JStr ''hi'')])) idle_channel = Some (r, s')
    \<and> untouched ''beta'' store_default (cs_store s')"
proof -
  have "get_model (te_reg (ce_tx (sample_channel note_registry))) ''scheduled_job'' = None" by code_simp
  then obtain r s' where r: "janus_route (sample_channel note_registry) (Some (oltp_route 2 (sample_channel note_registry)))
      (sample_write ''note'' ''CREATE'' (JObj [(''title'', JStr ''hi'')])) idle_channel = Some (r, s')"
    using janus_route_total [of "sample_channel note_registry"] by fastforce
  moreover have "apart (ic_tenant_id (sample_write ''note'' ''CREATE'' (JObj [(''title'', JStr ''hi'')]))) ''beta''"
    by (simp add: apart_def sample_write_def context_new_def)
  ultimately show ?thesis using writes_stay_in_tenant [OF r] by (auto simp: idle_channel_def empty_state_def)
qed

theorem write_terminates_witness:
  "\<exists>res. \<forall>n\<ge>2. janus_route (sample_channel job_registry) (Some (oltp_route n (sample_channel job_registry)))
      (sample_write ''reminder'' ''DELETE'' (JObj [(''id'', JStr ''R1'')])) idle_channel = Some res"
proof (rule write_terminates)
  fix jm assume "get_model (te_reg (ce_tx (sample_channel job_registry))) ''scheduled_job'' = Some jm"
  moreover have "map_option em_shadow_sagas_mapping
      (get_model (te_reg (ce_tx (sample_channel job_registry))) ''scheduled_job'') = Some None" by code_simp
  ultimately show "em_shadow_sagas_mapping jm = None" by simp
qed

definition sample_bulk :: iop_context where
  "sample_bulk = context_new ''acme'' ''u'' ''note'' ''CREATE''
     (om_put ''data'' (JArr [JObj [(''id'', JStr ''X1'')], JObj [(''title'', JStr ''hi'')]]) om_empty)"

lemma sample_row_refused:
  "fst (bulk_row (sample_channel note_registry) sample_bulk note_model (JObj [(''id'', JStr ''X1'')]) idle_channel) = Inl JanusVal001"
proof -
  have "case fst (bulk_row (sample_channel note_registry) sample_bulk note_model (JObj [(''id'', JStr ''X1'')]) idle_channel) of
      Inl e \<Rightarrow> e = JanusVal001 | _ \<Rightarrow> False" by code_simp
  then show ?thesis by (simp split: sum.splits)
qed



end
