(* ===== verification/Spec2Isabelle.thy ===== *)
theory Spec2Isabelle
  imports MbfStoreCorrect QuotaService FormulaPrint MbfReplica MbfCommit FinLedger Fenwick CodiceValidator OltpChannel
begin

text \<open>This library verifies the core of metri-engine, a multi-tenant data engine written in Rust. Paths
  below are relative to the repository's directory \<^verbatim>\<open>src\<close>, in which the crate's sources are under
  \<^verbatim>\<open>src/\<close>.

  \<^bold>\<open>The program.\<close> Clients write entities and query them over gRPC. A write passes the pipeline
  (authorisation, quota, routing), is validated against a model of the registry, and is planned as a
  list of datoms: assertions and retractions of one attribute of one entity, all with the number of
  the transaction. The writer stores the datoms, a registry row and the claims of unique keys by one
  conditional transaction on the partition of the table, held in memory with four secondary indexes.
  Readers assemble an entity from its datoms or query the indexes, both behind caches. A partition is
  sealed in a binary file and replicated through S3: replicas synchronise before they read and flush
  after they write. Beside this path there are optimistic commits to the log of a cell, a counter
  of quotas with its reservations, a financial ledger, and an engine of formulas.

  \<^bold>\<open>Theories and sources.\<close>
  \<^item> Shared: \<^verbatim>\<open>Prelude\<close> (results, machine integers, folds that may fail, collections of hints),
    \<^verbatim>\<open>OrderedMap\<close> (\<^verbatim>\<open>BTreeMap\<close>, and \<^verbatim>\<open>HashMap\<close> where only look-ups and updates matter), \<^verbatim>\<open>Bytes\<close>,
    \<^verbatim>\<open>StrUtil\<close>, \<^verbatim>\<open>Float64\<close> (casts of doubles, which are their 64-bit patterns), \<^verbatim>\<open>Json\<close>,
    \<^verbatim>\<open>DomainErrors\<close> (\<^verbatim>\<open>src/domain/errors.rs\<close>), \<^verbatim>\<open>EngineConfig\<close> (\<^verbatim>\<open>src/domain/config.rs\<close>).
  \<^item> Storage, \<^verbatim>\<open>src/mbf/storage.rs\<close>: \<^verbatim>\<open>MbfValue\<close> (values, items, encodings), \<^verbatim>\<open>MbfSnapshot\<close>,
    \<^verbatim>\<open>MbfPartition\<close> (the store with its indexes), \<^verbatim>\<open>MbfOps\<close> (the operations of the client),
    \<^verbatim>\<open>MbfIndexes\<close> and \<^verbatim>\<open>MbfStoreCorrect\<close> (their correctness), \<^verbatim>\<open>MbfEnvelope\<close> (sealed files),
    \<^verbatim>\<open>MbfS3Store\<close> (S3 with the file cache), \<^verbatim>\<open>MbfReplica\<close> (synchronisation and flushes). The format of
    files is \<^verbatim>\<open>MbfFormat\<close> (\<^verbatim>\<open>src/mbf/format/mod.rs\<close>), the port of object stores and its in-memory
    implementation \<^verbatim>\<open>MbfObjects\<close> (\<^verbatim>\<open>src/mbf/mod.rs\<close>).
  \<^item> Commits of cells, \<^verbatim>\<open>src/mbf/tx/mod.rs\<close>: \<^verbatim>\<open>MbfHotHead\<close> (signatures and the log) and
    \<^verbatim>\<open>MbfCommit\<close> (the coordinator).
  \<^item> Financial ledger, \<^verbatim>\<open>src/mbf/zones/financial_ledger.rs\<close>: \<^verbatim>\<open>FixedDecimal\<close>, \<^verbatim>\<open>Fenwick\<close>, \<^verbatim>\<open>FinLedger\<close>.
  \<^item> Registry, \<^verbatim>\<open>src/codice\<close>: \<^verbatim>\<open>Codice\<close> (\<^verbatim>\<open>registry.rs\<close>), \<^verbatim>\<open>CodiceValidator\<close> (\<^verbatim>\<open>validator.rs\<close>,
    \<^verbatim>\<open>coercion.rs\<close>), \<^verbatim>\<open>CodiceSequence\<close> (\<^verbatim>\<open>sequence.rs\<close>, \<^verbatim>\<open>generator.rs\<close>, \<^verbatim>\<open>base36.rs\<close>).
  \<^item> Entities, \<^verbatim>\<open>src/eav\<close>: \<^verbatim>\<open>EavKeys\<close> (\<^verbatim>\<open>types\<close>), \<^verbatim>\<open>EavPlan\<close> (\<^verbatim>\<open>writer/datom_plan.rs\<close>,
    \<^verbatim>\<open>enricher.rs\<close>, \<^verbatim>\<open>history_mirror.rs\<close>, \<^verbatim>\<open>outbox.rs\<close>), \<^verbatim>\<open>EavConstraints\<close> (\<^verbatim>\<open>writer/constraints\<close>),
    \<^verbatim>\<open>EavWriter\<close> (\<^verbatim>\<open>transact.rs\<close>, \<^verbatim>\<open>cache_policy.rs\<close>), \<^verbatim>\<open>EavReader\<close> (\<^verbatim>\<open>reader/pull.rs\<close>),
    \<^verbatim>\<open>EavQuery\<close> (\<^verbatim>\<open>reader/query.rs\<close>); \<^verbatim>\<open>EavLog\<close>, \<^verbatim>\<open>EavCorrect\<close>, \<^verbatim>\<open>EavCommit\<close> and
    \<^verbatim>\<open>EavClaims\<close> (the owners of unique keys) hold their correctness.
  \<^item> Quotas: \<^verbatim>\<open>QuotaLedger\<close> (\<^verbatim>\<open>src/quota/ledger.rs\<close>), \<^verbatim>\<open>QuotaReservations\<close> (\<^verbatim>\<open>reservations.rs\<close>),
    \<^verbatim>\<open>QuotaService\<close> (\<^verbatim>\<open>src/grpc/quota_service.rs\<close>, \<^verbatim>\<open>src/quota/sweeper.rs\<close>), \<^verbatim>\<open>QuotaResolver\<close>
    (\<^verbatim>\<open>resolver.rs\<close>, \<^verbatim>\<open>projection.rs\<close>).
  \<^item> Pipeline: \<^verbatim>\<open>IopPipeline\<close> (\<^verbatim>\<open>src/iop/core.rs\<close>, \<^verbatim>\<open>pipeline.rs\<close>, \<^verbatim>\<open>quota_step.rs\<close>,
    \<^verbatim>\<open>janus_step.rs\<close>; the native rules of \<^verbatim>\<open>src/cedar/rules.rs\<close>).
  \<^item> Router of writes, \<^verbatim>\<open>src/janus_router\<close>: \<^verbatim>\<open>JanusSaga\<close> (\<^verbatim>\<open>saga.rs\<close>), \<^verbatim>\<open>OltpChannel\<close> (\<^verbatim>\<open>router.rs\<close>,
    \<^verbatim>\<open>oltp_channel.rs\<close>, \<^verbatim>\<open>ulid.rs\<close>).
  \<^item> Formulas, \<^verbatim>\<open>src/aegis/formula\<close>: \<^verbatim>\<open>FormulaLexer\<close>, \<^verbatim>\<open>FormulaRpn\<close>, \<^verbatim>\<open>FormulaCorrect\<close>, \<^verbatim>\<open>FormulaPrint\<close>.

  \<^bold>\<open>State and operations.\<close> A struct is a record, an enumeration a datatype, a method that changes its
  receiver a function that returns the new state. An operation that can fail returns
  \<^verbatim>\<open>error_code + 'a\<close>; the text of an error is dropped, its code and its branch are kept. A panic is the
  value \<^verbatim>\<open>None\<close> of an option. The writer's state is \<^verbatim>\<open>eav_state\<close>: the partition, the two read caches and
  the clock of transactions. Concurrency is modelled where the code meets it: the coordinators of a
  cell interleave as steps of a relation, and a replica's flush takes the writes of others between its
  attempts as an argument.

  \<^bold>\<open>Interfaces.\<close> The ordered maps, the object store, the quota counter, the reservation store and the
  fold over versions of an attribute are locales, interpreted on the model's own definitions; clients
  use the facts of the interpretations.

  \<^bold>\<open>What the theorems show.\<close> For the store: transactions are all or nothing, queries over an index are
  a scan of the primary tree, settlements apply once, snapshots restore the store. For files: round
  trips, and what the envelope does not authenticate. For replication: what a flush publishes and the
  writes and deletions it loses. For cells: under every interleaving the logs stay serialisable. For
  entities: a transaction is one simultaneous update of the values of attributes, what is written is
  read back, reads return the newest assertion, a unique key keeps one owner,
  a write request returns, touches no other tenant and brings the jobs of its sagas to what it
  declares. For the registry: validated payloads are well typed.
  For quotas: exact accounting of reservations on the orderly and on the late path, and its gaps; a
  quota is shown where it is counted, and a request that fails gives its debit back. For
  formulas: lexer, shunting yard and stack machine compute the value of the tree. For the ledger:
  exact issues, an unbroken chain and the closed period. Theorems whose statement is a defect of the
  code say so in their text.

  \<^bold>\<open>Parameters.\<close> Code of other crates and services is an argument of the definitions that use it: SHA-256,
  HMAC, xxh64 and the checksum, LZ4, the S3 client, clocks and drawn identifiers, the parser and the
  printer of doubles and of JSON texts, regular expressions, Base64, embeddings, the calendar, and the order in
  which hash containers list their keys. Hypotheses on them are named in the theorems: decompression
  inverts compression, S3 compares its own tags, a printed double is parsed back, the
  calendar is ordered and its format is read back.

  \<^bold>\<open>Bounds.\<close> The commit loop makes at most eight attempts, which are at most sixteen steps of the
  concurrent system. Lengths are assumed below 2 to the 63 where the code adds them as 64-bit numbers.
  Ledger amounts are 128-bit; the exactness of an issue is shown for costs up to 2 to the 48 and a
  stock below 2 to the 63. A formula has at most 512 tokens and the nesting the parser allows. Fuel
  bounds only the calls a write of a scheduled job makes into the channel, and two levels are shown to
  be enough; the other recursions are over the data. Integers cast to doubles are exact up to 53 bits.

  \<^bold>\<open>Not modelled.\<close> Input and output: the reading of model files, logging, tracing, the gRPC transport, the
  clients of S3, SQS and EventBridge. Search and analytics: trigrams, the hybrid index, synopses,
  fuzzy matching, time series, covariance and graph zones, which are floating-point kernels. The read
  path above the indexes: the query compiler, the planners and the executor of Aegis. Authorisation by
  Cedar policies (the native rules are modelled), which a third-party crate evaluates. The
  envelopes of scheduled jobs, the event rules and the calendar arithmetic. The manifest of the library gives the reason for each.\<close>

text \<open>C10: a restart loses nothing that is exported. The store rebuilt from the encoded snapshot of a
  store holds exactly its records (but for full-text rows and outbox events, which are never
  exported), its quota counters, its idempotency marks and its epoch, and its secondary indexes
  are exact whatever they were before.\<close>

theorem restart_restores_store:
  assumes "\<And>raw. decompress (compress raw) = Some raw"
    and "length (compress (snapshot_raw (to_wire_snapshot s))) < 2 ^ 63"
    and "snapshot_ok (to_wire_snapshot s)"
  shows "\<exists>snap t. snapshot_decode decompress (snapshot_encode compress (to_wire_snapshot s)) = Some (Inr snap)
    \<and> t = apply_wire_snapshot snap etag now store_default
    \<and> (\<forall>k. om_get (items t) k = (if exported_key s k then om_get (items s) k else None))
    \<and> quota_counters t = quota_counters s \<and> quota_idem t = quota_idem s
    \<and> epoch_id t = epoch_id s \<and> store_wf t"
  using snapshot_decode_encode [where compress = compress and decompress = decompress, OF assms]
    restore_from_snapshot [OF refl, where s = s and etag = etag and now = now] by auto

theorem restart_restores_store_witness:
  "\<exists>snap t. snapshot_decode Some (snapshot_encode id (to_wire_snapshot sample_store)) = Some (Inr snap)
    \<and> t = apply_wire_snapshot snap ''e'' 0 store_default
    \<and> om_get (items t) (''p'', [2]) = om_get (items sample_store) (''p'', [2])"
proof -
  have "snapshot_ok (to_wire_snapshot sample_store)"
    "length (id (snapshot_raw (to_wire_snapshot sample_store))) < 2 ^ 63"
    "exported_key sample_store (''p'', [2])"
    by code_simp+
  then show ?thesis
    using restart_restores_store [of Some id sample_store "''e''" 0] by auto
qed

end
